(* ===== verification/Prelude.thy ===== *)
theory Prelude
  imports Main "HOL-Library.Word" "HOL-Library.Char_ord" "HOL-Library.List_Lexorder"
    "HOL-Library.AList" "HOL-Library.Multiset"
begin

text \<open>
  Shared vocabulary of the development: the names the C++ sources give to their strings and
  integers, the ways a C++ call can end other than by returning a value, the two associative
  containers the sources use, and decimal printing.

  The standard library is modelled as far as the sources use it.  A \<open>std::map\<close> is an
  association list kept in ascending key order (its iteration order); strings are ordered as
  \<open>std::string\<close> orders them, lexicographically by unsigned byte.  A
  \<open>std::unordered_map\<close> is an association list without duplicate keys; its iteration order
  is unspecified in C++, so lemmas about it never rely on the position of an entry.
\<close>

section \<open>Names\<close>

type_synonym uuid = string
type_synonym swarm_id = string
type_synonym node_id = string
type_synonym u16 = "16 word"
type_synonym u32 = "32 word"
type_synonym u64 = "64 word"

named_theorems wf_intros "operations keep the well-formedness of their state"
named_theorems frame "what an operation leaves unchanged"

section \<open>How a call ends\<close>

text \<open>
  \<open>Throws\<close> is a C++ exception, which a \<open>CATCHALL\<close> block can catch; the exceptions of the code, of the
  standard library and of Boost are all derived from \<open>std::exception\<close>.  \<open>Assert_fails\<close> is a
  failed \<open>assert\<close> (the process aborts) and \<open>Undefined\<close> is undefined behaviour (a null
  or end iterator is dereferenced, an empty deque is popped); no handler sees those two.
\<close>

datatype cxx_fault = Throws string | Assert_fails | Undefined

type_synonym 'a cxx = "cxx_fault + 'a"

fun cbind :: "'a cxx \<Rightarrow> ('a \<Rightarrow> 'b cxx) \<Rightarrow> 'b cxx" where
  "cbind (Inl f) k = Inl f"
| "cbind (Inr a) k = k a"

lemma cbind_Inr_iff: "cbind m k = Inr b \<longleftrightarrow> (\<exists>a. m = Inr a \<and> k a = Inr b)"
  by (cases m) auto

lemma cbind_Inl_iff:
  "cbind m k = Inl f \<longleftrightarrow> m = Inl f \<or> (\<exists>a. m = Inr a \<and> k a = Inl f)"
  by (cases m) auto

lemma cbind_InrE:
  assumes "cbind m k = Inr b"
  obtains a where "m = Inr a" and "k a = Inr b"
  using assms by (auto simp: cbind_Inr_iff)

lemma cbind_cong [fundef_cong]:
  "m = m' \<Longrightarrow> (\<And>a. m' = Inr a \<Longrightarrow> k a = k' a) \<Longrightarrow> cbind m k = cbind m' k'"
  by (cases m') auto

text \<open>\<open>utils/peer_address.hpp\<close>: the address of a peer.\<close>

record peer_address =
  pa_host :: string
  pa_port :: u16
  pa_http_port :: u16
  pa_name :: string
  pa_uuid :: string

definition peer_address_eq :: "peer_address \<Rightarrow> peer_address \<Rightarrow> bool" where
  "peer_address_eq a b \<longleftrightarrow> pa_host a = pa_host b \<and> pa_port a = pa_port b
     \<and> pa_http_port a = pa_http_port b \<and> pa_uuid a = pa_uuid b"

text \<open>
  \<open>boost::system::error_code\<close>: the default value means success; the sources compare with
  the named values only.
\<close>

datatype error_code =
    No_error
  | Operation_in_progress
  | Operation_aborted
  | Eof
  | Ws_closed
  | Other_error string

definition is_err :: "error_code \<Rightarrow> bool" where
  "is_err ec \<longleftrightarrow> ec \<noteq> No_error"

lemma is_err_simps [simp]:
  "\<not> is_err No_error" "is_err Operation_in_progress" "is_err Operation_aborted"
  "is_err Eof" "is_err Ws_closed" "is_err (Other_error m)"
  by (simp_all add: is_err_def)

section \<open>Associative containers\<close>

text \<open>The interface of an associative container, and what every client of one uses.\<close>

locale std_container =
  fixes wf :: "('k \<times> 'v) list \<Rightarrow> bool"
    and put :: "'k \<Rightarrow> 'v \<Rightarrow> ('k \<times> 'v) list \<Rightarrow> ('k \<times> 'v) list"
    and erase :: "'k \<Rightarrow> ('k \<times> 'v) list \<Rightarrow> ('k \<times> 'v) list"
  assumes wf_Nil: "wf []"
    and wf_put: "wf m \<Longrightarrow> wf (put k v m)"
    and wf_erase: "wf m \<Longrightarrow> wf (erase k m)"
    and wf_distinct: "wf m \<Longrightarrow> distinct (map fst m)"
    and find_put: "map_of (put k v m) = (map_of m)(k \<mapsto> v)"
    and find_erase: "map_of (erase k m) = (map_of m)(k := None)"
begin

lemma size_eq_card: "wf m \<Longrightarrow> length m = card (dom (map_of m))"
  by (metis dom_map_of_conv_image_fst distinct_card length_map list.set_map wf_distinct)

lemma keys_put: "dom (map_of (put k v m)) = insert k (dom (map_of m))"
  by (auto simp: find_put)

lemma keys_erase: "dom (map_of (erase k m)) = dom (map_of m) - {k}"
  by (auto simp: find_erase)

lemma entry_iff: "wf m \<Longrightarrow> (k, v) \<in> set m \<longleftrightarrow> map_of m k = Some v"
  by (auto dest: wf_distinct)

lemma size_put:
  assumes "wf m"
  shows "length (put k v m) = (if k \<in> dom (map_of m) then length m else Suc (length m))"
  using assms by (simp add: size_eq_card wf_put keys_put finite_dom_map_of card_insert_if)

lemma size_put_mono: "wf m \<Longrightarrow> length m \<le> length (put k v m)"
  by (simp add: size_put)

lemma put_not_empty: "put k v m \<noteq> []"
  using find_put [of k v m] by (auto simp: fun_eq_iff split: if_splits)

end

text \<open>
  \<open>std::map\<close>: \<open>m[k] = v\<close>, \<open>m.erase(k)\<close>, \<open>m.find(k)\<close> (\<open>map_of\<close>) and iteration in key
  order.
\<close>

fun om_put :: "'k::linorder \<Rightarrow> 'v \<Rightarrow> ('k \<times> 'v) list \<Rightarrow> ('k \<times> 'v) list" where
  "om_put k v [] = [(k, v)]"
| "om_put k v (e # m) =
     (if fst e < k then e # om_put k v m
      else if fst e = k then (k, v) # m
      else (k, v) # e # m)"

definition om_erase :: "'k \<Rightarrow> ('k \<times> 'v) list \<Rightarrow> ('k \<times> 'v) list" where
  "om_erase k m = filter (\<lambda>e. fst e \<noteq> k) m"

definition om_wf :: "('k::linorder \<times> 'v) list \<Rightarrow> bool" where
  "om_wf m \<longleftrightarrow> sorted_wrt (<) (map fst m)"

lemma map_of_om_put: "map_of (om_put k v m) = (map_of m)(k \<mapsto> v)"
  by (induction m) auto

lemma set_om_put: "fst ` set (om_put k v m) = insert k (fst ` set m)"
  by (induction m) auto

lemma om_wf_put: "om_wf m \<Longrightarrow> om_wf (om_put k v m)"
  unfolding om_wf_def
proof (induction m)
  case (Cons e m)
  then show ?case
    using set_om_put [of k v m] by (auto simp: image_iff)
qed simp

lemma map_of_om_erase: "map_of (om_erase k m) = (map_of m)(k := None)"
  unfolding om_erase_def by (induction m) auto

lemma om_wf_erase: "om_wf m \<Longrightarrow> om_wf (om_erase k m)"
  unfolding om_wf_def om_erase_def by (induction m) auto

lemma om_erase_id: "k \<notin> fst ` set m \<Longrightarrow> om_erase k m = m"
  unfolding om_erase_def by (rule filter_True) auto

lemma mset_om_put: "om_wf m \<Longrightarrow> mset (om_put k v m) = add_mset (k, v) (mset (om_erase k m))"
proof (induction m)
  case (Cons e m)
  have later: "om_erase k m = m" if "\<not> fst e < k"
    using that Cons.prems by (intro om_erase_id) (auto simp: om_wf_def)
  show ?case
    using Cons later by (auto simp: om_wf_def om_erase_def)
qed (simp add: om_erase_def)

lemma mset_om_erase:
  "om_wf m \<Longrightarrow> map_of m k = Some v \<Longrightarrow> mset m = add_mset (k, v) (mset (om_erase k m))"
proof (induction m)
  case (Cons e m)
  show ?case
  proof (cases "fst e = k")
    case True
    then have "om_erase k m = m"
      using Cons.prems by (intro om_erase_id) (auto simp: om_wf_def)
    with True Cons.prems show ?thesis
      by (cases e) (auto simp: om_erase_def)
  next
    case False
    then show ?thesis using Cons by (cases e) (auto simp: om_wf_def om_erase_def)
  qed
qed simp

lemma om_erase_put [simp]: "om_erase k (om_put k v m) = om_erase k m"
  by (induction m) (auto simp: om_erase_def)

lemma om_wf_distinct: "om_wf m \<Longrightarrow> distinct (map fst m)"
  unfolding om_wf_def by (induction m) auto

interpretation om: std_container om_wf om_put om_erase
  by unfold_locales
    (simp_all add: om_wf_put om_wf_erase om_wf_distinct map_of_om_put map_of_om_erase
      om_wf_def [of "[]"])

lemmas om_simps [simp] = om.wf_Nil om.find_put om.find_erase
lemmas [wf_intros] = om.wf_Nil om.wf_put om.wf_erase

text \<open>
  \<open>std::unordered_map\<close>: \<open>HOL-Library.AList\<close>'s update and delete, on lists with distinct
  keys.
\<close>

definition um_wf :: "('k \<times> 'v) list \<Rightarrow> bool" where
  "um_wf m \<longleftrightarrow> distinct (map fst m)"

interpretation um: std_container um_wf AList.update AList.delete
proof
  show "map_of (AList.update k v m) = (map_of m)(k \<mapsto> v)" for k v and m :: "('k \<times> 'v) list"
    by (rule update_conv')
  show "map_of (AList.delete k m) = (map_of m)(k := None)" for k and m :: "('k \<times> 'v) list"
    by (rule delete_conv')
qed (auto simp: um_wf_def distinct_update distinct_delete)

lemmas um_simps [simp] = um.wf_Nil um.find_put um.find_erase
lemmas [wf_intros] = um.wf_Nil um.wf_put um.wf_erase

section \<open>Decimal printing\<close>

text \<open>\<open>std::to_string\<close> of an unsigned integer.\<close>

definition dec_digit :: "nat \<Rightarrow> char" where
  "dec_digit d = char_of (48 + d)"

fun to_string :: "nat \<Rightarrow> string" where
  "to_string n = (if n < 10 then [dec_digit n] else to_string (n div 10) @ [dec_digit (n mod 10)])"

declare to_string.simps [simp del]

fun dec_value :: "string \<Rightarrow> nat" where
  "dec_value s = foldl (\<lambda>v c. 10 * v + (of_char c - 48)) 0 s"

lemma of_char_dec_digit: "d < 10 \<Longrightarrow> of_char (dec_digit d) = 48 + d"
  by (simp add: dec_digit_def)

lemma dec_value_to_string: "dec_value (to_string n) = n"
proof (induction n rule: to_string.induct)
  case (1 n)
  then show ?case
    by (subst to_string.simps) (auto simp: of_char_dec_digit)
qed

lemma to_string_inj: "to_string m = to_string n \<Longrightarrow> m = n"
  by (metis dec_value_to_string)

lemma to_string_digits: "c \<in> set (to_string n) \<Longrightarrow> 48 \<le> (of_char c :: nat) \<and> of_char c \<le> (57 :: nat)"
proof (induction n rule: to_string.induct)
  case (1 n)
  show ?case
  proof (cases "n < 10")
    case True
    with "1.prems" show ?thesis
      by (subst (asm) to_string.simps) (simp add: of_char_dec_digit)
  next
    case False
    with "1.prems" have "c \<in> set (to_string (n div 10)) \<or> c = dec_digit (n mod 10)"
      by (subst (asm) to_string.simps) auto
    then show ?thesis
    proof
      assume "c \<in> set (to_string (n div 10))"
      with False show ?thesis by (rule "1.IH")
    next
      assume "c = dec_digit (n mod 10)"
      then show ?thesis by (simp add: of_char_dec_digit)
    qed
  qed
qed

lemma to_string_not_Nil: "to_string n \<noteq> []"
  by (subst to_string.simps) simp


section \<open>Reading numbers\<close>

text \<open>
  \<open>std::stoull\<close> in base 10: leading white space, an optional sign, at least one digit; the
  rest of the string is ignored.  \<open>None\<close> stands for \<open>invalid_argument\<close> and
  \<open>out_of_range\<close>.  A minus sign negates modulo \<open>2^64\<close>, as \<open>strtoull\<close> does.
\<close>

definition is_space :: "char \<Rightarrow> bool" where
  "is_space c \<longleftrightarrow> (let n = of_char c :: nat in n = 32 \<or> 9 \<le> n \<and> n \<le> 13)"

definition is_digit :: "char \<Rightarrow> bool" where
  "is_digit c \<longleftrightarrow> (let n = of_char c :: nat in 48 \<le> n \<and> n \<le> 57)"

definition read_digits :: "string \<Rightarrow> nat option" where
  "read_digits s =
     (let ds = takeWhile is_digit s
      in if ds = [] then None else if 2 ^ 64 \<le> dec_value ds then None else Some (dec_value ds))"

definition stoull :: "string \<Rightarrow> u64 option" where
  "stoull s =
     (case dropWhile is_space s of
        [] \<Rightarrow> None
      | c # cs \<Rightarrow>
          if c = CHR ''-'' then map_option (\<lambda>n. - of_nat n) (read_digits cs)
          else if c = CHR ''+'' then map_option of_nat (read_digits cs)
          else map_option of_nat (read_digits (c # cs)))"

lemma is_digit_to_string: "c \<in> set (to_string n) \<Longrightarrow> is_digit c"
  using to_string_digits by (auto simp: is_digit_def Let_def)

lemma digit_not_sign:
  "is_digit c \<Longrightarrow> \<not> is_space c" "is_digit c \<Longrightarrow> c \<noteq> CHR ''-''" "is_digit c \<Longrightarrow> c \<noteq> CHR ''+''"
  by (auto simp: is_digit_def is_space_def Let_def)

lemma read_digits_to_string: "n < 2 ^ 64 \<Longrightarrow> read_digits (to_string n) = Some n"
proof -
  assume n: "n < 2 ^ 64"
  have "takeWhile is_digit (to_string n) = to_string n"
    by (simp add: is_digit_to_string)
  with n show ?thesis
    by (simp only: read_digits_def Let_def dec_value_to_string) (simp add: to_string_not_Nil)
qed

lemma stoull_to_string: "stoull (to_string (unat (n :: u64))) = Some n"
proof -
  obtain c cs where c: "to_string (unat n) = c # cs"
    by (cases "to_string (unat n)") (auto simp: to_string_not_Nil)
  have "is_digit c" by (rule is_digit_to_string [of _ "unat n"]) (simp add: c)
  moreover have "unat n < 2 ^ 64" using unsigned_less [of n, where ?'a = nat] by simp
  ultimately show ?thesis
    using read_digits_to_string [of "unat n"] digit_not_sign [of c]
    by (simp add: stoull_def c)
qed

section \<open>Removing an element by position\<close>

definition remove_at :: "nat \<Rightarrow> 'a list \<Rightarrow> 'a list" where
  "remove_at k xs = take k xs @ drop (Suc k) xs"

lemma remove_at_split: "k < length xs \<Longrightarrow> xs = take k xs @ xs ! k # drop (Suc k) xs"
  by (rule id_take_nth_drop)

lemma filter_remove_at:
  assumes "k < length xs" "\<not> P (xs ! k)"
  shows "filter P (remove_at k xs) = filter P xs"
  by (subst (2) remove_at_split [OF assms(1)]) (simp add: remove_at_def assms(2))

lemma filter_remove_at_only:
  assumes "k < length xs" "P (xs ! k)" "filter P xs = [y]"
  shows "xs ! k = y" "filter P (remove_at k xs) = []"
proof -
  have "filter P (take k xs @ xs ! k # drop (Suc k) xs) = [y]"
    using assms(3) by (subst (asm) remove_at_split [OF assms(1)])
  then show "xs ! k = y" "filter P (remove_at k xs) = []"
    using assms(2) by (auto simp: remove_at_def append_eq_Cons_conv)
qed

lemma set_remove_at: "set (remove_at k xs) \<subseteq> set xs"
  using set_take_subset [of k xs] set_drop_subset [of "Suc k" xs] by (auto simp: remove_at_def)

end
