(* ===== verification/Messages.thy ===== *)
theory Messages
  imports Prelude
begin

text \<open>
  The data that crosses component boundaries: the constants and enumerations of
  \<open>include/bluzelle.hpp\<close> and \<open>swarm/swarm_base.hpp\<close>, the protobuf messages of \<open>proto/\<close>
  that the client reads or builds, and JSON values.

  Protobuf and jsoncpp are third-party code.  What the sources call in them is bundled in two
  records of functions, \<open>codec\<close> and \<open>jsoncpp\<close>, which every definition that uses them takes as an
  argument; a theorem that needs a documented law of one of them says so in a hypothesis.
\<close>

section \<open>Constants and enumerations\<close>

definition MAX_MESSAGE_SIZE :: nat where "MAX_MESSAGE_SIZE = 1024"

definition TIMESTAMP_ERROR_MSG :: string where "TIMESTAMP_ERROR_MSG = ''INVALID TIMESTAMP''"
definition TOO_LARGE_ERROR_MSG :: string where "TOO_LARGE_ERROR_MSG = ''REQUEST TOO LARGE''"
definition TOO_BUSY_ERROR_MSG :: string where "TOO_BUSY_ERROR_MSG = ''SERVER TOO BUSY''"
definition DUPLICATE_ERROR_MSG :: string where "DUPLICATE_ERROR_MSG = ''DUPLICATE REQUEST''"

lemmas error_msg_defs =
  TIMESTAMP_ERROR_MSG_def TOO_LARGE_ERROR_MSG_def TOO_BUSY_ERROR_MSG_def DUPLICATE_ERROR_MSG_def

lemma error_msgs_distinct [simp]:
  "distinct [TIMESTAMP_ERROR_MSG, TOO_LARGE_ERROR_MSG, TOO_BUSY_ERROR_MSG, DUPLICATE_ERROR_MSG]"
  "TOO_LARGE_ERROR_MSG \<noteq> TIMESTAMP_ERROR_MSG" "TOO_BUSY_ERROR_MSG \<noteq> TIMESTAMP_ERROR_MSG"
  "TOO_BUSY_ERROR_MSG \<noteq> TOO_LARGE_ERROR_MSG" "DUPLICATE_ERROR_MSG \<noteq> TIMESTAMP_ERROR_MSG"
  "DUPLICATE_ERROR_MSG \<noteq> TOO_LARGE_ERROR_MSG" "DUPLICATE_ERROR_MSG \<noteq> TOO_BUSY_ERROR_MSG"
  by (simp_all add: error_msg_defs)

datatype db_error =
    Success
  | Uninitialized
  | Connection_error
  | Database_error
  | Timeout_error
  | Already_exists
  | No_space
  | No_database

text \<open>\<open>static_cast<int>(err)\<close>\<close>

fun db_error_int :: "db_error \<Rightarrow> int" where
  "db_error_int Success = 0"
| "db_error_int Uninitialized = 1"
| "db_error_int Connection_error = 2"
| "db_error_int Database_error = 3"
| "db_error_int Timeout_error = 4"
| "db_error_int Already_exists = 5"
| "db_error_int No_space = 6"
| "db_error_int No_database = 7"

lemma db_error_int_inj: "db_error_int a = db_error_int b \<Longrightarrow> a = b"
  by (cases a; cases b) simp_all

lemma db_error_int_0 [simp]: "db_error_int a = 0 \<longleftrightarrow> a = Success"
  by (cases a) simp_all

text \<open>A scoped enumeration is ordered by its underlying integer.\<close>

instantiation db_error :: linorder
begin

definition less_eq_db_error :: "db_error \<Rightarrow> db_error \<Rightarrow> bool" where
  "less_eq_db_error a b \<longleftrightarrow> db_error_int a \<le> db_error_int b"

definition less_db_error :: "db_error \<Rightarrow> db_error \<Rightarrow> bool" where
  "less_db_error a b \<longleftrightarrow> db_error_int a < db_error_int b"

instance
  by standard (auto simp: less_eq_db_error_def less_db_error_def dest: db_error_int_inj)

end

datatype send_policy = Normal | Fastest | Broadcast

section \<open>Database messages\<close>

record database_header =
  hd_db_uuid :: uuid
  hd_nonce :: u64
  hd_point_of_contact :: string
  hd_request_hash :: string

definition empty_header :: database_header where
  "empty_header = \<lparr>hd_db_uuid = [], hd_nonce = 0, hd_point_of_contact = [], hd_request_hash = []\<rparr>"

datatype eviction_policy = Evict_none | Evict_random

text \<open>The \<open>oneof msg\<close> of \<open>database_msg\<close>; \<open>Req_not_set\<close> is the case where none is set.\<close>

datatype db_request =
    Req_not_set
  | Req_create string string u64
  | Req_read string
  | Req_update string string u64
  | Req_delete string
  | Req_has string
  | Req_keys
  | Req_size
  | Req_subscribe string
  | Req_unsubscribe string u64
  | Req_nullmsg
  | Req_create_db u64 eviction_policy
  | Req_delete_db
  | Req_update_db u64 eviction_policy
  | Req_has_db
  | Req_writers
  | Req_add_writers "string list"
  | Req_remove_writers "string list"
  | Req_quick_read string
  | Req_expire string u64
  | Req_persist string
  | Req_ttl string

record database_msg =
  dm_header :: database_header
  dm_request :: db_request

text \<open>The \<open>oneof response\<close> of \<open>database_response\<close>.\<close>

datatype db_reply =
    Rsp_not_set
  | Rsp_redirect string string string u32 u32
  | Rsp_subscription_update string string bool u64
  | Rsp_read string string
  | Rsp_quick_read string string string
  | Rsp_has string bool
  | Rsp_keys "string list"
  | Rsp_size u64 u32 u64 u64
  | Rsp_error string
  | Rsp_has_db uuid bool
  | Rsp_writers string "string list"
  | Rsp_ttl string u64

record database_response =
  dr_header :: database_header
  dr_reply :: db_reply

text \<open>\<open>response_case()\<close>: the field number of the member that is set.\<close>

fun response_case :: "db_reply \<Rightarrow> nat" where
  "response_case Rsp_not_set = 0"
| "response_case (Rsp_redirect _ _ _ _ _) = 2"
| "response_case (Rsp_subscription_update _ _ _ _) = 3"
| "response_case (Rsp_read _ _) = 4"
| "response_case (Rsp_quick_read _ _ _) = 5"
| "response_case (Rsp_has _ _) = 6"
| "response_case (Rsp_keys _) = 7"
| "response_case (Rsp_size _ _ _ _) = 8"
| "response_case (Rsp_error _) = 9"
| "response_case (Rsp_has_db _ _) = 10"
| "response_case (Rsp_writers _ _) = 11"
| "response_case (Rsp_ttl _ _) = 12"

text \<open>
  The getters of a \<open>oneof\<close>: the member if it is the one set, otherwise its default value.
\<close>

fun has_error :: "db_reply \<Rightarrow> bool" where
  "has_error (Rsp_error _) = True"
| "has_error _ = False"

fun get_error_message :: "db_reply \<Rightarrow> string" where
  "get_error_message (Rsp_error m) = m"
| "get_error_message _ = []"

fun has_quick_read :: "db_reply \<Rightarrow> bool" where
  "has_quick_read (Rsp_quick_read _ _ _) = True"
| "has_quick_read _ = False"

fun get_quick_read :: "db_reply \<Rightarrow> string \<times> string \<times> string" where
  "get_quick_read (Rsp_quick_read k v e) = (k, v, e)"
| "get_quick_read _ = ([], [], [])"

fun get_read :: "db_reply \<Rightarrow> string \<times> string" where
  "get_read (Rsp_read k v) = (k, v)"
| "get_read _ = ([], [])"

fun get_has :: "db_reply \<Rightarrow> string \<times> bool" where
  "get_has (Rsp_has k b) = (k, b)"
| "get_has _ = ([], False)"

fun get_keys :: "db_reply \<Rightarrow> string list" where
  "get_keys (Rsp_keys ks) = ks"
| "get_keys _ = []"

fun get_size :: "db_reply \<Rightarrow> u64 \<times> u32 \<times> u64 \<times> u64" where
  "get_size (Rsp_size b k r m) = (b, k, r, m)"
| "get_size _ = (0, 0, 0, 0)"

fun get_has_db :: "db_reply \<Rightarrow> uuid \<times> bool" where
  "get_has_db (Rsp_has_db u b) = (u, b)"
| "get_has_db _ = ([], False)"

fun get_writers :: "db_reply \<Rightarrow> string \<times> string list" where
  "get_writers (Rsp_writers ow ws) = (ow, ws)"
| "get_writers _ = ([], [])"

fun get_ttl :: "db_reply \<Rightarrow> string \<times> u64" where
  "get_ttl (Rsp_ttl k t) = (k, t)"
| "get_ttl _ = ([], 0)"

lemma has_error_conv: "has_error r \<longleftrightarrow> (\<exists>m. r = Rsp_error m)"
  by (cases r) simp_all

lemma has_quick_read_conv: "has_quick_read r \<longleftrightarrow> (\<exists>k v e. r = Rsp_quick_read k v e)"
  by (cases r) simp_all

section \<open>Envelopes, errors and status\<close>

text \<open>
  The \<open>oneof payload\<close> of \<open>bzn_envelope\<close>; every member is a byte string.  The repeated field
  \<open>piggybacked_requests\<close> is never read or written by the client and is left out.
\<close>

datatype payload =
    Payload_not_set
  | P_database_msg string
  | P_pbft_internal_request string
  | P_database_response string
  | P_json string
  | P_audit string
  | P_pbft string
  | P_pbft_membership string
  | P_status_request string
  | P_status_response string
  | P_checkpoint_msg string
  | P_swarm_error string

fun payload_case :: "payload \<Rightarrow> nat" where
  "payload_case Payload_not_set = 0"
| "payload_case (P_database_msg _) = 10"
| "payload_case (P_pbft_internal_request _) = 11"
| "payload_case (P_database_response _) = 12"
| "payload_case (P_json _) = 13"
| "payload_case (P_audit _) = 14"
| "payload_case (P_pbft _) = 15"
| "payload_case (P_pbft_membership _) = 16"
| "payload_case (P_status_request _) = 17"
| "payload_case (P_status_response _) = 18"
| "payload_case (P_checkpoint_msg _) = 19"
| "payload_case (P_swarm_error _) = 20"

fun get_database_msg :: "payload \<Rightarrow> string" where
  "get_database_msg (P_database_msg s) = s"
| "get_database_msg _ = []"

fun get_database_response :: "payload \<Rightarrow> string" where
  "get_database_response (P_database_response s) = s"
| "get_database_response _ = []"

fun get_status_response :: "payload \<Rightarrow> string" where
  "get_status_response (P_status_response s) = s"
| "get_status_response _ = []"

fun get_swarm_error :: "payload \<Rightarrow> string" where
  "get_swarm_error (P_swarm_error s) = s"
| "get_swarm_error _ = []"

record envelope =
  env_swarm_id :: swarm_id
  env_sender :: string
  env_signature :: string
  env_timestamp :: u64
  env_payload :: payload

definition empty_envelope :: envelope where
  "empty_envelope = \<lparr>env_swarm_id = [], env_sender = [], env_signature = [], env_timestamp = 0,
     env_payload = Payload_not_set\<rparr>"

record swarm_error =
  se_message :: string
  se_data :: string

record status_response =
  sr_swarm_version :: string
  sr_swarm_git_commit :: string
  sr_swarm_id :: string
  sr_uptime :: string
  sr_module_status_json :: string
  sr_pbft_enabled :: bool

section \<open>Protobuf\<close>

text \<open>
  \<open>SerializeAsString\<close> and \<open>ParseFromString\<close> of the message types the client uses; a parse
  that returns false is \<open>None\<close>.
\<close>

record codec =
  ser_msg :: "database_msg \<Rightarrow> string"
  par_msg :: "string \<Rightarrow> database_msg option"
  ser_response :: "database_response \<Rightarrow> string"
  par_response :: "string \<Rightarrow> database_response option"
  par_error :: "string \<Rightarrow> swarm_error option"
  ser_status_request :: string
  par_status :: "string \<Rightarrow> status_response option"
  ser_envelope :: "envelope \<Rightarrow> string"
  par_envelope :: "string \<Rightarrow> envelope option"

text \<open>The documented law of serialization: what was serialized parses back.\<close>

definition msg_roundtrip :: "codec \<Rightarrow> bool" where
  "msg_roundtrip cd \<longleftrightarrow> (\<forall>m. par_msg cd (ser_msg cd m) = Some m)"

lemma msg_roundtripD [simp]: "msg_roundtrip cd \<Longrightarrow> par_msg cd (ser_msg cd m) = Some m"
  by (simp add: msg_roundtrip_def)

section \<open>JSON values\<close>

datatype json =
    JNull
  | JInt int
  | JUInt nat
  | JBool bool
  | JString string
  | JArray "json list"
  | JObject "(string \<times> json) list"

text \<open>\<open>value[key] = v\<close> on a null value or an object, the only ones the sources build on.\<close>

fun jset :: "string \<Rightarrow> json \<Rightarrow> json \<Rightarrow> json" where
  "jset k v (JObject m) = JObject (om_put k v m)"
| "jset k v _ = JObject [(k, v)]"

text \<open>\<open>value.append(v)\<close> on a null value or an array.\<close>

fun jappend :: "json \<Rightarrow> json \<Rightarrow> json" where
  "jappend v (JArray vs) = JArray (vs @ [v])"
| "jappend v _ = JArray [v]"

text \<open>The member of an object, for stating what a built value holds.\<close>

fun jfield :: "string \<Rightarrow> json \<Rightarrow> json option" where
  "jfield k (JObject m) = map_of m k"
| "jfield k _ = None"

lemma jfield_jset [simp]:
  "jfield k (jset k' v j) = (if k = k' then Some v else jfield k j)"
  by (cases j) auto

lemma fold_jappend: "fold jappend vs (JArray us) = JArray (us @ vs)"
  by (induction vs arbitrary: us) auto

lemma fold_jappend_JNull: "fold jappend vs JNull = (if vs = [] then JNull else JArray vs)"
  by (cases vs) (auto simp: fold_jappend)

text \<open>
  What the sources call in jsoncpp: reading text (\<open>None\<close> when the reader reports an error),
  writing text, member and element access, iteration, and the conversions, which throw on a
  value they cannot convert.
\<close>

record jsoncpp =
  js_parse :: "string \<Rightarrow> json option"
  js_styled :: "json \<Rightarrow> string"
  js_member :: "json \<Rightarrow> string \<Rightarrow> json cxx"
  js_index :: "json \<Rightarrow> nat \<Rightarrow> json cxx"
  js_elements :: "json \<Rightarrow> json list"
  js_as_string :: "json \<Rightarrow> string cxx"
  js_as_uint :: "json \<Rightarrow> u32 cxx"
  js_as_int :: "json \<Rightarrow> int cxx"

section \<open>A codec for evaluating the model\<close>

definition sample_status :: "string \<Rightarrow> status_response" where
  "sample_status text = \<lparr>sr_swarm_version = ''1'', sr_swarm_git_commit = ''c'', sr_swarm_id = ''s'',
     sr_uptime = ''2'', sr_module_status_json = text, sr_pbft_enabled = True\<rparr>"

text \<open>
  Envelopes: the text \<open>status:t\<close> is an unsigned status response of no named sender whose module
  status is \<open>t\<close>.  Responses: the text \<open>s\<close> is a response that reads the value \<open>s\<close>, to request 1.
\<close>

definition sample_response :: "string \<Rightarrow> database_response" where
  "sample_response s = \<lparr>dr_header = empty_header\<lparr>hd_nonce := 1\<rparr>, dr_reply = Rsp_read ''k'' s\<rparr>"

definition sample_cd :: codec where
  "sample_cd = \<lparr>ser_msg = (\<lambda>m. []), par_msg = (\<lambda>s. None),
     ser_response = (\<lambda>r. snd (get_read (dr_reply r))), par_response = (\<lambda>s. Some (sample_response s)),
     par_error = (\<lambda>s. None), ser_status_request = ''status'', par_status = (\<lambda>s. Some (sample_status s)),
     ser_envelope = (\<lambda>e. ''envelope''),
     par_envelope = (\<lambda>s. if take 7 s = ''status:''
        then Some (empty_envelope\<lparr>env_payload := P_status_response (drop 7 s)\<rparr>) else None)\<rparr>"

lemma sample_cd_sel [simp]:
  "par_response sample_cd s = Some (sample_response s)"
  "ser_response sample_cd r = snd (get_read (dr_reply r))"
  "par_status sample_cd s = Some (sample_status s)"
  "par_error sample_cd s = None" "par_msg sample_cd s = None" "ser_msg sample_cd m = []"
  by (simp_all add: sample_cd_def)

end
