(* ===== verification/Effects.thy ===== *)
theory Effects
  imports Prelude
begin

text \<open>
  How a C++ member function with side effects is written: a \<open>prog\<close> takes the state and ends
  with a value or a fault, and with the state reached either way.  An exception does not undo
  what was assigned before it was thrown, so the state is returned on every path.

  \<open>keeps I m\<close> says that the program keeps the invariant, on normal and exceptional ends
  alike; its rules are collected in \<open>keeps_intros\<close>.
\<close>

section \<open>Programs\<close>

type_synonym ('s, 'a) prog = "'s \<Rightarrow> 'a cxx \<times> 's"

definition ret :: "'a \<Rightarrow> ('s, 'a) prog" where
  "ret a = (\<lambda>s. (Inr a, s))"

definition raise :: "cxx_fault \<Rightarrow> ('s, 'a) prog" where
  "raise f = (\<lambda>s. (Inl f, s))"

definition lift_cxx :: "'a cxx \<Rightarrow> ('s, 'a) prog" where
  "lift_cxx c = (\<lambda>s. (c, s))"

definition gets :: "('s \<Rightarrow> 'a) \<Rightarrow> ('s, 'a) prog" where
  "gets f = (\<lambda>s. (Inr (f s), s))"

definition modify :: "('s \<Rightarrow> 's) \<Rightarrow> ('s, unit) prog" where
  "modify f = (\<lambda>s. (Inr (), f s))"

definition sbind :: "('s, 'a) prog \<Rightarrow> ('a \<Rightarrow> ('s, 'b) prog) \<Rightarrow> ('s, 'b) prog" where
  "sbind m k = (\<lambda>s. case m s of (Inl f, s') \<Rightarrow> (Inl f, s') | (Inr a, s') \<Rightarrow> k a s')"

definition andthen :: "('s, unit) prog \<Rightarrow> ('s, 'b) prog \<Rightarrow> ('s, 'b) prog" where
  "andthen m k = sbind m (\<lambda>_. k)"

text \<open>\<open>CATCHALL\<close>: the handler runs on an exception; aborts and undefined behaviour pass it by.\<close>

definition catch_all :: "('s, 'a) prog \<Rightarrow> ('s, 'a) prog \<Rightarrow> ('s, 'a) prog" where
  "catch_all m h = (\<lambda>s. case m s of (Inl (Throws e), s') \<Rightarrow> h s' | r \<Rightarrow> r)"

text \<open>A range-based \<open>for\<close> loop.\<close>

fun for_each :: "'a list \<Rightarrow> ('a \<Rightarrow> ('s, unit) prog) \<Rightarrow> ('s, unit) prog" where
  "for_each [] body = ret ()"
| "for_each (x # xs) body = andthen (body x) (for_each xs body)"

text \<open>Running a program on one half of a paired state.\<close>

definition on_fst :: "('s, 'a) prog \<Rightarrow> ('s \<times> 't, 'a) prog" where
  "on_fst m = (\<lambda>(s, t). case m s of (r, s') \<Rightarrow> (r, (s', t)))"

definition on_snd :: "('t, 'a) prog \<Rightarrow> ('s \<times> 't, 'a) prog" where
  "on_snd m = (\<lambda>(s, t). case m t of (r, t') \<Rightarrow> (r, (s, t')))"

lemma prog_simps [simp]:
  "ret a s = (Inr a, s)"
  "raise f s = (Inl f, s)"
  "lift_cxx c s = (c, s)"
  "gets g s = (Inr (g s), s)"
  "modify h s = (Inr (), h s)"
  by (simp_all add: ret_def raise_def lift_cxx_def gets_def modify_def)

lemma sbind_apply:
  "sbind m k s = (case m s of (Inl f, s') \<Rightarrow> (Inl f, s') | (Inr a, s') \<Rightarrow> k a s')"
  by (simp add: sbind_def)

lemma andthen_apply:
  "andthen m k s = (case m s of (Inl f, s') \<Rightarrow> (Inl f, s') | (Inr _, s') \<Rightarrow> k s')"
  by (simp add: andthen_def sbind_def)

lemma sbind_simps [simp]:
  "sbind (ret a) k = k a"
  "sbind (raise f) k = raise f"
  "sbind (gets g) k s = k (g s) s"
  "sbind (modify h) l s = l () (h s)"
  "sbind (lift_cxx (Inr a)) k = k a"
  "sbind (lift_cxx (Inl f)) k = raise f"
  "andthen (ret u) m = m"
  "andthen (raise f) m = raise f"
  "andthen (modify h) m s = m (h s)"
  by (simp_all add: sbind_def andthen_def fun_eq_iff)

lemma sbind_assoc: "sbind (sbind m k) l = sbind m (\<lambda>a. sbind (k a) l)"
  by (auto simp: sbind_def fun_eq_iff split: prod.splits sum.splits)

lemma zoom_apply [simp]:
  "on_fst m (s, t) = (case m s of (r, s') \<Rightarrow> (r, (s', t)))"
  "on_snd n (s, t) = (case n t of (r, t') \<Rightarrow> (r, (s, t')))"
  by (simp_all add: on_fst_def on_snd_def)

lemma zoom_bind_simps [simp]:
  "sbind (on_fst (gets g)) k (s, t) = k (g s) (s, t)"
  "sbind (on_snd (gets g')) k (s, t) = k (g' t) (s, t)"
  "andthen (on_fst (modify h)) m (s, t) = m (h s, t)"
  "andthen (on_snd (modify h')) m (s, t) = m (s, h' t)"
  "sbind (on_fst (modify h)) l (s, t) = l () (h s, t)"
  "sbind (on_snd (modify h')) l (s, t) = l () (s, h' t)"
  by (simp_all add: sbind_def andthen_def)

lemma sbind_cases:
  assumes "sbind m k s = (r, s')"
  obtains (fault) f where "m s = (Inl f, s')" "r = Inl f"
    | (returns) a s1 where "m s = (Inr a, s1)" "k a s1 = (r, s')"
  using assms by (auto simp: sbind_def split: prod.splits sum.splits)

lemma andthen_cases:
  assumes "andthen m k s = (r, s')"
  obtains (fault) f where "m s = (Inl f, s')" "r = Inl f"
    | (returns) u s1 where "m s = (Inr u, s1)" "k s1 = (r, s')"
  using assms unfolding andthen_def by (elim sbind_cases) blast+

section \<open>Keeping an invariant\<close>

definition keeps :: "('s \<Rightarrow> bool) \<Rightarrow> ('s, 'a) prog \<Rightarrow> bool" where
  "keeps I m \<longleftrightarrow> (\<forall>s. I s \<longrightarrow> I (snd (m s)))"

named_theorems keeps_intros "a program keeps an invariant"

lemma keepsI: "(\<And>s r s'. I s \<Longrightarrow> m s = (r, s') \<Longrightarrow> I s') \<Longrightarrow> keeps I m"
  unfolding keeps_def by (metis prod.collapse)

lemma keepsD: "keeps I m \<Longrightarrow> I s \<Longrightarrow> m s = (r, s') \<Longrightarrow> I s'"
  unfolding keeps_def by (metis snd_conv)

lemma keeps_ret [keeps_intros]: "keeps I (ret a)"
  by (simp add: keeps_def)

lemma keeps_raise [keeps_intros]: "keeps I (raise f)"
  by (simp add: keeps_def)

lemma keeps_lift [keeps_intros]: "keeps I (lift_cxx c)"
  by (simp add: keeps_def)

lemma keeps_gets [keeps_intros]: "keeps I (gets f)"
  by (simp add: keeps_def)

lemma keeps_modify: "(\<And>s. I s \<Longrightarrow> I (f s)) \<Longrightarrow> keeps I (modify f)"
  by (simp add: keeps_def)

lemma keeps_sbind [keeps_intros]:
  assumes "keeps I m" and "\<And>a. keeps I (k a)"
  shows "keeps I (sbind m k)"
  by (rule keepsI) (erule sbind_cases; blast intro: keepsD [OF assms(1)] keepsD [OF assms(2)])

lemma keeps_andthen [keeps_intros]:
  "keeps I m \<Longrightarrow> keeps I k \<Longrightarrow> keeps I (andthen m k)"
  unfolding andthen_def by (rule keeps_sbind)

lemma keeps_if [keeps_intros]:
  "(b \<Longrightarrow> keeps I m) \<Longrightarrow> (\<not> b \<Longrightarrow> keeps I n) \<Longrightarrow> keeps I (if b then m else n)"
  by simp

lemma keeps_for_each [keeps_intros]:
  "(\<And>x. x \<in> set xs \<Longrightarrow> keeps I (body x)) \<Longrightarrow> keeps I (for_each xs body)"
  by (induction xs) (auto intro: keeps_ret keeps_andthen)

lemma keeps_option [keeps_intros]:
  "(x = None \<Longrightarrow> keeps I m) \<Longrightarrow> (\<And>a. x = Some a \<Longrightarrow> keeps I (n a)) \<Longrightarrow>
     keeps I (case x of None \<Rightarrow> m | Some a \<Rightarrow> n a)"
  by (cases x) simp_all

lemma keeps_catch_all [keeps_intros]:
  assumes "keeps I m" and "keeps I h"
  shows "keeps I (catch_all m h)"
proof (rule keepsI)
  fix s r s'
  assume s: "I s" and run: "catch_all m h s = (r, s')"
  obtain x s1 where m: "m s = (x, s1)" by fastforce
  with assms(1) s have "I s1" by (blast intro: keepsD)
  with run m show "I s'"
    by (auto simp: catch_all_def split: sum.splits cxx_fault.splits intro: keepsD [OF assms(2)])
qed

lemma keeps_on_fst: "(\<And>t. keeps (\<lambda>s. I (s, t)) m) \<Longrightarrow> keeps I (on_fst m)"
  unfolding keeps_def on_fst_def by (auto split: prod.splits) (metis snd_conv)

lemma keeps_on_snd: "(\<And>s. keeps (\<lambda>t. I (s, t)) m) \<Longrightarrow> keeps I (on_snd m)"
  unfolding keeps_def on_snd_def by (auto split: prod.splits) (metis snd_conv)

lemma keeps_on_snd_fst: "keeps (\<lambda>(s, t). J s) (on_snd m)"
  by (auto simp: keeps_def on_snd_def split: prod.splits)

section \<open>Weakest preconditions\<close>

text \<open>
  \<open>wp m Q F s\<close>: run from \<open>s\<close>, the program returns a value with \<open>Q\<close>, or ends in a fault with
  \<open>F\<close>.  The rules in \<open>wp_simps\<close> take a program apart; \<open>behaved\<close> is all that is asked of a
  call whose code is not modelled: that it has no undefined behaviour of its own.
\<close>

definition wp :: "('s, 'a) prog \<Rightarrow> ('a \<Rightarrow> 's \<Rightarrow> bool) \<Rightarrow> (cxx_fault \<Rightarrow> 's \<Rightarrow> bool) \<Rightarrow> 's \<Rightarrow> bool" where
  "wp m Q F s \<longleftrightarrow> (case m s of (Inr a, s') \<Rightarrow> Q a s' | (Inl f, s') \<Rightarrow> F f s')"

definition behaved :: "('s, 'a) prog \<Rightarrow> bool" where
  "behaved m \<longleftrightarrow> (\<forall>s. fst (m s) \<noteq> Inl Undefined)"

named_theorems wp_simps "weakest preconditions of programs"

lemma wp_ret [wp_simps]: "wp (ret a) Q F s \<longleftrightarrow> Q a s"
  by (simp add: wp_def)

lemma wp_raise [wp_simps]: "wp (raise f) Q F s \<longleftrightarrow> F f s"
  by (simp add: wp_def)

lemma wp_Pair [simp]:
  "wp (Pair (Inr a)) Q F s \<longleftrightarrow> Q a s" "wp (Pair (Inl f)) Q F s \<longleftrightarrow> F f s"
  by (simp_all add: wp_def)

lemma wp_gets [wp_simps]:
  "wp (gets g) Q F s \<longleftrightarrow> Q (g s) s"
  "wp (on_fst (gets g1)) Q1 F1 (p, q) \<longleftrightarrow> Q1 (g1 p) (p, q)"
  by (simp_all add: wp_def)

lemma wp_modify [wp_simps]:
  "wp (modify h) Q F s \<longleftrightarrow> Q () (h s)"
  "wp (on_fst (modify h1)) Q1 F1 (p, q) \<longleftrightarrow> Q1 () (h1 p, q)"
  by (simp_all add: wp_def)

lemma wp_lift [wp_simps]:
  "wp (lift_cxx c) Q F s \<longleftrightarrow> (case c of Inl f \<Rightarrow> F f s | Inr a \<Rightarrow> Q a s)"
  by (simp add: wp_def split: sum.splits)

lemma wp_sbind [wp_simps]: "wp (sbind m k) Q F s \<longleftrightarrow> wp m (\<lambda>a. wp (k a) Q F) F s"
  by (auto simp: wp_def sbind_def split: prod.splits sum.splits)

lemma wp_andthen [wp_simps]: "wp (andthen m k) Q F s \<longleftrightarrow> wp m (\<lambda>_. wp k Q F) F s"
  by (simp add: andthen_def wp_sbind)

lemma wp_lift_any:
  assumes "c \<noteq> Inl Undefined" "\<And>a. Q a s" "\<And>f. f \<noteq> Undefined \<Longrightarrow> F f s"
  shows "wp (lift_cxx c) Q F s"
  using assms by (cases c) (auto simp: wp_lift)

lemma wp_if [wp_simps]: "wp (if b then m else n) Q F s \<longleftrightarrow> (if b then wp m Q F s else wp n Q F s)"
  by simp

lemma wp_option [wp_simps]:
  "wp (case x of None \<Rightarrow> m | Some a \<Rightarrow> k a) Q F s \<longleftrightarrow>
     (case x of None \<Rightarrow> wp m Q F s | Some a \<Rightarrow> wp (k a) Q F s)"
  by (simp split: option.split)

lemma wp_prod [wp_simps]:
  "wp (case p of (a, b) \<Rightarrow> k' a b) Q F s \<longleftrightarrow> (case p of (a, b) \<Rightarrow> wp (k' a b) Q F s)"
  by (simp split: prod.split)

lemma wp_Let [wp_simps]: "wp (let a = x in k a) Q F s \<longleftrightarrow> (let a = x in wp (k a) Q F s)"
  by (simp add: Let_def)

lemma wp_catch_all [wp_simps]:
  "wp (catch_all m h) Q F s \<longleftrightarrow>
     wp m Q (\<lambda>f s'. case f of Throws e \<Rightarrow> wp h Q F s' | _ \<Rightarrow> F f s') s"
  by (auto simp: wp_def catch_all_def split: prod.splits sum.splits cxx_fault.splits)

lemma wp_mono:
  "wp m Q F s \<Longrightarrow> (\<And>a s'. Q a s' \<Longrightarrow> Q' a s') \<Longrightarrow> (\<And>f s'. F f s' \<Longrightarrow> F' f s') \<Longrightarrow> wp m Q' F' s"
  by (auto simp: wp_def split: prod.splits sum.splits)

lemma wp_conj: "wp m Q F s \<Longrightarrow> wp m Q' F' s \<Longrightarrow> wp m (\<lambda>a s'. Q a s' \<and> Q' a s') (\<lambda>f s'. F f s' \<and> F' f s') s"
  by (auto simp: wp_def split: prod.splits sum.splits)

lemma wpD:
  assumes "wp m Q F s" "m s = (x, s')"
  shows "\<And>a. x = Inr a \<Longrightarrow> Q a s'" "\<And>f. x = Inl f \<Longrightarrow> F f s'"
  using assms by (auto simp: wp_def)

lemma wp_on_snd:
  assumes "behaved m" "\<And>a w'. Q a (s, w')" "\<And>f w'. f \<noteq> Undefined \<Longrightarrow> F f (s, w')"
  shows "wp (on_snd m) Q F (s, w)"
proof -
  obtain x w' where run: "m w = (x, w')" by fastforce
  with assms(1) have "x \<noteq> Inl Undefined" by (auto simp: behaved_def dest: spec [of _ w])
  with run assms(2,3) show ?thesis by (auto simp: wp_def split: sum.splits)
qed

lemma behaved_wp: "behaved m \<longleftrightarrow> (\<forall>s. wp m (\<lambda>_ _. True) (\<lambda>f _. f \<noteq> Undefined) s)"
proof -
  have "fst (m s) \<noteq> Inl Undefined \<longleftrightarrow> wp m (\<lambda>_ _. True) (\<lambda>f _. f \<noteq> Undefined) s" for s
    by (cases "m s") (auto simp: wp_def split: sum.splits)
  then show ?thesis by (simp add: behaved_def)
qed

lemma wp_for_each:
  assumes "I s" "\<And>x s. x \<in> set xs \<Longrightarrow> I s \<Longrightarrow> wp (body x) (\<lambda>_. I) F s"
  shows "wp (for_each xs body) (\<lambda>_. I) F s"
  using assms
proof (induction xs arbitrary: s)
  case (Cons x xs)
  have "wp (body x) (\<lambda>_. I) F s" using Cons.prems by simp
  then have "wp (body x) (\<lambda>_ s'. wp (for_each xs body) (\<lambda>_. I) F s') F s"
    by (rule wp_mono) (simp_all add: Cons.IH Cons.prems(2))
  then show ?case by (simp add: wp_andthen)
qed (simp add: wp_ret)

lemma behaved_intros [intro]:
  "behaved (ret a)" "behaved (gets g)" "behaved (modify h)"
  "f \<noteq> Undefined \<Longrightarrow> behaved (raise f)"
  "c \<noteq> Inl Undefined \<Longrightarrow> behaved (lift_cxx c)"
  by (auto simp: behaved_def)

lemma behaved_sbind [intro]: "behaved m \<Longrightarrow> (\<And>a. behaved (k a)) \<Longrightarrow> behaved (sbind m k)"
  unfolding behaved_wp wp_sbind by (intro allI) (rule wp_mono, blast+)

end
