(* ===== verification/Swarm_Base.thy ===== *)
theory Swarm_Base
  imports Effects Messages
begin

text \<open>
  \<open>swarm/swarm_base.hpp\<close>: the interface through which the dispatcher and the database objects
  use a swarm.  A \<open>shared_ptr<swarm_base>\<close> is a reference of type \<open>'sw\<close>, the objects behind the
  references live in a world of type \<open>'w\<close>, and the virtual functions are the fields of the
  record \<open>swarm_ops\<close>.  The locale \<open>swarm_contract\<close> states what the dispatcher relies on; the
  theory \<open>Swarm\<close> provides it.
\<close>

section \<open>The virtual functions\<close>

text \<open>
  The closures that the sources register for incoming payloads: the swarm's own handler of
  status responses and the dispatcher's handlers of database responses and swarm errors.
\<close>

datatype response_handler =
    On_status_response
  | On_database_response
  | On_swarm_error

definition kDatabaseResponse :: nat where "kDatabaseResponse = 12"
definition kStatusResponse :: nat where "kStatusResponse = 18"
definition kSwarmError :: nat where "kSwarmError = 20"

record ('w, 'sw) swarm_ops =
  so_sign_and_date_request :: "'sw \<Rightarrow> envelope \<Rightarrow> send_policy \<Rightarrow> ('w, envelope) prog"
  so_send_request :: "'sw \<Rightarrow> envelope \<Rightarrow> send_policy \<Rightarrow> ('w, unit) prog"
  so_register_response_handler :: "'sw \<Rightarrow> nat \<Rightarrow> response_handler \<Rightarrow> ('w, bool) prog"
  so_honest_majority_size :: "'sw \<Rightarrow> ('w, u64) prog"

section \<open>What the dispatcher relies on\<close>

text \<open>
  A request keeps its database uuid, nonce and body when it is signed (only the point of
  contact of the header may change), and a quorum is never empty.
\<close>

definition same_request :: "database_msg \<Rightarrow> database_msg \<Rightarrow> bool" where
  "same_request m m' \<longleftrightarrow>
     dm_header m' = (dm_header m)\<lparr>hd_point_of_contact := hd_point_of_contact (dm_header m')\<rparr>
     \<and> dm_request m' = dm_request m"

lemma same_request_refl [simp]: "same_request m m"
  by (simp add: same_request_def)

lemma same_request_nonce: "same_request m m' \<Longrightarrow> hd_nonce (dm_header m') = hd_nonce (dm_header m)"
  unfolding same_request_def by (metis database_header.ext_inject database_header.surjective
      database_header.update_convs(3))

lemma same_request_uuid:
  "same_request m m' \<Longrightarrow> hd_db_uuid (dm_header m') = hd_db_uuid (dm_header m)"
  unfolding same_request_def by (metis database_header.ext_inject database_header.surjective
      database_header.update_convs(3))

locale swarm_contract =
  fixes ops :: "('w, 'sw) swarm_ops" and cd :: codec
  assumes sign_same_request:
      "msg_roundtrip cd \<Longrightarrow> env_payload e = P_database_msg (ser_msg cd m) \<Longrightarrow>
       so_sign_and_date_request ops sw e policy w = (Inr e', w') \<Longrightarrow>
       \<exists>m'. env_payload e' = P_database_msg (ser_msg cd m') \<and> same_request m m'"
    and majority_not_0: "so_honest_majority_size ops sw w = (Inr q, w') \<Longrightarrow> q \<noteq> 0"

end
