(* ===== verification/Swarm.thy ===== *)
theory Swarm
  imports Swarm_Base Crypto
begin

text \<open>
  \<open>swarm/swarm.cpp\<close>: what the client knows of one swarm, the choice of the node a request goes
  to, signing, the screening of incoming messages and the status protocol.

  The member variables are the record \<open>swarm\<close>.  The objects a swarm uses (nodes, timers,
  clocks, the cryptography object) are reached through the records \<open>platform\<close> and
  \<open>crypto_ops\<close>; they act on a world \<open>'w\<close>.  A node posts its work to a strand, so its callbacks
  are later events of their own.
\<close>

section \<open>What a swarm uses\<close>

text \<open>
  The callbacks given to \<open>node::send_message\<close>: the one of \<open>send_node_request\<close>, which does
  nothing, and the one of \<open>send_status_request\<close>, which holds a reference into the node map that
  was current then.  Every node map that was ever installed has a number.
\<close>

datatype send_callback = Request_sent | Status_request_sent nat uuid

record ('w, 'n, 't) platform =
  pf_create_node :: "string \<Rightarrow> u16 \<Rightarrow> ('w, 'n) prog"
  pf_register_message_handler :: "'n \<Rightarrow> uuid \<Rightarrow> ('w, unit) prog"
  pf_send_message :: "'n \<Rightarrow> string \<Rightarrow> send_callback \<Rightarrow> ('w, unit) prog"
  pf_back_off :: "'n \<Rightarrow> bool \<Rightarrow> ('w, unit) prog"
  pf_make_timer :: "('w, 't) prog"
  pf_start_timer :: "'t \<Rightarrow> nat \<Rightarrow> uuid \<Rightarrow> ('w, unit) prog"
  pf_steady_now :: "('w, int) prog"
  pf_system_now :: "('w, int) prog"
  pf_uniform :: "nat \<Rightarrow> ('w, nat) prog"
  pf_ctime :: "int \<Rightarrow> string"

record crypto_ops =
  co_sign :: "envelope \<Rightarrow> (bool \<times> envelope) cxx"
  co_verify :: "envelope \<Rightarrow> bool cxx"

definition real_crypto :: "('pk, 'sk) openssl \<Rightarrow> 'sk option \<Rightarrow> crypto_ops" where
  "real_crypto ossl private_key =
     \<lparr>co_sign = crypto_sign ossl private_key, co_verify = crypto_verify ossl\<rparr>"

definition null_crypto :: crypto_ops where
  "null_crypto = \<lparr>co_sign = null_sign, co_verify = null_verify\<rparr>"

section \<open>State\<close>

text \<open>Steady times and durations are in microseconds, system times in milliseconds.\<close>

record ('n, 't) node_info =
  ni_node :: "'n option"
  ni_host :: string
  ni_port :: u16
  ni_last_status_request_sent :: int
  ni_last_status_duration :: int
  ni_last_message_sent :: int
  ni_last_message_received :: int
  ni_status_timer :: "'t option"

definition empty_info :: "('n, 't) node_info" where
  "empty_info = \<lparr>ni_node = None, ni_host = [], ni_port = 0, ni_last_status_request_sent = 0,
     ni_last_status_duration = 0, ni_last_message_sent = 0, ni_last_message_received = 0,
     ni_status_timer = None\<rparr>"

type_synonym ('n, 't) node_map = "(uuid \<times> ('n, 't) node_info) list"

record ('n, 't, 'i) swarm =
  sw_swarm_id :: swarm_id
  sw_my_uuid :: uuid
  sw_init_called :: bool
  sw_initial_nodes :: "(node_id \<times> peer_address) list"
  sw_init_handler :: "'i option"
  sw_response_handlers :: "(nat \<times> response_handler) list"
  sw_nodes :: "('n, 't) node_map option"
  sw_generation :: nat
  sw_fastest_node :: uuid
  sw_primary_node :: uuid
  sw_last_status :: status_response

definition empty_status :: status_response where
  "empty_status = \<lparr>sr_swarm_version = [], sr_swarm_git_commit = [], sr_swarm_id = [],
     sr_uptime = [], sr_module_status_json = [], sr_pbft_enabled = False\<rparr>"

definition new_swarm ::
  "swarm_id \<Rightarrow> uuid \<Rightarrow> (node_id \<times> peer_address) list \<Rightarrow> ('n, 't, 'i) swarm" where
  "new_swarm sid u nodes = \<lparr>sw_swarm_id = sid, sw_my_uuid = u, sw_init_called = False,
     sw_initial_nodes = nodes, sw_init_handler = None, sw_response_handlers = [], sw_nodes = None,
     sw_generation = 0, sw_fastest_node = [], sw_primary_node = [], sw_last_status = empty_status\<rparr>"

type_synonym ('n, 't, 'i, 'w, 'a) swarm_prog = "(('n, 't, 'i) swarm \<times> 'w, 'a) prog"

text \<open>Dereferencing the pointer to the node map, and assigning through it.\<close>

definition the_nodes :: "('n, 't, 'i, 'w, ('n, 't) node_map) swarm_prog" where
  "the_nodes = (\<lambda>(s, w). case sw_nodes s of None \<Rightarrow> (Inl Undefined, (s, w)) | Some m \<Rightarrow> (Inr m, (s, w)))"

definition set_info :: "uuid \<Rightarrow> ('n, 't) node_info \<Rightarrow> ('n, 't, 'i) swarm \<Rightarrow> ('n, 't, 'i) swarm" where
  "set_info u info s = s\<lparr>sw_nodes := map_option (AList.update u info) (sw_nodes s)\<rparr>"

definition install_nodes :: "('n, 't) node_map \<Rightarrow> ('n, 't, 'i) swarm \<Rightarrow> ('n, 't, 'i) swarm" where
  "install_nodes m s = s\<lparr>sw_nodes := Some m, sw_generation := Suc (sw_generation s)\<rparr>"

text \<open>\<open>(*nodes)[uuid]\<close>, which inserts an empty entry when there is none.\<close>

definition info_at :: "uuid \<Rightarrow> ('n, 't, 'i, 'w, ('n, 't) node_info) swarm_prog" where
  "info_at u = sbind the_nodes (\<lambda>m. case map_of m u of
       Some info \<Rightarrow> ret info
     | None \<Rightarrow> andthen (on_fst (modify (set_info u empty_info))) (ret empty_info))"

text \<open>Using a pointer that may be null.\<close>

definition deref :: "'a option \<Rightarrow> ('s, 'a) prog" where
  "deref p = (case p of None \<Rightarrow> raise Undefined | Some x \<Rightarrow> ret x)"

section \<open>Nodes\<close>

definition add_node ::
  "('w, 'n, 't) platform \<Rightarrow> node_id \<Rightarrow> string \<Rightarrow> u16 \<Rightarrow> ('n, 't, 'i, 'w, ('n, 't) node_info) swarm_prog" where
  "add_node pf node_id host port =
     sbind (on_snd (pf_create_node pf host port)) (\<lambda>n.
     sbind (on_snd (pf_make_timer pf)) (\<lambda>t.
     andthen (on_snd (pf_register_message_handler pf n node_id))
       (ret (empty_info\<lparr>ni_node := Some n, ni_host := host, ni_port := port,
                        ni_status_timer := Some t\<rparr>))))"

definition add_listed_node ::
  "('w, 'n, 't) platform \<Rightarrow> node_id \<times> peer_address \<Rightarrow> ('n, 't, 'i, 'w, unit) swarm_prog" where
  "add_listed_node pf node =
     sbind (add_node pf (fst node) (pa_host (snd node)) (pa_port (snd node))) (\<lambda>info.
       on_fst (modify (set_info (fst node) info)))"

definition add_nodes ::
  "('w, 'n, 't) platform \<Rightarrow> (node_id \<times> peer_address) list \<Rightarrow> ('n, 't, 'i, 'w, unit) swarm_prog" where
  "add_nodes pf node_list =
     (case node_list of
        [] \<Rightarrow> raise (Throws ''Attempt to create swarm with no nodes'')
      | front # _ \<Rightarrow>
          andthen (on_fst (modify (install_nodes [])))
          (andthen (for_each node_list (add_listed_node pf))
           (on_fst (modify (\<lambda>s. s\<lparr>sw_primary_node := fst front, sw_fastest_node := fst front\<rparr>)))))"

definition init_nodes :: "('w, 'n, 't) platform \<Rightarrow> ('n, 't, 'i, 'w, unit) swarm_prog" where
  "init_nodes pf =
     sbind (on_fst (gets sw_initial_nodes)) (\<lambda>initial.
       if initial = [] then ret ()
       else andthen (add_nodes pf initial)
              (on_fst (modify (\<lambda>s. s\<lparr>sw_initial_nodes := []\<rparr>))))"

section \<open>Requests\<close>

definition sign_and_date_request ::
  "codec \<Rightarrow> crypto_ops \<Rightarrow> ('w, 'n, 't) platform \<Rightarrow> envelope \<Rightarrow> send_policy
     \<Rightarrow> ('n, 't, 'i, 'w, envelope) swarm_prog" where
  "sign_and_date_request cd cr pf request policy =
     sbind (on_fst (gets id)) (\<lambda>s.
     let request1 =
       (case env_payload request of
          P_database_msg bytes \<Rightarrow>
            (case par_msg cd bytes of
               None \<Rightarrow> request
             | Some m \<Rightarrow> request\<lparr>env_payload := P_database_msg (ser_msg cd (m\<lparr>dm_header :=
                 (dm_header m)\<lparr>hd_point_of_contact :=
                   (if policy = Fastest then sw_fastest_node s else sw_primary_node s)\<rparr>\<rparr>))\<rparr>)
        | _ \<Rightarrow> request) in
     sbind (on_snd (pf_system_now pf)) (\<lambda>now.
     sbind (lift_cxx (co_sign cr (request1\<lparr>env_sender := sw_my_uuid s, env_swarm_id := sw_swarm_id s,
                                           env_timestamp := of_int now\<rparr>))) (\<lambda>(_, signed).
       ret signed)))"

definition send_node_request ::
  "codec \<Rightarrow> ('w, 'n, 't) platform \<Rightarrow> 'n option \<Rightarrow> envelope \<Rightarrow> ('n, 't, 'i, 'w, unit) swarm_prog" where
  "send_node_request cd pf node request =
     sbind (deref node) (\<lambda>n. on_snd (pf_send_message pf n (ser_envelope cd request) Request_sent))"

text \<open>\<open>find(preferred)\<close>, or \<open>begin()\<close> when it is not there.\<close>

definition pick_node :: "('n, 't) node_map \<Rightarrow> uuid \<Rightarrow> ('n, 't) node_info option" where
  "pick_node m preferred =
     (case map_of m preferred of
        Some info \<Rightarrow> Some info
      | None \<Rightarrow> (case m of [] \<Rightarrow> None | e # _ \<Rightarrow> Some (snd e)))"

definition send_request ::
  "codec \<Rightarrow> ('w, 'n, 't) platform \<Rightarrow> envelope \<Rightarrow> send_policy \<Rightarrow> ('n, 't, 'i, 'w, unit) swarm_prog" where
  "send_request cd pf request policy =
     andthen (init_nodes pf)
     (sbind (on_fst (gets id)) (\<lambda>s.
      sbind the_nodes (\<lambda>current_nodes.
        case policy of
          Normal \<Rightarrow> sbind (deref (pick_node current_nodes (sw_primary_node s))) (\<lambda>info.
            send_node_request cd pf (ni_node info) request)
        | Fastest \<Rightarrow> sbind (deref (pick_node current_nodes (sw_fastest_node s))) (\<lambda>info.
            send_node_request cd pf (ni_node info) request)
        | Broadcast \<Rightarrow> for_each current_nodes (\<lambda>e.
            send_node_request cd pf (ni_node (snd e)) request))))"

text \<open>\<open>unordered_map::insert\<close> keeps an entry that is already there.\<close>

definition register_response_handler ::
  "nat \<Rightarrow> response_handler \<Rightarrow> ('n, 't, 'i, 'w, bool) swarm_prog" where
  "register_response_handler type h =
     sbind (on_fst (gets sw_response_handlers)) (\<lambda>hs.
       if map_of hs type = None
       then andthen (on_fst (modify (\<lambda>s. s\<lparr>sw_response_handlers := AList.update type h hs\<rparr>)))
              (ret True)
       else ret False)"

text \<open>The quorum of a swarm with \<open>n\<close> nodes, in the arithmetic of \<open>size_t\<close>.\<close>

definition majority_of :: "u64 \<Rightarrow> u64" where
  "majority_of n = ((n - 1) div 3) * 2 + 1"

definition honest_majority_size :: "('w, 'n, 't) platform \<Rightarrow> ('n, 't, 'i, 'w, u64) swarm_prog" where
  "honest_majority_size pf =
     andthen (init_nodes pf) (sbind the_nodes (\<lambda>m. ret (majority_of (of_nat (length m)))))"

section \<open>Status requests\<close>

definition STATUS_REQUEST_TIME :: nat where "STATUS_REQUEST_TIME = 60"

definition random_avg_time :: "('w, 'n, 't) platform \<Rightarrow> nat \<Rightarrow> ('w, nat) prog" where
  "random_avg_time pf avg =
     sbind (pf_uniform pf (avg div 2)) (\<lambda>d. ret (avg div 2 + d))"

definition schedule_status_request ::
  "('w, 'n, 't) platform \<Rightarrow> uuid \<Rightarrow> 't option \<Rightarrow> ('n, 't, 'i, 'w, unit) swarm_prog" where
  "schedule_status_request pf node_uuid status_timer =
     sbind (deref status_timer) (\<lambda>t.
     sbind (on_snd (random_avg_time pf STATUS_REQUEST_TIME)) (\<lambda>seconds.
       on_snd (pf_start_timer pf t seconds node_uuid)))"

definition send_status_request ::
  "codec \<Rightarrow> crypto_ops \<Rightarrow> ('w, 'n, 't) platform \<Rightarrow> uuid \<Rightarrow> ('n, 't, 'i, 'w, unit) swarm_prog" where
  "send_status_request cd cr pf node_uuid =
     sbind the_nodes (\<lambda>current_nodes.
     case map_of current_nodes node_uuid of
       None \<Rightarrow> ret ()
     | Some info \<Rightarrow>
         sbind (sign_and_date_request cd cr pf
           (empty_envelope\<lparr>env_payload := P_status_request (ser_status_request cd)\<rparr>) Normal) (\<lambda>env.
         sbind (on_snd (pf_steady_now pf)) (\<lambda>sent.
         sbind (on_snd (pf_system_now pf)) (\<lambda>now.
         andthen (on_fst (modify (set_info node_uuid
             (info\<lparr>ni_last_status_request_sent := sent, ni_last_message_sent := now\<rparr>))))
         (sbind (deref (ni_node info)) (\<lambda>n.
          sbind (on_fst (gets sw_generation)) (\<lambda>generation.
            on_snd (pf_send_message pf n (ser_envelope cd env)
              (Status_request_sent generation node_uuid))))))))) "

text \<open>
  The callback of the status request.  Its captured reference is valid only as long as the node
  map it was taken from is the installed one.
\<close>

definition handle_send_result ::
  "('w, 'n, 't) platform \<Rightarrow> send_callback \<Rightarrow> error_code \<Rightarrow> ('n, 't, 'i, 'w, unit) swarm_prog" where
  "handle_send_result pf callback ec =
     (case callback of
        Request_sent \<Rightarrow> ret ()
      | Status_request_sent generation node_uuid \<Rightarrow>
          if \<not> is_err ec then ret ()
          else sbind (on_fst (gets id)) (\<lambda>s.
            if generation \<noteq> sw_generation s then raise Undefined
            else sbind the_nodes (\<lambda>m.
              sbind (deref (map_of m node_uuid)) (\<lambda>info.
              andthen (on_fst (modify (set_info node_uuid (info\<lparr>ni_last_status_duration := 0\<rparr>))))
                (schedule_status_request pf node_uuid (ni_status_timer info))))))"

definition handle_status_timer ::
  "codec \<Rightarrow> crypto_ops \<Rightarrow> ('w, 'n, 't) platform \<Rightarrow> uuid \<Rightarrow> error_code \<Rightarrow> ('n, 't, 'i, 'w, unit) swarm_prog" where
  "handle_status_timer cd cr pf node_uuid ec =
     (if is_err ec then ret () else send_status_request cd cr pf node_uuid)"

text \<open>\<open>initialize\<close>; a second call runs its handler at once, with an error.\<close>

definition initialize ::
  "codec \<Rightarrow> crypto_ops \<Rightarrow> ('w, 'n, 't) platform \<Rightarrow> ('i \<Rightarrow> error_code \<Rightarrow> ('n, 't, 'i, 'w, unit) swarm_prog)
     \<Rightarrow> 'i \<Rightarrow> ('n, 't, 'i, 'w, unit) swarm_prog" where
  "initialize cd cr pf run_init handler =
     andthen (init_nodes pf)
     (sbind (on_fst (gets sw_init_called)) (\<lambda>called.
      if called then run_init handler Operation_in_progress
      else sbind the_nodes (\<lambda>m.
        if m = [] then raise (Throws ''Attempt to initialize swarm with no members'')
        else
          andthen (on_fst (modify (\<lambda>s. s\<lparr>sw_init_called := True, sw_init_handler := Some handler\<rparr>)))
          (sbind (register_response_handler kStatusResponse On_status_response) (\<lambda>_.
           sbind the_nodes (\<lambda>current_nodes.
             for_each (map fst current_nodes) (send_status_request cd cr pf)))))))"

section \<open>Status responses\<close>

text \<open>The variables of the loop over \<open>peer_index\<close>.\<close>

record ('n, 't) status_scan =
  ss_new_nodes :: "('n, 't) node_map"
  ss_new_uuids :: "uuid list"
  ss_fastest_time :: int
  ss_fastest_node :: uuid

definition member_string :: "jsoncpp \<Rightarrow> json \<Rightarrow> string \<Rightarrow> string cxx" where
  "member_string js v key = cbind (js_member js v key) (js_as_string js)"

definition scan_peer ::
  "jsoncpp \<Rightarrow> ('w, 'n, 't) platform \<Rightarrow> uuid \<Rightarrow> int \<Rightarrow> json \<Rightarrow> ('n, 't) status_scan
     \<Rightarrow> ('n, 't, 'i, 'w, ('n, 't) status_scan) swarm_prog" where
  "scan_peer js pf uuid duration node ss =
     sbind (lift_cxx (member_string js node ''uuid'')) (\<lambda>node_uuid.
     sbind (info_at node_uuid) (\<lambda>known.
     sbind (if ni_node known = None
            then
              sbind (lift_cxx (cbind (js_member js node ''port'') (js_as_uint js))) (\<lambda>port.
              sbind (lift_cxx (member_string js node ''host'')) (\<lambda>host.
                add_node pf node_uuid host (ucast port)))
            else ret known) (\<lambda>info.
     sbind (if node_uuid = uuid
            then andthen (schedule_status_request pf node_uuid (ni_status_timer info))
                   (ret (info\<lparr>ni_last_status_duration := duration\<rparr>))
            else ret info) (\<lambda>info'.
     let faster = 0 < ni_last_status_duration info'
                  \<and> ni_last_status_duration info' < ss_fastest_time ss
     in ret \<lparr>ss_new_nodes = AList.update node_uuid info' (ss_new_nodes ss),
             ss_new_uuids = ss_new_uuids ss @ (if ni_node known = None then [node_uuid] else []),
             ss_fastest_time =
               (if faster then ni_last_status_duration info' else ss_fastest_time ss),
             ss_fastest_node = (if faster then node_uuid else ss_fastest_node ss)\<rparr>))))"

fun scan_peers ::
  "jsoncpp \<Rightarrow> ('w, 'n, 't) platform \<Rightarrow> uuid \<Rightarrow> int \<Rightarrow> json list \<Rightarrow> ('n, 't) status_scan
     \<Rightarrow> ('n, 't, 'i, 'w, ('n, 't) status_scan) swarm_prog" where
  "scan_peers js pf uuid duration [] ss = ret ss"
| "scan_peers js pf uuid duration (node # nodes) ss =
     sbind (scan_peer js pf uuid duration node ss) (scan_peers js pf uuid duration nodes)"

definition parse_module_status :: "jsoncpp \<Rightarrow> string \<Rightarrow> json cxx" where
  "parse_module_status js text =
     (case js_parse js text of
        None \<Rightarrow> Inl (Throws ''Json::RuntimeError'')
      | Some module_status \<Rightarrow>
          cbind (js_member js module_status ''module'') (\<lambda>m. js_index js m 0))"

text \<open>The part of \<open>handle_status_response\<close> for a response that parses.\<close>

definition apply_status ::
  "codec \<Rightarrow> jsoncpp \<Rightarrow> crypto_ops \<Rightarrow> ('w, 'n, 't) platform \<Rightarrow> uuid \<Rightarrow> int \<Rightarrow> status_response
     \<Rightarrow> ('n, 't, 'i, 'w, unit) swarm_prog" where
  "apply_status cd js cr pf uuid duration status =
     sbind (lift_cxx (parse_module_status js (sr_module_status_json status))) (\<lambda>swarm_status.
     sbind (lift_cxx (cbind (js_member js swarm_status ''status'') (\<lambda>st.
              js_member js st ''peer_index''))) (\<lambda>peer_index.
     sbind (scan_peers js pf uuid duration (js_elements js peer_index)
              \<lparr>ss_new_nodes = [], ss_new_uuids = [], ss_fastest_time = duration,
               ss_fastest_node = uuid\<rparr>) (\<lambda>ss.
     andthen (on_fst (modify (install_nodes (ss_new_nodes ss))))
     (sbind (lift_cxx (cbind (js_member js swarm_status ''status'') (\<lambda>st.
               cbind (js_member js st ''primary'') (\<lambda>p. member_string js p ''uuid'')))) (\<lambda>primary.
      andthen (on_fst (modify (\<lambda>s. s\<lparr>sw_primary_node := primary,
                 sw_fastest_node := ss_fastest_node ss, sw_last_status := status\<rparr>)))
        (for_each (ss_new_uuids ss) (send_status_request cd cr pf)))))))"

definition finish_init ::
  "('i \<Rightarrow> error_code \<Rightarrow> ('n, 't, 'i, 'w, unit) swarm_prog) \<Rightarrow> ('n, 't, 'i, 'w, unit) swarm_prog" where
  "finish_init run_init =
     sbind (on_fst (gets sw_init_handler)) (\<lambda>h.
       case h of
         None \<Rightarrow> ret ()
       | Some handler \<Rightarrow> andthen (run_init handler No_error)
           (on_fst (modify (\<lambda>s. s\<lparr>sw_init_handler := None\<rparr>))))"

definition handle_status_response ::
  "codec \<Rightarrow> jsoncpp \<Rightarrow> crypto_ops \<Rightarrow> ('w, 'n, 't) platform
     \<Rightarrow> ('i \<Rightarrow> error_code \<Rightarrow> ('n, 't, 'i, 'w, unit) swarm_prog)
     \<Rightarrow> uuid \<Rightarrow> envelope \<Rightarrow> ('n, 't, 'i, 'w, bool) swarm_prog" where
  "handle_status_response cd js cr pf run_init uuid response =
     sbind (on_snd (pf_steady_now pf)) (\<lambda>now.
     sbind (info_at uuid) (\<lambda>sender_info.
     case par_status cd (get_status_response (env_payload response)) of
       None \<Rightarrow> andthen (finish_init run_init) (ret True)
     | Some status \<Rightarrow>
         andthen (apply_status cd js cr pf uuid (now - ni_last_status_request_sent sender_info) status)
         (andthen (finish_init run_init) (ret False))))"

section \<open>Incoming messages\<close>

text \<open>
  \<open>std::string(data, MAX_MESSAGE_SIZE)\<close> in the log statement for a message that does not
  parse is the constructor that takes a start position: it throws when the message is shorter.
\<close>

definition log_invalid_message :: "string \<Rightarrow> unit cxx" where
  "log_invalid_message data =
     (if length data < MAX_MESSAGE_SIZE then Inl (Throws ''std::out_of_range'') else Inr ())"

text \<open>
  \<open>handle_node_message\<close> up to the call of the registered handler: either the value returned
  without a call, or the handler and the envelope it is called with.
\<close>

definition screen_node_message ::
  "codec \<Rightarrow> crypto_ops \<Rightarrow> ('w, 'n, 't) platform \<Rightarrow> uuid \<Rightarrow> string
     \<Rightarrow> ('n, 't, 'i, 'w, bool + response_handler \<times> envelope) swarm_prog" where
  "screen_node_message cd cr pf uuid data =
     sbind the_nodes (\<lambda>current_nodes.
     case map_of current_nodes uuid of
       None \<Rightarrow> ret (Inl True)
     | Some info \<Rightarrow>
         sbind (on_snd (pf_system_now pf)) (\<lambda>now.
         andthen (on_fst (modify (set_info uuid (info\<lparr>ni_last_message_received := now\<rparr>))))
         (case par_envelope cd data of
            None \<Rightarrow> sbind (lift_cxx (log_invalid_message data)) (\<lambda>_. ret (Inl True))
          | Some env \<Rightarrow>
              if env_sender env \<noteq> [] \<and> map_of current_nodes (env_sender env) = None
              then ret (Inl False)
              else
                sbind (if env_signature env = [] then ret True
                       else lift_cxx (co_verify cr env)) (\<lambda>authentic.
                if \<not> authentic then ret (Inl True)
                else
                  let backoff_val =
                    (case env_payload env of
                       P_swarm_error bytes \<Rightarrow>
                         (case par_error cd bytes of
                            None \<Rightarrow> False
                          | Some err \<Rightarrow> se_message err = TOO_BUSY_ERROR_MSG)
                     | _ \<Rightarrow> False) in
                  sbind the_nodes (\<lambda>m.
                  andthen (for_each m (\<lambda>e. sbind (deref (ni_node (snd e))) (\<lambda>n.
                             on_snd (pf_back_off pf n backoff_val))))
                  (sbind (on_fst (gets sw_response_handlers)) (\<lambda>hs.
                   ret (case map_of hs (payload_case (env_payload env)) of
                          None \<Rightarrow> Inl False
                        | Some h \<Rightarrow> Inr (h, env)))))))))"

text \<open>
  The whole of \<open>handle_node_message\<close>.  The registered handler may act on more than the swarm, so
  the state is a parameter: \<open>zoom\<close> runs a program of the swarm in it.
\<close>

definition handle_node_message ::
  "codec \<Rightarrow> crypto_ops \<Rightarrow> ('w, 'n, 't) platform
     \<Rightarrow> (('n, 't, 'i, 'w, bool + response_handler \<times> envelope) swarm_prog
          \<Rightarrow> ('s, bool + response_handler \<times> envelope) prog)
     \<Rightarrow> (response_handler \<Rightarrow> uuid \<Rightarrow> envelope \<Rightarrow> ('s, bool) prog) \<Rightarrow> uuid \<Rightarrow> string \<Rightarrow> ('s, bool) prog" where
  "handle_node_message cd cr pf zoom call uuid data =
     sbind (zoom (screen_node_message cd cr pf uuid data)) (\<lambda>r.
       case r of Inl b \<Rightarrow> ret b | Inr (h, env) \<Rightarrow> call h uuid env)"

section \<open>The status document\<close>

text \<open>\<open>std::ctime\<close> of a time in seconds; a time of zero is shown as never.\<close>

definition show_time :: "('w, 'n, 't) platform \<Rightarrow> int \<Rightarrow> json" where
  "show_time pf time =
     JString (if time div 1000 \<noteq> 0 then pf_ctime pf (time div 1000) else ''never'')"

definition node_status :: "('w, 'n, 't) platform \<Rightarrow> uuid \<times> ('n, 't) node_info \<Rightarrow> json" where
  "node_status pf e =
     (let i = snd e in
      jset ''last_receive'' (show_time pf (ni_last_message_received i))
      (jset ''last_send'' (show_time pf (ni_last_message_sent i))
      (jset ''latency'' (JUInt (unat (of_int (ni_last_status_duration i) :: u64)))
      (jset ''port'' (JInt (uint (ni_port i)))
      (jset ''host'' (JString (ni_host i))
      (jset ''uuid'' (JString (fst e)) JNull))))))"

definition status_json :: "('w, 'n, 't) platform \<Rightarrow> ('n, 't, 'i) swarm \<Rightarrow> ('n, 't) node_map \<Rightarrow> json" where
  "status_json pf s m =
     jset ''nodes'' (fold (\<lambda>e. jappend (node_status pf e)) m JNull)
     (jset ''primary_node'' (JString (sw_primary_node s))
     (jset ''fastest_node'' (JString (sw_fastest_node s))
     (jset ''uptime'' (JString (sr_uptime (sw_last_status s)))
     (jset ''swarm_git_commit'' (JString (sr_swarm_git_commit (sw_last_status s)))
     (jset ''swarm_version'' (JString (sr_swarm_version (sw_last_status s))) JNull)))))"

definition get_status ::
  "jsoncpp \<Rightarrow> ('w, 'n, 't) platform \<Rightarrow> ('n, 't, 'i, 'w, string) swarm_prog" where
  "get_status js pf =
     sbind (on_fst (gets id)) (\<lambda>s. sbind the_nodes (\<lambda>m.
       ret (js_styled js (status_json pf s m))))"

section \<open>Quorum sizes\<close>

lemma unat_majority_of: "unat (majority_of n) = 2 * (unat (n - 1) div 3) + 1"
proof -
  have "2 * (unat (n - 1) div 3) + 1 < 2 ^ 64"
    using unsigned_less [of "n - 1", where ?'a = nat] by simp
  then show ?thesis
    unfolding majority_of_def by (simp add: unat_word_ariths mult.commute)
qed

lemma majority_of_nat:
  assumes "0 < n" "n < 2 ^ 64"
  shows "unat (majority_of (of_nat n)) = 2 * ((n - 1) div 3) + 1"
proof -
  have n: "unat (of_nat n :: u64) = n"
    using assms(2) by (simp add: take_bit_nat_eq_self unsigned_of_nat)
  with assms(1) have "(of_nat n :: u64) \<noteq> 0" by auto
  with n show ?thesis by (simp add: unat_majority_of unat_minus_one)
qed

lemma majority_of_not_0: "majority_of n \<noteq> 0"
  using unat_majority_of [of n] by auto

end
