(* ===== verification/Swarm_Invariant.thy ===== *)
theory Swarm_Invariant
  imports Swarm
begin

text \<open>
  Lemmas on \<open>swarm/swarm.cpp\<close>: what each operation does to the node map, that no operation
  leaves a null node behind when it returns, and what a status response changes.
\<close>

section \<open>Updates of the node map\<close>

lemma set_info_simps [simp]:
  "sw_initial_nodes (set_info u i s) = sw_initial_nodes s"
  "sw_nodes (set_info u i s) = map_option (AList.update u i) (sw_nodes s)"
  "sw_generation (set_info u i s) = sw_generation s"
  "sw_response_handlers (set_info u i s) = sw_response_handlers s"
  "sw_init_handler (set_info u i s) = sw_init_handler s"
  "sw_init_called (set_info u i s) = sw_init_called s"
  "sw_my_uuid (set_info u i s) = sw_my_uuid s"
  "sw_swarm_id (set_info u i s) = sw_swarm_id s"
  "sw_primary_node (set_info u i s) = sw_primary_node s"
  "sw_fastest_node (set_info u i s) = sw_fastest_node s"
  "sw_last_status (set_info u i s) = sw_last_status s"
  by (simp_all add: set_info_def)

lemma install_nodes_simps [simp]:
  "sw_initial_nodes (install_nodes m s) = sw_initial_nodes s"
  "sw_nodes (install_nodes m s) = Some m"
  "sw_generation (install_nodes m s) = Suc (sw_generation s)"
  "sw_response_handlers (install_nodes m s) = sw_response_handlers s"
  "sw_init_handler (install_nodes m s) = sw_init_handler s"
  "sw_init_called (install_nodes m s) = sw_init_called s"
  by (simp_all add: install_nodes_def)

definition connected :: "('n, 't) node_map \<Rightarrow> bool" where
  "connected m \<longleftrightarrow> um_wf m
     \<and> (\<forall>u i. map_of m u = Some i \<longrightarrow> ni_node i \<noteq> None \<and> ni_status_timer i \<noteq> None)"

definition swarm_wf :: "('n, 't, 'i) swarm \<Rightarrow> bool" where
  "swarm_wf s \<longleftrightarrow> (\<forall>m. sw_nodes s = Some m \<longrightarrow> connected m)"

lemma connected_Nil [simp]: "connected []"
  by (simp add: connected_def)

lemma connected_update:
  "connected m \<Longrightarrow> ni_node i \<noteq> None \<Longrightarrow> ni_status_timer i \<noteq> None \<Longrightarrow> connected (AList.update u i m)"
  by (auto simp: connected_def um.wf_put)

lemma connectedD:
  assumes "connected m"
  shows "um_wf m" "map_of m u = Some i \<Longrightarrow> ni_node i \<noteq> None"
    "map_of m u = Some i \<Longrightarrow> ni_status_timer i \<noteq> None"
  using assms by (auto simp: connected_def)

lemma connected_entry: "connected m \<Longrightarrow> e \<in> set m \<Longrightarrow> ni_node (snd e) \<noteq> None"
  using um.entry_iff [of m "fst e" "snd e"] by (auto simp: connected_def)

text \<open>All that is asked of the objects a swarm uses.\<close>

definition sound_platform :: "('w, 'n, 't) platform \<Rightarrow> bool" where
  "sound_platform pf \<longleftrightarrow>
     (\<forall>h p. behaved (pf_create_node pf h p)) \<and> (\<forall>n u. behaved (pf_register_message_handler pf n u))
     \<and> (\<forall>n m c. behaved (pf_send_message pf n m c)) \<and> (\<forall>n b. behaved (pf_back_off pf n b))
     \<and> behaved (pf_make_timer pf) \<and> (\<forall>t s u. behaved (pf_start_timer pf t s u))
     \<and> behaved (pf_steady_now pf) \<and> behaved (pf_system_now pf) \<and> (\<forall>k. behaved (pf_uniform pf k))"

definition sound_crypto :: "crypto_ops \<Rightarrow> bool" where
  "sound_crypto cr \<longleftrightarrow> (\<forall>e. co_sign cr e \<noteq> Inl Undefined) \<and> (\<forall>e. co_verify cr e \<noteq> Inl Undefined)"

lemma sound_platformD:
  assumes "sound_platform pf"
  shows "behaved (pf_create_node pf h p)" "behaved (pf_register_message_handler pf n u)"
    "behaved (pf_send_message pf n m c)" "behaved (pf_back_off pf n b)" "behaved (pf_make_timer pf)"
    "behaved (pf_start_timer pf t k u)" "behaved (pf_steady_now pf)" "behaved (pf_system_now pf)"
    "behaved (pf_uniform pf j)"
  using assms by (simp_all add: sound_platform_def)

lemma extract_payload_defined: "extract_payload p \<noteq> Inl Undefined"
  by (cases p) simp_all

lemma deterministic_serialize_defined: "deterministic_serialize e \<noteq> Inl Undefined"
  using extract_payload_defined by (auto simp: deterministic_serialize_def cbind_Inl_iff)

lemma sound_real_crypto: "sound_crypto (real_crypto ossl k)"
  by (auto simp: sound_crypto_def real_crypto_def crypto_sign_def crypto_verify_def cbind_Inl_iff
      deterministic_serialize_defined split: option.splits)

lemma sound_null_crypto: "sound_crypto null_crypto"
  by (simp add: sound_crypto_def null_crypto_def null_sign_def null_verify_def)

section \<open>Weakest preconditions of the parts\<close>

lemma wp_the_nodes [wp_simps]:
  "wp the_nodes Q F (s, w) \<longleftrightarrow>
     (case sw_nodes s of None \<Rightarrow> F Undefined (s, w) | Some m \<Rightarrow> Q m (s, w))"
  by (simp add: wp_def the_nodes_def split: option.splits)

lemma wp_info_at [wp_simps]:
  "wp (info_at u) Q F (s, w) \<longleftrightarrow>
     (case sw_nodes s of None \<Rightarrow> F Undefined (s, w)
      | Some m \<Rightarrow> (case map_of m u of Some i \<Rightarrow> Q i (s, w)
                   | None \<Rightarrow> Q empty_info (set_info u empty_info s, w)))"
  by (simp add: info_at_def wp_simps split: option.splits)

lemma wp_deref [wp_simps]:
  "wp (deref p) Q F s \<longleftrightarrow> (case p of None \<Rightarrow> F Undefined s | Some x \<Rightarrow> Q x s)"
  by (simp add: deref_def wp_simps split: option.splits)

lemma wp_add_node:
  assumes "sound_platform pf"
    and "\<And>n t w'. Q (empty_info\<lparr>ni_node := Some n, ni_host := host, ni_port := port,
                        ni_status_timer := Some t\<rparr>) (s, w')"
    and "\<And>f w'. f \<noteq> Undefined \<Longrightarrow> F f (s, w')"
  shows "wp (add_node pf u host port) Q F (s, w)"
  unfolding add_node_def wp_simps
  by (intro wp_on_snd sound_platformD [OF assms(1)] assms(2,3)) (auto simp: assms)

lemma wp_sign:
  assumes "sound_platform pf" "sound_crypto cr"
    and "\<And>e w'. Q e (s, w')" and "\<And>f w'. f \<noteq> Undefined \<Longrightarrow> F f (s, w')"
  shows "wp (sign_and_date_request cd cr pf request policy) Q F (s, w)"
  unfolding sign_and_date_request_def wp_sbind wp_gets Let_def
  by (intro wp_on_snd wp_lift_any sound_platformD [OF assms(1)] assms(4))
    (use assms(2,3) in \<open>simp_all add: sound_crypto_def wp_simps\<close>)

lemma wp_schedule:
  assumes "sound_platform pf" "t \<noteq> None"
    and "\<And>w'. Q () (s, w')" and "\<And>f w'. f \<noteq> Undefined \<Longrightarrow> F f (s, w')"
  shows "wp (schedule_status_request pf u t) Q F (s, w)"
proof -
  have avg: "behaved (random_avg_time pf k)" for k
    unfolding random_avg_time_def by (intro behaved_sbind sound_platformD [OF assms(1)]) auto
  show ?thesis
    using assms(2) unfolding schedule_status_request_def wp_simps
    by (auto intro!: wp_on_snd avg sound_platformD [OF assms(1)] assms(3,4))
qed

section \<open>Setting up the nodes\<close>

text \<open>What \<open>add_nodes\<close> leaves: one connected entry for every listed node id.\<close>

lemma wp_add_nodes:
  assumes pf: "sound_platform pf" and ne: "node_list \<noteq> []"
  shows "wp (add_nodes pf node_list)
    (\<lambda>_ (s', w'). \<exists>m. sw_nodes s' = Some m \<and> connected m \<and> dom (map_of m) = fst ` set node_list
       \<and> sw_primary_node s' = fst (hd node_list) \<and> sw_fastest_node s' = fst (hd node_list)
       \<and> sw_initial_nodes s' = sw_initial_nodes s \<and> sw_response_handlers s' = sw_response_handlers s
       \<and> sw_init_called s' = sw_init_called s \<and> sw_init_handler s' = sw_init_handler s)
    (\<lambda>f (s', w'). f \<noteq> Undefined \<and> swarm_wf s' \<and> sw_initial_nodes s' = sw_initial_nodes s) (s, w)"
proof -
  let ?same = "\<lambda>s' :: ('b, 'c, 'd) swarm. sw_initial_nodes s' = sw_initial_nodes s
      \<and> sw_response_handlers s' = sw_response_handlers s
      \<and> sw_init_called s' = sw_init_called s \<and> sw_init_handler s' = sw_init_handler s"
  let ?F = "\<lambda>f (s', w'). f \<noteq> Undefined \<and> swarm_wf s' \<and> sw_initial_nodes s' = sw_initial_nodes s"
  have loop: "wp (for_each xs (add_listed_node pf))
      (\<lambda>_ (s', w'). \<exists>m'. sw_nodes s' = Some m' \<and> connected m'
          \<and> dom (map_of m') = dom (map_of m) \<union> fst ` set xs \<and> ?same s') ?F (s1, w1)"
    if "sw_nodes s1 = Some m" "connected m" "?same s1" for xs m s1 w1
    using that
  proof (induction xs arbitrary: s1 w1 m)
    case Nil
    then show ?case by (simp add: wp_simps)
  next
    case (Cons x xs)
    obtain u a where x: "x = (u, a)" by fastforce
    show ?case
      unfolding for_each.simps x add_listed_node_def [of pf "(u, a)"] fst_conv snd_conv wp_simps
    proof (rule wp_add_node [OF pf], goal_cases)
      case (1 n t w')
      let ?i = "empty_info\<lparr>ni_node := Some n, ni_host := pa_host a, ni_port := pa_port a,
        ni_status_timer := Some t\<rparr>"
      have "wp (for_each xs (add_listed_node pf))
        (\<lambda>_ (s', w'). \<exists>m'. sw_nodes s' = Some m' \<and> connected m'
          \<and> dom (map_of m') = dom (map_of (AList.update u ?i m)) \<union> fst ` set xs \<and> ?same s') ?F
        (set_info u ?i s1, w')"
        using Cons.prems by (intro Cons.IH connected_update) (auto simp: empty_info_def)
      then show ?case
        by (simp add: wp_modify um.keys_put insert_commute)
    next
      case (2 f w')
      with Cons.prems show ?case by (auto simp: swarm_wf_def)
    qed
  qed
  obtain front rest where nl: "node_list = front # rest" using ne by (cases node_list) auto
  from loop [of "install_nodes [] s" "[]" node_list w]
  have "wp (for_each node_list (add_listed_node pf))
      (\<lambda>_ (s', w'). \<exists>m'. sw_nodes s' = Some m' \<and> connected m'
          \<and> dom (map_of m') = fst ` set node_list \<and> ?same s') ?F (install_nodes [] s, w)"
    by simp
  then show ?thesis
    unfolding add_nodes_def nl list.case wp_simps
    by (rule wp_mono) (auto simp: wp_simps)
qed

lemma wp_init_nodes:
  assumes pf: "sound_platform pf" and wf: "swarm_wf s"
  shows "wp (init_nodes pf)
    (\<lambda>_ (s', w'). swarm_wf s' \<and> sw_initial_nodes s' = []
       \<and> (if sw_initial_nodes s = [] then s' = s
          else \<exists>m. sw_nodes s' = Some m \<and> dom (map_of m) = fst ` set (sw_initial_nodes s)
            \<and> sw_primary_node s' = fst (hd (sw_initial_nodes s))
            \<and> sw_fastest_node s' = fst (hd (sw_initial_nodes s)))
       \<and> sw_response_handlers s' = sw_response_handlers s
       \<and> sw_init_called s' = sw_init_called s \<and> sw_init_handler s' = sw_init_handler s)
    (\<lambda>f (s', w'). f \<noteq> Undefined \<and> swarm_wf s' \<and> sw_initial_nodes s' = sw_initial_nodes s) (s, w)"
proof (cases "sw_initial_nodes s = []")
  case True
  with wf show ?thesis by (simp add: init_nodes_def wp_simps)
next
  case False
  then show ?thesis
    unfolding init_nodes_def wp_simps
    by (simp add: wp_simps) (rule wp_mono [OF wp_add_nodes [OF pf False]], auto simp: wp_simps swarm_wf_def)
qed

section \<open>Sending\<close>

text \<open>
  \<open>peers m\<close>: what a node map says of a node besides the times of its last messages.
\<close>

definition peers :: "('n, 't) node_map \<Rightarrow> uuid \<Rightarrow> ('n option \<times> 't option \<times> string \<times> u16 \<times> int) option" where
  "peers m u = map_option (\<lambda>i. (ni_node i, ni_status_timer i, ni_host i, ni_port i,
      ni_last_status_duration i)) (map_of m u)"

lemma connected_iff_peers:
  "connected m \<longleftrightarrow> um_wf m \<and> (\<forall>u x. peers m u = Some x \<longrightarrow> fst x \<noteq> None \<and> fst (snd x) \<noteq> None)"
  unfolding connected_def peers_def by (auto 4 4)

lemma dom_peers: "dom (peers m) = dom (map_of m)"
  by (auto simp: peers_def)

lemma connected_peers: "connected m \<Longrightarrow> um_wf m' \<Longrightarrow> peers m' = peers m \<Longrightarrow> connected m'"
  by (simp add: connected_iff_peers)

lemma wp_pick_node:
  assumes "connected m" "m \<noteq> []"
    and "\<And>u i n. map_of m u = Some i \<Longrightarrow> ni_node i = Some n \<Longrightarrow> wp (k i) Q F s"
  shows "wp (sbind (deref (pick_node m preferred)) k) Q F s"
proof -
  obtain e m' where m: "m = e # m'" using assms(2) by (cases m) auto
  have first: "map_of m (fst e) = Some (snd e)" by (simp add: m)
  show ?thesis
  proof (cases "map_of m preferred")
    case None
    with assms(3) [OF first] connectedD(2) [OF assms(1) first] show ?thesis
      by (auto simp: wp_simps pick_node_def m)
  next
    case (Some i)
    with assms(3) [OF Some] connectedD(2) [OF assms(1) Some] show ?thesis
      by (auto simp: wp_simps pick_node_def)
  qed
qed

lemma wp_send_node_request:
  assumes "sound_platform pf" "node \<noteq> None"
    and "\<And>w'. Q () (s, w')" and "\<And>f w'. f \<noteq> Undefined \<Longrightarrow> F f (s, w')"
  shows "wp (send_node_request cd pf node request) Q F (s, w)"
  using assms(2) unfolding send_node_request_def wp_simps
  by (auto intro!: wp_on_snd sound_platformD [OF assms(1)] assms(3,4))

text \<open>After \<open>init_nodes\<close> the node map does not change while a request goes out.\<close>

lemma wp_send_request:
  assumes pf: "sound_platform pf" and wf: "swarm_wf s"
    and ne: "sw_initial_nodes s \<noteq> [] \<or> (\<exists>e m. sw_nodes s = Some (e # m))"
  shows "wp (send_request cd pf request policy)
    (\<lambda>_ (s', w'). swarm_wf s' \<and> sw_initial_nodes s' = [] \<and> (\<exists>m. sw_nodes s' = Some m \<and> m \<noteq> [])
       \<and> (sw_initial_nodes s = [] \<longrightarrow> s' = s))
    (\<lambda>f (s', w'). f \<noteq> Undefined \<and> swarm_wf s') (s, w)"
  unfolding send_request_def wp_andthen
proof (rule wp_mono [OF wp_init_nodes [OF pf wf]], goal_cases)
  case (1 u sw)
  obtain s1 w1 where sw: "sw = (s1, w1)" by fastforce
  obtain m where m: "sw_nodes s1 = Some m" "m \<noteq> []" "connected m"
  proof (cases "sw_initial_nodes s = []")
    case True
    with 1 sw ne that show ?thesis by (auto simp: swarm_wf_def)
  next
    case False
    with 1 sw obtain m where m: "sw_nodes s1 = Some m" "dom (map_of m) = fst ` set (sw_initial_nodes s)"
      "connected m"
      by (auto simp: swarm_wf_def)
    from False m(2) have "m \<noteq> []" by auto
    with m that show ?thesis by blast
  qed
  have s1: "swarm_wf s1 \<and> sw_initial_nodes s1 = [] \<and> (\<exists>m. sw_nodes s1 = Some m \<and> m \<noteq> [])
      \<and> (sw_initial_nodes s = [] \<longrightarrow> s1 = s)"
    using 1 sw m(1,2) by (auto split: if_splits)
  have node: "ni_node (snd e) \<noteq> None" if "e \<in> set m" for e
    using connected_entry [OF m(3) that] .
  show ?case
  proof (cases policy)
    case Broadcast
    have "wp (for_each m (\<lambda>e. send_node_request cd pf (ni_node (snd e)) request))
        (\<lambda>_ (s', w'). s' = s1) (\<lambda>f (s', w'). f \<noteq> Undefined \<and> s' = s1) (s1, w1)"
      by (rule wp_for_each) (auto intro!: wp_send_node_request [OF pf] dest: node)
    then show ?thesis
      unfolding sw wp_sbind wp_gets wp_the_nodes m option.case Broadcast send_policy.case
      by (rule wp_mono) (use s1 in auto)
  qed (use m s1 in \<open>auto simp: sw wp_gets wp_the_nodes wp_sbind [of "on_fst m" for m]
      wp_sbind [of the_nodes] intro!: wp_pick_node wp_send_node_request [OF pf]\<close>)
qed auto

lemma um_update_same:
  assumes "um_wf m" "map_of m u = Some i"
  shows "um_wf (AList.update u j m)" "dom (map_of (AList.update u j m)) = dom (map_of m)"
  using assms by (auto simp: um.wf_put)

text \<open>A status request changes the times of last messages only.\<close>

definition only_times :: "('n, 't) node_map \<Rightarrow> ('n, 't, 'i) swarm \<Rightarrow> ('n, 't, 'i) swarm \<Rightarrow> bool" where
  "only_times m s s' \<longleftrightarrow> (\<exists>m'. s' = s\<lparr>sw_nodes := Some m'\<rparr> \<and> um_wf m' \<and> peers m' = peers m)"

lemma only_times_refl: "sw_nodes s = Some m \<Longrightarrow> connected m \<Longrightarrow> only_times m s s"
  unfolding only_times_def by (intro exI [of _ m]) (auto simp: connected_def)

lemma only_times_frame:
  assumes "only_times m s s'"
  shows "sw_initial_nodes s' = sw_initial_nodes s" "sw_generation s' = sw_generation s"
    "sw_response_handlers s' = sw_response_handlers s" "sw_init_handler s' = sw_init_handler s"
    "sw_init_called s' = sw_init_called s" "sw_primary_node s' = sw_primary_node s"
    "sw_fastest_node s' = sw_fastest_node s" "sw_last_status s' = sw_last_status s"
  using assms by (auto simp: only_times_def)

lemma only_times_trans:
  "only_times m s s1 \<Longrightarrow> sw_nodes s1 = Some m1 \<Longrightarrow> only_times m1 s1 s2 \<Longrightarrow> only_times m s s2"
  unfolding only_times_def by auto

lemma wp_send_status_request:
  assumes pf: "sound_platform pf" and cr: "sound_crypto cr"
    and m: "sw_nodes s = Some m" "connected m"
  shows "wp (send_status_request cd cr pf u)
    (\<lambda>_ (s', w'). only_times m s s')
    (\<lambda>f (s', w'). f \<noteq> Undefined \<and> only_times m s s') (s, w)"
proof -
  note same = only_times_refl [OF m]
  have set: "only_times m s (set_info u (i\<lparr>ni_last_status_request_sent := a, ni_last_message_sent := b\<rparr>) s)"
    if "map_of m u = Some i" for i a b
    unfolding only_times_def using m that
    by (intro exI [of _ "AList.update u (i\<lparr>ni_last_status_request_sent := a, ni_last_message_sent := b\<rparr>) m"])
      (auto simp: set_info_def connected_def um.wf_put peers_def fun_eq_iff)
  show ?thesis
  proof (cases "map_of m u")
    case None
    with m same show ?thesis by (simp add: send_status_request_def wp_simps)
  next
    case (Some i)
    with connectedD(2) [OF m(2) Some] obtain n where n: "ni_node i = Some n" by auto
    show ?thesis
      unfolding send_status_request_def wp_sbind wp_the_nodes m option.case Some
      by (intro wp_sign [OF pf cr])
        (auto simp: wp_simps n same set [OF Some] intro!: wp_on_snd sound_platformD [OF pf])
  qed
qed

lemma wp_send_status_requests:
  assumes pf: "sound_platform pf" and cr: "sound_crypto cr"
    and m: "sw_nodes s = Some m" "connected m"
  shows "wp (for_each us (send_status_request cd cr pf))
    (\<lambda>_ (s', w'). only_times m s s')
    (\<lambda>f (s', w'). f \<noteq> Undefined \<and> only_times m s s') (s, w)"
proof -
  show ?thesis
  proof (rule wp_for_each)
    show "case (s, w) of (s', w') \<Rightarrow> only_times m s s'"
      using only_times_refl [OF m] by simp
  next
    fix u and sw :: "('b, 'c, 'd) swarm \<times> 'a"
    assume "case sw of (s', w') \<Rightarrow> only_times m s s'"
    then obtain s1 w1 where sw: "sw = (s1, w1)" and s1: "only_times m s s1"
      by (cases sw) auto
    from s1 obtain m1 where m1: "sw_nodes s1 = Some m1" "um_wf m1" "peers m1 = peers m"
      by (auto simp: only_times_def)
    have "connected m1" using connected_peers [OF m(2) m1(2,3)] .
    from wp_send_status_request [OF pf cr m1(1) this, of cd u w1]
    show "wp (send_status_request cd cr pf u) (\<lambda>_ (s', w'). only_times m s s')
      (\<lambda>f (s', w'). f \<noteq> Undefined \<and> only_times m s s') sw"
      unfolding sw
      by (rule wp_mono) (auto dest: only_times_trans [OF s1 m1(1)])
  qed
qed

section \<open>The scan of a status response\<close>

definition sound_json :: "jsoncpp \<Rightarrow> bool" where
  "sound_json js \<longleftrightarrow> (\<forall>v k. js_member js v k \<noteq> Inl Undefined) \<and> (\<forall>v n. js_index js v n \<noteq> Inl Undefined)
     \<and> (\<forall>v. js_as_string js v \<noteq> Inl Undefined) \<and> (\<forall>v. js_as_uint js v \<noteq> Inl Undefined)"

lemma sound_jsonD:
  assumes "sound_json js"
  shows "js_member js v k \<noteq> Inl Undefined" "js_index js v n \<noteq> Inl Undefined"
    "js_as_string js v \<noteq> Inl Undefined" "js_as_uint js v \<noteq> Inl Undefined"
    "member_string js v k \<noteq> Inl Undefined"
  using assms by (auto simp: sound_json_def member_string_def cbind_Inl_iff)

text \<open>The latency a peer has once the relaying node's own was measured as \<open>dur\<close>.\<close>

definition latency :: "('n, 't) node_map \<Rightarrow> uuid \<Rightarrow> int \<Rightarrow> uuid \<Rightarrow> int" where
  "latency m relay dur u =
     (if u = relay then dur
      else case map_of m u of Some i \<Rightarrow> ni_last_status_duration i | None \<Rightarrow> 0)"

text \<open>The entry a listed peer gets: a known one keeps its connection.\<close>

definition kept_entry ::
  "('n, 't) node_map \<Rightarrow> uuid \<Rightarrow> int \<Rightarrow> uuid \<Rightarrow> ('n, 't) node_info \<Rightarrow> bool" where
  "kept_entry m relay dur u i \<longleftrightarrow> ni_last_status_duration i = latency m relay dur u
     \<and> (\<forall>old. map_of m u = Some old \<longrightarrow>
          i = old\<lparr>ni_last_status_duration := latency m relay dur u\<rparr>)"

definition fastest_of :: "('n, 't) node_map \<Rightarrow> uuid \<Rightarrow> int \<Rightarrow> uuid set \<Rightarrow> uuid \<Rightarrow> int \<Rightarrow> bool" where
  "fastest_of m relay dur U best time \<longleftrightarrow>
     (best = relay \<and> time = dur \<or> best \<in> U \<and> time = latency m relay dur best \<and> 0 < time)
     \<and> time \<le> dur \<and> (\<forall>u \<in> U. 0 < latency m relay dur u \<longrightarrow> time \<le> latency m relay dur u)"

definition grown :: "('n, 't) node_map \<Rightarrow> ('n, 't, 'i) swarm \<Rightarrow> ('n, 't, 'i) swarm \<Rightarrow> bool" where
  "grown m s0 s \<longleftrightarrow> (\<exists>mc. s = s0\<lparr>sw_nodes := Some mc\<rparr> \<and>
     (\<forall>u. map_of mc u = map_of m u \<or> map_of m u = None \<and> map_of mc u = Some empty_info))"

definition scan_inv ::
  "('n, 't) node_map \<Rightarrow> uuid \<Rightarrow> int \<Rightarrow> ('n, 't, 'i) swarm \<Rightarrow> uuid set \<Rightarrow> ('n, 't) status_scan
     \<Rightarrow> ('n, 't, 'i) swarm \<Rightarrow> bool" where
  "scan_inv m relay dur s0 U ss s \<longleftrightarrow> grown m s0 s \<and> connected (ss_new_nodes ss)
     \<and> dom (map_of (ss_new_nodes ss)) = U
     \<and> (\<forall>u i. map_of (ss_new_nodes ss) u = Some i \<longrightarrow> kept_entry m relay dur u i)
     \<and> fastest_of m relay dur U (ss_fastest_node ss) (ss_fastest_time ss)"

lemma grown_info_at:
  assumes "grown m s0 s" "connected m"
    and "\<And>i. map_of m u = Some i \<Longrightarrow> ni_node i \<noteq> None \<Longrightarrow> ni_status_timer i \<noteq> None \<Longrightarrow> Q i (s, w)"
    and "\<And>s'. map_of m u = None \<Longrightarrow> grown m s0 s' \<Longrightarrow> Q empty_info (s', w)"
  shows "wp (info_at u) Q F (s, w)"
proof -
  from assms(1) obtain mc where s: "s = s0\<lparr>sw_nodes := Some mc\<rparr>"
    and mc: "\<And>u. map_of mc u = map_of m u \<or> map_of m u = None \<and> map_of mc u = Some empty_info"
    by (auto simp: grown_def)
  show ?thesis
  proof (cases "map_of m u")
    case None
    have "grown m s0 (set_info u empty_info s)"
      unfolding grown_def using mc None
      by (intro exI [of _ "AList.update u empty_info mc"]) (auto simp: s set_info_def)
    with None mc [of u] assms(1) assms(4) show ?thesis
      by (auto simp: wp_info_at s)
  next
    case (Some i)
    with mc [of u] assms(3) connectedD [OF assms(2)] show ?thesis
      by (auto simp: wp_info_at s)
  qed
qed

lemma fastest_of_insert:
  assumes "fastest_of m relay dur U best time" "d = latency m relay dur u"
  shows "fastest_of m relay dur (insert u U) (if 0 < d \<and> d < time then u else best)
    (if 0 < d \<and> d < time then d else time)"
  using assms unfolding fastest_of_def by (auto simp: latency_def)

lemma scan_inv_step:
  assumes "scan_inv m relay dur s0 U ss s1" "grown m s0 s" "kept_entry m relay dur u i"
    and "ni_node i \<noteq> None" "ni_status_timer i \<noteq> None"
  shows "let faster = 0 < ni_last_status_duration i \<and> ni_last_status_duration i < ss_fastest_time ss in
    scan_inv m relay dur s0 (insert u U)
      \<lparr>ss_new_nodes = AList.update u i (ss_new_nodes ss), ss_new_uuids = us,
       ss_fastest_time = (if faster then ni_last_status_duration i else ss_fastest_time ss),
       ss_fastest_node = (if faster then u else ss_fastest_node ss)\<rparr> s"
  using assms fastest_of_insert [of m relay dur U "ss_fastest_node ss" "ss_fastest_time ss"
      "ni_last_status_duration i" u]
  unfolding scan_inv_def Let_def
  by (auto simp: connected_update kept_entry_def um.keys_put)

lemma wp_scan_peer:
  assumes pf: "sound_platform pf" and js: "sound_json js" and m: "connected m" "relay \<in> dom (map_of m)"
    and inv: "scan_inv m relay dur s0 U ss s"
  shows "wp (scan_peer js pf relay dur node ss)
    (\<lambda>ss' (s', w'). \<exists>u. member_string js node ''uuid'' = Inr u \<and> scan_inv m relay dur s0 (insert u U) ss' s')
    (\<lambda>f _. f \<noteq> Undefined) (s, w)"
proof (cases "member_string js node ''uuid''")
  case (Inl f)
  with sound_jsonD(5) [OF js, of node "''uuid''"] show ?thesis by (auto simp: scan_peer_def wp_simps)
next
  case (Inr u)
  have grown: "grown m s0 s" using inv by (simp add: scan_inv_def)
  have finish: "wp (sbind (if u = relay
            then andthen (schedule_status_request pf u (ni_status_timer info))
                   (ret (info\<lparr>ni_last_status_duration := dur\<rparr>))
            else ret info) (\<lambda>info'.
     let faster = 0 < ni_last_status_duration info'
                  \<and> ni_last_status_duration info' < ss_fastest_time ss
     in ret \<lparr>ss_new_nodes = AList.update u info' (ss_new_nodes ss),
             ss_new_uuids = us,
             ss_fastest_time =
               (if faster then ni_last_status_duration info' else ss_fastest_time ss),
             ss_fastest_node = (if faster then u else ss_fastest_node ss)\<rparr>))
      (\<lambda>ss' (s', w'). scan_inv m relay dur s0 (insert u U) ss' s')
      (\<lambda>f _. f \<noteq> Undefined) (s1, w1)"
    if "grown m s0 s1" "ni_node info \<noteq> None" "ni_status_timer info \<noteq> None"
      "kept_entry m relay dur u (if u = relay then info\<lparr>ni_last_status_duration := dur\<rparr> else info)"
    for info us s1 w1
  proof (cases "u = relay")
    case True
    with that(4) have k: "kept_entry m relay dur u (info\<lparr>ni_last_status_duration := dur\<rparr>)" by simp
    show ?thesis
      using scan_inv_step [OF inv that(1) k] that(2,3) True
      by (auto simp: wp_simps Let_def intro!: wp_schedule [OF pf])
  next
    case False
    with that(4) have k: "kept_entry m relay dur u info" by simp
    show ?thesis
      using scan_inv_step [OF inv that(1) k] that(2,3) False by (auto simp: wp_simps Let_def)
  qed
  show ?thesis
    unfolding scan_peer_def wp_sbind [of "lift_cxx c" for c] wp_lift Inr sum.case
      wp_sbind [of "info_at u"]
  proof (rule grown_info_at [OF grown m(1)], goal_cases)
    case (1 i)
    then have "kept_entry m relay dur u (if u = relay then i\<lparr>ni_last_status_duration := dur\<rparr> else i)"
      by (auto simp: kept_entry_def latency_def)
    from 1(2) obtain n where "ni_node i = Some n" by auto
    with finish [OF grown 1(2,3) \<open>kept_entry m relay dur u _\<close>] show ?case by simp
  next
    case (2 s1)
    with m(2) have not_relay: "u \<noteq> relay" by auto
    have fresh: "kept_entry m relay dur u (empty_info\<lparr>ni_node := Some n, ni_host := h, ni_port := p,
        ni_status_timer := Some t\<rparr>)" for n h p t
      using 2 not_relay by (simp add: kept_entry_def latency_def empty_info_def)
    from finish [OF 2(2)] fresh not_relay show ?case
      unfolding wp_sbind [of "if b then c else d" for b c d]
      by (auto simp: empty_info_def wp_sbind cbind_Inl_iff sound_jsonD [OF js]
          intro!: wp_lift_any wp_add_node [OF pf])
  qed
qed

text \<open>The uuids a status response lists.\<close>

definition listed :: "jsoncpp \<Rightarrow> json list \<Rightarrow> uuid set" where
  "listed js nodes = {u. \<exists>n \<in> set nodes. member_string js n ''uuid'' = Inr u}"

lemma listed_simps [simp]:
  "listed js [] = {}"
  "member_string js n ''uuid'' = Inr u \<Longrightarrow> listed js (n # ns) = insert u (listed js ns)"
  by (auto simp: listed_def)

lemma wp_scan_peers:
  assumes pf: "sound_platform pf" and js: "sound_json js" and m: "connected m" "relay \<in> dom (map_of m)"
  shows "scan_inv m relay dur s0 U ss s \<Longrightarrow> wp (scan_peers js pf relay dur nodes ss)
    (\<lambda>ss' (s', w'). scan_inv m relay dur s0 (U \<union> listed js nodes) ss' s')
    (\<lambda>f _. f \<noteq> Undefined) (s, w)"
proof (induction nodes arbitrary: U ss s w)
  case Nil
  then show ?case by (simp add: wp_simps)
next
  case (Cons node nodes)
  have step: "wp (scan_peers js pf relay dur nodes ss1)
      (\<lambda>ss' (s', w'). scan_inv m relay dur s0 (U \<union> listed js (node # nodes)) ss' s')
      (\<lambda>f _. f \<noteq> Undefined) (s1, w1)"
    if "member_string js node ''uuid'' = Inr u" "scan_inv m relay dur s0 (insert u U) ss1 s1"
    for u ss1 s1 w1
    using Cons.IH [OF that(2), of w1] that(1) by simp
  show ?case
    unfolding scan_peers.simps wp_sbind
    by (rule wp_mono [OF wp_scan_peer [OF pf js m Cons.prems]]) (auto intro: step)
qed

section \<open>What a status response changes\<close>

text \<open>
  The new view of the swarm: exactly the listed peers, connections of known peers kept, and a
  fastest node chosen by latency.
\<close>

definition new_view ::
  "('n, 't) node_map \<Rightarrow> uuid \<Rightarrow> int \<Rightarrow> uuid set \<Rightarrow> ('n, 't, 'i) swarm \<Rightarrow> bool" where
  "new_view m relay dur U s \<longleftrightarrow>
     (\<exists>m'. sw_nodes s = Some m' \<and> connected m' \<and> dom (map_of m') = U
       \<and> (\<forall>u i. map_of m' u = Some i \<longrightarrow> ni_last_status_duration i = latency m relay dur u
           \<and> (\<forall>old. map_of m u = Some old \<longrightarrow> ni_node i = ni_node old
                \<and> ni_status_timer i = ni_status_timer old \<and> ni_host i = ni_host old
                \<and> ni_port i = ni_port old)))
     \<and> (\<exists>time. fastest_of m relay dur U (sw_fastest_node s) time)"

lemma peers_eqD:
  assumes "peers m' = peers m" "map_of m' u = Some i"
  shows "\<exists>j. map_of m u = Some j \<and> ni_node i = ni_node j \<and> ni_status_timer i = ni_status_timer j
    \<and> ni_host i = ni_host j \<and> ni_port i = ni_port j
    \<and> ni_last_status_duration i = ni_last_status_duration j"
  using fun_cong [OF assms(1), of u] assms(2) by (cases "map_of m u") (auto simp: peers_def)

lemma new_viewI:
  assumes "scan_inv m relay dur s0 U ss s1" "only_times (ss_new_nodes ss) s2 s'"
    and "sw_fastest_node s2 = ss_fastest_node ss"
  shows "new_view m relay dur U s'"
proof -
  from assms(2) obtain m' where s': "s' = s2\<lparr>sw_nodes := Some m'\<rparr>" and m': "um_wf m'"
    "peers m' = peers (ss_new_nodes ss)"
    by (auto simp: only_times_def)
  have new: "connected (ss_new_nodes ss)" "dom (map_of (ss_new_nodes ss)) = U"
    "\<And>u i. map_of (ss_new_nodes ss) u = Some i \<Longrightarrow> kept_entry m relay dur u i"
    "fastest_of m relay dur U (ss_fastest_node ss) (ss_fastest_time ss)"
    using assms(1) by (auto simp: scan_inv_def)
  have "connected m'" "dom (map_of m') = U"
    using connected_peers [OF new(1) m'] m'(2) new(2) by (simp_all flip: dom_peers)
  moreover have "ni_last_status_duration i = latency m relay dur u
           \<and> (\<forall>old. map_of m u = Some old \<longrightarrow> ni_node i = ni_node old
                \<and> ni_status_timer i = ni_status_timer old \<and> ni_host i = ni_host old
                \<and> ni_port i = ni_port old)" if i: "map_of m' u = Some i" for u i
  proof -
    obtain j where j: "map_of (ss_new_nodes ss) u = Some j" and eq: "ni_node i = ni_node j"
      "ni_status_timer i = ni_status_timer j" "ni_host i = ni_host j" "ni_port i = ni_port j"
      "ni_last_status_duration i = ni_last_status_duration j"
      using peers_eqD [OF m'(2) i] by blast
    from new(3) [OF j] have dur: "ni_last_status_duration j = latency m relay dur u"
      and old: "\<And>old. map_of m u = Some old \<Longrightarrow> j = old\<lparr>ni_last_status_duration := latency m relay dur u\<rparr>"
      by (simp_all add: kept_entry_def)
    show ?thesis
    proof (intro conjI allI impI)
      fix old assume "map_of m u = Some old"
      note j_old = old [OF this]
      show "ni_node i = ni_node old" "ni_status_timer i = ni_status_timer old"
        "ni_host i = ni_host old" "ni_port i = ni_port old"
        using eq by (simp_all add: j_old)
    qed (simp add: eq dur)
  qed
  ultimately show ?thesis
    using new(4) assms(3) s' unfolding new_view_def by auto
qed

definition peer_index :: "jsoncpp \<Rightarrow> string \<Rightarrow> json list cxx" where
  "peer_index js text = cbind (parse_module_status js text) (\<lambda>sw.
     cbind (js_member js sw ''status'') (\<lambda>st. cbind (js_member js st ''peer_index'') (\<lambda>p.
       Inr (js_elements js p))))"

definition reported_primary :: "jsoncpp \<Rightarrow> string \<Rightarrow> uuid cxx" where
  "reported_primary js text = cbind (parse_module_status js text) (\<lambda>sw.
     cbind (js_member js sw ''status'') (\<lambda>st. cbind (js_member js st ''primary'') (\<lambda>p.
       member_string js p ''uuid'')))"

lemma wp_apply_status:
  assumes pf: "sound_platform pf" and js: "sound_json js" and cr: "sound_crypto cr"
    and m: "connected m" "relay \<in> dom (map_of m)" and s: "sw_nodes s = Some m"
  shows "wp (apply_status cd js cr pf relay dur status)
    (\<lambda>_ (s', w'). \<exists>ps. peer_index js (sr_module_status_json status) = Inr ps
       \<and> new_view m relay dur (listed js ps) s'
       \<and> reported_primary js (sr_module_status_json status) = Inr (sw_primary_node s')
       \<and> sw_last_status s' = status \<and> sw_init_handler s' = sw_init_handler s
       \<and> sw_generation s' = Suc (sw_generation s) \<and> sw_initial_nodes s' = sw_initial_nodes s)
    (\<lambda>f _. f \<noteq> Undefined) (s, w)"
proof -
  note js_def = sound_jsonD [OF js]
  have parse: "parse_module_status js t \<noteq> Inl Undefined" for t
    by (auto simp: parse_module_status_def cbind_Inl_iff js_def split: option.splits)
  show ?thesis
  proof (cases "cbind (parse_module_status js (sr_module_status_json status)) (\<lambda>sw.
      cbind (js_member js sw ''status'') (\<lambda>st. cbind (js_member js st ''peer_index'') (\<lambda>p. Inr (sw, st, p))))")
    case (Inl f)
    with parse js_def show ?thesis
      by (auto simp: apply_status_def wp_simps cbind_Inl_iff cbind_Inr_iff split: sum.splits)
  next
    case (Inr x)
    then obtain sw st p where ok: "parse_module_status js (sr_module_status_json status) = Inr sw"
      "js_member js sw ''status'' = Inr st" "js_member js st ''peer_index'' = Inr p"
      by (auto simp: cbind_Inr_iff)
    have ps: "peer_index js (sr_module_status_json status) = Inr (js_elements js p)"
      by (simp add: peer_index_def ok)
    let ?ss0 = "\<lparr>ss_new_nodes = [], ss_new_uuids = [], ss_fastest_time = dur, ss_fastest_node = relay\<rparr>"
    have "grown m s s" using s by (auto simp: grown_def intro!: exI [of _ m])
    then have "scan_inv m relay dur s {} ?ss0 s"
      by (simp add: scan_inv_def fastest_of_def)
    note scan = wp_scan_peers [OF pf js m this, of "js_elements js p" w]
    show ?thesis
      unfolding apply_status_def wp_sbind [of "lift_cxx c" for c] wp_lift ok sum.case cbind.simps
        wp_sbind [of "scan_peers a b c d e f" for a b c d e f]
    proof (rule wp_mono [OF scan], goal_cases)
      case (1 ss sw1)
      obtain s1 w1 where sw1: "sw1 = (s1, w1)" by fastforce
      with 1 have inv: "scan_inv m relay dur s (listed js (js_elements js p)) ss s1" by simp
      then have new: "connected (ss_new_nodes ss)" and s1: "sw_init_handler s1 = sw_init_handler s"
        "sw_generation s1 = sw_generation s" "sw_initial_nodes s1 = sw_initial_nodes s"
        by (auto simp: scan_inv_def grown_def)
      show ?case
      proof (cases "cbind (js_member js st ''primary'') (\<lambda>p. member_string js p ''uuid'')")
        case (Inl f)
        with js_def show ?thesis by (auto simp: wp_simps sw1 cbind_Inl_iff)
      next
        case (Inr primary)
        let ?s2 = "(install_nodes (ss_new_nodes ss) s1)\<lparr>sw_primary_node := primary,
                 sw_fastest_node := ss_fastest_node ss, sw_last_status := status\<rparr>"
        have s2: "sw_nodes ?s2 = Some (ss_new_nodes ss)" by simp
        have prim: "reported_primary js (sr_module_status_json status) = Inr primary"
          using Inr by (simp add: reported_primary_def ok)
        show ?thesis
          unfolding wp_andthen wp_modify sw1 wp_sbind [of "lift_cxx c" for c] wp_lift Inr sum.case
          by (rule wp_mono [OF wp_send_status_requests [OF pf cr s2 new]])
            (auto simp: ps prim s1 only_times_frame intro: new_viewI [OF inv])
      qed
    qed auto
  qed
qed

section \<open>What passes the screening\<close>

definition screened ::
  "codec \<Rightarrow> crypto_ops \<Rightarrow> ('n, 't, 'i) swarm \<Rightarrow> uuid \<Rightarrow> string \<Rightarrow> response_handler \<Rightarrow> envelope \<Rightarrow> bool" where
  "screened cd cr s relay data h env \<longleftrightarrow> (\<exists>m. sw_nodes s = Some m
     \<and> relay \<in> dom (map_of m) \<and> par_envelope cd data = Some env
     \<and> (env_sender env = [] \<or> env_sender env \<in> dom (map_of m))
     \<and> (env_signature env = [] \<or> co_verify cr env = Inr True)
     \<and> map_of (sw_response_handlers s) (payload_case (env_payload env)) = Some h)"

lemma only_times_received:
  assumes "sw_nodes s = Some m" "connected m" "map_of m u = Some i"
  shows "only_times m s (set_info u (i\<lparr>ni_last_message_received := now\<rparr>) s)"
  unfolding only_times_def using assms
  by (intro exI [of _ "AList.update u (i\<lparr>ni_last_message_received := now\<rparr>) m"])
    (auto simp: set_info_def connected_def um.wf_put peers_def fun_eq_iff)

lemma wp_back_off_all:
  assumes "sound_platform pf" "connected m"
  shows "wp (for_each m (\<lambda>e. sbind (deref (ni_node (snd e))) (\<lambda>n. on_snd (pf_back_off pf n v))))
    (\<lambda>_ (s', w'). s' = s) (\<lambda>f (s', w'). f \<noteq> Undefined \<and> s' = s) (s, w)"
  by (rule wp_for_each)
    (auto simp: wp_simps intro!: wp_on_snd sound_platformD [OF assms(1)] split: option.splits
      dest: connected_entry [OF assms(2)])

lemma wp_screen:
  assumes pf: "sound_platform pf" and cr: "sound_crypto cr"
    and m: "sw_nodes s = Some m" "connected m"
  shows "wp (screen_node_message cd cr pf relay data)
    (\<lambda>r (s', w'). only_times m s s' \<and> (case r of Inl b \<Rightarrow> True | Inr (h, env) \<Rightarrow> screened cd cr s relay data h env))
    (\<lambda>f (s', w'). f \<noteq> Undefined \<and> only_times m s s') (s, w)"
proof (cases "map_of m relay")
  case None
  with m show ?thesis by (simp add: screen_node_message_def wp_simps only_times_refl)
next
  case (Some i)
  let ?s1 = "\<lambda>now. set_info relay (i\<lparr>ni_last_message_received := now\<rparr>) s"
  note s1 = only_times_received [OF m Some]
  show ?thesis
    unfolding screen_node_message_def wp_sbind [of the_nodes] wp_the_nodes m option.case Some
      wp_sbind [of "on_snd p" for p] wp_andthen [of "on_fst p" for p] wp_modify
  proof (rule wp_on_snd [OF sound_platformD(8) [OF pf]], goal_cases)
    case (1 now w1)
    obtain m1 where m1: "sw_nodes (?s1 now) = Some m1" "connected m1"
      using m connectedD(2,3) [OF m(2) Some]
        connected_update [OF m(2), of "i\<lparr>ni_last_message_received := now\<rparr>" relay] by auto
    show ?case
    proof (cases "par_envelope cd data")
      case None
      then show ?thesis using s1
        by (auto simp: wp_simps log_invalid_message_def)
    next
      case env: (Some env)
      have scr: "screened cd cr s relay data h env"
        if "map_of (sw_response_handlers s) (payload_case (env_payload env)) = Some h"
          "env_signature env = [] \<or> co_verify cr env = Inr True"
          "env_sender env = [] \<or> env_sender env \<in> dom (map_of m)" for h
        using that env m(1) Some by (auto simp: screened_def)
      have rest: "wp (sbind the_nodes (\<lambda>m. andthen (for_each m (\<lambda>e. sbind (deref (ni_node (snd e))) (\<lambda>n.
                             on_snd (pf_back_off pf n v))))
                  (sbind (on_fst (gets sw_response_handlers)) (\<lambda>hs.
                   ret (case map_of hs (payload_case (env_payload env)) of
                          None \<Rightarrow> Inl False
                        | Some h \<Rightarrow> Inr (h, env))))))
          (\<lambda>r (s', w'). only_times m s s' \<and> (case r of Inl b \<Rightarrow> True | Inr (h, env) \<Rightarrow> screened cd cr s relay data h env))
          (\<lambda>f (s', w'). f \<noteq> Undefined \<and> only_times m s s') (?s1 now, w1)"
        if "env_signature env = [] \<or> co_verify cr env = Inr True"
          "env_sender env = [] \<or> env_sender env \<in> dom (map_of m)" for v
        unfolding wp_sbind [of the_nodes] wp_the_nodes m1 option.case wp_andthen
        by (rule wp_mono [OF wp_back_off_all [OF pf m1(2)]])
          (use s1 [of now] scr [OF _ that] in \<open>auto simp: wp_simps split: option.splits\<close>)
      show ?thesis
      proof (cases "env_sender env \<noteq> [] \<and> map_of m (env_sender env) = None")
        case True
        with s1 env show ?thesis by (simp add: wp_simps)
      next
        case False
        then have known: "env_sender env = [] \<or> env_sender env \<in> dom (map_of m)" by auto
        show ?thesis
        proof (cases "env_signature env = []")
          case True
          with rest [OF _ known] False env show ?thesis
            by (auto simp: Let_def wp_modify)
        next
          case signed: False
          show ?thesis
          proof (cases "co_verify cr env")
            case (Inl f)
            with cr have "f \<noteq> Undefined" by (auto simp: sound_crypto_def)
            with Inl signed False env s1 show ?thesis by (simp add: wp_simps)
          next
            case (Inr ok)
            with rest [OF _ known] signed False env s1 show ?thesis
              by (cases ok) (auto simp: wp_sbind [of "lift_cxx c" for c] wp_lift wp_ret wp_modify Let_def)
          qed
        qed
      qed
    qed
  next
    case (2 f w1)
    with only_times_refl [OF m] show ?case by simp
  qed
qed

end
