(* ===== verification/Db_Dispatch.thy ===== *)
theory Db_Dispatch
  imports Swarm_Base
begin

text \<open>
  \<open>database/db_dispatch.cpp\<close>: outgoing database requests are numbered, signed and tracked;
  responses are collected per request until enough of them agree; retries, client timeouts and
  swarm errors act on the table of outstanding requests.

  The state is the record \<open>db_dispatch\<close> beside the world \<open>'w\<close> of swarms.  The closures of type
  \<open>db_response_handler_t\<close> are values of a type \<open>'h\<close>; calling one is the parameter
  \<open>run_handler\<close>, a program over the whole state, so that a handler may call the dispatcher
  again and may throw.
\<close>

section \<open>State\<close>

text \<open>A timer waits for its expiry in milliseconds, or has no wait pending.\<close>

datatype timer = Idle | Armed u64

definition REQUEST_RETRY_TIME :: u64 where "REQUEST_RETRY_TIME = 1500"
definition BROADCAST_RETRY_TIME :: u64 where "BROADCAST_RETRY_TIME = 3000"

text \<open>
  \<open>db_dispatch::msg_info\<close>; a timer that is \<open>None\<close> is a null pointer.
\<close>

record ('sw, 'h) msg_info =
  mi_swarm :: 'sw
  mi_request :: envelope
  mi_policy :: send_policy
  mi_responses_required :: u64
  mi_retry_timer :: "timer option"
  mi_timeout_timer :: "timer option"
  mi_responses :: "(uuid \<times> database_response) list"
  mi_handler :: 'h

record ('sw, 'h) db_dispatch =
  next_nonce :: u64
  messages :: "(u64 \<times> ('sw, 'h) msg_info) list"

definition new_dispatch :: "('sw, 'h) db_dispatch" where
  "new_dispatch = \<lparr>next_nonce = 1, messages = []\<rparr>"

type_synonym ('sw, 'h, 'w, 'a) dispatch_prog = "(('sw, 'h) db_dispatch \<times> 'w, 'a) prog"

type_synonym ('sw, 'h, 'w) handler_call =
  "'h \<Rightarrow> database_response \<Rightarrow> error_code \<Rightarrow> (('sw, 'h) db_dispatch \<times> 'w, unit) prog"

definition set_message ::
  "u64 \<Rightarrow> ('sw, 'h) msg_info \<Rightarrow> ('sw, 'h) db_dispatch \<Rightarrow> ('sw, 'h) db_dispatch" where
  "set_message nonce info d = d\<lparr>messages := om_put nonce info (messages d)\<rparr>"

definition erase_message :: "u64 \<Rightarrow> ('sw, 'h) db_dispatch \<Rightarrow> ('sw, 'h) db_dispatch" where
  "erase_message nonce d = d\<lparr>messages := om_erase nonce (messages d)\<rparr>"

definition find_message :: "('sw, 'h) db_dispatch \<Rightarrow> u64 \<Rightarrow> ('sw, 'h) msg_info option" where
  "find_message d nonce = map_of (messages d) nonce"

section \<open>Sending a request\<close>

text \<open>
  The timeout of the library is a 64-bit number of seconds, which \<open>std::chrono\<close> turns into milliseconds in
  64 bits, so the product wraps here.  (The C++ types are signed: the result is undefined
  there for a timeout of more than \<open>2 ^ 63 / 1000\<close> seconds.)
\<close>

definition setup_client_timeout ::
  "u64 \<Rightarrow> ('sw, 'h) msg_info \<Rightarrow> ('sw, 'h) msg_info" where
  "setup_client_timeout api_timeout info =
     info\<lparr>mi_timeout_timer := Some (Armed (1000 * api_timeout))\<rparr>"

definition setup_request_policy ::
  "('w, 'sw) swarm_ops \<Rightarrow> ('sw, 'h) msg_info \<Rightarrow> send_policy \<Rightarrow> ('w, ('sw, 'h) msg_info) prog" where
  "setup_request_policy ops info policy =
     (if policy \<noteq> Fastest
      then sbind (so_honest_majority_size ops (mi_swarm info)) (\<lambda>size.
        ret (info\<lparr>mi_policy := policy, mi_responses_required := size,
                  mi_retry_timer := Some (Armed REQUEST_RETRY_TIME)\<rparr>))
      else ret (info\<lparr>mi_policy := policy, mi_responses_required := 1\<rparr>))"

definition register_swarm_handler :: "('w, 'sw) swarm_ops \<Rightarrow> 'sw \<Rightarrow> ('w, unit) prog" where
  "register_swarm_handler ops sw =
     sbind (so_register_response_handler ops sw kDatabaseResponse On_database_response) (\<lambda>_.
     sbind (so_register_response_handler ops sw kSwarmError On_swarm_error) (\<lambda>_. ret ()))"

definition request_msg :: "uuid \<Rightarrow> u64 \<Rightarrow> database_msg \<Rightarrow> database_msg" where
  "request_msg db_uuid nonce msg =
     msg\<lparr>dm_header := (dm_header msg)\<lparr>hd_db_uuid := db_uuid, hd_nonce := nonce\<rparr>\<rparr>"

definition send_message_to_swarm ::
  "codec \<Rightarrow> ('w, 'sw) swarm_ops \<Rightarrow> u64 \<Rightarrow> 'sw \<Rightarrow> uuid \<Rightarrow> database_msg \<Rightarrow> send_policy \<Rightarrow> 'h
     \<Rightarrow> ('sw, 'h, 'w, unit) dispatch_prog" where
  "send_message_to_swarm cd ops api_timeout sw db_uuid msg policy handler =
     sbind (on_fst (gets next_nonce)) (\<lambda>nonce.
     andthen (on_fst (modify (\<lambda>d. d\<lparr>next_nonce := nonce + 1\<rparr>)))
     (sbind (on_snd (so_sign_and_date_request ops sw
               (empty_envelope\<lparr>env_payload :=
                  P_database_msg (ser_msg cd (request_msg db_uuid nonce msg))\<rparr>) policy)) (\<lambda>env.
      sbind (on_snd (setup_request_policy ops
               (setup_client_timeout api_timeout
                 \<lparr>mi_swarm = sw, mi_request = env, mi_policy = Normal, mi_responses_required = 0,
                  mi_retry_timer = None, mi_timeout_timer = None, mi_responses = [],
                  mi_handler = handler\<rparr>) policy)) (\<lambda>info.
      andthen (on_fst (modify (set_message nonce info)))
      (andthen (on_snd (register_swarm_handler ops sw))
       (on_snd (so_send_request ops sw env policy)))))))"

section \<open>Collecting responses\<close>

definition responses_are_equal :: "codec \<Rightarrow> database_response \<Rightarrow> database_response \<Rightarrow> bool" where
  "responses_are_equal cd r1 r2 \<longleftrightarrow>
     response_case (dr_reply r1) = response_case (dr_reply r2)
     \<and> ser_response cd r1 = ser_response cd r2"

text \<open>The loop of \<open>qualify_response\<close>, which stops as soon as enough responses match.\<close>

fun matching_loop ::
  "codec \<Rightarrow> database_response \<Rightarrow> u64 \<Rightarrow> nat \<Rightarrow> (uuid \<times> database_response) list \<Rightarrow> bool" where
  "matching_loop cd mine required matches [] = False"
| "matching_loop cd mine required matches (r # rs) =
     (if responses_are_equal cd (snd r) mine
      then (if unat required \<le> Suc matches then True
            else matching_loop cd mine required (Suc matches) rs)
      else matching_loop cd mine required matches rs)"

text \<open>\<open>info.responses[sender]\<close> inserts a default response when there is none.\<close>

definition response_of :: "('sw, 'h) msg_info \<Rightarrow> uuid \<Rightarrow> database_response" where
  "response_of info sender =
     (case map_of (mi_responses info) sender of
        Some r \<Rightarrow> r
      | None \<Rightarrow> \<lparr>dr_header = empty_header, dr_reply = Rsp_not_set\<rparr>)"

definition qualify_response :: "codec \<Rightarrow> ('sw, 'h) msg_info \<Rightarrow> uuid \<Rightarrow> bool cxx" where
  "qualify_response cd info sender =
     (let num_responses = length (mi_responses info); required = mi_responses_required info
      in if num_responses < unat required then Inr False
         else if required = 1 then (if num_responses = 1 then Inr True else Inl Assert_fails)
         else if 1 < required
         then Inr (matching_loop cd (response_of info sender) required 0 (mi_responses info))
         else Inr False)"

definition add_response :: "uuid \<Rightarrow> database_response \<Rightarrow> ('sw, 'h) msg_info \<Rightarrow> ('sw, 'h) msg_info" where
  "add_response sender r info = info\<lparr>mi_responses := om_put sender r (mi_responses info)\<rparr>"

definition handle_swarm_response ::
  "codec \<Rightarrow> ('sw, 'h, 'w) handler_call \<Rightarrow> envelope \<Rightarrow> ('sw, 'h, 'w, bool) dispatch_prog" where
  "handle_swarm_response cd run_handler response =
     (case par_response cd (get_database_response (env_payload response)) of
        None \<Rightarrow> ret True
      | Some db_response \<Rightarrow>
          let nonce = hd_nonce (dr_header db_response) in
          sbind (on_fst (gets (\<lambda>d. find_message d nonce))) (\<lambda>found.
          case found of
            None \<Rightarrow> ret False
          | Some info \<Rightarrow>
              if \<not> has_quick_read (dr_reply db_response) \<and> env_signature response = []
              then ret False
              else
                let info' = add_response (env_sender response) db_response info in
                andthen (on_fst (modify (set_message nonce info')))
                (sbind (lift_cxx (qualify_response cd info' (env_sender response))) (\<lambda>ok.
                 if ok
                 then andthen (run_handler (mi_handler info')
                          (response_of info' (env_sender response)) No_error)
                      (andthen (on_fst (modify (erase_message nonce))) (ret False))
                 else ret False))))"

section \<open>Errors and timers\<close>

definition handle_swarm_error ::
  "codec \<Rightarrow> envelope \<Rightarrow> ('sw, 'h, 'w, bool) dispatch_prog" where
  "handle_swarm_error cd response =
     (case par_error cd (get_swarm_error (env_payload response)) of
        None \<Rightarrow> ret True
      | Some err \<Rightarrow>
          let nonce = (case stoull (se_data err) of None \<Rightarrow> 0 | Some n \<Rightarrow> n) in
          if nonce = 0 then ret True
          else sbind (on_fst (gets (\<lambda>d. find_message d nonce))) (\<lambda>found.
            case found of
              None \<Rightarrow> ret False
            | Some info \<Rightarrow>
                andthen
                  (if se_message err = TIMESTAMP_ERROR_MSG
                   then on_fst (modify (erase_message nonce))
                   else if se_message err = TOO_LARGE_ERROR_MSG
                   then on_fst (modify (erase_message nonce))
                   else if se_message err = TOO_BUSY_ERROR_MSG then ret ()
                   else if se_message err = DUPLICATE_ERROR_MSG
                   then (if mi_retry_timer info = None then raise Undefined
                         else on_fst (modify (set_message nonce
                                (info\<lparr>mi_retry_timer := Some Idle\<rparr>))))
                   else ret ())
                  (ret False)))"

definition handle_request_timeout ::
  "('w, 'sw) swarm_ops \<Rightarrow> error_code \<Rightarrow> u64 \<Rightarrow> ('sw, 'h, 'w, unit) dispatch_prog" where
  "handle_request_timeout ops ec nonce =
     (if ec = Operation_aborted then ret ()
      else if is_err ec then ret ()
      else sbind (on_fst (gets (\<lambda>d. find_message d nonce))) (\<lambda>found.
        case found of
          None \<Rightarrow> ret ()
        | Some info \<Rightarrow>
            if mi_retry_timer info = None then raise Undefined
            else
              andthen (on_fst (modify (set_message nonce
                  (info\<lparr>mi_retry_timer := Some (Armed BROADCAST_RETRY_TIME)\<rparr>))))
              (on_snd (so_send_request ops (mi_swarm info) (mi_request info) Broadcast))))"

definition timeout_response :: database_response where
  "timeout_response = \<lparr>dr_header = empty_header, dr_reply = Rsp_error ''Request timeout''\<rparr>"

text \<open>The closure that \<open>setup_client_timeout\<close> gives to the timer.\<close>

definition handle_client_timeout ::
  "('sw, 'h, 'w) handler_call \<Rightarrow> error_code \<Rightarrow> u64 \<Rightarrow> ('sw, 'h, 'w, unit) dispatch_prog" where
  "handle_client_timeout run_handler ec nonce =
     (if is_err ec then ret ()
      else sbind (on_fst (gets (\<lambda>d. find_message d nonce))) (\<lambda>found.
        case found of
          None \<Rightarrow> ret ()
        | Some info \<Rightarrow>
            andthen (run_handler (mi_handler info) timeout_response No_error)
              (on_fst (modify (erase_message nonce)))))"

section \<open>Asking for and creating a database\<close>

text \<open>
  The closures that \<open>has_uuid\<close> and \<open>create_uuid\<close> pass as the handler of their request; \<open>'cb\<close>
  stands for the callback they capture.  \<open>uuid_verdict\<close> is the value they call it with.
\<close>

datatype 'cb uuid_handler = Has_uuid_reply uuid 'cb | Create_uuid_reply uuid 'cb

fun uuid_verdict :: "'cb uuid_handler \<Rightarrow> database_response \<Rightarrow> error_code \<Rightarrow> db_error" where
  "uuid_verdict (Has_uuid_reply db_uuid cb) response err =
     (if is_err err then Database_error
      else if has_error (dr_reply response) then Database_error
      else if fst (get_has_db (dr_reply response)) \<noteq> db_uuid then Database_error
      else if snd (get_has_db (dr_reply response)) then Success else No_database)"
| "uuid_verdict (Create_uuid_reply db_uuid cb) response err =
     (if is_err err then Database_error
      else if has_error (dr_reply response) then Database_error
      else Success)"

fun uuid_callback :: "'cb uuid_handler \<Rightarrow> 'cb" where
  "uuid_callback (Has_uuid_reply _ cb) = cb"
| "uuid_callback (Create_uuid_reply _ cb) = cb"

definition has_uuid ::
  "codec \<Rightarrow> ('w, 'sw) swarm_ops \<Rightarrow> u64 \<Rightarrow> ('cb uuid_handler \<Rightarrow> 'h) \<Rightarrow> 'sw \<Rightarrow> uuid \<Rightarrow> 'cb
     \<Rightarrow> ('sw, 'h, 'w, unit) dispatch_prog" where
  "has_uuid cd ops api_timeout closure sw db_uuid callback =
     andthen (on_snd (register_swarm_handler ops sw))
       (send_message_to_swarm cd ops api_timeout sw db_uuid
         \<lparr>dm_header = empty_header, dm_request = Req_has_db\<rparr> Normal
         (closure (Has_uuid_reply db_uuid callback)))"

definition create_uuid ::
  "codec \<Rightarrow> ('w, 'sw) swarm_ops \<Rightarrow> u64 \<Rightarrow> ('cb uuid_handler \<Rightarrow> 'h) \<Rightarrow> 'sw \<Rightarrow> uuid \<Rightarrow> u64 \<Rightarrow> bool \<Rightarrow> 'cb
     \<Rightarrow> ('sw, 'h, 'w, unit) dispatch_prog" where
  "create_uuid cd ops api_timeout closure sw db_uuid max_size random_evict callback =
     andthen (on_snd (register_swarm_handler ops sw))
       (send_message_to_swarm cd ops api_timeout sw db_uuid
         \<lparr>dm_header = empty_header,
          dm_request = Req_create_db max_size (if random_evict then Evict_random else Evict_none)\<rparr>
         Normal (closure (Create_uuid_reply db_uuid callback)))"

section \<open>The table of outstanding requests\<close>

lemma find_message_simps [simp]:
  "find_message (set_message n i d) m = (if m = n then Some i else find_message d m)"
  "find_message (erase_message n d) m = (if m = n then None else find_message d m)"
  "find_message (d\<lparr>next_nonce := k\<rparr>) m = find_message d m"
  "next_nonce (set_message n i d) = next_nonce d"
  "next_nonce (erase_message n d) = next_nonce d"
  "find_message new_dispatch m = None"
  "erase_message n (set_message n i d) = erase_message n d"
  by (simp_all add: find_message_def set_message_def erase_message_def new_dispatch_def)

lemma add_response_simps [simp]:
  "mi_handler (add_response s r i) = mi_handler i"
  "mi_policy (add_response s r i) = mi_policy i"
  "mi_responses_required (add_response s r i) = mi_responses_required i"
  "mi_retry_timer (add_response s r i) = mi_retry_timer i"
  "mi_timeout_timer (add_response s r i) = mi_timeout_timer i"
  "mi_request (add_response s r i) = mi_request i"
  "mi_swarm (add_response s r i) = mi_swarm i"
  "mi_responses (add_response s r i) = om_put s r (mi_responses i)"
  "response_of (add_response s r i) s = r"
  by (simp_all add: add_response_def response_of_def)

text \<open>
  The well-formedness of a tracked request: its responses are a proper map, at least one
  response is required, the retry timer exists exactly for the policies that retry, and a
  request that needs one response has none yet (it is erased with the first).
\<close>

definition msg_wf :: "('sw, 'h) msg_info \<Rightarrow> bool" where
  "msg_wf info \<longleftrightarrow> om_wf (mi_responses info)
     \<and> mi_responses_required info \<noteq> 0
     \<and> (mi_retry_timer info = None \<longleftrightarrow> mi_policy info = Fastest)
     \<and> (mi_policy info = Fastest \<longrightarrow> mi_responses_required info = 1)
     \<and> mi_timeout_timer info \<noteq> None
     \<and> (mi_responses_required info = 1 \<longrightarrow> mi_responses info = [])"

definition dispatch_wf :: "('sw, 'h) db_dispatch \<Rightarrow> bool" where
  "dispatch_wf d \<longleftrightarrow> om_wf (messages d)
     \<and> (\<forall>n info. find_message d n = Some info \<longrightarrow> n < next_nonce d \<and> msg_wf info)"

definition handlers :: "('sw, 'h) db_dispatch \<Rightarrow> 'h set" where
  "handlers d = {h. \<exists>n info. find_message d n = Some info \<and> mi_handler info = h}"

definition distinct_handlers :: "('sw, 'h) db_dispatch \<Rightarrow> bool" where
  "distinct_handlers d \<longleftrightarrow> (\<forall>n m i j. find_message d n = Some i \<longrightarrow> find_message d m = Some j
     \<longrightarrow> mi_handler i = mi_handler j \<longrightarrow> n = m)"

lemma dispatch_wfD:
  "dispatch_wf d \<Longrightarrow> find_message d n = Some info \<Longrightarrow> n < next_nonce d"
  "dispatch_wf d \<Longrightarrow> find_message d n = Some info \<Longrightarrow> msg_wf info"
  by (auto simp: dispatch_wf_def)

lemma dispatch_wf_new: "dispatch_wf new_dispatch"
  by (simp add: dispatch_wf_def new_dispatch_def find_message_def)

lemma dispatch_wf_set [wf_intros]:
  "dispatch_wf d \<Longrightarrow> n < next_nonce d \<Longrightarrow> msg_wf i \<Longrightarrow> dispatch_wf (set_message n i d)"
  unfolding dispatch_wf_def by (auto simp: set_message_def find_message_def om_wf_put)

lemma dispatch_wf_erase [wf_intros]: "dispatch_wf d \<Longrightarrow> dispatch_wf (erase_message n d)"
  unfolding dispatch_wf_def
  by (auto simp: erase_message_def find_message_def om_wf_erase split: if_splits)

lemma u64_less_Suc: "(n :: u64) + 1 \<noteq> 0 \<Longrightarrow> n < n + 1"
  by unat_arith

lemma dispatch_wf_next [wf_intros]:
  assumes "dispatch_wf d" "next_nonce d + 1 \<noteq> 0"
  shows "dispatch_wf (d\<lparr>next_nonce := next_nonce d + 1\<rparr>)"
  using assms u64_less_Suc [of "next_nonce d"]
  unfolding dispatch_wf_def by (fastforce simp: find_message_def dest: order.strict_trans)

lemma handlers_new [simp]: "handlers new_dispatch = {}"
  by (simp add: handlers_def)

lemma handlers_next [simp]: "handlers (d\<lparr>next_nonce := k\<rparr>) = handlers d"
  by (simp add: handlers_def)

lemma handlers_set_same:
  "find_message d n = Some i \<Longrightarrow> mi_handler j = mi_handler i \<Longrightarrow>
     handlers (set_message n j d) = handlers d"
  unfolding handlers_def by (auto split: if_splits) (metis option.inject)

lemma handlers_set: "handlers (set_message n j d) \<subseteq> insert (mi_handler j) (handlers d)"
  unfolding handlers_def by (auto split: if_splits)

lemma handlers_erase: "handlers (erase_message n d) \<subseteq> handlers d"
  unfolding handlers_def by (auto split: if_splits)

lemma handlers_erase_own:
  "distinct_handlers d \<Longrightarrow> find_message d n = Some i \<Longrightarrow> mi_handler i \<notin> handlers (erase_message n d)"
  unfolding handlers_def distinct_handlers_def by (auto split: if_splits)

lemma handlersI: "find_message d n = Some i \<Longrightarrow> mi_handler i \<in> handlers d"
  by (auto simp: handlers_def)

lemma distinct_handlers_new: "distinct_handlers new_dispatch"
  by (simp add: distinct_handlers_def)

lemma distinct_handlers_next: "distinct_handlers (d\<lparr>next_nonce := k\<rparr>) = distinct_handlers d"
  by (simp add: distinct_handlers_def)

lemma distinct_handlers_erase: "distinct_handlers d \<Longrightarrow> distinct_handlers (erase_message n d)"
  unfolding distinct_handlers_def by (auto split: if_splits)

lemma distinct_handlers_set_same:
  "distinct_handlers d \<Longrightarrow> find_message d n = Some i \<Longrightarrow> mi_handler j = mi_handler i \<Longrightarrow>
     distinct_handlers (set_message n j d)"
  unfolding distinct_handlers_def by (auto split: if_splits)

lemma distinct_handlers_set_new:
  "distinct_handlers d \<Longrightarrow> mi_handler j \<notin> handlers d \<Longrightarrow> distinct_handlers (set_message n j d)"
  unfolding distinct_handlers_def by (auto split: if_splits dest: handlersI)

section \<open>When a set of responses is accepted\<close>

text \<open>
  The specification of the collation policy: as many distinct senders as required have sent a
  response equal to the one that has just arrived.
\<close>

definition agreeing :: "codec \<Rightarrow> (uuid \<times> database_response) list \<Rightarrow> database_response \<Rightarrow> uuid set" where
  "agreeing cd rs r = {s. \<exists>r'. map_of rs s = Some r' \<and> responses_are_equal cd r' r}"

lemma finite_agreeing [simp]: "finite (agreeing cd rs r)"
proof -
  have "agreeing cd rs r \<subseteq> dom (map_of rs)" by (auto simp: agreeing_def)
  then show ?thesis by (rule finite_subset) (rule finite_dom_map_of)
qed

lemma matching_loop_iff:
  "m < unat required \<Longrightarrow> matching_loop cd mine required m rs \<longleftrightarrow>
     unat required \<le> m + length (filter (\<lambda>e. responses_are_equal cd (snd e) mine) rs)"
  by (induction cd mine required m rs rule: matching_loop.induct) auto

lemma card_agreeing:
  assumes "om_wf rs"
  shows "card (agreeing cd rs r) = length (filter (\<lambda>e. responses_are_equal cd (snd e) r) rs)"
proof -
  let ?f = "filter (\<lambda>e. responses_are_equal cd (snd e) r) rs"
  have d: "distinct (map fst rs)" by (rule om.wf_distinct [OF assms])
  have "agreeing cd rs r = fst ` set ?f"
    using om.entry_iff [OF assms] unfolding agreeing_def by force
  also have "card (fst ` set ?f) = length ?f"
    using distinct_map_filter [OF d] by (metis distinct_card length_map list.set_map)
  finally show ?thesis .
qed

lemma agreeing_own: "map_of rs s = Some r \<Longrightarrow> s \<in> agreeing cd rs r"
  by (auto simp: agreeing_def responses_are_equal_def)

lemma card_agreeing_le: "om_wf rs \<Longrightarrow> card (agreeing cd rs r) \<le> length rs"
  by (simp add: card_agreeing)

lemma qualify_response_quorum:
  assumes "om_wf (mi_responses info)"
    and "map_of (mi_responses info) sender = Some r"
    and "mi_responses_required info \<noteq> 0"
    and "mi_responses_required info = 1 \<longrightarrow> length (mi_responses info) \<le> 1"
  shows "qualify_response cd info sender =
    Inr (unat (mi_responses_required info) \<le> card (agreeing cd (mi_responses info) r))"
proof -
  let ?q = "unat (mi_responses_required info)" and ?rs = "mi_responses info"
  have r: "response_of info sender = r" using assms(2) by (simp add: response_of_def)
  have own: "0 < card (agreeing cd ?rs r)"
    using agreeing_own [OF assms(2)] by (auto simp: card_gt_0_iff)
  have le: "card (agreeing cd ?rs r) \<le> length ?rs" using assms(1) by (rule card_agreeing_le)
  have q0: "0 < ?q" using assms(3) by (simp add: unat_gt_0)
  have q1: "?q = 1 \<longleftrightarrow> mi_responses_required info = 1" by (simp add: word_unat_eq_iff)
  have gt: "1 < mi_responses_required info \<longleftrightarrow> 1 < ?q" by (simp add: word_less_nat_alt)
  have loop: "matching_loop cd r (mi_responses_required info) 0 ?rs \<longleftrightarrow> ?q \<le> card (agreeing cd ?rs r)"
    using matching_loop_iff [OF q0, of cd r ?rs] by (simp add: card_agreeing [OF assms(1)])
  show ?thesis
  proof (cases "?q = 1")
    case True
    with q1 assms(4) have "length ?rs \<le> 1" by simp
    with own le have "length ?rs = 1" by linarith
    with True q1 own le show ?thesis
      by (simp add: qualify_response_def Let_def)
  next
    case False
    with q0 q1 gt le loop show ?thesis
      by (simp add: qualify_response_def Let_def r)
  qed
qed

text \<open>
  C6. The counting loop with its shortcuts decides exactly the specified policy, and the
  assertion in it cannot fail while a request that needs a single response has no other one.
\<close>

theorem qualify_response_decides_quorum:
  assumes "om_wf (mi_responses info)"
    and "map_of (mi_responses info) sender = Some r"
    and "mi_responses_required info \<noteq> 0"
    and "mi_responses_required info = 1 \<longrightarrow> length (mi_responses info) \<le> 1"
  shows "qualify_response cd info sender =
    Inr (unat (mi_responses_required info) \<le> card (agreeing cd (mi_responses info) r))"
  by (rule qualify_response_quorum [OF assms])

definition two_answers :: "(unit, unit) msg_info" where
  "two_answers = \<lparr>mi_swarm = (), mi_request = empty_envelope, mi_policy = Normal,
     mi_responses_required = 2, mi_retry_timer = Some Idle, mi_timeout_timer = Some Idle,
     mi_responses = [(''a'', sample_response ''v''), (''b'', sample_response ''v'')], mi_handler = ()\<rparr>"

lemma qualify_response_decides_quorum_witness:
  "qualify_response sample_cd two_answers ''b'' =
    Inr (unat (mi_responses_required two_answers)
           \<le> card (agreeing sample_cd (mi_responses two_answers) (sample_response ''v'')))"
  by (rule qualify_response_decides_quorum) (simp_all add: two_answers_def om_wf_def)

end
