(* ===== verification/Dispatch_Runs.thy ===== *)
theory Dispatch_Runs
  imports Db_Dispatch
begin

text \<open>
  Runs of the dispatcher of \<open>database/db_dispatch.cpp\<close>: every sequence of client calls, incoming
  envelopes and timer expiries.  The handlers of the requests are observed through the locale
  \<open>one_shot_handlers\<close>: a handler that is ready can be run once.  Its instance here records the
  calls; the instance of the database objects' own handlers is in \<open>Async_Database\<close>.
\<close>

section \<open>The outcomes of one call\<close>

text \<open>What happens to a response that belongs to an outstanding request.\<close>

definition collect ::
  "codec \<Rightarrow> ('sw, 'h, 'w) handler_call \<Rightarrow> u64 \<Rightarrow> uuid \<Rightarrow> database_response \<Rightarrow> ('sw, 'h) msg_info
     \<Rightarrow> ('sw, 'h, 'w, bool) dispatch_prog" where
  "collect cd run_handler nonce sender r info =
     andthen (on_fst (modify (set_message nonce (add_response sender r info))))
     (sbind (lift_cxx (qualify_response cd (add_response sender r info) sender)) (\<lambda>ok.
       if ok then andthen (run_handler (mi_handler info) r No_error)
                    (andthen (on_fst (modify (erase_message nonce))) (ret False))
       else ret False))"

lemma collect_cases:
  assumes "collect cd run_handler nonce sender r info (d, w) = (x, s')"
  obtains
    (fault) f where "qualify_response cd (add_response sender r info) sender = Inl f"
      "x = Inl f" "s' = (set_message nonce (add_response sender r info) d, w)"
  | (waiting) "qualify_response cd (add_response sender r info) sender = Inr False"
      "x = Inr False" "s' = (set_message nonce (add_response sender r info) d, w)"
  | (handler_fault) f where "qualify_response cd (add_response sender r info) sender = Inr True"
      "run_handler (mi_handler info) r No_error
         (set_message nonce (add_response sender r info) d, w) = (Inl f, s')" "x = Inl f"
  | (accepted) d1 w1 where "qualify_response cd (add_response sender r info) sender = Inr True"
      "run_handler (mi_handler info) r No_error
         (set_message nonce (add_response sender r info) d, w) = (Inr (), (d1, w1))"
      "x = Inr False" "s' = (erase_message nonce d1, w1)"
proof (cases "qualify_response cd (add_response sender r info) sender")
  case (Inl f)
  with assms show ?thesis by (intro fault [of f]) (simp_all add: collect_def)
next
  case (Inr ok)
  show ?thesis
  proof (cases ok)
    case False
    with assms Inr show ?thesis by (intro waiting) (auto simp: collect_def)
  next
    case True
    with assms Inr show ?thesis
      by (auto simp: collect_def elim!: andthen_cases intro: handler_fault accepted)
  qed
qed

lemma handle_swarm_response_cases:
  assumes "handle_swarm_response cd run_handler env (d, w) = (x, s')"
  obtains
    (unparsed) "par_response cd (get_database_response (env_payload env)) = None"
      "x = Inr True" "s' = (d, w)"
  | (unknown) r where "par_response cd (get_database_response (env_payload env)) = Some r"
      "find_message d (hd_nonce (dr_header r)) = None" "x = Inr False" "s' = (d, w)"
  | (unsigned) r info where "par_response cd (get_database_response (env_payload env)) = Some r"
      "find_message d (hd_nonce (dr_header r)) = Some info"
      "\<not> has_quick_read (dr_reply r)" "env_signature env = []" "x = Inr False" "s' = (d, w)"
  | (collected) r info where "par_response cd (get_database_response (env_payload env)) = Some r"
      "find_message d (hd_nonce (dr_header r)) = Some info"
      "has_quick_read (dr_reply r) \<or> env_signature env \<noteq> []"
      "collect cd run_handler (hd_nonce (dr_header r)) (env_sender env) r info (d, w) = (x, s')"
proof (cases "par_response cd (get_database_response (env_payload env))")
  case None
  with assms show ?thesis by (intro unparsed) (simp_all add: handle_swarm_response_def)
next
  case (Some r)
  show ?thesis
  proof (cases "find_message d (hd_nonce (dr_header r))")
    case None
    with assms Some show ?thesis
      by (intro unknown [of r]) (simp_all add: handle_swarm_response_def Let_def)
  next
    case info: (Some info)
    show ?thesis
    proof (cases "\<not> has_quick_read (dr_reply r) \<and> env_signature env = []")
      case True
      with assms Some info show ?thesis
        by (intro unsigned [of r info]) (simp_all add: handle_swarm_response_def Let_def)
    next
      case False
      with assms Some info show ?thesis
        by (intro collected [of r info])
          (auto simp: handle_swarm_response_def collect_def Let_def cong: if_cong)
    qed
  qed
qed

lemma handle_swarm_error_cases:
  assumes "handle_swarm_error cd env (d, w) = (x, s')"
  obtains
    (dropped) b where "x = Inr b" "s' = (d, w)"
  | (erased) err nonce info where "par_error cd (get_swarm_error (env_payload env)) = Some err"
      "stoull (se_data err) = Some nonce" "find_message d nonce = Some info"
      "se_message err \<in> {TIMESTAMP_ERROR_MSG, TOO_LARGE_ERROR_MSG}"
      "x = Inr False" "s' = (erase_message nonce d, w)"
  | (cancelled) err nonce info t where "par_error cd (get_swarm_error (env_payload env)) = Some err"
      "stoull (se_data err) = Some nonce" "find_message d nonce = Some info"
      "se_message err = DUPLICATE_ERROR_MSG" "mi_retry_timer info = Some t"
      "x = Inr False" "s' = (set_message nonce (info\<lparr>mi_retry_timer := Some Idle\<rparr>) d, w)"
  | (null_timer) err nonce info where "par_error cd (get_swarm_error (env_payload env)) = Some err"
      "stoull (se_data err) = Some nonce" "find_message d nonce = Some info"
      "se_message err = DUPLICATE_ERROR_MSG" "mi_retry_timer info = None"
      "x = Inl Undefined" "s' = (d, w)"
proof (cases "par_error cd (get_swarm_error (env_payload env))")
  case None
  with assms show ?thesis by (intro dropped [of True]) (simp_all add: handle_swarm_error_def)
next
  case (Some err)
  let ?n = "case stoull (se_data err) of None \<Rightarrow> 0 | Some n \<Rightarrow> n"
  show ?thesis
  proof (cases "?n = 0 \<or> find_message d ?n = None")
    case True
    with assms Some show ?thesis
      by (intro dropped [of "?n = 0"]) (auto simp: handle_swarm_error_def Let_def split: if_splits)
  next
    case False
    then obtain nonce info where n: "stoull (se_data err) = Some nonce" "nonce \<noteq> 0"
      and info: "find_message d nonce = Some info"
      by (auto split: option.splits)
    have run: "(x, s') =
      andthen (if se_message err = TIMESTAMP_ERROR_MSG then on_fst (modify (erase_message nonce))
               else if se_message err = TOO_LARGE_ERROR_MSG
               then on_fst (modify (erase_message nonce))
               else if se_message err = TOO_BUSY_ERROR_MSG then ret ()
               else if se_message err = DUPLICATE_ERROR_MSG
               then (if mi_retry_timer info = None then raise Undefined
                     else on_fst (modify (set_message nonce (info\<lparr>mi_retry_timer := Some Idle\<rparr>))))
               else ret ()) (ret False) (d, w)"
      using assms Some n info by (simp add: handle_swarm_error_def Let_def split del: if_split)
    consider (fatal) "se_message err \<in> {TIMESTAMP_ERROR_MSG, TOO_LARGE_ERROR_MSG}"
      | (busy) "se_message err \<notin> {TIMESTAMP_ERROR_MSG, TOO_LARGE_ERROR_MSG}"
          "se_message err = TOO_BUSY_ERROR_MSG \<or> se_message err \<noteq> DUPLICATE_ERROR_MSG"
      | (duplicate) "se_message err \<notin> {TIMESTAMP_ERROR_MSG, TOO_LARGE_ERROR_MSG}"
          "se_message err \<noteq> TOO_BUSY_ERROR_MSG" "se_message err = DUPLICATE_ERROR_MSG"
      by blast
    then show ?thesis
    proof cases
      case fatal
      with run show ?thesis by (intro erased [OF Some n(1) info]) auto
    next
      case busy
      with run show ?thesis by (intro dropped [of False]) (auto split: if_splits)
    next
      case duplicate
      show ?thesis
      proof (cases "mi_retry_timer info")
        case None
        with run duplicate show ?thesis
          by (intro null_timer [OF \<open>par_error _ _ = _\<close> n(1) info]) auto
      next
        case (Some t)
        with run duplicate show ?thesis
          by (intro cancelled [OF \<open>par_error _ _ = _\<close> n(1) info]) auto
      qed
    qed
  qed
qed

lemma handle_request_timeout_cases:
  assumes "handle_request_timeout ops ec nonce (d, w) = (x, (d', w'))"
  obtains
    (ignored) "x = Inr ()" "d' = d" "w' = w"
  | (null_timer) info where "find_message d nonce = Some info" "mi_retry_timer info = None"
      "x = Inl Undefined" "d' = d" "w' = w"
  | (retried) info t where "find_message d nonce = Some info" "mi_retry_timer info = Some t"
      "d' = set_message nonce (info\<lparr>mi_retry_timer := Some (Armed BROADCAST_RETRY_TIME)\<rparr>) d"
      "so_send_request ops (mi_swarm info) (mi_request info) Broadcast w = (x, w')"
proof (cases "is_err ec")
  case True
  with assms show ?thesis by (intro ignored) (auto simp: handle_request_timeout_def split: if_splits)
next
  case False
  then have "ec \<noteq> Operation_aborted" by auto
  show ?thesis
  proof (cases "find_message d nonce")
    case None
    with assms False \<open>ec \<noteq> _\<close> show ?thesis
      by (intro ignored) (simp_all add: handle_request_timeout_def)
  next
    case (Some info)
    show ?thesis
    proof (cases "mi_retry_timer info")
      case None
      with assms False Some \<open>ec \<noteq> _\<close> show ?thesis
        by (intro null_timer [OF Some]) (simp_all add: handle_request_timeout_def)
    next
      case (Some t)
      with assms False \<open>find_message d nonce = _\<close> \<open>ec \<noteq> _\<close> show ?thesis
        by (intro retried [OF \<open>find_message d nonce = _\<close> Some])
          (auto simp: handle_request_timeout_def split: prod.splits)
    qed
  qed
qed

lemma handle_client_timeout_cases:
  assumes "handle_client_timeout run_handler ec nonce (d, w) = (x, s')"
  obtains
    (ignored) "x = Inr ()" "s' = (d, w)"
  | (expired) info where "find_message d nonce = Some info"
      "andthen (run_handler (mi_handler info) timeout_response No_error)
         (on_fst (modify (erase_message nonce))) (d, w) = (x, s')"
  using assms unfolding handle_client_timeout_def
  by (auto split: option.splits if_splits)

lemma send_message_cases:
  fixes d d' :: "('sw, 'h) db_dispatch"
  assumes "send_message_to_swarm cd ops api_timeout sw db_uuid msg policy h (d, w) = (x, (d', w'))"
  defines "d1 \<equiv> d\<lparr>next_nonce := next_nonce d + 1\<rparr>"
    and "e \<equiv> empty_envelope\<lparr>env_payload :=
           P_database_msg (ser_msg cd (request_msg db_uuid (next_nonce d) msg))\<rparr>"
  obtains
    (not_signed) f where "so_sign_and_date_request ops sw e policy w = (Inl f, w')"
      "x = Inl f" "d' = d1"
  | (no_majority) env w1 f where "so_sign_and_date_request ops sw e policy w = (Inr env, w1)"
      "policy \<noteq> Fastest" "so_honest_majority_size ops sw w1 = (Inl f, w')" "x = Inl f" "d' = d1"
  | (tracked) env w1 w2 info where "so_sign_and_date_request ops sw e policy w = (Inr env, w1)"
      "policy \<noteq> Fastest \<Longrightarrow> so_honest_majority_size ops sw w1 = (Inr (mi_responses_required info), w2)"
      "policy = Fastest \<Longrightarrow> mi_responses_required info = 1 \<and> w2 = w1"
      "info = \<lparr>mi_swarm = sw, mi_request = env, mi_policy = policy,
         mi_responses_required = mi_responses_required info,
         mi_retry_timer = (if policy = Fastest then None else Some (Armed REQUEST_RETRY_TIME)),
         mi_timeout_timer = Some (Armed (1000 * api_timeout)), mi_responses = [],
         mi_handler = h\<rparr>"
      "d' = set_message (next_nonce d) info d1"
      "andthen (register_swarm_handler ops sw) (so_send_request ops sw env policy) w2 = (x, w')"
proof -
  obtain y w1 where sign: "so_sign_and_date_request ops sw e policy w = (y, w1)" by fastforce
  show ?thesis
  proof (cases y)
    case (Inl f)
    with assms sign show ?thesis
      by (intro not_signed [of f]) (simp_all add: send_message_to_swarm_def sbind_apply)
  next
    case env: (Inr env)
    obtain z w2 where maj: "so_honest_majority_size ops sw w1 = (z, w2)" by fastforce
    define rest where "rest = andthen (register_swarm_handler ops sw) (so_send_request ops sw env policy)"
    have rest_snd: "andthen (on_snd (register_swarm_handler ops sw))
        (on_snd (so_send_request ops sw env policy)) (dd, ww) = (case rest ww of (r, t) \<Rightarrow> (r, (dd, t)))"
      for dd :: "('sw, 'h) db_dispatch" and ww
      by (auto simp: rest_def andthen_apply split: prod.splits sum.splits)
    show ?thesis
    proof (cases "policy \<noteq> Fastest \<and> (\<exists>f. z = Inl f)")
      case True
      then obtain f where "z = Inl f" "policy \<noteq> Fastest" by blast
      with assms sign env maj show ?thesis
        by (intro no_majority [of env w1 f])
          (simp_all add: send_message_to_swarm_def setup_request_policy_def
            setup_client_timeout_def sbind_apply)
    next
      case False
      define q where "q = (if policy = Fastest then 1 else projr z)"
      define w3 where "w3 = (if policy = Fastest then w1 else w2)"
      let ?info = "\<lparr>mi_swarm = sw, mi_request = env, mi_policy = policy, mi_responses_required = q,
         mi_retry_timer = (if policy = Fastest then None else Some (Armed REQUEST_RETRY_TIME)),
         mi_timeout_timer = Some (Armed (1000 * api_timeout)), mi_responses = [],
         mi_handler = h\<rparr>"
      have z: "policy \<noteq> Fastest \<Longrightarrow> z = Inr q" using False by (cases z) (auto simp: q_def)
      have "(case rest w3 of (r, t) \<Rightarrow> (r, (set_message (next_nonce d) ?info d1, t))) = (x, (d', w'))"
      proof (cases "policy = Fastest")
        case True
        with assms(1) sign env rest_snd show ?thesis
          by (simp add: send_message_to_swarm_def setup_request_policy_def setup_client_timeout_def
              sbind_apply [of "on_snd m" for m] q_def w3_def flip: e_def d1_def)
      next
        case False
        with assms(1) sign env maj z rest_snd show ?thesis
          by (simp add: send_message_to_swarm_def setup_request_policy_def setup_client_timeout_def
              sbind_apply [of "on_snd m" for m] sbind_apply [of "so_honest_majority_size ops sw"]
              w3_def flip: e_def d1_def)
      qed
      then have "rest w3 = (x, w')" "d' = set_message (next_nonce d) ?info d1"
        by (auto split: prod.splits)
      moreover have "policy = Fastest \<Longrightarrow> q = 1 \<and> w3 = w1" "policy \<noteq> Fastest \<Longrightarrow> w3 = w2"
        by (simp_all add: q_def w3_def)
      ultimately show ?thesis
        using sign env maj z by (intro tracked [of env w1 ?info w3]) (simp_all add: rest_def)
    qed
  qed
qed

section \<open>Events and runs\<close>

text \<open>
  What can happen to the dispatcher: a client sends a request, the swarm delivers a database
  response or an error, a retry or client timer expires.  The code copes with events for unknown
  nonces, so a run is any sequence of events.  An exception ends the call it was thrown in (the
  callers catch it); a failed assertion or undefined behaviour ends the run.
\<close>

datatype ('sw, 'h) dispatch_event =
    Send 'sw uuid database_msg send_policy 'h
  | Response envelope
  | Error_response envelope
  | Retry_timer error_code u64
  | Client_timer error_code u64

fun dispatch_step ::
  "codec \<Rightarrow> ('w, 'sw) swarm_ops \<Rightarrow> ('sw, 'h, 'w) handler_call \<Rightarrow> u64 \<Rightarrow> ('sw, 'h) dispatch_event
     \<Rightarrow> ('sw, 'h, 'w, unit) dispatch_prog" where
  "dispatch_step cd ops run_handler api_timeout (Send sw db_uuid msg policy h) =
     send_message_to_swarm cd ops api_timeout sw db_uuid msg policy h"
| "dispatch_step cd ops run_handler api_timeout (Response env) =
     sbind (handle_swarm_response cd run_handler env) (\<lambda>_. ret ())"
| "dispatch_step cd ops run_handler api_timeout (Error_response env) =
     sbind (handle_swarm_error cd env) (\<lambda>_. ret ())"
| "dispatch_step cd ops run_handler api_timeout (Retry_timer ec nonce) =
     handle_request_timeout ops ec nonce"
| "dispatch_step cd ops run_handler api_timeout (Client_timer ec nonce) =
     handle_client_timeout run_handler ec nonce"

definition dispatch_run ::
  "codec \<Rightarrow> ('w, 'sw) swarm_ops \<Rightarrow> ('sw, 'h, 'w) handler_call \<Rightarrow> u64 \<Rightarrow> ('sw, 'h) dispatch_event list
     \<Rightarrow> ('sw, 'h, 'w, unit) dispatch_prog" where
  "dispatch_run cd ops run_handler api_timeout events =
     for_each events (\<lambda>ev. catch_all (dispatch_step cd ops run_handler api_timeout ev) (ret ()))"

fun sent_handlers :: "('sw, 'h) dispatch_event list \<Rightarrow> 'h list" where
  "sent_handlers [] = []"
| "sent_handlers (Send _ _ _ _ h # es) = h # sent_handlers es"
| "sent_handlers (_ # es) = sent_handlers es"

section \<open>Handlers that can be run once\<close>

definition dispatch_inv :: "('w \<Rightarrow> 'h \<Rightarrow> bool) \<Rightarrow> ('sw, 'h) db_dispatch \<Rightarrow> 'w \<Rightarrow> bool" where
  "dispatch_inv ready d w \<longleftrightarrow> dispatch_wf d \<and> distinct_handlers d \<and> (\<forall>h \<in> handlers d. ready w h)"

text \<open>A step that takes no new request: handlers only leave the table, others stay as they are.\<close>

definition quiet_step ::
  "('w \<Rightarrow> 'h \<Rightarrow> bool) \<Rightarrow> ('sw, 'h) db_dispatch \<Rightarrow> 'w \<Rightarrow> ('sw, 'h) db_dispatch \<Rightarrow> 'w \<Rightarrow> bool" where
  "quiet_step ready d w d' w' \<longleftrightarrow> dispatch_inv ready d' w' \<and> handlers d' \<subseteq> handlers d
     \<and> next_nonce d' = next_nonce d \<and> (\<forall>h. h \<notin> handlers d \<longrightarrow> ready w' h = ready w h)"

lemma quiet_refl: "dispatch_inv ready d w \<Longrightarrow> quiet_step ready d w d w"
  by (simp add: quiet_step_def)

lemma dispatch_invD:
  assumes "dispatch_inv ready d w" "find_message d n = Some info"
  shows "msg_wf info" "n < next_nonce d" "ready w (mi_handler info)"
  using assms by (auto simp: dispatch_inv_def dest: dispatch_wfD handlersI)

lemma quiet_set:
  assumes "dispatch_inv ready d w" "find_message d n = Some i" "mi_handler j = mi_handler i" "msg_wf j"
  shows "quiet_step ready d w (set_message n j d) w"
  using assms
  by (auto simp: quiet_step_def dispatch_inv_def handlers_set_same
      intro!: dispatch_wf_set distinct_handlers_set_same dest: dispatch_wfD)

lemma quiet_erase:
  assumes "dispatch_inv ready d w" shows "quiet_step ready d w (erase_message n d) w"
  using assms handlers_erase [of n d]
  by (auto simp: quiet_step_def dispatch_inv_def intro!: dispatch_wf_erase distinct_handlers_erase)

lemma quiet_erase_run:
  assumes inv: "dispatch_inv ready d w" and n: "find_message d n = Some i"
    and ready: "\<And>h. ready w' h \<longleftrightarrow> ready w h \<and> h \<noteq> mi_handler i"
  shows "quiet_step ready d w (erase_message n d) w'"
proof -
  from inv have d: "distinct_handlers d" by (simp add: dispatch_inv_def)
  with inv n show ?thesis
    using handlers_erase [of n d] handlers_erase_own [OF d n] handlersI [OF n]
    by (auto simp: quiet_step_def dispatch_inv_def ready
        intro!: dispatch_wf_erase distinct_handlers_erase)
qed

text \<open>The events still to come do not reuse a handler, and their nonces do not wrap around.\<close>

definition to_come ::
  "('w \<Rightarrow> 'h \<Rightarrow> bool) \<Rightarrow> ('sw, 'h) db_dispatch \<Rightarrow> 'w \<Rightarrow> ('sw, 'h) dispatch_event list \<Rightarrow> bool" where
  "to_come ready d w es \<longleftrightarrow> distinct (sent_handlers es)
     \<and> (\<forall>h \<in> set (sent_handlers es). h \<notin> handlers d \<and> ready w h)
     \<and> unat (next_nonce d) + length (sent_handlers es) < 2 ^ 64"

lemma to_come_quiet:
  assumes "to_come ready d w es" "quiet_step ready d w d' w'"
  shows "to_come ready d' w' es"
  using assms unfolding to_come_def quiet_step_def by auto

text \<open>A new response leaves a request well formed, unless it completes it.\<close>

lemma msg_wf_add_response:
  "msg_wf i \<Longrightarrow> mi_responses_required i \<noteq> 1 \<Longrightarrow> msg_wf (add_response s r i)"
  by (simp add: msg_wf_def om_wf_put)

lemma qualify_add_response:
  assumes "msg_wf i"
  shows "qualify_response cd (add_response s r i) s =
    Inr (unat (mi_responses_required i) \<le> card (agreeing cd (om_put s r (mi_responses i)) r))"
  using assms qualify_response_quorum [of "add_response s r i" s r cd]
  by (auto simp: msg_wf_def om_wf_put)

lemma qualify_single:
  assumes "msg_wf i" "mi_responses_required i = 1"
  shows "qualify_response cd (add_response s r i) s = Inr True"
proof -
  have "s \<in> agreeing cd (om_put s r (mi_responses i)) r" by (rule agreeing_own) simp
  then have "0 < card (agreeing cd (om_put s r (mi_responses i)) r)"
    by (auto simp: card_gt_0_iff)
  with assms show ?thesis by (simp add: qualify_add_response Suc_le_eq)
qed

locale one_shot_handlers =
  fixes ops :: "('w, 'sw) swarm_ops"
    and run_handler :: "('sw, 'h, 'w) handler_call"
    and ready :: "'w \<Rightarrow> 'h \<Rightarrow> bool" and sound :: "'w \<Rightarrow> bool"
  assumes run_ready: "ready w h \<Longrightarrow> sound w \<Longrightarrow>
      \<exists>w'. run_handler h r No_error (d, w) = (Inr (), (d, w')) \<and> sound w'
         \<and> (\<forall>h'. ready w' h' \<longleftrightarrow> ready w h' \<and> h' \<noteq> h)"
    and quorum_not_0: "so_honest_majority_size ops sw w = (Inr q, w') \<Longrightarrow> q \<noteq> 0"
    and sign_ready: "so_sign_and_date_request ops sw e policy w = (x, w') \<Longrightarrow>
      ready w' = ready w \<and> (sound w \<longrightarrow> sound w')"
    and majority_ready: "so_honest_majority_size ops sw w = (size_or_fault, w') \<Longrightarrow>
      ready w' = ready w \<and> (sound w \<longrightarrow> sound w')"
    and register_ready: "so_register_response_handler ops sw pc rh w = (b, w') \<Longrightarrow>
      ready w' = ready w \<and> (sound w \<longrightarrow> sound w')"
    and send_ready: "so_send_request ops sw e policy w = (u, w') \<Longrightarrow>
      ready w' = ready w \<and> (sound w \<longrightarrow> sound w')"
begin

lemma response_step:
  assumes inv: "dispatch_inv ready d w" "sound w"
    and run: "handle_swarm_response cd run_handler env (d, w) = (x, (d', w'))"
  shows "quiet_step ready d w d' w' \<and> sound w' \<and> (\<exists>b. x = Inr b)"
  using run
proof (cases rule: handle_swarm_response_cases)
  case (collected r info)
  let ?n = "hd_nonce (dr_header r)" and ?s = "env_sender env"
  note wf = dispatch_invD [OF inv(1) collected(2)]
  show ?thesis
    using collected(4)
  proof (cases rule: collect_cases)
    case waiting
    with wf have "mi_responses_required info \<noteq> 1" by (auto simp: qualify_single)
    with wf(1) have "msg_wf (add_response ?s r info)" by (rule msg_wf_add_response)
    with waiting inv collected(2) show ?thesis by (auto intro: quiet_set)
  next
    case (handler_fault f)
    with run_ready [OF wf(3) inv(2), of r "set_message ?n (add_response ?s r info) d"]
    show ?thesis by auto
  next
    case (accepted d1 w1)
    obtain w2 where w2: "run_handler (mi_handler info) r No_error
        (set_message ?n (add_response ?s r info) d, w) =
          (Inr (), (set_message ?n (add_response ?s r info) d, w2))"
      and rest: "sound w2" "\<forall>h'. ready w2 h' \<longleftrightarrow> ready w h' \<and> h' \<noteq> mi_handler info"
      using run_ready [OF wf(3) inv(2)] by blast
    have "d1 = set_message ?n (add_response ?s r info) d" "w1 = w2"
      using accepted(2) unfolding w2 by simp_all
    with accepted(4) have "d' = erase_message ?n d" "w' = w2"
      by simp_all
    moreover have "quiet_step ready d w (erase_message ?n d) w2"
      using rest(2) by (intro quiet_erase_run [OF inv(1) collected(2)]) blast
    ultimately show ?thesis using accepted(3) rest(1) by auto
  next
    case (fault f)
    with qualify_add_response [OF wf(1), of cd ?s r] show ?thesis by simp
  qed
qed (auto simp: inv quiet_refl)

lemma error_step:
  assumes inv: "dispatch_inv ready d w" "sound w"
    and run: "handle_swarm_error cd env (d, w) = (x, (d', w'))"
  shows "quiet_step ready d w d' w' \<and> sound w'"
  using run
proof (cases rule: handle_swarm_error_cases)
  case (cancelled err nonce info t)
  have "msg_wf (info\<lparr>mi_retry_timer := Some Idle\<rparr>)"
    using dispatch_invD(1) [OF inv(1) cancelled(3)] cancelled(5) by (auto simp: msg_wf_def)
  with cancelled inv show ?thesis by (auto intro: quiet_set)
qed (auto simp: inv quiet_refl quiet_erase)

lemma retry_step:
  assumes inv: "dispatch_inv ready d w" "sound w"
    and run: "handle_request_timeout ops ec nonce (d, w) = (x, (d', w'))"
  shows "quiet_step ready d w d' w' \<and> sound w'"
  using run
proof (cases rule: handle_request_timeout_cases)
  case (retried info t)
  have "msg_wf (info\<lparr>mi_retry_timer := Some (Armed BROADCAST_RETRY_TIME)\<rparr>)"
    using dispatch_invD(1) [OF inv(1) retried(1)] retried(2) by (auto simp: msg_wf_def)
  with inv(1) retried(1,3) have "quiet_step ready d w d' w" by (auto intro: quiet_set)
  with send_ready [OF retried(4)] inv(2) show ?thesis by (auto simp: quiet_step_def dispatch_inv_def)
qed (auto simp: inv quiet_refl)

lemma timeout_step:
  assumes inv: "dispatch_inv ready d w" "sound w"
    and run: "handle_client_timeout run_handler ec nonce (d, w) = (x, (d', w'))"
  shows "quiet_step ready d w d' w' \<and> sound w' \<and> x = Inr ()"
  using run
proof (cases rule: handle_client_timeout_cases)
  case (expired info)
  obtain w2 where w2: "run_handler (mi_handler info) timeout_response No_error (d, w) =
      (Inr (), (d, w2))"
    and rest: "sound w2" "\<forall>h'. ready w2 h' \<longleftrightarrow> ready w h' \<and> h' \<noteq> mi_handler info"
    using run_ready [OF dispatch_invD(3) [OF inv(1) expired(1)] inv(2)] by blast
  with expired(2) have "d' = erase_message nonce d" "w' = w2" "x = Inr ()"
    by (auto simp: andthen_apply)
  with inv(1) expired(1) rest show ?thesis by (auto intro: quiet_erase_run)
qed (auto simp: inv quiet_refl)

lemma register_ready_both:
  assumes "register_swarm_handler ops sw w = (x, w')"
  shows "ready w' = ready w \<and> (sound w \<longrightarrow> sound w')"
  using assms unfolding register_swarm_handler_def
  by (elim sbind_cases; clarsimp; metis register_ready)

lemma send_step:
  assumes inv: "dispatch_inv ready d w" "sound w"
    and fresh: "next_nonce d + 1 \<noteq> 0" "h \<notin> handlers d" "ready w h"
    and run: "send_message_to_swarm cd ops api_timeout sw db_uuid msg policy h (d, w) = (x, (d', w'))"
  shows "dispatch_inv ready d' w' \<and> sound w' \<and> ready w' = ready w
      \<and> handlers d' \<subseteq> insert h (handlers d) \<and> next_nonce d' = next_nonce d + 1"
proof -
  have d: "dispatch_wf d" "distinct_handlers d" "\<forall>g \<in> handlers d. ready w g"
    using inv(1) by (auto simp: dispatch_inv_def)
  let ?d1 = "d\<lparr>next_nonce := next_nonce d + 1\<rparr>"
  have d1: "dispatch_wf ?d1" by (rule dispatch_wf_next [OF d(1) fresh(1)])
  have skipped: "dispatch_inv ready ?d1 w"
    using d d1 by (simp add: dispatch_inv_def distinct_handlers_next)
  from run show ?thesis
  proof (cases rule: send_message_cases)
    case not_signed
    with skipped sign_ready inv(2) show ?thesis by (auto simp: dispatch_inv_def)
  next
    case (no_majority env w1 f)
    have "ready w' = ready w" "sound w'"
      using sign_ready [OF no_majority(1)] majority_ready [OF no_majority(3)] inv(2) by simp_all
    with skipped no_majority(5) show ?thesis by (auto simp: dispatch_inv_def)
  next
    case (tracked env w1 w2 info)
    have w2: "ready w2 = ready w" "sound w2"
      using tracked(1-3) sign_ready [OF tracked(1)] majority_ready inv(2)
      by (cases "policy = Fastest"; fastforce)+
    have w': "ready w' = ready w" "sound w'"
      using tracked(6) w2 by (auto elim!: andthen_cases dest!: register_ready_both send_ready)
    have handler: "mi_handler info = h" by (subst tracked(4)) simp
    have "mi_responses_required info \<noteq> 0"
      using tracked(2,3) quorum_not_0 by (cases "policy = Fastest") fastforce+
    with tracked(3) have "msg_wf info" by (subst tracked(4)) (auto simp: msg_wf_def)
    then have "dispatch_wf d'"
      unfolding tracked(5) using d1 u64_less_Suc [OF fresh(1)] by (auto intro: dispatch_wf_set)
    moreover have "distinct_handlers d'"
      unfolding tracked(5) using d(2) fresh(2) handler
      by (intro distinct_handlers_set_new) (simp_all add: distinct_handlers_next)
    moreover have sub: "handlers d' \<subseteq> insert h (handlers d)"
      unfolding tracked(5) using handlers_set [of "next_nonce d" info ?d1] by (simp add: handler)
    ultimately show ?thesis
      using w' d(3) fresh(3) tracked(5) by (auto simp: dispatch_inv_def)
  qed
qed

lemma dispatch_step_inv:
  assumes inv: "dispatch_inv ready d w" "sound w" and to_come: "to_come ready d w (ev # es)"
    and run: "dispatch_step cd ops run_handler api_timeout ev (d, w) = (x, (d', w'))"
  shows "dispatch_inv ready d' w' \<and> sound w' \<and> to_come ready d' w' es"
proof (cases ev)
  case (Send sw db_uuid msg policy h)
  from to_come Send have bound: "unat (next_nonce d) + 1 < 2 ^ 64"
    and fresh: "h \<notin> handlers d" "ready w h" by (auto simp: to_come_def)
  from bound have no_wrap: "next_nonce d + 1 \<noteq> 0" by (auto simp: unat_plus_if' word_unat_eq_iff)
  then have Suc: "unat (next_nonce d + 1) = Suc (unat (next_nonce d))" by unat_arith
  from run Send have "send_message_to_swarm cd ops api_timeout sw db_uuid msg policy h (d, w)
      = (x, (d', w'))" by simp
  from send_step [OF inv no_wrap fresh this] to_come show ?thesis
    by (auto simp: to_come_def Send Suc)
next
  case (Response env)
  with run have "quiet_step ready d w d' w' \<and> sound w'"
    by (auto elim!: sbind_cases dest: response_step [OF inv])
  moreover have "to_come ready d w es" using to_come Response by (simp add: to_come_def)
  ultimately show ?thesis by (auto simp: quiet_step_def intro: to_come_quiet)
next
  case (Error_response env)
  with run have "quiet_step ready d w d' w' \<and> sound w'"
    by (auto elim!: sbind_cases dest: error_step [OF inv])
  moreover have "to_come ready d w es" using to_come Error_response by (simp add: to_come_def)
  ultimately show ?thesis by (auto simp: quiet_step_def intro: to_come_quiet)
next
  case (Retry_timer ec nonce)
  with run have "quiet_step ready d w d' w' \<and> sound w'" by (auto dest: retry_step [OF inv])
  moreover have "to_come ready d w es" using to_come Retry_timer by (simp add: to_come_def)
  ultimately show ?thesis by (auto simp: quiet_step_def intro: to_come_quiet)
next
  case (Client_timer ec nonce)
  with run have "quiet_step ready d w d' w' \<and> sound w'" by (auto dest: timeout_step [OF inv])
  moreover have "to_come ready d w es" using to_come Client_timer by (simp add: to_come_def)
  ultimately show ?thesis by (auto simp: quiet_step_def intro: to_come_quiet)
qed

lemma dispatch_run_inv:
  "dispatch_inv ready d w \<Longrightarrow> sound w \<Longrightarrow> to_come ready d w es \<Longrightarrow>
   dispatch_run cd ops run_handler api_timeout es (d, w) = (x, (d', w')) \<Longrightarrow>
   dispatch_inv ready d' w' \<and> sound w'"
proof (induction es arbitrary: d w)
  case Nil
  then show ?case by (simp add: dispatch_run_def)
next
  case (Cons ev es)
  obtain y d1 w1 where step: "dispatch_step cd ops run_handler api_timeout ev (d, w) = (y, (d1, w1))"
    by (metis prod.collapse)
  note inv1 = dispatch_step_inv [OF Cons.prems(1-3) step]
  have "(d', w') = (d1, w1) \<or>
    dispatch_run cd ops run_handler api_timeout es (d1, w1) = (x, (d', w'))"
    using Cons.prems(4) step
    by (auto simp: dispatch_run_def andthen_apply catch_all_def split: sum.splits cxx_fault.splits)
  with inv1 Cons.IH show ?case by auto
qed

text \<open>A handler that is neither outstanding nor sent again stays as it is.\<close>

lemma dispatch_run_untouched:
  "dispatch_inv ready d w \<Longrightarrow> sound w \<Longrightarrow> to_come ready d w es \<Longrightarrow>
   h \<notin> handlers d \<Longrightarrow> h \<notin> set (sent_handlers es) \<Longrightarrow>
   dispatch_run cd ops run_handler api_timeout es (d, w) = (x, (d', w')) \<Longrightarrow>
   h \<notin> handlers d' \<and> ready w' h = ready w h"
proof (induction es arbitrary: d w)
  case Nil
  then show ?case by (simp add: dispatch_run_def)
next
  case (Cons ev es)
  obtain y d1 w1 where step: "dispatch_step cd ops run_handler api_timeout ev (d, w) = (y, (d1, w1))"
    by (metis prod.collapse)
  note inv1 = dispatch_step_inv [OF Cons.prems(1-3) step]
  have same: "h \<notin> handlers d1 \<and> ready w1 h = ready w h \<and> h \<notin> set (sent_handlers es)"
  proof (cases ev)
    case (Send sw db_uuid msg policy g)
    from Cons.prems(3) Send have "unat (next_nonce d) + 1 < 2 ^ 64" "g \<notin> handlers d" "ready w g"
      by (auto simp: to_come_def)
    moreover from this(1) have "next_nonce d + 1 \<noteq> 0"
      by (auto simp: unat_plus_if' word_unat_eq_iff)
    ultimately show ?thesis
      using send_step [OF Cons.prems(1,2), where h = g] step Send Cons.prems(4,5)
      by (metis (no_types, lifting) dispatch_step.simps(1) insertE list.set_intros(1,2)
          sent_handlers.simps(2) subsetD)
  qed (use Cons.prems step in \<open>auto simp: quiet_step_def elim!: sbind_cases
        dest!: response_step [OF Cons.prems(1,2)] error_step [OF Cons.prems(1,2)]
          retry_step [OF Cons.prems(1,2)] timeout_step [OF Cons.prems(1,2)]\<close>)
  have "(d', w') = (d1, w1) \<or>
    dispatch_run cd ops run_handler api_timeout es (d1, w1) = (x, (d', w'))"
    using Cons.prems(6) step
    by (auto simp: dispatch_run_def andthen_apply catch_all_def split: sum.splits cxx_fault.splits)
  with inv1 same Cons.IH [of d1 w1] show ?case by auto
qed

end

section \<open>Recording the calls\<close>

text \<open>
  The log of handler calls beside the world of swarms; \<open>log_ops\<close> lifts the functions of a swarm
  to a world that has anything beside it.  Every swarm that keeps the contract gives one-shot
  handlers: a handler is ready as long as the log does not name it.
\<close>

type_synonym 'h call_log = "('h \<times> database_response) list"

definition log_ops :: "('w, 'sw) swarm_ops \<Rightarrow> ('w \<times> 'm, 'sw) swarm_ops" where
  "log_ops ops = \<lparr>
     so_sign_and_date_request = (\<lambda>sw e policy. on_fst (so_sign_and_date_request ops sw e policy)),
     so_send_request = (\<lambda>sw e policy. on_fst (so_send_request ops sw e policy)),
     so_register_response_handler =
       (\<lambda>sw pc rh. on_fst (so_register_response_handler ops sw pc rh)),
     so_honest_majority_size = (\<lambda>sw. on_fst (so_honest_majority_size ops sw))\<rparr>"

definition record_call :: "('sw, 'h, 'w \<times> 'h call_log) handler_call" where
  "record_call h r ec = on_snd (on_snd (modify (\<lambda>log. log @ [(h, r)])))"

definition uncalled :: "'w \<times> 'h call_log \<Rightarrow> 'h \<Rightarrow> bool" where
  "uncalled = (\<lambda>(w, log) h. h \<notin> fst ` set log)"

definition called_once :: "'w \<times> 'h call_log \<Rightarrow> bool" where
  "called_once = (\<lambda>(w, log). distinct (map fst log))"

lemma record_call_apply [simp]:
  "record_call h r ec (d, (w, log)) = (Inr (), (d, (w, log @ [(h, r)])))"
  by (simp add: record_call_def)

lemma on_fst_run: "on_fst m (w, l) = (x, w') \<longleftrightarrow> (\<exists>w1. m w = (x, w1) \<and> w' = (w1, l))"
  by (auto simp: on_fst_def split: prod.splits)

lemma log_ops_sel [simp]:
  "so_sign_and_date_request (log_ops ops) sw e policy = on_fst (so_sign_and_date_request ops sw e policy)"
  "so_send_request (log_ops ops) sw e policy = on_fst (so_send_request ops sw e policy)"
  "so_register_response_handler (log_ops ops) sw pc rh = on_fst (so_register_response_handler ops sw pc rh)"
  "so_honest_majority_size (log_ops ops) sw = on_fst (so_honest_majority_size ops sw)"
  by (simp_all add: log_ops_def)

sublocale swarm_contract \<subseteq> recorded: one_shot_handlers "log_ops ops" record_call uncalled called_once
  by standard
    (auto simp: on_fst_run uncalled_def called_once_def fun_eq_iff simp del: zoom_apply
      dest: majority_not_0)

lemma dispatch_inv_new: "dispatch_inv ready new_dispatch w"
  by (simp add: dispatch_inv_def dispatch_wf_new distinct_handlers_new)

lemma log_apply:
  "so_send_request (log_ops ops) sw e policy (w, log) =
     (case so_send_request ops sw e policy w of (r, w') \<Rightarrow> (r, (w', log)))"
  by simp

context swarm_contract
begin

lemma to_come_new:
  "distinct (sent_handlers es) \<Longrightarrow> length (sent_handlers es) < 2 ^ 64 - 1 \<Longrightarrow>
     to_come uncalled new_dispatch (w, []) es"
  by (simp add: to_come_def uncalled_def new_dispatch_def handlers_def find_message_def)

lemma calls_at_most_once:
  assumes "distinct (sent_handlers es)" "length (sent_handlers es) < 2 ^ 64 - 1"
    and "dispatch_run cd (log_ops ops) record_call api_timeout es (new_dispatch, (w, []))
           = (x, (d', (w', log)))"
  shows "distinct (map fst log)"
  using recorded.dispatch_run_inv [OF dispatch_inv_new _ to_come_new [OF assms(1,2)] assms(3)]
  by (simp add: called_once_def)

lemma dropped_for_good:
  assumes inv: "dispatch_inv uncalled d (w, log)" "called_once (w, log)"
    and info: "find_message d nonce = Some info" and h: "mi_handler info = h"
    and err: "par_error cd (get_swarm_error (env_payload env)) = Some err"
      "stoull (se_data err) = Some nonce" "nonce \<noteq> 0"
      "se_message err \<in> {TIMESTAMP_ERROR_MSG, TOO_LARGE_ERROR_MSG}"
    and es: "to_come uncalled d (w, log) es" "h \<notin> set (sent_handlers es)"
    and run: "dispatch_run cd (log_ops ops) record_call api_timeout (Error_response env # es)
       (d, (w, log)) = (x, (d', (w', log')))"
  shows "h \<notin> fst ` set log'"
proof -
  have "handle_swarm_error cd env (d, (w, log)) = (Inr False, (erase_message nonce d, (w, log)))"
    using err info by (auto simp: handle_swarm_error_def Let_def)
  with run have rest: "dispatch_run cd (log_ops ops) record_call api_timeout es
      (erase_message nonce d, (w, log)) = (x, (d', (w', log')))"
    by (simp add: dispatch_run_def andthen_apply catch_all_def sbind_apply)
  have quiet: "quiet_step uncalled d (w, log) (erase_message nonce d) (w, log)"
    by (rule quiet_erase [OF inv(1)])
  have gone: "h \<notin> handlers (erase_message nonce d)"
    using handlers_erase_own [of d nonce info] inv(1) info h by (auto simp: dispatch_inv_def)
  have inv': "dispatch_inv uncalled (erase_message nonce d) (w, log)"
    using quiet by (simp add: quiet_step_def)
  have "uncalled (w', log') h = uncalled (w, log) h"
    using recorded.dispatch_run_untouched [OF inv' inv(2) to_come_quiet [OF es(1) quiet]
        gone es(2) rest] by simp
  moreover have "uncalled (w, log) h"
    using inv(1) handlersI [OF info] h by (auto simp: dispatch_inv_def)
  ultimately show ?thesis by (simp add: uncalled_def)
qed

end

section \<open>Where an accepted response comes from\<close>

text \<open>
  \<open>heard cd R s r\<close>: one of the envelopes in \<open>R\<close> names \<open>s\<close> as its sender and carries \<open>r\<close>, and
  it is signed or \<open>r\<close> is a quick-read reply.  \<open>backed\<close>: so many senders were heard with a
  response equal to \<open>r\<close>.
\<close>

definition heard :: "codec \<Rightarrow> envelope set \<Rightarrow> uuid \<Rightarrow> database_response \<Rightarrow> bool" where
  "heard cd R s r \<longleftrightarrow> (\<exists>env \<in> R. env_sender env = s
     \<and> par_response cd (get_database_response (env_payload env)) = Some r
     \<and> (env_signature env \<noteq> [] \<or> has_quick_read (dr_reply r)))"

definition backed :: "codec \<Rightarrow> envelope set \<Rightarrow> nat \<Rightarrow> database_response \<Rightarrow> bool" where
  "backed cd R n r \<longleftrightarrow> (\<exists>S. finite S \<and> n \<le> card S
     \<and> (\<forall>s \<in> S. \<exists>r'. heard cd R s r' \<and> responses_are_equal cd r' r))"

lemma heard_mono: "heard cd R s r \<Longrightarrow> R \<subseteq> R' \<Longrightarrow> heard cd R' s r"
  by (auto simp: heard_def)

lemma backed_mono: "backed cd R n r \<Longrightarrow> R \<subseteq> R' \<Longrightarrow> backed cd R' n r"
  unfolding backed_def by (meson heard_mono)

lemma backed_agreeing:
  assumes "\<forall>s r'. map_of rs s = Some r' \<longrightarrow> heard cd R s r'" "n \<le> card (agreeing cd rs r)"
  shows "backed cd R n r"
  unfolding backed_def
  using assms finite_agreeing [of cd rs r]
  by (intro exI [of _ "agreeing cd rs r"]) (simp, auto simp: agreeing_def)

text \<open>
  The invariant of a run: stored responses were heard, and what was handed to the handler of a
  request that needs \<open>n\<close> responses is backed by \<open>n\<close> senders, unless the request timed out.
\<close>

definition accountable ::
  "codec \<Rightarrow> envelope set \<Rightarrow> nat \<Rightarrow> 'h set \<Rightarrow> ('sw, 'h) db_dispatch \<Rightarrow> 'h call_log \<Rightarrow> bool" where
  "accountable cd R n H d log \<longleftrightarrow>
     (\<forall>k info. find_message d k = Some info \<longrightarrow>
        (\<forall>s r. map_of (mi_responses info) s = Some r \<longrightarrow> heard cd R s r)
        \<and> (mi_handler info \<in> H \<longrightarrow> n \<le> unat (mi_responses_required info)))
     \<and> (\<forall>h r. (h, r) \<in> set log \<longrightarrow> r = timeout_response \<or> (h \<in> H \<longrightarrow> backed cd R n r))"

lemma accountable_mono: "accountable cd R n H d log \<Longrightarrow> R \<subseteq> R' \<Longrightarrow> accountable cd R' n H d log"
  unfolding accountable_def by (meson heard_mono backed_mono)

lemma accountable_next:
  "accountable cd R n H d log \<Longrightarrow> accountable cd R n H (d\<lparr>next_nonce := k\<rparr>) log"
  unfolding accountable_def by simp

lemma accountable_erase: "accountable cd R n H d log \<Longrightarrow> accountable cd R n H (erase_message k d) log"
  unfolding accountable_def by (auto split: if_splits)

lemma accountable_set_timer:
  "accountable cd R n H d log \<Longrightarrow> find_message d k = Some i \<Longrightarrow>
     accountable cd R n H (set_message k (i\<lparr>mi_retry_timer := t\<rparr>) d) log"
  unfolding accountable_def by (auto split: if_splits)

lemma accountable_add_response:
  assumes "accountable cd R n H d log" "find_message d k = Some i" "heard cd R s r"
  shows "accountable cd R n H (set_message k (add_response s r i) d) log"
  using assms unfolding accountable_def by (auto split: if_splits)

lemma accountable_call:
  assumes "accountable cd R n H d log" "r = timeout_response \<or> (h \<in> H \<longrightarrow> backed cd R n r)"
  shows "accountable cd R n H d (log @ [(h, r)])"
  using assms unfolding accountable_def by auto

lemma accountable_response:
  assumes acc: "accountable cd R n H d log" and env: "env \<in> R" and wf: "dispatch_wf d"
    and run: "handle_swarm_response cd record_call env (d, (w, log)) = (x, (d', (w', log')))"
  shows "accountable cd R n H d' log' \<and> w' = w"
  using run
proof (cases rule: handle_swarm_response_cases)
  case (collected r info)
  let ?k = "hd_nonce (dr_header r)" and ?s = "env_sender env"
  have heard: "heard cd R ?s r" using collected(1,3) env by (auto simp: heard_def)
  note wf_info = dispatch_wfD(2) [OF wf collected(2)]
  have acc1: "accountable cd R n H (set_message ?k (add_response ?s r info) d) log"
    by (rule accountable_add_response [OF acc collected(2) heard])
  show ?thesis
    using collected(4)
  proof (cases rule: collect_cases)
    case (accepted d1 w1)
    have "unat (mi_responses_required info) \<le> card (agreeing cd (om_put ?s r (mi_responses info)) r)"
      using accepted(1) qualify_add_response [OF wf_info, of cd ?s r] by simp
    moreover have "\<forall>s r'. map_of (om_put ?s r (mi_responses info)) s = Some r' \<longrightarrow> heard cd R s r'"
      using acc collected(2) heard by (auto simp: accountable_def)
    moreover have "mi_handler info \<in> H \<longrightarrow> n \<le> unat (mi_responses_required info)"
      using acc collected(2) by (auto simp: accountable_def)
    ultimately have "mi_handler info \<in> H \<longrightarrow> backed cd R n r"
      by (meson backed_agreeing le_trans)
    with accountable_erase [OF accountable_call [OF acc1]] accepted show ?thesis by auto
  next
    case (handler_fault f)
    then show ?thesis by simp
  qed (use acc1 in auto)
qed (auto simp: acc)


lemma accountable_error:
  assumes acc: "accountable cd R n H d log"
    and run: "handle_swarm_error cd env (d, (w, log)) = (x, (d', (w', log')))"
  shows "accountable cd R n H d' log' \<and> w' = w"
  using run by (cases rule: handle_swarm_error_cases) (auto simp: acc accountable_erase accountable_set_timer)

lemma accountable_timeout:
  assumes acc: "accountable cd R n H d log"
    and run: "handle_client_timeout record_call ec nonce (d, (w, log)) = (x, (d', (w', log')))"
  shows "accountable cd R n H d' log' \<and> w' = w"
  using run
  by (cases rule: handle_client_timeout_cases)
    (auto simp: acc accountable_erase accountable_call andthen_apply)

text \<open>
  \<open>sized w sw n\<close>: in the world \<open>w\<close> the quorum of \<open>sw\<close> is at least \<open>n\<close>; no call of the
  dispatcher changes that.
\<close>

locale quorum_contract = swarm_contract ops cd
  for ops :: "('w, 'sw) swarm_ops" and cd +
  fixes sized :: "'w \<Rightarrow> 'sw \<Rightarrow> nat \<Rightarrow> bool"
  assumes sized_majority: "sized w sw n \<Longrightarrow> so_honest_majority_size ops sw w = (Inr q, w') \<Longrightarrow> n \<le> unat q"
    and sized_sign: "so_sign_and_date_request ops sw e policy w = (x, w') \<Longrightarrow> sized w' = sized w"
    and sized_send: "so_send_request ops sw e policy w = (y, w') \<Longrightarrow> sized w' = sized w"
    and sized_register: "so_register_response_handler ops sw pc rh w = (b, w') \<Longrightarrow> sized w' = sized w"
    and sized_query: "so_honest_majority_size ops sw w = (z, w') \<Longrightarrow> sized w' = sized w"
begin

lemma sized_register_both: "register_swarm_handler ops sw w = (x, w') \<Longrightarrow> sized w' = sized w"
  unfolding register_swarm_handler_def by (auto elim!: sbind_cases dest!: sized_register)

lemma accountable_send:
  assumes acc: "accountable cd R n H d log"
    and big: "h \<in> H \<Longrightarrow> if policy = Fastest then n \<le> 1 else sized w sw n"
    and run: "send_message_to_swarm cd (log_ops ops) api_timeout sw db_uuid msg policy h (d, (w, log))
      = (x, (d', (w', log')))"
  shows "accountable cd R n H d' log' \<and> sized w' = sized w"
  using run
proof (cases rule: send_message_cases)
  case (tracked env w1 w2 info)
  obtain v1 l1 v2 l2 where w12: "w1 = (v1, l1)" "w2 = (v2, l2)" by (cases w1, cases w2) auto
  from tracked(1) w12 have v1: "so_sign_and_date_request ops sw (empty_envelope\<lparr>env_payload :=
      P_database_msg (ser_msg cd (request_msg db_uuid (next_nonce d) msg))\<rparr>) policy w = (Inr env, v1)"
    and l1: "l1 = log"
    by (auto simp: on_fst_run simp del: zoom_apply)
  have sized1: "sized v1 = sized w" by (rule sized_sign [OF v1])
  have maj: "policy \<noteq> Fastest \<Longrightarrow> so_honest_majority_size ops sw v1 = (Inr (mi_responses_required info), v2)"
    "l2 = log"
    using tracked(2,3) w12 l1 by (cases "policy = Fastest"; auto simp: on_fst_run simp del: zoom_apply)+
  have sized2: "sized v2 = sized w"
    using sized1 maj(1) sized_query tracked(3) w12 by (cases "policy = Fastest") auto
  have enough: "h \<in> H \<Longrightarrow> n \<le> unat (mi_responses_required info)"
  proof (cases "policy = Fastest")
    case True
    moreover have "mi_responses_required info = 1" using True tracked(3) by simp
    ultimately show "h \<in> H \<Longrightarrow> n \<le> unat (mi_responses_required info)" using big by simp
  next
    case False
    then show "h \<in> H \<Longrightarrow> n \<le> unat (mi_responses_required info)"
      using big maj(1) sized_majority [of v1 sw n] sized1 by simp
  qed
  have rest: "log' = log \<and> sized w' = sized v2"
    using tracked(6) w12 maj(2) sized_register_both sized_send
    by (auto simp: register_swarm_handler_def on_fst_run simp del: zoom_apply elim!: andthen_cases sbind_cases
        dest!: sized_register sized_send)
  have "accountable cd R n H (set_message (next_nonce d) info (d\<lparr>next_nonce := next_nonce d + 1\<rparr>)) log"
    using acc enough arg_cong [OF tracked(4), of mi_responses] arg_cong [OF tracked(4), of mi_handler]
    unfolding accountable_def by (auto split: if_splits)
  with tracked(5) rest sized2 show ?thesis by simp
qed (use accountable_next [OF acc] in \<open>auto simp: on_fst_run simp del: zoom_apply
    dest!: sized_sign sized_query\<close>)

lemma accountable_run:
  assumes "dispatch_inv uncalled d (w, log)" "called_once (w, log)" "to_come uncalled d (w, log) es"
    and "accountable cd R n H d log"
    and "\<forall>env. Response env \<in> set es \<longrightarrow> env \<in> R"
    and "\<forall>sw u m p h. Send sw u m p h \<in> set es \<longrightarrow> h \<in> H \<longrightarrow> (if p = Fastest then n \<le> 1 else sized w sw n)"
    and "dispatch_run cd (log_ops ops) record_call api_timeout es (d, (w, log)) = (x, (d', (w', log')))"
  shows "accountable cd R n H d' log'"
  using assms
proof (induction es arbitrary: d w log)
  case Nil
  then show ?case by (simp add: dispatch_run_def)
next
  case (Cons ev es)
  obtain y d1 w1 log1 where
    step: "dispatch_step cd (log_ops ops) record_call api_timeout ev (d, (w, log)) = (y, (d1, (w1, log1)))"
    by (metis prod.collapse)
  note inv1 = recorded.dispatch_step_inv [OF Cons.prems(1-3) step]
  have wf: "dispatch_wf d" using Cons.prems(1) by (simp add: dispatch_inv_def)
  have acc1: "accountable cd R n H d1 log1 \<and> sized w1 = sized w"
  proof (cases ev)
    case (Send sw u m p h)
    then have "Send sw u m p h \<in> set (ev # es)" by simp
    with Cons.prems(6) have "h \<in> H \<Longrightarrow> (if p = Fastest then n \<le> 1 else sized w sw n)" by blast
    from accountable_send [OF Cons.prems(4) this] step Send show ?thesis by auto
  next
    case (Response env)
    with Cons.prems(5) have "env \<in> R" by simp
    moreover obtain z where "handle_swarm_response cd record_call env (d, (w, log)) = (z, (d1, (w1, log1)))"
      using Response step by (auto elim: sbind_cases)
    ultimately show ?thesis using accountable_response [OF Cons.prems(4) _ wf] by metis
  next
    case (Error_response env)
    with step show ?thesis by (auto elim!: sbind_cases dest!: accountable_error [OF Cons.prems(4)])
  next
    case (Retry_timer ec nonce)
    with step have "handle_request_timeout (log_ops ops) ec nonce (d, (w, log)) = (y, (d1, (w1, log1)))"
      by simp
    then show ?thesis
      using Cons.prems(4)
      by (cases rule: handle_request_timeout_cases)
        (auto simp: accountable_set_timer on_fst_run simp del: zoom_apply dest!: sized_send)
  next
    case (Client_timer ec nonce)
    with step show ?thesis by (auto dest!: accountable_timeout [OF Cons.prems(4)])
  qed
  have "(d', (w', log')) = (d1, (w1, log1)) \<or>
    dispatch_run cd (log_ops ops) record_call api_timeout es (d1, (w1, log1)) = (x, (d', (w', log')))"
    using Cons.prems(7) step
    by (auto simp: dispatch_run_def andthen_apply catch_all_def split: sum.splits cxx_fault.splits)
  moreover have "\<forall>sw u m p h. Send sw u m p h \<in> set es \<longrightarrow> h \<in> H \<longrightarrow> (if p = Fastest then n \<le> 1 else sized w1 sw n)"
    using Cons.prems(6) acc1 by (metis list.set_intros(2))
  moreover have "\<forall>env. Response env \<in> set es \<longrightarrow> env \<in> R" using Cons.prems(5) by simp
  ultimately show ?case
    using Cons.IH [of d1 w1 log1] inv1 acc1 by auto
qed

lemma calls_are_backed:
  assumes "distinct (sent_handlers es)" "length (sent_handlers es) < 2 ^ 64 - 1"
    and "\<forall>sw u m p h'. Send sw u m p h' \<in> set es \<longrightarrow> h' = h \<longrightarrow> (if p = Fastest then n \<le> 1 else sized w sw n)"
    and "dispatch_run cd (log_ops ops) record_call api_timeout es (new_dispatch, (w, []))
           = (x, (d', (w', log)))"
    and "(h, r) \<in> set log"
  shows "r = timeout_response \<or> backed cd {env. Response env \<in> set es} n r"
proof -
  have "accountable cd {env. Response env \<in> set es} n {h} new_dispatch []"
    by (simp add: accountable_def)
  from accountable_run [OF dispatch_inv_new _ to_come_new [OF assms(1,2)] this _ _ assms(4)] assms(3,5)
  show ?thesis by (auto simp: accountable_def called_once_def)
qed

end

section \<open>Completion\<close>

text \<open>
  A response to an outstanding request: it parses, names the request, and is signed or a
  quick-read reply.
\<close>

definition answers :: "codec \<Rightarrow> u64 \<Rightarrow> database_response \<Rightarrow> envelope \<Rightarrow> bool" where
  "answers cd nonce r env \<longleftrightarrow>
     par_response cd (get_database_response (env_payload env)) = Some r
     \<and> hd_nonce (dr_header r) = nonce
     \<and> (has_quick_read (dr_reply r) \<or> env_signature env \<noteq> [])"

lemma agreeing_put: "agreeing cd (om_put s r rs) r = insert s (agreeing cd rs r)"
  by (auto simp: agreeing_def responses_are_equal_def)

lemma handle_answer:
  assumes "find_message d nonce = Some info" "answers cd nonce r env"
  shows "handle_swarm_response cd run_handler env (d, w) =
    collect cd run_handler nonce (env_sender env) r info (d, w)"
  using assms
  by (auto simp: handle_swarm_response_def collect_def answers_def Let_def cong: if_cong)

text \<open>The handler runs with the answer that completes the quorum, and the request is closed.\<close>

lemma answer_completes:
  assumes wf: "msg_wf info" and info: "find_message d nonce = Some info"
    and ans: "answers cd nonce r env"
    and "unat (mi_responses_required info) \<le> card (insert (env_sender env) (agreeing cd (mi_responses info) r))"
  shows "\<exists>d'. handle_swarm_response cd record_call env (d, (w, log)) =
      (Inr False, (d', (w, log @ [(mi_handler info, r)]))) \<and> find_message d' nonce = None"
  using qualify_add_response [OF wf, of cd "env_sender env" r] assms(4)
  by (simp add: handle_answer [OF info ans] collect_def agreeing_put andthen_apply)

lemma answer_waits:
  assumes wf: "msg_wf info" and info: "find_message d nonce = Some info"
    and ans: "answers cd nonce r env"
    and "card (insert (env_sender env) (agreeing cd (mi_responses info) r)) < unat (mi_responses_required info)"
  shows "handle_swarm_response cd record_call env (d, (w, log)) =
      (Inr False, (set_message nonce (add_response (env_sender env) r info) d, (w, log)))"
  using qualify_add_response [OF wf, of cd "env_sender env" r] assms(4)
  by (simp add: handle_answer [OF info ans] collect_def agreeing_put)

lemma late_answer:
  assumes "find_message d nonce = None" "answers cd nonce r env"
  shows "handle_swarm_response cd run_handler env (d, w) = (Inr False, (d, w))"
  using assms by (auto simp: handle_swarm_response_def answers_def Let_def)

lemma dispatch_run_response:
  assumes "handle_swarm_response cd run_handler env s = (Inr b, s')"
  shows "dispatch_run cd ops run_handler api_timeout (Response env # es) s =
    dispatch_run cd ops run_handler api_timeout es s'"
  using assms by (simp add: dispatch_run_def andthen_apply catch_all_def sbind_apply)

lemma late_answers:
  "find_message d nonce = None \<Longrightarrow> \<forall>env \<in> set envs. answers cd nonce r env \<Longrightarrow>
   dispatch_run cd ops run_handler api_timeout (map Response envs) (d, w) = (Inr (), (d, w))"
proof (induction envs)
  case (Cons env envs)
  then have "handle_swarm_response cd run_handler env (d, w) = (Inr False, (d, w))"
    by (intro late_answer [of d nonce cd r env]) simp_all
  from dispatch_run_response [OF this] Cons show ?case by simp
qed (simp add: dispatch_run_def)

text \<open>
  Whatever was received before, equal answers from as many distinct senders as required
  complete the request: its handler is called once, with that answer.
\<close>

lemma answers_complete:
  "find_message d nonce = Some info \<Longrightarrow> msg_wf info \<Longrightarrow> \<forall>env \<in> set envs. answers cd nonce r env \<Longrightarrow>
   unat (mi_responses_required info) \<le> card (agreeing cd (mi_responses info) r \<union> env_sender ` set envs) \<Longrightarrow>
   card (agreeing cd (mi_responses info) r) < unat (mi_responses_required info) \<Longrightarrow>
   \<exists>d'. dispatch_run cd ops record_call api_timeout (map Response envs) (d, (w, log)) =
      (Inr (), (d', (w, log @ [(mi_handler info, r)]))) \<and> find_message d' nonce = None"
proof (induction envs arbitrary: d info)
  case (Cons env envs)
  let ?k = "card (insert (env_sender env) (agreeing cd (mi_responses info) r))"
  have ans: "answers cd nonce r env" "\<forall>env \<in> set envs. answers cd nonce r env"
    using Cons.prems(3) by auto
  show ?case
  proof (cases "unat (mi_responses_required info) \<le> ?k")
    case True
    from answer_completes [OF Cons.prems(2,1) ans(1) True, where w = w and log = log]
    obtain d1 where
      done1: "handle_swarm_response cd record_call env (d, (w, log)) =
        (Inr False, (d1, (w, log @ [(mi_handler info, r)])))" "find_message d1 nonce = None"
      by blast
    from dispatch_run_response [OF done1(1)] late_answers [OF done1(2) ans(2)] done1(2)
    show ?thesis by (intro exI [of _ d1]) simp
  next
    case False
    let ?info = "add_response (env_sender env) r info"
    have waits: "handle_swarm_response cd record_call env (d, (w, log)) =
        (Inr False, (set_message nonce ?info d, (w, log)))"
      using answer_waits [OF Cons.prems(2,1) ans(1)] False by simp
    have "mi_responses_required info \<noteq> 1"
    proof
      assume "mi_responses_required info = 1"
      from qualify_single [OF Cons.prems(2) this, of cd "env_sender env" r] False show False
        by (simp add: qualify_add_response [OF Cons.prems(2)] agreeing_put)
    qed
    then have wf1: "msg_wf ?info" by (rule msg_wf_add_response [OF Cons.prems(2)])
    have "\<exists>d'. dispatch_run cd ops record_call api_timeout (map Response envs)
        (set_message nonce ?info d, (w, log)) =
        (Inr (), (d', (w, log @ [(mi_handler ?info, r)]))) \<and> find_message d' nonce = None"
    proof (intro Cons.IH wf1 ans(2))
      show "find_message (set_message nonce ?info d) nonce = Some ?info" by simp
      show "unat (mi_responses_required ?info) \<le> card (agreeing cd (mi_responses ?info) r \<union> env_sender ` set envs)"
        using Cons.prems(4) by (simp add: agreeing_put insert_commute)
      show "card (agreeing cd (mi_responses ?info) r) < unat (mi_responses_required ?info)"
        using False by (simp add: agreeing_put)
    qed
    with dispatch_run_response [OF waits] show ?thesis by simp
  qed
qed simp

end
