(* ===== verification/Samples.thy ===== *)
theory Samples
  imports Swarm
begin

text \<open>
  Concrete instances of the parameters of the model, on which its definitions are evaluated:
  JSON access as jsoncpp does it on its value types, a platform whose nodes and timers are
  numbers, and a swarm.
\<close>

section \<open>JSON values\<close>

fun value_member :: "json \<Rightarrow> string \<Rightarrow> json cxx" where
  "value_member (JObject m) k = Inr (case map_of m k of Some v \<Rightarrow> v | None \<Rightarrow> JNull)"
| "value_member JNull k = Inr JNull"
| "value_member _ k = Inl (Throws ''Json::LogicError'')"

fun value_index :: "json \<Rightarrow> nat \<Rightarrow> json cxx" where
  "value_index (JArray vs) n = Inr (if n < length vs then vs ! n else JNull)"
| "value_index JNull n = Inr JNull"
| "value_index _ n = Inl (Throws ''Json::LogicError'')"

fun value_elements :: "json \<Rightarrow> json list" where
  "value_elements (JArray vs) = vs"
| "value_elements (JObject m) = map snd m"
| "value_elements _ = []"

fun value_string :: "json \<Rightarrow> string cxx" where
  "value_string (JString s) = Inr s"
| "value_string JNull = Inr []"
| "value_string (JUInt n) = Inr (to_string n)"
| "value_string (JInt i) = Inr (if i < 0 then CHR ''-'' # to_string (nat (- i)) else to_string (nat i))"
| "value_string (JBool b) = Inr (if b then ''true'' else ''false'')"
| "value_string _ = Inl (Throws ''Json::LogicError'')"

fun value_int :: "json \<Rightarrow> int cxx" where
  "value_int JNull = Inr 0"
| "value_int (JInt i) = (if - (2 ^ 31) \<le> i \<and> i < 2 ^ 31 then Inr i else Inl (Throws ''Json::LogicError''))"
| "value_int (JUInt n) = (if n < 2 ^ 31 then Inr (int n) else Inl (Throws ''Json::LogicError''))"
| "value_int (JBool b) = Inr (if b then 1 else 0)"
| "value_int _ = Inl (Throws ''Json::LogicError'')"

fun value_uint :: "json \<Rightarrow> u32 cxx" where
  "value_uint JNull = Inr 0"
| "value_uint (JInt i) = (if 0 \<le> i \<and> i < 2 ^ 32 then Inr (of_int i) else Inl (Throws ''Json::LogicError''))"
| "value_uint (JUInt n) = (if n < 2 ^ 32 then Inr (of_nat n) else Inl (Throws ''Json::LogicError''))"
| "value_uint (JBool b) = Inr (if b then 1 else 0)"
| "value_uint _ = Inl (Throws ''Json::LogicError'')"

definition values_json :: "(string \<Rightarrow> json option) \<Rightarrow> (json \<Rightarrow> string) \<Rightarrow> jsoncpp" where
  "values_json parse styled = \<lparr>js_parse = parse, js_styled = styled, js_member = value_member,
     js_index = value_index, js_elements = value_elements, js_as_string = value_string,
     js_as_uint = value_uint, js_as_int = value_int\<rparr>"

lemma values_json_sel [simp]:
  "js_parse (values_json p st) = p" "js_styled (values_json p st) = st"
  "js_member (values_json p st) = value_member" "js_index (values_json p st) = value_index"
  "js_elements (values_json p st) = value_elements" "js_as_string (values_json p st) = value_string"
  "js_as_uint (values_json p st) = value_uint" "js_as_int (values_json p st) = value_int"
  by (simp_all add: values_json_def)

lemma values_defined:
  "value_member v k \<noteq> Inl Undefined" "value_index v n \<noteq> Inl Undefined"
  "value_string v \<noteq> Inl Undefined" "value_int v \<noteq> Inl Undefined" "value_uint v \<noteq> Inl Undefined"
  by (cases v; simp)+

section \<open>A platform\<close>

text \<open>The world counts the objects made so far and serves as the clock.\<close>

definition sample_pf :: "(nat, nat, nat) platform" where
  "sample_pf = \<lparr>pf_create_node = (\<lambda>h p w. (Inr w, Suc w)),
     pf_register_message_handler = (\<lambda>n u. ret ()), pf_send_message = (\<lambda>n m c. ret ()),
     pf_back_off = (\<lambda>n b. ret ()), pf_make_timer = (\<lambda>w. (Inr w, Suc w)),
     pf_start_timer = (\<lambda>t s u. ret ()), pf_steady_now = gets int, pf_system_now = gets int,
     pf_uniform = (\<lambda>k. ret k), pf_ctime = (\<lambda>t. ''now'')\<rparr>"

lemma sample_pf_sel [simp]:
  "pf_create_node sample_pf h p w = (Inr w, Suc w)" "pf_make_timer sample_pf w = (Inr w, Suc w)"
  "pf_register_message_handler sample_pf n u = ret ()" "pf_send_message sample_pf n m c = ret ()"
  "pf_back_off sample_pf n b = ret ()" "pf_start_timer sample_pf t s u = ret ()"
  "pf_steady_now sample_pf = gets int" "pf_system_now sample_pf = gets int"
  "pf_uniform sample_pf k = ret k"
  by (simp_all add: sample_pf_def)

section \<open>A swarm\<close>

text \<open>A swarm of one node, and a response that lists one peer with the given port.\<close>

definition sample_peer :: "string \<Rightarrow> json \<Rightarrow> json" where
  "sample_peer u port = JObject [(''host'', JString ''h''), (''port'', port), (''uuid'', JString u)]"

definition sample_module_status :: "json list \<Rightarrow> json" where
  "sample_module_status ps = JObject [(''module'', JArray [JObject [(''status'',
     JObject [(''peer_index'', JArray ps), (''primary'', JObject [(''uuid'', JString ''a'')])])]])]"

definition sample_json :: "json list \<Rightarrow> jsoncpp" where
  "sample_json ps = values_json (\<lambda>t. Some (sample_module_status ps)) (\<lambda>j. ''styled'')"

definition sample_info :: "(nat, nat) node_info" where
  "sample_info = empty_info\<lparr>ni_node := Some 0, ni_status_timer := Some 1\<rparr>"

definition sample_swarm :: "(nat, nat, unit) swarm" where
  "sample_swarm = (new_swarm ''s'' ''me'' [])\<lparr>sw_nodes := Some [(''a'', sample_info)],
     sw_response_handlers := [(kStatusResponse, On_status_response)]\<rparr>"

text \<open>A response that lists the known peer and a new one.\<close>

definition two_peers :: "json list" where
  "two_peers = [sample_peer ''a'' (JUInt 1), sample_peer ''b'' (JUInt 2)]"

definition status_env :: envelope where
  "status_env = empty_envelope\<lparr>env_payload := P_status_response ''t''\<rparr>"

text \<open>For evaluating the definitions of \<open>Swarm\<close> on the samples.\<close>

lemmas swarm_run_simps = sbind_apply andthen_apply Let_def handle_status_response_def apply_status_def
  parse_module_status_def scan_peer_def info_at_def the_nodes_def add_node_def deref_def
  schedule_status_request_def random_avg_time_def member_string_def send_status_request_def
  sign_and_date_request_def finish_init_def set_info_def install_nodes_def STATUS_REQUEST_TIME_def
  screen_node_message_def handle_node_message_def log_invalid_message_def null_crypto_def null_sign_def
  null_verify_def handle_send_result_def send_request_def init_nodes_def add_nodes_def add_listed_node_def
  send_node_request_def pick_node_def honest_majority_size_def register_response_handler_def

lemmas sample_defs = sample_json_def sample_module_status_def two_peers_def sample_peer_def
  sample_swarm_def sample_info_def new_swarm_def empty_info_def status_env_def empty_envelope_def
  sample_status_def kStatusResponse_def kDatabaseResponse_def kSwarmError_def

end
