(* ===== verification/Swarm_Ops.thy ===== *)
theory Swarm_Ops
  imports Swarm_Invariant Dispatch_Runs Samples
begin

text \<open>
  The swarms of \<open>swarm/swarm.cpp\<close> behind the interface of \<open>swarm/swarm_base.hpp\<close>: references are
  resolved in a heap of swarm objects, and the contracts \<open>swarm_contract\<close> and
  \<open>quorum_contract\<close> hold.  The properties of the dispatcher are stated here over real swarms.
\<close>

section \<open>Swarm objects behind references\<close>

type_synonym ('sw, 'n, 't, 'i) swarm_heap = "'sw \<Rightarrow> ('n, 't, 'i) swarm option"

definition on_swarm ::
  "'sw \<Rightarrow> ('n, 't, 'i, 'w, 'a) swarm_prog \<Rightarrow> (('sw, 'n, 't, 'i) swarm_heap \<times> 'w, 'a) prog" where
  "on_swarm sw m = (\<lambda>(H, w). case H sw of
       None \<Rightarrow> (Inl Undefined, (H, w))
     | Some s \<Rightarrow> (case m (s, w) of (r, (s', w')) \<Rightarrow> (r, (H(sw \<mapsto> s'), w'))))"

definition real_ops ::
  "codec \<Rightarrow> crypto_ops \<Rightarrow> ('w, 'n, 't) platform \<Rightarrow> (('sw, 'n, 't, 'i) swarm_heap \<times> 'w, 'sw) swarm_ops" where
  "real_ops cd cr pf = \<lparr>
     so_sign_and_date_request = (\<lambda>sw e policy. on_swarm sw (sign_and_date_request cd cr pf e policy)),
     so_send_request = (\<lambda>sw e policy. on_swarm sw (send_request cd pf e policy)),
     so_register_response_handler = (\<lambda>sw type h. on_swarm sw (register_response_handler type h)),
     so_honest_majority_size = (\<lambda>sw. on_swarm sw (honest_majority_size pf))\<rparr>"

lemma real_ops_sel [simp]:
  "so_sign_and_date_request (real_ops cd cr pf) sw e policy = on_swarm sw (sign_and_date_request cd cr pf e policy)"
  "so_send_request (real_ops cd cr pf) sw e policy = on_swarm sw (send_request cd pf e policy)"
  "so_register_response_handler (real_ops cd cr pf) sw type h = on_swarm sw (register_response_handler type h)"
  "so_honest_majority_size (real_ops cd cr pf) sw = on_swarm sw (honest_majority_size pf)"
  by (simp_all add: real_ops_def)

lemma on_swarm_cases:
  assumes "on_swarm sw m (H, w) = (x, W)"
  obtains (dangling) "H sw = None" "x = Inl Undefined" "W = (H, w)"
    | (runs) s s' w' where "H sw = Some s" "m (s, w) = (x, (s', w'))" "W = (H(sw \<mapsto> s'), w')"
  using assms unfolding on_swarm_def by (auto split: option.splits prod.splits)

section \<open>How many nodes a swarm has\<close>

text \<open>The size of the node map, or of the one that \<open>init_nodes\<close> will build.\<close>

definition node_count :: "('n, 't, 'i) swarm \<Rightarrow> nat" where
  "node_count s =
     (if sw_initial_nodes s \<noteq> [] then card (fst ` set (sw_initial_nodes s))
      else case sw_nodes s of None \<Rightarrow> 0 | Some m \<Rightarrow> length m)"

lemma add_node_frame: "add_node pf u h p (s, w) = (x, (s', w')) \<Longrightarrow> s' = s"
  unfolding add_node_def
  by (auto elim!: sbind_cases andthen_cases simp: on_snd_def split: prod.splits)

lemma add_each_node:
  assumes "for_each xs (add_listed_node pf) (s, w) = (x, (s', w'))"
    and "sw_nodes s = Some m" "um_wf m"
  shows "sw_initial_nodes s' = sw_initial_nodes s \<and> (\<exists>m'. sw_nodes s' = Some m' \<and> um_wf m'
      \<and> (x = Inr () \<longrightarrow> dom (map_of m') = dom (map_of m) \<union> fst ` set xs))"
  using assms
proof (induction xs arbitrary: s w m)
  case (Cons e xs)
  obtain u a where e: "e = (u, a)" by fastforce
  obtain r s1 w1 where add: "add_node pf u (pa_host a) (pa_port a) (s, w) = (r, (s1, w1))"
    by (metis prod.collapse)
  then have s1: "s1 = s" by (rule add_node_frame)
  show ?case
  proof (cases r)
    case (Inl f)
    with Cons.prems add s1 show ?thesis by (auto simp: e andthen_apply sbind_apply add_listed_node_def [of pf "(u, a)"])
  next
    case (Inr info)
    have wf: "um_wf (AList.update u info m)" using Cons.prems(3) by (rule um.wf_put)
    have "for_each xs (add_listed_node pf) (set_info u info s, w1) = (x, (s', w'))"
      using Cons.prems(1) add Inr s1 by (simp add: e andthen_apply sbind_apply add_listed_node_def [of pf "(u, a)"])
    from Cons.IH [OF this _ wf] Cons.prems(2) show ?thesis
      by (auto simp: um.keys_put e)
  qed
qed auto

lemma node_count_init:
  assumes "init_nodes pf (s, w) = (x, (s', w'))"
  shows "node_count s' = node_count s \<and> (x = Inr () \<longrightarrow> sw_initial_nodes s' = [])"
proof (cases "sw_initial_nodes s")
  case Nil
  with assms show ?thesis by (simp add: init_nodes_def)
next
  case (Cons front rest)
  let ?each = "for_each (sw_initial_nodes s) (add_listed_node pf) (install_nodes [] s, w)"
  obtain y s1 w1 where each: "?each = (y, (s1, w1))" by (metis prod.collapse)
  note added = add_each_node [OF each, of "[]"]
  have "sw_initial_nodes s1 = sw_initial_nodes s"
    using added by simp
  moreover have "\<exists>m'. sw_nodes s1 = Some m' \<and> um_wf m' \<and> (y = Inr () \<longrightarrow> dom (map_of m') = fst ` set (sw_initial_nodes s))"
    using added by simp
  then obtain m' where m': "sw_nodes s1 = Some m'" "um_wf m'"
    "y = Inr () \<Longrightarrow> dom (map_of m') = fst ` set (sw_initial_nodes s)" by blast
  moreover have "y = Inr () \<Longrightarrow> length m' = card (fst ` set (sw_initial_nodes s))"
    using um.size_eq_card [OF m'(2)] m'(3) by simp
  ultimately have count: "sw_initial_nodes s1 = sw_initial_nodes s"
    "y = Inr () \<Longrightarrow> sw_nodes s1 = Some m' \<and> length m' = card (fst ` set (sw_initial_nodes s))"
    by simp_all
  show ?thesis
  proof (cases y)
    case (Inl f)
    with assms each Cons have "x = Inl f" "s' = s1"
      by (simp_all add: init_nodes_def add_nodes_def andthen_apply)
    with count(1) Cons show ?thesis by (simp add: node_count_def)
  next
    case (Inr u)
    with assms each Cons have "s' = s1\<lparr>sw_primary_node := fst front, sw_fastest_node := fst front,
        sw_initial_nodes := []\<rparr>"
      by (simp add: init_nodes_def add_nodes_def andthen_apply)
    with count(2) Inr Cons show ?thesis by (simp add: node_count_def)
  qed
qed

lemma node_count_simps [simp]:
  "node_count (s\<lparr>sw_response_handlers := hs\<rparr>) = node_count s"
  by (simp add: node_count_def)

lemma sign_frame:
  "sign_and_date_request cd cr pf e policy (s, w) = (x, (s', w')) \<Longrightarrow> s' = s"
  unfolding sign_and_date_request_def
  by (auto elim!: sbind_cases simp: Let_def on_snd_def split: prod.splits)

lemma send_node_request_frame: "send_node_request cd pf n e (s, w) = (x, (s', w')) \<Longrightarrow> s' = s"
  unfolding send_node_request_def
  by (auto elim!: sbind_cases simp: deref_def on_snd_def split: prod.splits option.splits)

lemma broadcast_frame:
  "for_each m (\<lambda>e. send_node_request cd pf (ni_node (snd e)) request) (s, w) = (x, (s', w')) \<Longrightarrow> s' = s"
  by (induction m arbitrary: s w) (auto elim!: andthen_cases dest: send_node_request_frame)

lemma node_count_send:
  assumes "send_request cd pf e policy (s, w) = (x, (s', w'))"
  shows "node_count s' = node_count s"
  using assms unfolding send_request_def
  by (auto elim!: andthen_cases sbind_cases
      simp: the_nodes_def deref_def split: option.splits send_policy.splits
      dest!: node_count_init send_node_request_frame broadcast_frame)

lemma node_count_majority:
  assumes "honest_majority_size pf (s, w) = (x, (s', w'))"
  shows "node_count s' = node_count s \<and> (\<forall>q. x = Inr q \<longrightarrow> q = majority_of (of_nat (node_count s)))"
proof -
  obtain y s1 w1 where init: "init_nodes pf (s, w) = (y, (s1, w1))" by (metis prod.collapse)
  note count = node_count_init [OF init]
  show ?thesis
  proof (cases y)
    case (Inl f)
    with assms init count show ?thesis by (auto simp: honest_majority_size_def andthen_apply)
  next
    case (Inr u)
    with assms init have "s' = s1"
      and "\<forall>q. x = Inr q \<longrightarrow> (\<exists>m. sw_nodes s1 = Some m \<and> q = majority_of (of_nat (length m)))"
      by (auto simp: honest_majority_size_def andthen_apply sbind_apply the_nodes_def split: option.splits)
    with count Inr show ?thesis by (auto simp: node_count_def)
  qed
qed

lemma node_count_register:
  assumes "register_response_handler type h (s, w) = (x, (s', w'))"
  shows "node_count s' = node_count s"
  using assms unfolding register_response_handler_def by (auto split: if_splits)

section \<open>The contracts\<close>

text \<open>The quorum of the swarm \<open>sw\<close> refers to at least \<open>n\<close> responses.\<close>

definition sized :: "('sw, 'n, 't, 'i) swarm_heap \<times> 'w \<Rightarrow> 'sw \<Rightarrow> nat \<Rightarrow> bool" where
  "sized = (\<lambda>(H, w) sw n. \<exists>s. H sw = Some s \<and> n \<le> unat (majority_of (of_nat (node_count s))))"

lemma sized_on_swarm:
  assumes "on_swarm sw m W = (x, W')"
    and "\<And>s w r s' w'. m (s, w) = (r, (s', w')) \<Longrightarrow> node_count s' = node_count s"
  shows "sized W' = sized W"
proof -
  obtain H w where W: "W = (H, w)" by fastforce
  have "sized W' = sized (H, w)"
    using assms(1) unfolding W
  proof (cases rule: on_swarm_cases)
    case (runs s s' w')
    with assms(2) [OF runs(2)] show ?thesis by (auto simp: sized_def fun_eq_iff)
  qed simp
  with W show ?thesis by simp
qed

lemma sign_keeps_request:
  assumes "envelope_signer (co_sign cr)" "msg_roundtrip cd"
    and e: "env_payload e = P_database_msg (ser_msg cd m)"
    and run: "sign_and_date_request cd cr pf e policy (s, w) = (Inr e', S)"
  shows "\<exists>m'. env_payload e' = P_database_msg (ser_msg cd m') \<and> same_request m m'"
  using run e envelope_signer.sign_payload [OF assms(1)] assms(2)
  by (auto simp: sign_and_date_request_def Let_def same_request_def elim!: sbind_cases
      split: prod.splits)

lemma real_quorum_contract:
  assumes "envelope_signer (co_sign cr)"
  shows "quorum_contract (real_ops cd cr pf) cd sized"
proof
  show "\<exists>m'. env_payload e' = P_database_msg (ser_msg cd m') \<and> same_request m m'"
    if "msg_roundtrip cd" "env_payload e = P_database_msg (ser_msg cd m)"
      "so_sign_and_date_request (real_ops cd cr pf) sw e policy W = (Inr e', W')"
    for e m sw policy W e' W'
    using that(3) sign_keeps_request [OF assms that(1,2)]
    by (cases W) (auto elim!: on_swarm_cases)
  show "q \<noteq> 0" if "so_honest_majority_size (real_ops cd cr pf) sw W = (Inr q, W')" for sw W q W'
    using that by (cases W) (auto elim!: on_swarm_cases dest!: node_count_majority simp: majority_of_not_0)
  show "n \<le> unat q" if "sized W sw n" "so_honest_majority_size (real_ops cd cr pf) sw W = (Inr q, W')"
    for W sw n q W'
    using that by (cases W) (auto elim!: on_swarm_cases dest!: node_count_majority simp: sized_def)
  show "sized W' = sized W" if "so_sign_and_date_request (real_ops cd cr pf) sw e policy W = (x, W')"
    for sw e policy W x W'
    using that by (auto intro!: sized_on_swarm dest: sign_frame)
  show "sized W' = sized W" if "so_send_request (real_ops cd cr pf) sw e policy W = (x, W')"
    for sw e policy W x W'
    using that by (auto intro!: sized_on_swarm dest: node_count_send)
  show "sized W' = sized W" if "so_register_response_handler (real_ops cd cr pf) sw type h W = (x, W')"
    for sw type h W x W'
    using that by (auto intro!: sized_on_swarm dest: node_count_register)
  show "sized W' = sized W" if "so_honest_majority_size (real_ops cd cr pf) sw W = (x, W')"
    for sw W x W'
    using that by (auto intro!: sized_on_swarm dest: node_count_majority)
qed

interpretation net: quorum_contract "real_ops cd (real_crypto ossl k) pf" cd sized
  for cd :: codec and ossl :: "('pk, 'sk) openssl" and k pf
  by (rule real_quorum_contract) (simp add: real_crypto_def real.envelope_signer_axioms)

interpretation null_net: quorum_contract "real_ops cd null_crypto pf" cd sized
  for cd :: codec and pf
  by (rule real_quorum_contract) (simp add: null_crypto_def null.envelope_signer_axioms)

section \<open>Sample runs\<close>

text \<open>A heap with one swarm of one node, a signed answer to request 1 and a request for it.\<close>

definition sample_heap :: "(nat, nat, nat, unit) swarm_heap \<times> nat" where
  "sample_heap = ([0 \<mapsto> sample_swarm], 7)"

definition sample_answer :: "string \<Rightarrow> envelope" where
  "sample_answer u = empty_envelope\<lparr>env_sender := u, env_signature := ''x'',
     env_payload := P_database_response ''v''\<rparr>"

definition sample_events :: "'h \<Rightarrow> (nat, 'h) dispatch_event list" where
  "sample_events h = [Send 0 ''db'' \<lparr>dm_header = empty_header, dm_request = Req_read ''k''\<rparr> Normal h,
     Response (sample_answer ''a'')]"

definition sample_message :: "u64 \<Rightarrow> (nat, nat) msg_info" where
  "sample_message required = \<lparr>mi_swarm = 0, mi_request = empty_envelope, mi_policy = Normal,
     mi_responses_required = required, mi_retry_timer = Some Idle, mi_timeout_timer = Some Idle,
     mi_responses = [], mi_handler = 5\<rparr>"

definition sample_dispatch :: "u64 \<Rightarrow> (nat, nat) db_dispatch" where
  "sample_dispatch required = \<lparr>next_nonce = 2, messages = [(1, sample_message required)]\<rparr>"

lemmas dispatch_run_simps = dispatch_run_def catch_all_def send_message_to_swarm_def
  setup_request_policy_def setup_client_timeout_def register_swarm_handler_def on_swarm_def
  real_crypto_def crypto_sign_def deterministic_serialize_def majority_of_def
  handle_swarm_response_def qualify_response_def set_message_def erase_message_def find_message_def
  add_response_def response_of_def handle_swarm_error_def handle_client_timeout_def

lemma sample_dispatch_find [simp]:
  "find_message (sample_dispatch required) 1 = Some (sample_message required)"
  by (simp add: sample_dispatch_def find_message_def)

lemma sample_dispatch_wf:
  assumes "1 < required" shows "dispatch_wf (sample_dispatch required)"
  using assms by (auto simp: dispatch_wf_def sample_dispatch_def find_message_def msg_wf_def
      sample_message_def om_wf_def split: if_splits)

lemma sample_run:
  "\<exists>d W. dispatch_run sample_cd (log_ops (real_ops sample_cd (real_crypto echo_ossl None) sample_pf))
      record_call 10 (sample_events h) (new_dispatch, (sample_heap, [])) =
    (Inr (), (d, (W, [(h, sample_response ''v'')])))"
  by (simp add: dispatch_run_simps swarm_run_simps sample_defs sample_events_def sample_heap_def
      new_dispatch_def sample_answer_def record_call_def sample_response_def empty_header_def)

section \<open>The dispatcher over real swarms\<close>

text \<open>
  C2. However client calls, responses, errors and timers follow each other, the handler of a
  request is called at most once, as long as no handler is passed twice, fewer than
  \<open>2 ^ 64 - 1\<close> requests are made and every handler returns to its caller (the calls are
  recorded by a handler that always does).  A handler that throws leaves its request in the table and is
  called again; the theory \<open>Dispatch_Faults\<close> is about those.
\<close>

theorem request_handler_called_at_most_once:
  fixes ossl :: "('pk, 'sk) openssl"
  assumes "distinct (sent_handlers es)" "length (sent_handlers es) < 2 ^ 64 - 1"
    and "dispatch_run cd (log_ops (real_ops cd (real_crypto ossl k) pf)) record_call api_timeout es
           (new_dispatch, (W, [])) = (x, (d', (W', log)))"
  shows "distinct (map fst log)"
  by (rule net.calls_at_most_once [OF assms])

lemma request_handler_called_at_most_once_witness:
  "\<exists>d W. dispatch_run sample_cd (log_ops (real_ops sample_cd (real_crypto echo_ossl None) sample_pf))
      record_call 10 (sample_events (5 :: nat)) (new_dispatch, (sample_heap, [])) =
    (Inr (), (d, (W, [(5, sample_response ''v'')]))) \<and> distinct (map fst [(5 :: nat, sample_response ''v'')])"
proof -
  obtain d W where run: "dispatch_run sample_cd (log_ops (real_ops sample_cd (real_crypto echo_ossl None)
      sample_pf)) record_call 10 (sample_events (5 :: nat)) (new_dispatch, (sample_heap, [])) =
      (Inr (), (d, (W, [(5, sample_response ''v'')])))"
    using sample_run [of "5 :: nat"] by blast
  from request_handler_called_at_most_once [OF _ _ run] run show ?thesis
    by (simp add: sample_events_def)
qed

text \<open>
  C1. A handler never sees an answer that too few senders gave.  In every run of a dispatcher
  over swarms whose lists of nodes stay as they are (no status response arrives between its
  events) and whose handlers return, let \<open>n\<close> be a number that the policy of a request asks for:
  at most the quorum of its swarm, or for a quick read at most one.  Then what the handler is
  called with is the client timeout, or a response that at least \<open>n\<close> distinct senders gave in
  the envelopes received, each one signed or a quick-read reply.  So a quick read is
  answered on one unsigned response, every other request on a quorum.
\<close>

theorem accepted_response_has_quorum:
  fixes ossl :: "('pk, 'sk) openssl"
  assumes "distinct (sent_handlers es)" "length (sent_handlers es) < 2 ^ 64 - 1"
    and "\<forall>sw u m p h'. Send sw u m p h' \<in> set es \<longrightarrow> h' = h \<longrightarrow> (if p = Fastest then n \<le> 1 else sized W sw n)"
    and "dispatch_run cd (log_ops (real_ops cd (real_crypto ossl k) pf)) record_call api_timeout es
           (new_dispatch, (W, [])) = (x, (d', (W', log)))"
    and "(h, r) \<in> set log"
  shows "r = timeout_response \<or> backed cd {env. Response env \<in> set es} n r"
  by (rule net.calls_are_backed [OF assms])

lemma accepted_response_has_quorum_witness:
  "backed sample_cd {env. Response env \<in> set (sample_events (5 :: nat))} 1 (sample_response ''v'')"
proof -
  obtain d W where run: "dispatch_run sample_cd (log_ops (real_ops sample_cd (real_crypto echo_ossl None)
      sample_pf)) record_call 10 (sample_events (5 :: nat)) (new_dispatch, (sample_heap, [])) =
      (Inr (), (d, (W, [(5, sample_response ''v'')])))"
    using sample_run [of "5 :: nat"] by blast
  have "sized sample_heap 0 1"
    by (simp add: sized_def sample_heap_def node_count_def sample_defs majority_of_def)
  then have "\<forall>sw u m p h'. Send sw u m p h' \<in> set (sample_events (5 :: nat)) \<longrightarrow> h' = 5 \<longrightarrow> (if p = Fastest then (1 :: nat) \<le> 1 else sized sample_heap sw 1)"
    by (simp add: sample_events_def)
  from accepted_response_has_quorum [OF _ _ this run, of "sample_response ''v''"] show ?thesis
    by (simp add: sample_events_def sample_response_def timeout_response_def)
qed

text \<open>
  C35. After the swarm has answered a request with the timestamp or the too-large error the
  request is gone without an answer: whatever happens later, its client timeout included,
  its handler is never called.
\<close>

theorem rejected_request_is_never_answered:
  fixes ossl :: "('pk, 'sk) openssl"
  assumes "dispatch_inv uncalled d (W, log)" "called_once (W, log)"
    and "find_message d nonce = Some info" "mi_handler info = h"
    and "par_error cd (get_swarm_error (env_payload env)) = Some err"
      "stoull (se_data err) = Some nonce" "nonce \<noteq> 0"
      "se_message err \<in> {TIMESTAMP_ERROR_MSG, TOO_LARGE_ERROR_MSG}"
    and "to_come uncalled d (W, log) es" "h \<notin> set (sent_handlers es)"
    and "dispatch_run cd (log_ops (real_ops cd (real_crypto ossl k) pf)) record_call api_timeout
           (Error_response env # es) (d, (W, log)) = (x, (d', (W', log')))"
  shows "h \<notin> fst ` set log'"
  by (rule net.dropped_for_good [OF assms])

lemma rejected_request_is_never_answered_witness:
  "\<exists>x d' W' log'. dispatch_run (sample_cd\<lparr>par_error := (\<lambda>s. Some \<lparr>se_message = TIMESTAMP_ERROR_MSG, se_data = ''1''\<rparr>)\<rparr>)
      (log_ops (real_ops (sample_cd\<lparr>par_error := (\<lambda>s. Some \<lparr>se_message = TIMESTAMP_ERROR_MSG, se_data = ''1''\<rparr>)\<rparr>)
        (real_crypto echo_ossl None) sample_pf)) record_call 10
      [Error_response empty_envelope, Client_timer No_error 1] (sample_dispatch 2, (sample_heap, []))
      = (x, (d', (W', log'))) \<and> 5 \<notin> fst ` set log'"
proof -
  let ?cd = "sample_cd\<lparr>par_error := (\<lambda>s. Some \<lparr>se_message = TIMESTAMP_ERROR_MSG, se_data = ''1''\<rparr>)\<rparr>"
  obtain x d' W' log' where run: "dispatch_run ?cd
      (log_ops (real_ops ?cd (real_crypto echo_ossl None) sample_pf)) record_call 10
      [Error_response empty_envelope, Client_timer No_error 1] (sample_dispatch 2, (sample_heap, []))
      = (x, (d', (W', log')))"
    by (metis prod.collapse)
  have inv: "dispatch_inv uncalled (sample_dispatch 2) (sample_heap, [])"
    using sample_dispatch_wf [of 2]
    by (auto simp: dispatch_inv_def uncalled_def distinct_handlers_def sample_dispatch_def find_message_def
        split: if_splits)
  have st: "stoull (se_data \<lparr>se_message = TIMESTAMP_ERROR_MSG, se_data = ''1''\<rparr>) = Some 1"
  proof -
    have "to_string (unat (1 :: u64)) = ''1''" by code_simp
    with stoull_to_string [of 1] show ?thesis by simp
  qed
  have tc: "to_come uncalled (sample_dispatch 2) (sample_heap, []) [Client_timer No_error 1]"
    by (simp add: to_come_def sample_dispatch_def)
  have "5 \<notin> fst ` set log'"
    by (rule rejected_request_is_never_answered [OF inv _ sample_dispatch_find _ _ st _ _ tc _ run])
      (simp_all add: called_once_def sample_message_def)
  with run show ?thesis by blast
qed

text \<open>
  C3. A request is answered as soon as it can be: from any state in which it is outstanding,
  equal answers from senders who, with those that have already given it, are as many as
  required lead to exactly one call of its handler, with that answer, and the request is
  closed.  Answers that come after that are ignored.
\<close>

theorem equal_answers_complete_request:
  fixes ossl :: "('pk, 'sk) openssl"
  assumes "dispatch_wf d" "find_message d nonce = Some info"
    and "\<forall>env \<in> set envs. answers cd nonce r env"
    and "unat (mi_responses_required info) \<le> card (agreeing cd (mi_responses info) r \<union> env_sender ` set envs)"
    and "card (agreeing cd (mi_responses info) r) < unat (mi_responses_required info)"
  shows "\<exists>d'. dispatch_run cd (log_ops (real_ops cd (real_crypto ossl k) pf)) record_call api_timeout
      (map Response envs) (d, (W, log)) = (Inr (), (d', (W, log @ [(mi_handler info, r)])))
    \<and> find_message d' nonce = None"
  by (rule answers_complete [OF assms(2) dispatch_wfD(2) [OF assms(1,2)] assms(3-5)])

lemma equal_answers_complete_request_witness:
  "\<exists>d'. dispatch_run sample_cd (log_ops (real_ops sample_cd (real_crypto echo_ossl None) sample_pf))
      record_call 10 (map Response [sample_answer ''a'', sample_answer ''b'', sample_answer ''c''])
      (sample_dispatch 2, (sample_heap, [])) =
    (Inr (), (d', (sample_heap, [] @ [(mi_handler (sample_message 2), sample_response ''v'')])))
    \<and> find_message d' 1 = None"
proof (rule equal_answers_complete_request)
  show "dispatch_wf (sample_dispatch 2)" by (rule sample_dispatch_wf) simp
  show "\<forall>env \<in> set [sample_answer ''a'', sample_answer ''b'', sample_answer ''c''].
      answers sample_cd 1 (sample_response ''v'') env"
    by (simp add: answers_def sample_answer_def sample_response_def empty_header_def)
qed (auto simp: sample_message_def agreeing_def sample_answer_def card_insert_if)

end
