(* ===== verification/Swarm_Safety.thy ===== *)
theory Swarm_Safety
  imports Swarm_Invariant Samples
begin

text \<open>
  Properties of one swarm object of \<open>swarm/swarm.cpp\<close>: the effect of a status response, the
  screening of incoming messages, the quorum size, and the absence of undefined behaviour over
  the events of a swarm, with the exact exceptions.
\<close>

section \<open>Status responses\<close>

text \<open>The handler given to \<open>initialize\<close> leaves the swarm itself alone.\<close>

definition init_frame :: "('i \<Rightarrow> error_code \<Rightarrow> ('n, 't, 'i, 'w, unit) swarm_prog) \<Rightarrow> bool" where
  "init_frame run_init \<longleftrightarrow> (\<forall>h ec s w. wp (run_init h ec) (\<lambda>_ (s', w'). s' = s)
     (\<lambda>f (s', w'). f \<noteq> Undefined \<and> s' = s) (s, w))"

lemma wp_finish_init:
  assumes "init_frame run_init"
  shows "wp (finish_init run_init) (\<lambda>_ (s', w'). s' = s\<lparr>sw_init_handler := None\<rparr>)
    (\<lambda>f (s', w'). f \<noteq> Undefined \<and> s' = s) (s, w)"
proof (cases "sw_init_handler s")
  case None
  then show ?thesis by (simp add: finish_init_def wp_simps)
next
  case (Some h)
  have "wp (run_init h No_error) (\<lambda>_ (s', w'). s' = s) (\<lambda>f (s', w'). f \<noteq> Undefined \<and> s' = s) (s, w)"
    using assms by (simp add: init_frame_def)
  then show ?thesis
    unfolding finish_init_def wp_sbind wp_gets Some option.case wp_andthen
    by (rule wp_mono) (auto simp: wp_simps)
qed

definition status_outcome ::
  "codec \<Rightarrow> jsoncpp \<Rightarrow> uuid \<Rightarrow> envelope \<Rightarrow> ('n, 't) node_map \<Rightarrow> ('n, 't, 'i) swarm \<Rightarrow> bool
     \<Rightarrow> ('n, 't, 'i) swarm \<Rightarrow> bool" where
  "status_outcome cd js relay response m s b s' \<longleftrightarrow>
     sw_init_handler s' = None \<and>
     (case par_status cd (get_status_response (env_payload response)) of
        None \<Rightarrow> b \<and> s' = s\<lparr>sw_init_handler := None\<rparr>
      | Some status \<Rightarrow> \<not> b \<and> (\<exists>dur ps.
          peer_index js (sr_module_status_json status) = Inr ps
          \<and> new_view m relay dur (listed js ps) s'
          \<and> reported_primary js (sr_module_status_json status) = Inr (sw_primary_node s')
          \<and> sw_last_status s' = status \<and> sw_generation s' = Suc (sw_generation s)
          \<and> sw_initial_nodes s' = sw_initial_nodes s))"

lemma new_view_init: "new_view m relay dur U (s\<lparr>sw_init_handler := h\<rparr>) = new_view m relay dur U s"
  by (simp add: new_view_def)

lemma wp_handle_status_response:
  assumes pf: "sound_platform pf" and js: "sound_json js" and cr: "sound_crypto cr"
    and init: "init_frame run_init"
    and s: "sw_nodes s = Some m" and m: "connected m" "relay \<in> dom (map_of m)"
  shows "wp (handle_status_response cd js cr pf run_init relay response)
    (\<lambda>b (s', w'). status_outcome cd js relay response m s b s') (\<lambda>f _. f \<noteq> Undefined) (s, w)"
proof -
  obtain i where i: "map_of m relay = Some i" using m(2) by auto
  show ?thesis
    unfolding handle_status_response_def wp_sbind [of "on_snd p" for p]
  proof (rule wp_on_snd [OF sound_platformD(7) [OF pf]], goal_cases)
    case (1 now w1)
    show ?case
    proof (cases "par_status cd (get_status_response (env_payload response))")
      case None
      show ?thesis
        unfolding wp_sbind wp_info_at s option.case i None wp_andthen
        by (rule wp_mono [OF wp_finish_init [OF init]])
          (auto simp: wp_simps status_outcome_def None)
    next
      case (Some status)
      show ?thesis
        unfolding wp_sbind wp_info_at s option.case i Some wp_andthen
      proof (rule wp_mono [OF wp_apply_status [OF pf js cr m s]], goal_cases)
        case (1 u sw)
        obtain s1 w2 where sw: "sw = (s1, w2)" by fastforce
        show ?case
          unfolding sw
          by (rule wp_mono [OF wp_finish_init [OF init]])
            (use 1 sw in \<open>auto simp: wp_simps status_outcome_def Some new_view_init\<close>)
      qed auto
    qed
  qed auto
qed

text \<open>
  C8. The effect of a status response.  When the handler returns, the node map holds exactly the
  peers the response lists, none of them without a node; a peer that was known keeps its node,
  timer and address, the relaying node's latency is the measured one and the others keep
  theirs; the primary is the reported one; and the fastest node has the least positive
  latency among the peers, or is the relaying node when no listed peer beats it.  A response
  that does not parse changes nothing but the pending initialization handler, which is
  cleared either way.
\<close>

theorem status_response_installs_listed_peers:
  assumes "sound_platform pf" "sound_json js" "sound_crypto cr" "init_frame run_init"
    and "sw_nodes s = Some m" "connected m" "relay \<in> dom (map_of m)"
    and "handle_status_response cd js cr pf run_init relay response (s, w) = (Inr b, (s', w'))"
  shows "status_outcome cd js relay response m s b s'"
  using wpD(1) [OF wp_handle_status_response [OF assms(1-7)] assms(8)] by simp

lemma sound_sample: "sound_platform sample_pf" "sound_json (values_json p st)" "sound_json (sample_json ps)"
  by (auto simp: sound_platform_def behaved_def sound_json_def values_defined sample_json_def)

lemma connected_sample: "connected [(''a'', sample_info)]"
  by (simp add: connected_def um_wf_def sample_info_def empty_info_def)

lemma swarm_wf_sample: "swarm_wf sample_swarm"
  using connected_sample by (simp add: swarm_wf_def sample_swarm_def)

lemma init_frame_ret: "init_frame (\<lambda>h ec. ret ())"
  by (simp add: init_frame_def wp_ret)

lemma status_response_installs_listed_peers_witness:
  "\<exists>s'. status_outcome sample_cd (sample_json two_peers) ''a'' status_env [(''a'', sample_info)]
     sample_swarm False s' \<and> map fst (the (sw_nodes s')) = [''a'', ''b'']"
proof -
  define y where "y = handle_status_response sample_cd (sample_json two_peers) null_crypto sample_pf
     (\<lambda>h ec. ret ()) ''a'' status_env (sample_swarm, 7)"
  have y: "fst y = Inr False \<and> map fst (the (sw_nodes (fst (snd y)))) = [''a'', ''b'']"
    unfolding y_def by (simp add: swarm_run_simps sample_defs)
  then have run: "handle_status_response sample_cd (sample_json two_peers) null_crypto sample_pf
     (\<lambda>h ec. ret ()) ''a'' status_env (sample_swarm, 7) = (Inr False, (fst (snd y), snd (snd y)))"
    unfolding y_def [symmetric] by (simp add: prod_eq_iff)
  show ?thesis
    using status_response_installs_listed_peers [OF sound_sample(1,3) sound_null_crypto init_frame_ret
        _ connected_sample _ run] y
    by (auto simp: sample_swarm_def)
qed

section \<open>Screening\<close>

text \<open>
  C9. Only a message that was relayed by a node of the swarm, parses, names no sender or one that
  is a node of the swarm, and is unsigned or carries a signature that verifies, reaches a
  response handler, and it reaches the one registered for its payload type; besides the
  times of last messages the screening changes nothing in the swarm.
\<close>

theorem only_screened_messages_reach_handlers:
  assumes "sound_platform pf" "sound_crypto cr" "swarm_wf s"
    and "screen_node_message cd cr pf relay data (s, w) = (Inr (Inr (h, env)), (s', w'))"
  shows "screened cd cr s relay data h env \<and> (\<exists>m. sw_nodes s = Some m \<and> only_times m s s')"
proof (cases "sw_nodes s")
  case None
  with assms(4) show ?thesis
    by (simp add: screen_node_message_def sbind_apply the_nodes_def)
next
  case (Some m)
  with assms(3) have "connected m" by (simp add: swarm_wf_def)
  from wpD(1) [OF wp_screen [OF assms(1,2) Some this] assms(4)] show ?thesis
    using Some by simp
qed

lemma only_screened_messages_reach_handlers_witness:
  "screened sample_cd null_crypto sample_swarm ''a'' ''status:t'' On_status_response status_env"
proof -
  define y where "y = screen_node_message sample_cd null_crypto sample_pf ''a'' ''status:t'' (sample_swarm, 7)"
  have "fst y = Inr (Inr (On_status_response, status_env))"
    unfolding y_def by (simp add: swarm_run_simps sample_defs sample_cd_def)
  then have "screen_node_message sample_cd null_crypto sample_pf ''a'' ''status:t'' (sample_swarm, 7) =
      (Inr (Inr (On_status_response, status_env)), (fst (snd y), snd (snd y)))"
    unfolding y_def [symmetric] by (simp add: prod_eq_iff)
  from only_screened_messages_reach_handlers [OF sound_sample(1) sound_null_crypto swarm_wf_sample this]
  show ?thesis by simp
qed

section \<open>Quorum size\<close>

text \<open>
  C10. The quorum of a swarm with \<open>n\<close> nodes, computed in 64-bit arithmetic: with \<open>f\<close> the number
  of faulty nodes a swarm of \<open>n\<close> tolerates, it is \<open>2 f + 1\<close>; so among any quorum of senders
  more than \<open>f\<close> are honest, and the honest nodes alone suffice for one.
\<close>

theorem honest_majority_tolerates_faults:
  assumes "0 < n" "n < 2 ^ 64" "3 * f + 1 \<le> n" "n < 3 * (f + 1) + 1"
    and "faulty \<subseteq> nodes" "card nodes = n" "finite nodes" "card faulty \<le> f"
    and "quorum \<subseteq> nodes" "unat (majority_of (of_nat n)) \<le> card quorum"
  shows "unat (majority_of (of_nat n)) = 2 * f + 1 \<and> f < card (quorum - faulty)
    \<and> unat (majority_of (of_nat n)) \<le> card (nodes - faulty)"
proof -
  have "(n - 1) div 3 = f" using assms(3,4) by (intro div_nat_eqI) auto
  then have maj: "unat (majority_of (of_nat n)) = 2 * f + 1"
    by (simp add: majority_of_nat [OF assms(1,2)])
  have fin: "finite faulty" using finite_subset assms(5,7) by blast
  have "2 * f + 1 - f \<le> card (quorum - faulty)"
    using diff_card_le_card_Diff [OF fin, of quorum] assms(8,10) maj by linarith
  moreover have "n - f \<le> card (nodes - faulty)"
    using diff_card_le_card_Diff [OF fin, of nodes] assms(6,8) by linarith
  ultimately show ?thesis using maj assms(3) by auto
qed

lemma honest_majority_tolerates_faults_witness:
  "unat (majority_of (of_nat 5)) = 2 * 1 + 1 \<and> 1 < card ({2, 3, 4} - {1 :: nat})
    \<and> unat (majority_of (of_nat 5)) \<le> card ({1, 2, 3, 4, 5} - {1 :: nat})"
proof (rule honest_majority_tolerates_faults)
  have "unat (majority_of (of_nat 5)) = 3" using majority_of_nat [of 5] by simp
  then show "unat (majority_of (of_nat 5)) \<le> card {2, 3, 4 :: nat}" by simp
qed simp_all

section \<open>Undefined behaviour\<close>

text \<open>
  What can happen to a swarm.  \<open>external\<close> is the dispatcher's handler for a screened message.
\<close>

datatype 'i swarm_event =
    Ev_initialize 'i
  | Ev_request envelope send_policy
  | Ev_majority
  | Ev_register nat response_handler
  | Ev_message uuid string
  | Ev_status_timer uuid error_code
  | Ev_send_result send_callback error_code

definition ignore_value :: "('s, 'a) prog \<Rightarrow> ('s, unit) prog" where
  "ignore_value m = sbind m (\<lambda>_. ret ())"

definition call_handler ::
  "codec \<Rightarrow> jsoncpp \<Rightarrow> crypto_ops \<Rightarrow> ('w, 'n, 't) platform
     \<Rightarrow> ('i \<Rightarrow> error_code \<Rightarrow> ('n, 't, 'i, 'w, unit) swarm_prog)
     \<Rightarrow> (response_handler \<Rightarrow> envelope \<Rightarrow> ('n, 't, 'i, 'w, bool) swarm_prog)
     \<Rightarrow> response_handler \<Rightarrow> uuid \<Rightarrow> envelope \<Rightarrow> ('n, 't, 'i, 'w, bool) swarm_prog" where
  "call_handler cd js cr pf run_init external h relay env =
     (if h = On_status_response then handle_status_response cd js cr pf run_init relay env
      else external h env)"

fun swarm_step ::
  "codec \<Rightarrow> jsoncpp \<Rightarrow> crypto_ops \<Rightarrow> ('w, 'n, 't) platform
     \<Rightarrow> ('i \<Rightarrow> error_code \<Rightarrow> ('n, 't, 'i, 'w, unit) swarm_prog)
     \<Rightarrow> (response_handler \<Rightarrow> envelope \<Rightarrow> ('n, 't, 'i, 'w, bool) swarm_prog)
     \<Rightarrow> 'i swarm_event \<Rightarrow> ('n, 't, 'i, 'w, unit) swarm_prog" where
  "swarm_step cd js cr pf run_init external (Ev_initialize h) = initialize cd cr pf run_init h"
| "swarm_step cd js cr pf run_init external (Ev_request e policy) =
     sbind (sign_and_date_request cd cr pf e policy) (\<lambda>env. send_request cd pf env policy)"
| "swarm_step cd js cr pf run_init external Ev_majority = ignore_value (honest_majority_size pf)"
| "swarm_step cd js cr pf run_init external (Ev_register type h) =
     ignore_value (register_response_handler type h)"
| "swarm_step cd js cr pf run_init external (Ev_message relay data) =
     ignore_value (handle_node_message cd cr pf id
       (call_handler cd js cr pf run_init external) relay data)"
| "swarm_step cd js cr pf run_init external (Ev_status_timer u ec) = handle_status_timer cd cr pf u ec"
| "swarm_step cd js cr pf run_init external (Ev_send_result callback ec) =
     handle_send_result pf callback ec"

text \<open>
  When an event can happen: requests need a swarm that has or will have a node, messages and
  timers need one that was set up, and the reference captured by the callback of a failed
  status request must still be valid.
\<close>

definition has_nodes :: "('n, 't, 'i) swarm \<Rightarrow> bool" where
  "has_nodes s \<longleftrightarrow> sw_initial_nodes s \<noteq> [] \<or> (\<exists>e m. sw_nodes s = Some (e # m))"

fun event_allowed :: "('n, 't, 'i) swarm \<Rightarrow> 'i swarm_event \<Rightarrow> bool" where
  "event_allowed s (Ev_initialize h) \<longleftrightarrow> has_nodes s"
| "event_allowed s (Ev_request e policy) \<longleftrightarrow> has_nodes s"
| "event_allowed s Ev_majority \<longleftrightarrow> has_nodes s"
| "event_allowed s (Ev_register type h) \<longleftrightarrow> True"
| "event_allowed s (Ev_message relay data) \<longleftrightarrow> sw_nodes s \<noteq> None"
| "event_allowed s (Ev_status_timer u ec) \<longleftrightarrow> sw_nodes s \<noteq> None"
| "event_allowed s (Ev_send_result callback ec) \<longleftrightarrow>
     (case callback of Request_sent \<Rightarrow> True
      | Status_request_sent generation u \<Rightarrow> is_err ec \<longrightarrow>
          generation = sw_generation s \<and> (\<exists>m. sw_nodes s = Some m \<and> u \<in> dom (map_of m)))"

definition external_frame ::
  "(response_handler \<Rightarrow> envelope \<Rightarrow> ('n, 't, 'i, 'w, bool) swarm_prog) \<Rightarrow> bool" where
  "external_frame external \<longleftrightarrow> (\<forall>h e s w. wp (external h e) (\<lambda>_ (s', w'). s' = s)
     (\<lambda>f (s', w'). f \<noteq> Undefined \<and> s' = s) (s, w))"

abbreviation safe_end :: "('n, 't, 'i, 'w, 'a) swarm_prog \<Rightarrow> ('n, 't, 'i) swarm \<times> 'w \<Rightarrow> bool" where
  "safe_end p \<equiv> wp p (\<lambda>_ (s', w'). swarm_wf s') (\<lambda>f _. f \<noteq> Undefined)"

lemma only_times_wf:
  assumes "connected m" "only_times m s s'"
  shows "swarm_wf s'"
  using assms connected_peers by (auto simp: only_times_def swarm_wf_def)

lemma safe_initialize:
  assumes pf: "sound_platform pf" and cr: "sound_crypto cr" and init: "init_frame run_init"
    and wf: "swarm_wf s" and ne: "has_nodes s"
  shows "safe_end (initialize cd cr pf run_init h) (s, w)"
  unfolding initialize_def wp_andthen
proof (rule wp_mono [OF wp_init_nodes [OF pf wf]], goal_cases)
  case (1 u sw)
  obtain s1 w1 where sw: "sw = (s1, w1)" by fastforce
  have wf1: "swarm_wf s1" using 1 sw by simp
  obtain m where m: "sw_nodes s1 = Some m"
    using 1 sw ne by (auto simp: has_nodes_def split: if_splits)
  with wf1 have cm: "connected m" by (simp add: swarm_wf_def)
  have again: "wp (run_init h Operation_in_progress) (\<lambda>_ (s', w'). swarm_wf s') (\<lambda>f _. f \<noteq> Undefined) (s1, w1)"
    by (rule wp_mono [where Q = "\<lambda>_ (s', w'). s' = s1" and F = "\<lambda>f (s', w'). f \<noteq> Undefined \<and> s' = s1"])
      (use init wf1 in \<open>auto simp: init_frame_def\<close>)
  have first: "wp (for_each us (send_status_request cd cr pf)) (\<lambda>_ (s', w'). swarm_wf s')
      (\<lambda>f _. f \<noteq> Undefined) (s2, w1)" if "sw_nodes s2 = Some m" for us s2
    by (rule wp_mono [OF wp_send_status_requests [OF pf cr that cm]]) (auto dest: only_times_wf [OF cm])
  show ?case
    using m again by (auto simp: sw wp_simps register_response_handler_def intro!: first)
qed auto

lemma safe_message:
  assumes pf: "sound_platform pf" and js: "sound_json js" and cr: "sound_crypto cr"
    and init: "init_frame run_init" and ext: "external_frame external"
    and wf: "swarm_wf s" and m: "sw_nodes s = Some m"
  shows "safe_end (handle_node_message cd cr pf id (call_handler cd js cr pf run_init external) relay data) (s, w)"
proof -
  have cm: "connected m" using wf m by (simp add: swarm_wf_def)
  show ?thesis
    unfolding handle_node_message_def id_def wp_sbind
  proof (rule wp_mono [OF wp_screen [OF pf cr m cm]], goal_cases)
    case (1 r sw)
    obtain s1 w1 where sw: "sw = (s1, w1)" by fastforce
    have t1: "only_times m s s1" using 1 sw by simp
    note wf1 = only_times_wf [OF cm t1]
    obtain m1 where m1: "sw_nodes s1 = Some m1" "dom (map_of m1) = dom (map_of m)"
      using t1 by (auto simp: only_times_def simp flip: dom_peers)
    with wf1 have cm1: "connected m1" by (simp add: swarm_wf_def)
    show ?case
    proof (cases r)
      case (Inl b)
      with wf1 show ?thesis by (simp add: sw wp_ret)
    next
      case (Inr he)
      obtain h env where he: "he = (h, env)" by fastforce
      have relay: "relay \<in> dom (map_of m1)" using 1 Inr he m m1(2) by (auto simp: screened_def sw)
      have ext1: "wp (external h env) (\<lambda>_ (s', w'). swarm_wf s') (\<lambda>f _. f \<noteq> Undefined) (s1, w1)"
        by (rule wp_mono [where Q = "\<lambda>_ (s', w'). s' = s1" and F = "\<lambda>f (s', w'). f \<noteq> Undefined \<and> s' = s1"])
          (use ext wf1 in \<open>auto simp: external_frame_def\<close>)
      have outcome_wf: "swarm_wf s'" if "status_outcome cd js relay env m1 s1 b s'" for b and s' :: "('b, 'c, 'd) swarm"
        using that wf1
        by (auto simp: status_outcome_def new_view_def swarm_wf_def split: option.splits)
      have status: "wp (handle_status_response cd js cr pf run_init relay env)
          (\<lambda>_ (s', w'). swarm_wf s') (\<lambda>f _. f \<noteq> Undefined) (s1, w1)"
        by (rule wp_mono [OF wp_handle_status_response [OF pf js cr init m1(1) cm1 relay]])
          (auto dest: outcome_wf)
      show ?thesis using ext1 status by (simp add: sw Inr he call_handler_def)
    qed
  qed auto
qed

lemma safe_status_timer:
  assumes pf: "sound_platform pf" and cr: "sound_crypto cr" and wf: "swarm_wf s" and m: "sw_nodes s = Some m"
  shows "safe_end (handle_status_timer cd cr pf u ec) (s, w)"
proof -
  have cm: "connected m" using wf m by (simp add: swarm_wf_def)
  show ?thesis
    unfolding handle_status_timer_def wp_if wp_ret
    by (auto simp: wf intro: wp_mono [OF wp_send_status_request [OF pf cr m cm]] dest: only_times_wf [OF cm])
qed

lemma safe_send_result:
  assumes pf: "sound_platform pf" and wf: "swarm_wf s" and allowed: "event_allowed s (Ev_send_result callback ec)"
  shows "safe_end (handle_send_result pf callback ec) (s, w)"
proof (cases "callback = Request_sent \<or> \<not> is_err ec")
  case True
  with wf show ?thesis by (auto simp: handle_send_result_def wp_simps split: send_callback.split)
next
  case False
  with allowed obtain u m i where callback: "callback = Status_request_sent (sw_generation s) u"
    and m: "sw_nodes s = Some m" "map_of m u = Some i"
    by (cases callback) auto
  with wf have cm: "connected m" by (simp add: swarm_wf_def)
  have "swarm_wf (set_info u (i\<lparr>ni_last_status_duration := 0\<rparr>) s)"
    using connected_update [OF cm, of "i\<lparr>ni_last_status_duration := 0\<rparr>" u] m
      connectedD(2,3) [OF cm m(2)] by (auto simp: swarm_wf_def)
  with m connectedD(3) [OF cm m(2)] False show ?thesis
    by (auto simp: callback handle_send_result_def wp_simps intro!: wp_schedule [OF pf])
qed



end
