(* ===== verification/Swarm_Faults.thy ===== *)
theory Swarm_Faults
  imports Swarm_Safety
begin

text \<open>
  What goes wrong in \<open>swarm/swarm.cpp\<close>: the exceptions to the safety of a swarm's events, each
  as a theorem about the code as it is.
\<close>

section \<open>A status response that throws half way\<close>

text \<open>All nodes can be asked to back off without an exception.\<close>

definition back_off_returns :: "('w, 'n, 't) platform \<Rightarrow> bool" where
  "back_off_returns pf \<longleftrightarrow> (\<forall>n v w. \<exists>w'. pf_back_off pf n v w = (Inr (), w'))"

definition clocks_return :: "('w, 'n, 't) platform \<Rightarrow> bool" where
  "clocks_return pf \<longleftrightarrow> (\<forall>w. \<exists>t w'. pf_steady_now pf w = (Inr t, w'))
     \<and> (\<forall>w. \<exists>t w'. pf_system_now pf w = (Inr t, w'))"

lemma back_off_null:
  assumes "back_off_returns pf"
  shows "\<exists>e \<in> set m. ni_node (snd e) = None \<Longrightarrow>
    fst (for_each m (\<lambda>e. sbind (deref (ni_node (snd e))) (\<lambda>n. on_snd (pf_back_off pf n v))) (s, w)) = Inl Undefined"
proof (induction m arbitrary: w)
  case (Cons e m)
  show ?case
  proof (cases "ni_node (snd e)")
    case None
    then show ?thesis by (simp add: deref_def andthen_apply)
  next
    case (Some n)
    obtain w' where "pf_back_off pf n v w = (Inr (), w')"
      using assms unfolding back_off_returns_def by blast
    with Some Cons show ?thesis by (simp add: deref_def andthen_apply)
  qed
qed simp

lemma screen_null:
  assumes pf: "back_off_returns pf" "clocks_return pf"
    and m: "sw_nodes s = Some m" "map_of m u = Some j" "ni_node j = None"
    and relay: "map_of m relay = Some i" "ni_node i \<noteq> None"
    and env: "par_envelope cd data = Some env" "env_sender env = []" "env_signature env = []"
  shows "fst (screen_node_message cd cr pf relay data (s, w)) = Inl Undefined"
proof -
  obtain now w1 where now: "pf_system_now pf w = (Inr now, w1)"
    using pf(2) unfolding clocks_return_def by blast
  let ?m = "AList.update relay (i\<lparr>ni_last_message_received := now\<rparr>) m"
  have "u \<noteq> relay" using m relay by auto
  then have "map_of ?m u = Some j" using m(2) by simp
  then have "\<exists>e \<in> set ?m. ni_node (snd e) = None" using m(3) map_of_SomeD by force
  then have "\<exists>S. for_each ?m (\<lambda>e. sbind (deref (ni_node (snd e))) (\<lambda>n. on_snd (pf_back_off pf n v)))
      (set_info relay (i\<lparr>ni_last_message_received := now\<rparr>) s, w1) = (Inl Undefined, S)" for v
    by (metis back_off_null [OF pf(1)] prod.collapse)
  then obtain S where "for_each ?m (\<lambda>e. sbind (deref (ni_node (snd e))) (\<lambda>n. on_snd (pf_back_off pf n
        (case env_payload env of P_swarm_error bytes \<Rightarrow> (case par_error cd bytes of None \<Rightarrow> False
           | Some err \<Rightarrow> se_message err = TOO_BUSY_ERROR_MSG) | _ \<Rightarrow> False))))
      (set_info relay (i\<lparr>ni_last_message_received := now\<rparr>) s, w1) = (Inl Undefined, S)"
    by blast
  then show ?thesis
    using m(1) relay(1) env now
    by (simp add: screen_node_message_def the_nodes_def sbind_apply andthen_apply Let_def)
qed

text \<open>
  A status response whose first listed peer is new and has a port that is not a number
  throws after \<open>operator[]\<close> has put an empty entry for that peer into the node map in use; the
  next unsigned message of no named sender that a node relays then calls \<open>back_off\<close> on the
  null node of that entry.
\<close>

lemma status_exception_leaves_null_node:
  assumes "back_off_returns pf" "clocks_return pf" "swarm_wf s" "sw_nodes s = Some m"
    and "relay \<in> dom (map_of m)"
    and "par_status cd (get_status_response (env_payload response)) = Some status"
    and "peer_index js (sr_module_status_json status) = Inr (p # ps)"
    and "member_string js p ''uuid'' = Inr u" "u \<notin> dom (map_of m)"
    and "cbind (js_member js p ''port'') (js_as_uint js) = Inl (Throws e)"
    and "par_envelope cd data = Some env" "env_sender env = []" "env_signature env = []"
  shows "\<exists>S. handle_status_response cd js cr pf run_init relay response (s, w) = (Inl (Throws e), S)
    \<and> fst (screen_node_message cd cr pf relay data S) = Inl Undefined"
proof -
  obtain now w1 where now: "pf_steady_now pf w = (Inr now, w1)"
    using assms(2) unfolding clocks_return_def by blast
  obtain i where i: "map_of m relay = Some i" using assms(5) by auto
  have node: "ni_node i \<noteq> None" using assms(3,4) i by (auto simp: swarm_wf_def connected_def)
  let ?s = "set_info u empty_info s"
  obtain sw st v where path: "parse_module_status js (sr_module_status_json status) = Inr sw"
    "js_member js sw ''status'' = Inr st" "js_member js st ''peer_index'' = Inr v"
    "js_elements js v = p # ps"
    using assms(7) by (auto simp: peer_index_def cbind_Inr_iff)
  have "handle_status_response cd js cr pf run_init relay response (s, w) = (Inl (Throws e), (?s, w1))"
    using assms(4,6,8,9,10) i now path
    by (simp add: handle_status_response_def apply_status_def scan_peer_def info_at_def the_nodes_def
        sbind_apply andthen_apply domIff empty_info_def)
  moreover have "fst (screen_node_message cd cr pf relay data (?s, w1)) = Inl Undefined"
  proof (rule screen_null [where m = "AList.update u empty_info m" and u = u and j = empty_info and i = i,
        OF assms(1,2) _ _ _ _ node assms(11-13)])
    show "map_of (AList.update u empty_info m) relay = Some i" using i assms(9) by auto
  qed (simp_all add: assms(4) empty_info_def)
  ultimately show ?thesis by blast
qed

lemma status_exception_leaves_null_node_witness:
  "\<exists>S. handle_status_response sample_cd (sample_json [sample_peer ''b'' (JString ''x'')]) null_crypto
      sample_pf (\<lambda>h ec. ret ()) ''a'' status_env (sample_swarm, 7) = (Inl (Throws ''Json::LogicError''), S)
    \<and> fst (screen_node_message sample_cd null_crypto sample_pf ''a'' ''status:t'' S) = Inl Undefined"
  by (rule status_exception_leaves_null_node [where m = "[(''a'', sample_info)]" and status = "sample_status ''t''"
        and p = "sample_peer ''b'' (JString ''x'')" and ps = "[]" and u = "''b''" and env = status_env])
    (simp_all add: back_off_returns_def clocks_return_def swarm_wf_sample,
     simp_all add: sample_cd_def sample_defs peer_index_def parse_module_status_def member_string_def)

section \<open>A callback that outlives the node map\<close>

text \<open>
  The callback of a status request holds a reference to an entry of the node map that was
  current when the request was sent.  Once a status response has been handled that map is
  gone, and a send that then fails (the node is unreachable) writes through the reference.
\<close>

lemma late_send_failure_uses_dangling_entry:
  assumes "sound_platform pf" "sound_json js" "sound_crypto cr" "init_frame run_init"
    and "sw_nodes s = Some m" "connected m" "relay \<in> dom (map_of m)"
    and "par_status cd (get_status_response (env_payload response)) = Some status"
    and "handle_status_response cd js cr pf run_init relay response (s, w) = (Inr b, (s', w'))"
    and "is_err ec"
  shows "handle_send_result pf (Status_request_sent (sw_generation s) u) ec (s', w') = (Inl Undefined, (s', w'))"
  using wpD(1) [OF wp_handle_status_response [OF assms(1-7)] assms(9) refl] assms(8,10)
  by (auto simp: handle_send_result_def status_outcome_def)

lemma late_send_failure_uses_dangling_entry_witness:
  "let S = snd (handle_status_response sample_cd (sample_json two_peers) null_crypto sample_pf
     (\<lambda>h ec. ret ()) ''a'' status_env (sample_swarm, 7))
   in handle_send_result sample_pf (Status_request_sent 0 ''a'') Eof S = (Inl Undefined, S)"
proof -
  define y where "y = handle_status_response sample_cd (sample_json two_peers) null_crypto sample_pf
     (\<lambda>h ec. ret ()) ''a'' status_env (sample_swarm, 7)"
  have "fst y = Inr False" unfolding y_def by (simp add: swarm_run_simps sample_defs)
  then have run: "handle_status_response sample_cd (sample_json two_peers) null_crypto sample_pf
     (\<lambda>h ec. ret ()) ''a'' status_env (sample_swarm, 7) = (Inr False, (fst (snd y), snd (snd y)))"
    unfolding y_def [symmetric] by (simp add: prod_eq_iff)
  have "sw_nodes sample_swarm = Some [(''a'', sample_info)]" "sw_generation sample_swarm = 0"
    by (simp_all add: sample_swarm_def new_swarm_def)
  moreover have "par_status sample_cd (get_status_response (env_payload status_env)) =
      Some (sample_status ''t'')"
    by (simp add: status_env_def)
  ultimately show ?thesis
    using late_send_failure_uses_dangling_entry [OF sound_sample(1,3) sound_null_crypto init_frame_ret
      _ connected_sample _ _ run, of "sample_status ''t''" Eof "''a''"]
    by (simp add: Let_def flip: y_def)
qed

section \<open>One node decides the quorum\<close>

lemma new_view_majority:
  assumes "new_view m relay dur U s" "sw_initial_nodes s = []"
  shows "honest_majority_size pf (s, w) = (Inr (majority_of (of_nat (card U))), (s, w))"
proof -
  from assms obtain m' where m': "sw_nodes s = Some m'" "connected m'" "dom (map_of m') = U"
    by (auto simp: new_view_def)
  then have "length m' = card U" using um.size_eq_card [OF connectedD(1) [OF m'(2)]] by simp
  with m' assms(2) show ?thesis
    by (simp add: honest_majority_size_def init_nodes_def the_nodes_def sbind_apply andthen_apply)
qed

lemma back_off_frame:
  "for_each m (\<lambda>e. sbind (deref (ni_node (snd e))) (\<lambda>n. on_snd (pf_back_off pf n v))) (s, w)
     = (x, (s', w')) \<Longrightarrow> s' = s"
  by (induction m arbitrary: w)
    (auto elim!: sbind_cases andthen_cases simp: deref_def on_snd_def split: option.splits prod.splits)

lemma screen_status:
  assumes "sw_nodes s = Some m" "relay \<in> dom (map_of m)" "par_envelope cd data = Some env"
    and "env_sender env = []" "env_signature env = []"
    and "map_of (sw_response_handlers s) (payload_case (env_payload env)) = Some h"
    and "screen_node_message cd cr pf relay data (s, w) = (Inr r, S)"
  shows "\<exists>h'. r = Inr (h', env)"
  using assms
  by (auto simp: screen_node_message_def the_nodes_def Let_def elim!: sbind_cases andthen_cases
      split: option.splits prod.splits dest!: back_off_frame)

text \<open>
  C34. A status response needs no signature.  After one that a single node relays, the quorum of
  the swarm is computed from the number of peers which that response lists: a response that
  lists one peer makes every later request accept the answer of one node.
\<close>

theorem unsigned_status_response_sets_quorum:
  assumes "sound_platform pf" "sound_json js" "sound_crypto cr" "init_frame run_init"
    and "swarm_wf s" "sw_nodes s = Some m" "sw_initial_nodes s = []" "relay \<in> dom (map_of m)"
    and "map_of (sw_response_handlers s) kStatusResponse = Some On_status_response"
    and "par_envelope cd data = Some env" "env_sender env = []" "env_signature env = []"
    and "env_payload env = P_status_response bytes" "par_status cd bytes = Some status"
    and "peer_index js (sr_module_status_json status) = Inr ps"
    and "handle_node_message cd cr pf id (call_handler cd js cr pf run_init external) relay data (s, w)
           = (Inr b, (s', w'))"
  shows "honest_majority_size pf (s', w') = (Inr (majority_of (of_nat (card (listed js ps)))), (s', w'))"
proof -
  have cm: "connected m" using assms(5,6) by (simp add: swarm_wf_def)
  have case_status: "payload_case (env_payload env) = kStatusResponse"
    by (simp add: assms(13) kStatusResponse_def)
  obtain r s1 w1 where screen: "screen_node_message cd cr pf relay data (s, w) = (Inr r, (s1, w1))"
    and call: "(case r of Inl b \<Rightarrow> ret b | Inr (h, env) \<Rightarrow>
        call_handler cd js cr pf run_init external h relay env) (s1, w1) = (Inr b, (s', w'))"
    using assms(16) by (auto simp: handle_node_message_def elim!: sbind_cases)
  obtain h where r: "r = Inr (h, env)"
    using screen_status [OF assms(6,8,10-12) _ screen] assms(9) case_status by auto
  have t1: "only_times m s s1" and "screened cd cr s relay data h env"
    using wpD(1) [OF wp_screen [OF assms(1,3,6) cm] screen] r by auto
  then have h: "h = On_status_response" using assms(9) case_status by (auto simp: screened_def)
  obtain m1 where m1: "sw_nodes s1 = Some m1" "dom (map_of m1) = dom (map_of m)"
    using t1 by (auto simp: only_times_def simp flip: dom_peers)
  have cm1: "connected m1" using only_times_wf [OF cm t1] m1 by (simp add: swarm_wf_def)
  have relay1: "relay \<in> dom (map_of m1)" using m1 assms(8) by simp
  from call r h have run: "handle_status_response cd js cr pf run_init relay env (s1, w1) = (Inr b, (s', w'))"
    by (simp add: call_handler_def)
  have "status_outcome cd js relay env m1 s1 b s'"
    using wpD(1) [OF wp_handle_status_response [OF assms(1-4) m1(1) cm1 relay1] run] by simp
  then obtain dur where "new_view m1 relay dur (listed js ps) s'" "sw_initial_nodes s' = []"
    using assms(7,13-15) only_times_frame [OF t1] by (auto simp: status_outcome_def)
  then show ?thesis by (rule new_view_majority)
qed

lemma unsigned_status_response_sets_quorum_witness:
  "\<exists>S. handle_node_message sample_cd null_crypto sample_pf id (call_handler sample_cd
        (sample_json [sample_peer ''a'' (JUInt 1)]) null_crypto sample_pf (\<lambda>h ec. ret ()) (\<lambda>h e. ret False))
      ''a'' ''status:t'' (sample_swarm, 7) = (Inr False, S)
    \<and> fst (honest_majority_size sample_pf S) = Inr 1"
proof -
  let ?js = "sample_json [sample_peer ''a'' (JUInt 1)]"
  define y where "y = handle_node_message sample_cd null_crypto sample_pf id (call_handler sample_cd
        ?js null_crypto sample_pf (\<lambda>h ec. ret ()) (\<lambda>h e. ret False)) ''a'' ''status:t'' (sample_swarm, 7)"
  have "fst y = Inr False"
    unfolding y_def by (simp add: swarm_run_simps sample_defs sample_cd_def call_handler_def)
  then have run: "handle_node_message sample_cd null_crypto sample_pf id (call_handler sample_cd
        ?js null_crypto sample_pf (\<lambda>h ec. ret ()) (\<lambda>h e. ret False)) ''a'' ''status:t'' (sample_swarm, 7)
      = (Inr False, (fst (snd y), snd (snd y)))"
    unfolding y_def [symmetric] by (simp add: prod_eq_iff)
  have ps: "peer_index ?js ''t'' = Inr [sample_peer ''a'' (JUInt 1)]"
    by (simp add: peer_index_def parse_module_status_def sample_defs)
  have "listed ?js [sample_peer ''a'' (JUInt 1)] = {''a''}"
    by (auto simp: listed_def member_string_def sample_defs)
  moreover have "majority_of 1 = 1" by (simp add: majority_of_def)
  ultimately show ?thesis
    using run unsigned_status_response_sets_quorum [OF sound_sample(1,3) sound_null_crypto init_frame_ret
        swarm_wf_sample _ _ _ _ _ _ _ _ _ _ run, of "[(''a'', sample_info)]" status_env "''t''"
        "sample_status ''t''" "[sample_peer ''a'' (JUInt 1)]"] ps
    by (simp add: sample_cd_def sample_status_def status_env_def empty_envelope_def sample_swarm_def new_swarm_def)
qed

end
