(* ===== verification/Handler_Effects.thy ===== *)
theory Handler_Effects
  imports Dispatch_Runs
begin

text \<open>
  From recorded calls to what the calls do.  A handler that returns whenever it is outstanding
  acts on the world beside the swarms as a function \<open>apply_call\<close>; a run of the dispatcher with such
  handlers is the recorded run, with the calls of its log applied in order.  Every property of
  the log is so a property of the real run.
\<close>

section \<open>Programs that leave what is beside the swarms alone\<close>

definition same_fst :: "('w \<times> 'l, 'a) prog \<Rightarrow> ('w \<times> 'm, 'a) prog \<Rightarrow> bool" where
  "same_fst p q \<longleftrightarrow> (\<forall>w l m. \<exists>x w'. p (w, l) = (x, (w', l)) \<and> q (w, m) = (x, (w', m)))"

definition same_beside ::
  "('d \<times> ('w \<times> 'l), 'a) prog \<Rightarrow> ('d \<times> ('w \<times> 'm), 'a) prog \<Rightarrow> bool" where
  "same_beside p q \<longleftrightarrow>
     (\<forall>d w l m. \<exists>x d' w'. p (d, (w, l)) = (x, (d', (w', l))) \<and> q (d, (w, m)) = (x, (d', (w', m))))"

named_theorems same_intros "programs that leave what is beside the swarms alone"

lemma same_fst_basic [same_intros]:
  "same_fst (ret a) (ret a)" "same_fst (raise f) (raise f)"
  by (simp_all add: same_fst_def)

lemma same_fst_on_fst [same_intros]: "same_fst (on_fst n) (on_fst n)"
  unfolding same_fst_def by (simp split: prod.split)

lemma same_fst_sbind [same_intros]:
  assumes "same_fst p q" "\<And>a. same_fst (k a) (l a)"
  shows "same_fst (sbind p k) (sbind q l)"
  unfolding same_fst_def
proof (intro allI)
  fix w :: 'a and l' :: 'b and m :: 'd
  obtain x w1 where x: "p (w, l') = (x, (w1, l'))" "q (w, m) = (x, (w1, m))"
    using assms(1) unfolding same_fst_def by blast
  show "\<exists>y w'. sbind p k (w, l') = (y, (w', l')) \<and> sbind q l (w, m) = (y, (w', m))"
    using assms(2) unfolding same_fst_def by (cases x) (auto simp: sbind_apply x)
qed

lemma same_fst_if [same_intros]:
  "same_fst p q \<Longrightarrow> same_fst p' q' \<Longrightarrow> same_fst (if b then p else p') (if b then q else q')"
  by simp

lemma same_beside_basic [same_intros]:
  "same_beside (ret a) (ret a)" "same_beside (raise f) (raise f)" "same_beside (lift_cxx c) (lift_cxx c)"
  by (simp_all add: same_beside_def)

lemma same_beside_on_fst [same_intros]: "same_beside (on_fst n) (on_fst n)"
  unfolding same_beside_def by (simp split: prod.split)

lemma same_beside_on_snd [same_intros]:
  assumes "same_fst p q" shows "same_beside (on_snd p) (on_snd q)"
  unfolding same_beside_def
proof (intro allI)
  fix d :: 'e and w :: 'a and l :: 'b and m :: 'd
  obtain x w1 where "p (w, l) = (x, (w1, l))" "q (w, m) = (x, (w1, m))"
    using assms unfolding same_fst_def by blast
  then show "\<exists>x d' w'. on_snd p (d, (w, l)) = (x, (d', (w', l))) \<and> on_snd q (d, (w, m)) = (x, (d', (w', m)))"
    by simp
qed

lemma same_beside_sbind [same_intros]:
  assumes "same_beside p q" "\<And>a. same_beside (k a) (l a)"
  shows "same_beside (sbind p k) (sbind q l)"
  unfolding same_beside_def
proof (intro allI)
  fix d :: 'a and w :: 'b and l' :: 'c and m :: 'e
  obtain x d1 w1 where x: "p (d, (w, l')) = (x, (d1, (w1, l')))" "q (d, (w, m)) = (x, (d1, (w1, m)))"
    using assms(1) unfolding same_beside_def by blast
  show "\<exists>y d' w'. sbind p k (d, (w, l')) = (y, (d', (w', l'))) \<and> sbind q l (d, (w, m)) = (y, (d', (w', m)))"
    using assms(2) unfolding same_beside_def by (cases x) (auto simp: sbind_apply x)
qed

lemma same_beside_andthen [same_intros]:
  "same_beside p q \<Longrightarrow> same_beside k l \<Longrightarrow> same_beside (andthen p k) (andthen q l)"
  unfolding andthen_def by (rule same_beside_sbind)

lemma same_beside_if [same_intros]:
  "same_beside p q \<Longrightarrow> same_beside p' q' \<Longrightarrow> same_beside (if b then p else p') (if b then q else q')"
  by simp

lemma same_beside_option [same_intros]:
  "same_beside p q \<Longrightarrow> (\<And>a. same_beside (k a) (l a)) \<Longrightarrow>
     same_beside (case y of None \<Rightarrow> p | Some a \<Rightarrow> k a) (case y of None \<Rightarrow> q | Some a \<Rightarrow> l a)"
  by (cases y) simp_all

lemma same_send [same_intros]:
  "same_beside (send_message_to_swarm cd (log_ops ops) api_timeout sw u msg policy h)
     (send_message_to_swarm cd (log_ops ops) api_timeout sw u msg policy h)"
  unfolding send_message_to_swarm_def setup_request_policy_def register_swarm_handler_def log_ops_sel
  by (intro same_intros)

lemma same_retry [same_intros]:
  "same_beside (handle_request_timeout (log_ops ops) ec nonce) (handle_request_timeout (log_ops ops) ec nonce)"
  unfolding handle_request_timeout_def log_ops_sel by (intro same_intros)

lemma same_error [same_intros]:
  "same_beside (handle_swarm_error cd env) (handle_swarm_error cd env)"
  unfolding handle_swarm_error_def Let_def by (intro same_intros)

section \<open>Handlers that act as a function\<close>

locale handler_effects = swarm_contract ops cd
  for ops :: "('w, 'sw) swarm_ops" and cd :: codec +
  fixes run_handler :: "('sw, 'h, 'w \<times> 'm) handler_call"
    and able :: "'m \<Rightarrow> 'h \<Rightarrow> bool" and apply_call :: "'h \<Rightarrow> database_response \<Rightarrow> 'm \<Rightarrow> 'm"
  assumes run_able: "able m h \<Longrightarrow>
      run_handler h r No_error (d, (w, m)) = (Inr (), (d, (w, apply_call h r m)))"
    and able_after: "able m h \<Longrightarrow> able (apply_call h r m) h' \<longleftrightarrow> able m h' \<and> h' \<noteq> h"

definition able_beside :: "('m \<Rightarrow> 'h \<Rightarrow> bool) \<Rightarrow> 'w \<times> 'm \<Rightarrow> 'h \<Rightarrow> bool" where
  "able_beside able = (\<lambda>(w, m). able m)"

sublocale handler_effects \<subseteq> real: one_shot_handlers "log_ops ops" run_handler "able_beside able" "\<lambda>_. True"
  by standard
    (auto simp: able_beside_def on_fst_run fun_eq_iff run_able able_after simp del: zoom_apply dest: majority_not_0)

definition apply_calls ::
  "('h \<Rightarrow> database_response \<Rightarrow> 'm \<Rightarrow> 'm) \<Rightarrow> 'h call_log \<Rightarrow> 'm \<Rightarrow> 'm" where
  "apply_calls f log = fold (\<lambda>(h, r). f h r) log"

lemma apply_calls_simps [simp]:
  "apply_calls f [] m = m"
  "apply_calls f (log @ [(h, r)]) m = f h r (apply_calls f log m)"
  "apply_calls f (log @ log') m = apply_calls f log' (apply_calls f log m)"
  "apply_calls f ((h, r) # log) m = apply_calls f log (f h r m)"
  by (simp_all add: apply_calls_def)

context handler_effects
begin

text \<open>What one event does to the real state, given what it does to the recorded one.\<close>

definition simulates ::
  "(('sw, 'h) db_dispatch \<times> ('w \<times> 'h call_log), 'x) prog \<Rightarrow> (('sw, 'h) db_dispatch \<times> ('w \<times> 'm), 'x) prog \<Rightarrow> bool" where
  "simulates p q \<longleftrightarrow> (\<forall>d w m. (\<forall>h \<in> handlers d. able m h) \<longrightarrow>
     (\<forall>log. \<exists>x d' w' new. p (d, (w, log)) = (x, (d', (w', log @ new)))
       \<and> q (d, (w, m)) = (x, (d', (w', apply_calls apply_call new m)))))"

lemma simulates_same: "same_beside p q \<Longrightarrow> simulates p q"
  unfolding simulates_def same_beside_def by (metis append_Nil2 apply_calls_simps(1))

lemma simulatesI:
  assumes "\<And>d w m log. \<forall>h \<in> handlers d. able m h \<Longrightarrow>
     \<exists>x d' w' new. p (d, (w, log)) = (x, (d', (w', log @ new)))
       \<and> q (d, (w, m)) = (x, (d', (w', apply_calls apply_call new m)))"
  shows "simulates p q"
  unfolding simulates_def using assms by blast

lemma simulates_client_timeout:
  "simulates (handle_client_timeout record_call ec nonce) (handle_client_timeout run_handler ec nonce)"
proof (rule simulatesI)
  fix d :: "('sw, 'h) db_dispatch" and w :: 'w and m :: 'm and log :: "'h call_log"
  assume able: "\<forall>h \<in> handlers d. able m h"
  show "\<exists>x d' w' new. handle_client_timeout record_call ec nonce (d, (w, log)) = (x, (d', (w', log @ new)))
     \<and> handle_client_timeout run_handler ec nonce (d, (w, m)) = (x, (d', (w', apply_calls apply_call new m)))"
  proof (cases "is_err ec \<or> find_message d nonce = None")
    case True
    then show ?thesis
      by (intro exI [of _ "Inr ()"] exI [of _ d] exI [of _ w] exI [of _ "[]"])
        (auto simp: handle_client_timeout_def split: option.split)
  next
    case False
    then obtain info where info: "\<not> is_err ec" "find_message d nonce = Some info" by auto
    then have "able m (mi_handler info)" using able handlersI by blast
    with info show ?thesis
      by (intro exI [of _ "Inr ()"] exI [of _ "erase_message nonce d"] exI [of _ w]
            exI [of _ "[(mi_handler info, timeout_response)]"])
        (simp add: handle_client_timeout_def andthen_apply run_able)
  qed
qed

lemma simulates_response:
  "simulates (handle_swarm_response cd record_call env) (handle_swarm_response cd run_handler env)"
proof (rule simulatesI)
  fix d :: "('sw, 'h) db_dispatch" and w :: 'w and m :: 'm and log :: "'h call_log"
  assume able: "\<forall>h \<in> handlers d. able m h"
  let ?P = "handle_swarm_response cd record_call env (d, (w, log))"
  let ?Q = "handle_swarm_response cd run_handler env (d, (w, m))"
  show "\<exists>x d' w' new. ?P = (x, (d', (w', log @ new))) \<and> ?Q = (x, (d', (w', apply_calls apply_call new m)))"
  proof (cases "par_response cd (get_database_response (env_payload env))")
    case None
    then have "?P = (Inr True, (d, (w, log @ [])))" "?Q = (Inr True, (d, (w, apply_calls apply_call [] m)))"
      by (simp_all add: handle_swarm_response_def)
    then show ?thesis by blast
  next
    case (Some r)
    let ?n = "hd_nonce (dr_header r)"
    show ?thesis
    proof (cases "find_message d ?n = None \<or> (\<not> has_quick_read (dr_reply r) \<and> env_signature env = [])")
      case True
      with Some have "?P = (Inr False, (d, (w, log @ [])))"
        "?Q = (Inr False, (d, (w, apply_calls apply_call [] m)))"
        by (auto simp: handle_swarm_response_def Let_def split: option.split)
      then show ?thesis by blast
    next
      case False
      then obtain info where info: "find_message d ?n = Some info"
        "has_quick_read (dr_reply r) \<or> env_signature env \<noteq> []" by auto
      let ?i = "add_response (env_sender env) r info"
      let ?d = "set_message ?n ?i d"
      have able': "able m (mi_handler ?i)" using able handlersI [OF info(1)] by simp
      show ?thesis
      proof (cases "qualify_response cd ?i (env_sender env)")
        case (Inl f)
        with Some info have "?P = (Inl f, (?d, (w, log @ [])))" "?Q = (Inl f, (?d, (w, apply_calls apply_call [] m)))"
          by (auto simp: handle_swarm_response_def Let_def andthen_apply)
        then show ?thesis by blast
      next
        case (Inr ok)
        show ?thesis
        proof (cases ok)
          case True
          with Inr Some info able' have "?P = (Inr False, (erase_message ?n d, (w, log @ [(mi_handler ?i, r)])))"
            "?Q = (Inr False, (erase_message ?n d, (w, apply_calls apply_call [(mi_handler ?i, r)] m)))"
            by (auto simp: handle_swarm_response_def Let_def andthen_apply run_able)
          then show ?thesis by blast
        next
          case False
          with Inr Some info have "?P = (Inr False, (?d, (w, log @ [])))"
            "?Q = (Inr False, (?d, (w, apply_calls apply_call [] m)))"
            by (auto simp: handle_swarm_response_def Let_def andthen_apply)
          then show ?thesis by blast
        qed
      qed
    qed
  qed
qed

lemma simulates_discard:
  assumes "simulates p q"
  shows "simulates (sbind p (\<lambda>_. ret ())) (sbind q (\<lambda>_. ret ()))"
proof (rule simulatesI)
  fix d :: "('sw, 'h) db_dispatch" and w :: 'w and m :: 'm and log :: "'h call_log"
  assume "\<forall>h \<in> handlers d. able m h"
  then obtain x d' w' new where "p (d, (w, log)) = (x, (d', (w', log @ new)))"
    "q (d, (w, m)) = (x, (d', (w', apply_calls apply_call new m)))"
    using assms unfolding simulates_def by blast
  then show "\<exists>x d' w' new. sbind p (\<lambda>_. ret ()) (d, (w, log)) = (x, (d', (w', log @ new)))
     \<and> sbind q (\<lambda>_. ret ()) (d, (w, m)) = (x, (d', (w', apply_calls apply_call new m)))"
    by (cases x) (auto simp: sbind_apply)
qed

lemma simulates_step:
  "simulates (dispatch_step cd (log_ops ops) record_call t ev) (dispatch_step cd (log_ops ops) run_handler t ev)"
  by (cases ev) (auto intro: simulates_same simulates_discard simulates_response simulates_client_timeout same_intros)

text \<open>A run with the real handlers is the recorded run with its calls applied.\<close>

lemma run_simulates:
  assumes "dispatch_inv (able_beside able) d (w, m)" "to_come (able_beside able) d (w, m) es"
    and "dispatch_run cd (log_ops ops) record_call t es (d, (w, log)) = (x, (d', (w', log')))"
  shows "\<exists>new. log' = log @ new
    \<and> dispatch_run cd (log_ops ops) run_handler t es (d, (w, m)) = (x, (d', (w', apply_calls apply_call new m)))"
  using assms
proof (induction es arbitrary: d w m log)
  case Nil
  then show ?case by (simp add: dispatch_run_def)
next
  case (Cons ev es)
  have "\<forall>h \<in> handlers d. able m h"
    using Cons.prems(1) by (simp add: dispatch_inv_def able_beside_def)
  then obtain y d1 w1 new where rec: "dispatch_step cd (log_ops ops) record_call t ev (d, (w, log)) = (y, (d1, (w1, log @ new)))"
    and real: "dispatch_step cd (log_ops ops) run_handler t ev (d, (w, m)) = (y, (d1, (w1, apply_calls apply_call new m)))"
    using simulates_step [of t ev] unfolding simulates_def by blast
  note inv = real.dispatch_step_inv [OF Cons.prems(1) TrueI Cons.prems(2) real]
  show ?case
  proof (cases "\<exists>f. y = Inl f \<and> (\<forall>e. f \<noteq> Throws e)")
    case True
    then have "log' = log @ new" "x = y" "d' = d1" "w' = w1"
      using Cons.prems(3) rec by (auto simp: dispatch_run_def andthen_apply catch_all_def split: cxx_fault.splits)
    with True real show ?thesis
      by (auto simp: dispatch_run_def andthen_apply catch_all_def split: cxx_fault.splits)
  next
    case False
    then have cont: "dispatch_run cd (log_ops ops) rh t (ev # es) (d, (w, z))
        = dispatch_run cd (log_ops ops) rh t es s1"
      if "dispatch_step cd (log_ops ops) rh t ev (d, (w, z)) = (y, s1)"
      for rh :: "('sw, 'h, 'w \<times> 'z) handler_call" and z :: 'z and s1
      using that by (auto simp: dispatch_run_def andthen_apply catch_all_def split: sum.splits cxx_fault.splits)
    from Cons.prems(3) have "dispatch_run cd (log_ops ops) record_call t es (d1, (w1, log @ new)) = (x, (d', (w', log')))"
      using cont [OF rec] by simp
    from Cons.IH [OF _ _ this] inv obtain more where more: "log' = (log @ new) @ more"
      "dispatch_run cd (log_ops ops) run_handler t es (d1, (w1, apply_calls apply_call new m))
         = (x, (d', (w', apply_calls apply_call more (apply_calls apply_call new m))))"
      by blast
    then show ?thesis using cont [OF real] by (intro exI [of _ "new @ more"]) simp
  qed
qed

end

end
