(* ===== verification/Response.thy ===== *)
theory Response
  imports Effects
begin

text \<open>
  \<open>library/udp_response.hpp\<close>: the object an asynchronous call returns.  The io thread completes
  it with \<open>set_result\<close>, \<open>set_db\<close> and \<open>set_error\<close>; the client waits in \<open>get_result\<close>, or gives a
  UDP port with \<open>set_signal_id\<close> and is sent a datagram.

  The operations are programs over the record of the object.  \<open>set_error\<close> is two atomic actions
  (the promise, then the signal under the mutex) and \<open>get_result\<close> is two as well (taking the
  future, then waiting on it), so the inductive relation \<open>session_step\<close> interleaves the ses_io
  thread and the client at those points.  The interface \<open>library/mutable_response.hpp\<close> is the
  locale \<open>response_contract\<close>.
\<close>

section \<open>The object\<close>

text \<open>
  \<open>prom\<close> is the value of the promise once it is set, \<open>future_taken\<close> whether its future was
  retrieved; \<open>datagrams\<close> are the ports and error values written to the socket, in order.
\<close>

record 'db udp_response =
  my_id :: int
  their_id :: int
  result_str :: string
  resp_db :: "'db option"
  error_val :: int
  deferred_signal :: bool
  prom :: "int option"
  future_taken :: bool
  datagrams :: "(u16 \<times> int) list"

definition ERROR_RESULT :: string where
  "ERROR_RESULT = ''{ error: \"An exception occurred getting result\"''"

text \<open>
  The constructor: \<open>sock\<close> and \<open>bound\<close> are what \<open>socket\<close> and \<open>bind\<close> return, \<open>port\<close> the port that
  \<open>getsockname\<close> reports, if it succeeds with an address of the right kind.
\<close>

definition new_udp_response :: "int \<Rightarrow> int \<Rightarrow> u16 option \<Rightarrow> 'db udp_response cxx" where
  "new_udp_response sock bound port =
     (if sock = 0 then Inl (Throws ''unable to create udp socket'')
      else if bound = -1 then Inl (Throws ''unable to bind udp socket'')
      else case port of
        None \<Rightarrow> Inl (Throws ''error determining local port'')
      | Some p \<Rightarrow> Inr \<lparr>my_id = uint p, their_id = 0, result_str = [], resp_db = None,
          error_val = 0, deferred_signal = False, prom = None, future_taken = False, datagrams = []\<rparr>)"

type_synonym ('db, 'a) response_prog = "('db udp_response, 'a) prog"

definition send_signal :: "('db, unit) response_prog" where
  "send_signal = sbind (gets their_id) (\<lambda>i.
     if i = 0 then raise Assert_fails
     else modify (\<lambda>r. r\<lparr>datagrams := datagrams r @ [(word_of_int i, error_val r)]\<rparr>))"

definition set_signal_id :: "int \<Rightarrow> ('db, int) response_prog" where
  "set_signal_id signal_id =
     andthen (modify (\<lambda>r. r\<lparr>their_id := signal_id\<rparr>))
     (sbind (gets deferred_signal) (\<lambda>deferred.
      andthen (if deferred
               then andthen send_signal (modify (\<lambda>r. r\<lparr>deferred_signal := False\<rparr>))
               else ret ())
        (gets my_id)))"

definition signal :: "int \<Rightarrow> ('db, unit) response_prog" where
  "signal error =
     andthen (modify (\<lambda>r. r\<lparr>error_val := error\<rparr>))
     (sbind (gets their_id) (\<lambda>i.
      if i \<noteq> 0 then send_signal else modify (\<lambda>r. r\<lparr>deferred_signal := True\<rparr>)))"

definition set_result :: "string \<Rightarrow> ('db, unit) response_prog" where
  "set_result result = modify (\<lambda>r. r\<lparr>result_str := result\<rparr>)"

text \<open>\<open>prom.set_value(error)\<close>\<close>

definition set_value :: "int \<Rightarrow> ('db, unit) response_prog" where
  "set_value error = sbind (gets prom) (\<lambda>p.
     if p = None then modify (\<lambda>r. r\<lparr>prom := Some error\<rparr>)
     else raise (Throws ''promise_already_satisfied''))"

definition set_error :: "int \<Rightarrow> ('db, unit) response_prog" where
  "set_error error = andthen (set_value error) (signal error)"

definition set_ready :: "('db, unit) response_prog" where
  "set_ready = set_error 0"

definition get_error :: "('db, int) response_prog" where
  "get_error = gets error_val"

text \<open>\<open>prom.get_future()\<close>, then \<open>get()\<close>, which yields \<open>None\<close> where the caller goes on waiting.\<close>

definition take_future :: "('db, unit) response_prog" where
  "take_future = sbind (gets future_taken) (\<lambda>taken.
     if taken then raise (Throws ''future_already_retrieved'')
     else modify (\<lambda>r. r\<lparr>future_taken := True\<rparr>))"

definition await_result :: "('db, string option) response_prog" where
  "await_result = gets (\<lambda>r. if prom r = None then None else Some (result_str r))"

definition get_result :: "('db, string option) response_prog" where
  "get_result = catch_all (andthen take_future await_result) (ret (Some ERROR_RESULT))"

definition set_db :: "'db \<Rightarrow> ('db, unit) response_prog" where
  "set_db db = modify (\<lambda>r. r\<lparr>resp_db := Some db\<rparr>)"

definition get_db :: "('db, 'db option) response_prog" where
  "get_db = gets resp_db"

lemmas response_defs = send_signal_def set_signal_id_def signal_def set_result_def set_value_def
  set_error_def set_ready_def get_error_def take_future_def await_result_def get_result_def
  set_db_def get_db_def

section \<open>A client and the io thread\<close>

text \<open>
  One asynchronous call: the io thread completes the response with \<open>text\<close> and \<open>err\<close>, the
  client gives its port, gets the result and then the error.  Each rule is one atomic action.
\<close>

datatype io_point = Io_result | Io_value | Io_signal | Io_end

datatype client_point =
    Client_id
  | Client_take
  | Client_get
  | Client_error string
  | Client_end string int

record 'db session =
  ses_resp :: "'db udp_response"
  ses_io :: io_point
  ses_client :: client_point

inductive session_step :: "string \<Rightarrow> int \<Rightarrow> int \<Rightarrow> 'db session \<Rightarrow> 'db session \<Rightarrow> bool"
  for res :: string and err port :: int where
  Io_result: "set_result res (ses_resp s) = (Inr (), r) \<Longrightarrow> ses_io s = Io_result \<Longrightarrow>
     session_step res err port s (s\<lparr>ses_resp := r, ses_io := Io_value\<rparr>)"
| Io_value: "set_value err (ses_resp s) = (Inr (), r) \<Longrightarrow> ses_io s = Io_value \<Longrightarrow>
     session_step res err port s (s\<lparr>ses_resp := r, ses_io := Io_signal\<rparr>)"
| Io_signal: "signal err (ses_resp s) = (Inr (), r) \<Longrightarrow> ses_io s = Io_signal \<Longrightarrow>
     session_step res err port s (s\<lparr>ses_resp := r, ses_io := Io_end\<rparr>)"
| Client_id: "set_signal_id port (ses_resp s) = (Inr own, r) \<Longrightarrow> ses_client s = Client_id \<Longrightarrow>
     session_step res err port s (s\<lparr>ses_resp := r, ses_client := Client_take\<rparr>)"
| Client_take: "take_future (ses_resp s) = (Inr (), r) \<Longrightarrow> ses_client s = Client_take \<Longrightarrow>
     session_step res err port s (s\<lparr>ses_resp := r, ses_client := Client_get\<rparr>)"
| Client_get: "await_result (ses_resp s) = (Inr (Some t), r) \<Longrightarrow> ses_client s = Client_get \<Longrightarrow>
     session_step res err port s (s\<lparr>ses_resp := r, ses_client := Client_error t\<rparr>)"
| Client_error: "get_error (ses_resp s) = (Inr e, r) \<Longrightarrow> ses_client s = Client_error t \<Longrightarrow>
     session_step res err port s (s\<lparr>ses_resp := r, ses_client := Client_end t e\<rparr>)"

inductive session_reachable ::
  "string \<Rightarrow> int \<Rightarrow> int \<Rightarrow> u16 \<Rightarrow> nat \<Rightarrow> 'db session \<Rightarrow> bool"
  for res :: string and err port :: int and own :: u16 where
  Start: "new_udp_response 3 0 (Some own) = Inr r \<Longrightarrow>
     session_reachable res err port own 0 \<lparr>ses_resp = r, ses_io = Io_result, ses_client = Client_id\<rparr>"
| Step: "session_reachable res err port own n s \<Longrightarrow> session_step res err port s s' \<Longrightarrow>
     session_reachable res err port own (Suc n) s'"

inductive_cases session_stepE: "session_step res err port s s'"

text \<open>The rules with the actions carried out, where they return.\<close>

lemma session_steps:
  "ses_io s = Io_result \<Longrightarrow>
     session_step res err port s (s\<lparr>ses_resp := (ses_resp s)\<lparr>result_str := res\<rparr>, ses_io := Io_value\<rparr>)"
  "ses_io s = Io_value \<Longrightarrow> prom (ses_resp s) = None \<Longrightarrow>
     session_step res err port s (s\<lparr>ses_resp := (ses_resp s)\<lparr>prom := Some err\<rparr>, ses_io := Io_signal\<rparr>)"
  "ses_client s = Client_id \<Longrightarrow> \<not> deferred_signal (ses_resp s) \<Longrightarrow>
     session_step res err port s (s\<lparr>ses_resp := (ses_resp s)\<lparr>their_id := port\<rparr>, ses_client := Client_take\<rparr>)"
  "ses_client s = Client_take \<Longrightarrow> \<not> future_taken (ses_resp s) \<Longrightarrow>
     session_step res err port s (s\<lparr>ses_resp := (ses_resp s)\<lparr>future_taken := True\<rparr>, ses_client := Client_get\<rparr>)"
  "ses_client s = Client_get \<Longrightarrow> prom (ses_resp s) \<noteq> None \<Longrightarrow>
     session_step res err port s (s\<lparr>ses_resp := ses_resp s, ses_client := Client_error (result_str (ses_resp s))\<rparr>)"
  "ses_client s = Client_error t \<Longrightarrow>
     session_step res err port s (s\<lparr>ses_resp := ses_resp s, ses_client := Client_end t (error_val (ses_resp s))\<rparr>)"
  by (rule session_step.intros; simp add: response_defs andthen_apply)+

text \<open>The actions still to come.\<close>

fun io_left :: "io_point \<Rightarrow> nat" where
  "io_left Io_result = 3" | "io_left Io_value = 2" | "io_left Io_signal = 1" | "io_left Io_end = 0"

fun client_left :: "client_point \<Rightarrow> nat" where
  "client_left Client_id = 4" | "client_left Client_take = 3" | "client_left Client_get = 2"
| "client_left (Client_error _) = 1" | "client_left (Client_end _ _) = 0"

text \<open>What holds in every reachable state, as a function of the two program points.\<close>

definition session_inv :: "string \<Rightarrow> int \<Rightarrow> int \<Rightarrow> 'db session \<Rightarrow> bool" where
  "session_inv res err port s \<longleftrightarrow>
     (ses_io s \<noteq> Io_result \<longrightarrow> result_str (ses_resp s) = res)
   \<and> prom (ses_resp s) = (if ses_io s \<in> {Io_result, Io_value} then None else Some err)
   \<and> error_val (ses_resp s) = (if ses_io s = Io_end then err else 0)
   \<and> their_id (ses_resp s) = (if ses_client s = Client_id then 0 else port)
   \<and> (deferred_signal (ses_resp s) \<longleftrightarrow> ses_io s = Io_end \<and> ses_client s = Client_id)
   \<and> (future_taken (ses_resp s) \<longleftrightarrow> ses_client s \<notin> {Client_id, Client_take})
   \<and> datagrams (ses_resp s) = (if ses_io s = Io_end \<and> ses_client s \<noteq> Client_id then [(word_of_int port, err)] else [])
   \<and> (\<forall>t. ses_client s = Client_error t \<longrightarrow> t = res \<and> ses_io s \<notin> {Io_result, Io_value})
   \<and> (\<forall>t e. ses_client s = Client_end t e \<longrightarrow> t = res \<and> e \<in> {0, err} \<and> ses_io s \<notin> {Io_result, Io_value})"

lemma session_inv_start:
  "new_udp_response 3 0 (Some own) = Inr r \<Longrightarrow>
     session_inv res err port \<lparr>ses_resp = r, ses_io = Io_result, ses_client = Client_id\<rparr>"
  by (auto simp: session_inv_def new_udp_response_def)

lemma session_inv_step:
  assumes "session_step res err port s s'" "session_inv res err port s" "port \<noteq> 0"
  shows "session_inv res err port s'"
    and "io_left (ses_io s) + client_left (ses_client s) = Suc (io_left (ses_io s') + client_left (ses_client s'))"
proof -
  show "session_inv res err port s'"
    using assms by (cases rule: session_step.cases)
      (auto simp: session_inv_def response_defs andthen_apply split: if_splits)
  show "io_left (ses_io s) + client_left (ses_client s) = Suc (io_left (ses_io s') + client_left (ses_client s'))"
    using assms(1) by (cases rule: session_step.cases) auto
qed

lemma session_reachable_inv:
  "session_reachable res err port own n s \<Longrightarrow> port \<noteq> 0 \<Longrightarrow>
     session_inv res err port s \<and> io_left (ses_io s) + client_left (ses_client s) + n = 7"
proof (induction rule: session_reachable.induct)
  case (Start r)
  then show ?case by (simp add: session_inv_start)
next
  case (Step n s s')
  then show ?case using session_inv_step [OF Step.hyps(2)] by auto
qed

lemma session_progress:
  assumes "session_inv res err port s" "port \<noteq> 0"
    and "ses_io s \<noteq> Io_end \<or> (\<forall>t e. ses_client s \<noteq> Client_end t e)"
  shows "\<exists>s'. session_step res err port s s'"
proof (cases "ses_io s")
  case Io_result
  then show ?thesis by (blast intro: session_steps)
next
  case Io_value
  then have "prom (ses_resp s) = None" using assms(1) by (simp add: session_inv_def)
  then show ?thesis using Io_value by (blast intro: session_steps)
next
  case Io_signal
  have "\<exists>r. signal err (ses_resp s) = (Inr (), r)" by (simp add: signal_def send_signal_def)
  then show ?thesis using Io_signal by (blast intro: session_step.Io_signal)
next
  case Io_end
  show ?thesis
  proof (cases "ses_client s")
    case Client_id
    then have "\<exists>r. set_signal_id port (ses_resp s) = (Inr (my_id (ses_resp s)), r)"
      using assms(2) by (simp add: set_signal_id_def send_signal_def andthen_apply)
    then show ?thesis using Client_id by (blast intro: session_step.Client_id)
  next
    case Client_take
    then have "\<not> future_taken (ses_resp s)" using assms(1) by (simp add: session_inv_def)
    then show ?thesis using Client_take by (blast intro: session_steps)
  next
    case Client_get
    then have "prom (ses_resp s) \<noteq> None" using assms(1) Io_end by (simp add: session_inv_def)
    then show ?thesis using Client_get by (blast intro: session_steps)
  next
    case (Client_error t)
    then show ?thesis by (blast intro: session_steps)
  next
    case (Client_end t e)
    with assms(3) Io_end show ?thesis by simp
  qed
qed

section \<open>The interface\<close>

text \<open>
  \<open>library/mutable_response.hpp\<close>: what the code that completes a response calls.  The contract:
  while a response of the heap is pending its text can be set, and setting the error value
  completes it with that text and value; nothing else is touched.
\<close>

record ('w, 'r, 'db) mutable_response =
  mr_set_result :: "'r \<Rightarrow> string \<Rightarrow> ('w, unit) prog"
  mr_set_error :: "'r \<Rightarrow> int \<Rightarrow> ('w, unit) prog"
  mr_set_db :: "'r \<Rightarrow> 'db \<Rightarrow> ('w, unit) prog"

definition mr_set_ready :: "('w, 'r, 'db) mutable_response \<Rightarrow> 'r \<Rightarrow> ('w, unit) prog" where
  "mr_set_ready mr r = mr_set_error mr r 0"

text \<open>The two calls that end every reply handler.\<close>

definition complete :: "('w, 'r, 'db) mutable_response \<Rightarrow> 'r \<Rightarrow> string \<Rightarrow> int \<Rightarrow> ('w, unit) prog" where
  "complete mr r t e = andthen (mr_set_result mr r t) (mr_set_error mr r e)"

locale response_contract =
  fixes mr :: "('w, 'r, 'db) mutable_response"
    and pending :: "'w \<Rightarrow> 'r \<Rightarrow> bool" and content :: "'w \<Rightarrow> 'r \<Rightarrow> string"
    and outcome :: "'w \<Rightarrow> 'r \<Rightarrow> (string \<times> int) option"
    and database_of :: "'w \<Rightarrow> 'r \<Rightarrow> 'db option"
  assumes set_result_law: "pending w r \<Longrightarrow> \<exists>w'. mr_set_result mr r t w = (Inr (), w')
      \<and> pending w' = pending w \<and> content w' = (content w)(r := t) \<and> outcome w' = outcome w
      \<and> database_of w' = database_of w"
    and set_db_law: "pending w r \<Longrightarrow> \<exists>w'. mr_set_db mr r db w = (Inr (), w')
      \<and> pending w' = pending w \<and> content w' = content w \<and> outcome w' = outcome w
      \<and> database_of w' = (database_of w)(r := Some db)"
    and set_error_law: "pending w r \<Longrightarrow> \<exists>w'. mr_set_error mr r e w = (Inr (), w')
      \<and> pending w' = (pending w)(r := False) \<and> content w' = content w
      \<and> outcome w' = (outcome w)(r := Some (content w r, e)) \<and> database_of w' = database_of w"
begin

lemma complete_run:
  assumes "pending w r"
  shows "\<exists>w'. complete mr r t e w = (Inr (), w') \<and> pending w' = (pending w)(r := False)
    \<and> outcome w' = (outcome w)(r := Some (t, e)) \<and> database_of w' = database_of w"
proof -
  obtain w1 where w1: "mr_set_result mr r t w = (Inr (), w1)" "pending w1 = pending w"
    "content w1 = (content w)(r := t)" "outcome w1 = outcome w" "database_of w1 = database_of w"
    using set_result_law [OF assms] by blast
  then have "pending w1 r" using assms by simp
  then obtain w2 where w2: "mr_set_error mr r e w1 = (Inr (), w2)" "pending w2 = (pending w1)(r := False)"
    "outcome w2 = (outcome w1)(r := Some (content w1 r, e))" "database_of w2 = database_of w1"
    using set_error_law by blast
  with w1 show ?thesis by (simp add: complete_def andthen_apply)
qed

lemma complete_db_run:
  assumes "pending w r"
  shows "\<exists>w'. andthen (mr_set_result mr r t) (andthen (mr_set_db mr r db) (mr_set_ready mr r)) w = (Inr (), w')
    \<and> pending w' = (pending w)(r := False) \<and> outcome w' = (outcome w)(r := Some (t, 0))
    \<and> database_of w' = (database_of w)(r := Some db)"
proof -
  obtain w1 where w1: "mr_set_result mr r t w = (Inr (), w1)" "pending w1 = pending w"
    "content w1 = (content w)(r := t)" "outcome w1 = outcome w" "database_of w1 = database_of w"
    using set_result_law [OF assms] by blast
  then have "pending w1 r" using assms by simp
  then obtain w2 where w2: "mr_set_db mr r db w1 = (Inr (), w2)" "pending w2 = pending w1"
    "content w2 = content w1" "outcome w2 = outcome w1" "database_of w2 = (database_of w1)(r := Some db)"
    using set_db_law by blast
  then have "pending w2 r" using \<open>pending w1 r\<close> by simp
  then obtain w3 where w3: "mr_set_error mr r 0 w2 = (Inr (), w3)" "pending w3 = (pending w2)(r := False)"
    "outcome w3 = (outcome w2)(r := Some (content w2 r, 0))" "database_of w3 = database_of w2"
    using set_error_law by blast
  with w1 w2 show ?thesis by (simp add: mr_set_ready_def andthen_apply)
qed

end

section \<open>A heap of response objects\<close>

text \<open>References to responses are positions in the list of the objects made so far.\<close>

type_synonym 'db response_heap = "'db udp_response list"

definition on_response :: "nat \<Rightarrow> ('db, 'a) response_prog \<Rightarrow> ('db response_heap, 'a) prog" where
  "on_response r m = (\<lambda>H. if r < length H
     then (case m (H ! r) of (x, obj) \<Rightarrow> (x, H[r := obj])) else (Inl Undefined, H))"

text \<open>\<open>make_response\<close>, given what the system calls of the constructor return.\<close>

definition make_response :: "int \<times> int \<times> u16 option \<Rightarrow> ('db response_heap, nat) prog" where
  "make_response = (\<lambda>(sock, bound, port) H. case new_udp_response sock bound port of
     Inl f \<Rightarrow> (Inl f, H) | Inr obj \<Rightarrow> (Inr (length H), H @ [obj]))"

definition udp_ops :: "('db response_heap, nat, 'db) mutable_response" where
  "udp_ops = \<lparr>mr_set_result = (\<lambda>r t. on_response r (set_result t)),
     mr_set_error = (\<lambda>r e. on_response r (set_error e)),
     mr_set_db = (\<lambda>r db. on_response r (set_db db))\<rparr>"

definition pending :: "'db response_heap \<Rightarrow> nat \<Rightarrow> bool" where
  "pending H r \<longleftrightarrow> r < length H \<and> prom (H ! r) = None"

definition content :: "'db response_heap \<Rightarrow> nat \<Rightarrow> string" where
  "content H r = (if r < length H then result_str (H ! r) else [])"

definition outcome :: "'db response_heap \<Rightarrow> nat \<Rightarrow> (string \<times> int) option" where
  "outcome H r = (if r < length H
     then map_option (\<lambda>e. (result_str (H ! r), e)) (prom (H ! r)) else None)"

definition database_of :: "'db response_heap \<Rightarrow> nat \<Rightarrow> 'db option" where
  "database_of H r = (if r < length H then resp_db (H ! r) else None)"

lemma signal_runs: "\<exists>obj'. signal e obj = (Inr (), obj') \<and> prom obj' = prom obj
    \<and> result_str obj' = result_str obj \<and> resp_db obj' = resp_db obj"
  by (simp add: signal_def send_signal_def)

lemma set_error_runs:
  assumes "prom obj = None"
  shows "\<exists>obj'. set_error e obj = (Inr (), obj') \<and> prom obj' = Some e
    \<and> result_str obj' = result_str obj \<and> resp_db obj' = resp_db obj"
  using assms signal_runs [of e "obj\<lparr>prom := Some e\<rparr>"]
  by (auto simp: set_error_def set_value_def andthen_apply)

interpretation udp: response_contract udp_ops pending content outcome database_of
proof
  fix H :: "'b response_heap" and r :: nat and t :: string and e :: int and db :: 'b
  assume "pending H r"
  then have r: "r < length H" "prom (H ! r) = None" by (simp_all add: pending_def)
  let ?T = "H[r := (H ! r)\<lparr>result_str := t\<rparr>]" and ?D = "H[r := (H ! r)\<lparr>resp_db := Some db\<rparr>]"
  have "mr_set_result udp_ops r t H = (Inr (), ?T)"
    using r by (simp add: udp_ops_def on_response_def set_result_def)
  moreover have "pending ?T = pending H \<and> content ?T = (content H)(r := t) \<and> outcome ?T = outcome H
      \<and> database_of ?T = database_of H"
    using r by (auto simp: fun_eq_iff pending_def content_def outcome_def database_of_def nth_list_update)
  ultimately show "\<exists>H'. mr_set_result udp_ops r t H = (Inr (), H') \<and> pending H' = pending H
      \<and> content H' = (content H)(r := t) \<and> outcome H' = outcome H \<and> database_of H' = database_of H"
    by blast
  have "mr_set_db udp_ops r db H = (Inr (), ?D)"
    using r by (simp add: udp_ops_def on_response_def set_db_def)
  moreover have "pending ?D = pending H \<and> content ?D = content H \<and> outcome ?D = outcome H
      \<and> database_of ?D = (database_of H)(r := Some db)"
    using r by (auto simp: fun_eq_iff pending_def content_def outcome_def database_of_def nth_list_update)
  ultimately show "\<exists>H'. mr_set_db udp_ops r db H = (Inr (), H') \<and> pending H' = pending H
      \<and> content H' = content H \<and> outcome H' = outcome H \<and> database_of H' = (database_of H)(r := Some db)"
    by blast
  obtain obj where obj: "set_error e (H ! r) = (Inr (), obj)" "prom obj = Some e"
    "result_str obj = result_str (H ! r)" "resp_db obj = resp_db (H ! r)"
    using set_error_runs [of "H ! r" e] r(2) by auto
  let ?E = "H[r := obj]"
  have "mr_set_error udp_ops r e H = (Inr (), ?E)"
    using r obj by (simp add: udp_ops_def on_response_def)
  moreover have "pending ?E = (pending H)(r := False) \<and> content ?E = content H
      \<and> outcome ?E = (outcome H)(r := Some (content H r, e)) \<and> database_of ?E = database_of H"
    using r obj by (auto simp: fun_eq_iff pending_def content_def outcome_def database_of_def nth_list_update)
  ultimately show "\<exists>H'. mr_set_error udp_ops r e H = (Inr (), H') \<and> pending H' = (pending H)(r := False)
      \<and> content H' = content H \<and> outcome H' = (outcome H)(r := Some (content H r, e))
      \<and> database_of H' = database_of H"
    by blast
qed

section \<open>Properties\<close>

text \<open>
  C19. However the io thread and the client interleave, a session always ends: it makes progress
  until both are finished, after exactly seven actions; then the client holds the text the io
  thread set, exactly one datagram with the error value went to the client's port, and the
  promise holds the error value.
\<close>

theorem session_completes:
  fixes s :: "'db session"
  assumes "session_reachable res err port own n s" "port \<noteq> 0"
  shows "n \<le> 7 \<and> (n < 7 \<longrightarrow> (\<exists>s'. session_step res err port s s'))
    \<and> (n = 7 \<longrightarrow> (\<exists>e. ses_client s = Client_end res e) \<and> ses_io s = Io_end
         \<and> datagrams (ses_resp s) = [(word_of_int port, err)] \<and> prom (ses_resp s) = Some err)"
proof -
  have inv: "session_inv res err port s" "io_left (ses_io s) + client_left (ses_client s) + n = 7"
    using session_reachable_inv [OF assms] by auto
  have "\<exists>s'. session_step res err port s s'" if "n < 7"
  proof (rule session_progress [OF inv(1) assms(2)])
    show "ses_io s \<noteq> Io_end \<or> (\<forall>t e. ses_client s \<noteq> Client_end t e)" using inv(2) that by auto
  qed
  moreover have "ses_io s = Io_end \<and> (\<exists>t e. ses_client s = Client_end t e)" if "n = 7"
    using inv(2) that by (cases "ses_io s"; cases "ses_client s") auto
  ultimately show ?thesis using inv by (auto simp: session_inv_def)
qed

lemma session_completes_witness:
  "\<exists>s :: nat session. session_reachable ''ok'' 3 5000 4000 7 s
     \<and> ses_client s = Client_end ''ok'' 3 \<and> datagrams (ses_resp s) = [(5000, 3)]"
proof -
  obtain r0 :: "nat udp_response" where r0: "new_udp_response 3 0 (Some 4000) = Inr r0"
    by (simp add: new_udp_response_def)
  define s0 where "s0 = \<lparr>ses_resp = r0, ses_io = Io_result, ses_client = Client_id\<rparr>"
  define s3 where "s3 = s0\<lparr>ses_resp := r0\<lparr>result_str := ''ok'', prom := Some 3, their_id := 5000\<rparr>,
     ses_io := Io_signal, ses_client := Client_take\<rparr>"
  define s4 where "s4 = s3\<lparr>ses_resp := (ses_resp s3)\<lparr>error_val := 3, datagrams := [(5000, 3)]\<rparr>, ses_io := Io_end\<rparr>"
  have new: "prom r0 = None" "deferred_signal r0 = False" "future_taken r0 = False" "datagrams r0 = []"
    using r0 by (auto simp: new_udp_response_def)
  note step = session_reachable.Step [OF _ session_steps(1)] session_reachable.Step [OF _ session_steps(2)]
    session_reachable.Step [OF _ session_steps(3)] session_reachable.Step [OF _ session_steps(4)]
    session_reachable.Step [OF _ session_steps(5)] session_reachable.Step [OF _ session_steps(6)]
  have "session_reachable ''ok'' 3 5000 4000 0 s0" unfolding s0_def by (rule session_reachable.Start [OF r0])
  from step(3) [OF step(2) [OF step(1) [OF this]]]
  have "session_reachable ''ok'' 3 5000 4000 3 s3" by (simp add: s0_def s3_def new eval_nat_numeral)
  moreover have "session_step ''ok'' 3 5000 s3 s4"
    unfolding s4_def
    by (rule session_step.Io_signal) (simp_all add: s3_def s0_def signal_def send_signal_def new)
  ultimately have "session_reachable ''ok'' 3 5000 4000 (Suc 3) s4" by (rule session_reachable.Step)
  from step(6) [OF step(5) [OF step(4) [OF this]]]
  have "\<exists>s :: nat session. session_reachable ''ok'' 3 5000 4000 7 s \<and> ses_client s = Client_end ''ok'' 3"
    by (fastforce simp: s4_def s3_def s0_def new eval_nat_numeral)
  then obtain s :: "nat session" where s: "session_reachable ''ok'' 3 5000 4000 7 s" "ses_client s = Client_end ''ok'' 3"
    by blast
  from session_completes [OF s(1)] s show ?thesis by auto
qed

text \<open>
  The result can be read before the error value is there: the io thread sets the promise
  before it stores the error value, so a client that was waiting in \<open>get_result\<close> can get the
  text of a failed call and then be told by \<open>get_error\<close> that there was no error.
\<close>

theorem error_read_before_it_is_set:
  "\<exists>(s :: 'db session) n. session_reachable res err port own n s \<and> ses_client s = Client_end res 0
     \<and> prom (ses_resp s) = Some err \<and> n = 6"
proof -
  obtain r0 :: "'db udp_response" where r0: "new_udp_response 3 0 (Some own) = Inr r0"
    by (simp add: new_udp_response_def)
  define s0 where "s0 = \<lparr>ses_resp = r0, ses_io = Io_result, ses_client = Client_id\<rparr>"
  have new: "prom r0 = None" "deferred_signal r0 = False" "future_taken r0 = False" "error_val r0 = 0"
    using r0 by (auto simp: new_udp_response_def)
  note step = session_reachable.Step [OF _ session_steps(1)] session_reachable.Step [OF _ session_steps(2)]
    session_reachable.Step [OF _ session_steps(3)] session_reachable.Step [OF _ session_steps(4)]
    session_reachable.Step [OF _ session_steps(5)] session_reachable.Step [OF _ session_steps(6)]
  have "session_reachable res err port own 0 s0" unfolding s0_def by (rule session_reachable.Start [OF r0])
  from step(6) [OF step(5) [OF step(4) [OF step(3) [OF step(2) [OF step(1) [OF this]]]]]]
  show ?thesis by (fastforce simp: s0_def new)
qed

text \<open>
  The result of a response can be taken once.  The first \<open>get_result\<close> waits for the promise
  and returns the text; every later one returns the fixed error text at once, also when the call
  succeeded.
\<close>

theorem get_result_works_once:
  assumes "prom r = Some e" "\<not> future_taken r" "get_result r = (x, r')"
  shows "x = Inr (Some (result_str r)) \<and> get_result r' = (Inr (Some ERROR_RESULT), r')"
  using assms by (auto simp: get_result_def take_future_def await_result_def catch_all_def andthen_apply)

lemma get_result_works_once_witness:
  "\<exists>r r' :: nat udp_response. get_result r = (Inr (Some ''text''), r')
     \<and> get_result r' = (Inr (Some ERROR_RESULT), r')"
proof -
  obtain r0 :: "nat udp_response" where new: "new_udp_response 3 0 (Some 4000) = Inr r0"
    by (simp add: new_udp_response_def)
  let ?r = "r0\<lparr>result_str := ''text'', prom := Some 0\<rparr>"
  obtain x r' where run: "get_result ?r = (x, r')" by fastforce
  have "\<not> future_taken ?r" using new by (auto simp: new_udp_response_def)
  from get_result_works_once [OF _ this run] run show ?thesis by auto
qed

end
