(* ===== verification/Async_Database.thy ===== *)
theory Async_Database
  imports Handler_Effects Response
begin

text \<open>
  \<open>database/async_database_impl.cpp\<close> and \<open>database/database_impl.cpp\<close>: the operations on one
  database.  Each makes a response object, sends a request through the dispatcher with a closure
  that completes the response, and returns it; the synchronous wrapper waits for its result.

  A state is the dispatcher beside the world \<open>'s\<close> of swarms and a world \<open>'m\<close> that holds the
  response objects.  The closures are the values of \<open>reply_handler\<close>; \<open>run_reply\<close> is their code.
\<close>

section \<open>What the operations use\<close>

text \<open>
  Response objects, the constructor of one, \<open>toStyledString\<close> of jsoncpp and \<open>message\<close> of
  \<open>boost::system::error_code\<close>.
\<close>

record ('m, 'r, 'db) response_api =
  ra_responses :: "('m, 'r, 'db) mutable_response"
  ra_make :: "('m, 'r) prog"
  ra_styled :: "json \<Rightarrow> string"
  ra_message :: "error_code \<Rightarrow> string"

datatype reply_kind =
    Basic_reply
  | Read_reply
  | Quick_read_reply
  | Has_reply
  | Keys_reply
  | Size_reply
  | Ttl_reply
  | Writers_reply

datatype 'r reply_handler = Reply (reply_resp: 'r) (reply_kind: reply_kind)

section \<open>Replies\<close>

text \<open>The JSON value of each handler on a reply without error.\<close>

definition ok_json :: json where
  "ok_json = jset ''result'' (JInt 1) JNull"

definition read_json :: "db_reply \<Rightarrow> json" where
  "read_json r = jset ''value'' (JString (snd (get_read r))) (jset ''key'' (JString (fst (get_read r))) ok_json)"

definition quick_read_json :: "string \<times> string \<times> string \<Rightarrow> json" where
  "quick_read_json = (\<lambda>(k, v, e). jset ''value'' (JString v) (jset ''key'' (JString k) ok_json))"

definition has_json :: "db_reply \<Rightarrow> json" where
  "has_json r = jset ''result'' (JBool (snd (get_has r))) JNull"

definition keys_json :: "db_reply \<Rightarrow> json" where
  "keys_json r = jset ''keys'' (fold jappend (map JString (get_keys r)) JNull) JNull"

definition size_json :: "db_reply \<Rightarrow> json" where
  "size_json r = (case get_size r of (bytes, keys, remaining_bytes, max_size) \<Rightarrow>
     jset ''max_size'' (JUInt (unat max_size)) (jset ''remaining_bytes'' (JUInt (unat remaining_bytes))
       (jset ''keys'' (JUInt (unat keys)) (jset ''bytes'' (JUInt (unat bytes)) ok_json))))"

definition ttl_json :: "db_reply \<Rightarrow> json" where
  "ttl_json r = jset ''ttl'' (JUInt (unat (snd (get_ttl r)))) (jset ''key'' (JString (fst (get_ttl r))) ok_json)"

definition writers_json :: "db_reply \<Rightarrow> json" where
  "writers_json r = jset ''writers'' (fold jappend (map JString (snd (get_writers r))) JNull) ok_json"

definition error_json :: "string \<Rightarrow> json" where
  "error_json m = jset ''error'' (JString m) JNull"

definition translate_swarm_response ::
  "('m, 'r, 'db) response_api \<Rightarrow> db_reply \<Rightarrow> error_code \<Rightarrow> 'r \<Rightarrow> (db_reply \<Rightarrow> ('m, unit) prog)
     \<Rightarrow> ('m, unit) prog" where
  "translate_swarm_response ra reply ec resp handler =
     (if is_err ec
      then complete (ra_responses ra) resp (ra_styled ra (error_json (ra_message ra ec)))
             (db_error_int Connection_error)
      else if has_error reply
      then complete (ra_responses ra) resp (ra_styled ra (error_json (get_error_message reply)))
             (db_error_int Database_error)
      else handler reply)"

text \<open>\<open>resp->set_result(json.toStyledString()); resp->set_ready();\<close>\<close>

definition reply_with :: "('m, 'r, 'db) response_api \<Rightarrow> 'r \<Rightarrow> json \<Rightarrow> ('m, unit) prog" where
  "reply_with ra resp v =
     andthen (mr_set_result (ra_responses ra) resp (ra_styled ra v)) (mr_set_ready (ra_responses ra) resp)"

definition quick_read_reply ::
  "('m, 'r, 'db) response_api \<Rightarrow> 'r \<Rightarrow> db_reply \<Rightarrow> error_code \<Rightarrow> ('m, unit) prog" where
  "quick_read_reply ra resp reply ec =
     (if is_err ec
      then complete (ra_responses ra) resp (ra_styled ra (error_json (ra_message ra ec)))
             (db_error_int Connection_error)
      else
        let rr = get_quick_read reply in
        if snd (snd rr) \<noteq> []
        then complete (ra_responses ra) resp (ra_styled ra (error_json (snd (snd rr))))
               (db_error_int Database_error)
        else reply_with ra resp (quick_read_json rr))"

fun run_reply ::
  "('m, 'r, 'db) response_api \<Rightarrow> 'r reply_handler \<Rightarrow> database_response \<Rightarrow> error_code \<Rightarrow> ('m, unit) prog" where
  "run_reply ra (Reply resp Basic_reply) r ec = translate_swarm_response ra (dr_reply r) ec resp
     (\<lambda>_. reply_with ra resp ok_json)"
| "run_reply ra (Reply resp Read_reply) r ec = translate_swarm_response ra (dr_reply r) ec resp
     (\<lambda>reply. reply_with ra resp (read_json reply))"
| "run_reply ra (Reply resp Quick_read_reply) r ec = quick_read_reply ra resp (dr_reply r) ec"
| "run_reply ra (Reply resp Has_reply) r ec = translate_swarm_response ra (dr_reply r) ec resp
     (\<lambda>reply. reply_with ra resp (has_json reply))"
| "run_reply ra (Reply resp Keys_reply) r ec = translate_swarm_response ra (dr_reply r) ec resp
     (\<lambda>reply. reply_with ra resp (keys_json reply))"
| "run_reply ra (Reply resp Size_reply) r ec = translate_swarm_response ra (dr_reply r) ec resp
     (\<lambda>reply. reply_with ra resp (size_json reply))"
| "run_reply ra (Reply resp Ttl_reply) r ec = translate_swarm_response ra (dr_reply r) ec resp
     (\<lambda>reply. reply_with ra resp (ttl_json reply))"
| "run_reply ra (Reply resp Writers_reply) r ec = translate_swarm_response ra (dr_reply r) ec resp
     (\<lambda>reply. reply_with ra resp (writers_json reply))"

section \<open>Operations\<close>

datatype init_state = Init_none | Initializing | Initialized

record 'sw async_database =
  ad_swarm :: 'sw
  ad_uuid :: uuid
  ad_state :: init_state

definition new_async_database :: "'sw \<Rightarrow> uuid \<Rightarrow> 'sw async_database" where
  "new_async_database sw u = \<lparr>ad_swarm = sw, ad_uuid = u, ad_state = Init_none\<rparr>"

text \<open>
  What every call of an operation has at hand: the codec, the virtual functions of swarms and of
  responses, the timeout of the library, and \<open>closure\<close>, which makes the dispatcher's handler of
  a reply handler.
\<close>

record ('s, 'sw, 'm, 'r, 'db, 'h) database_env =
  de_codec :: codec
  de_swarms :: "('s, 'sw) swarm_ops"
  de_api :: "('m, 'r, 'db) response_api"
  de_timeout :: u64
  de_closure :: "'r reply_handler \<Rightarrow> 'h"

type_synonym ('sw, 'h, 's, 'm, 'a) client_prog = "(('sw, 'h) db_dispatch \<times> ('s \<times> 'm), 'a) prog"

definition database_msg_of :: "db_request \<Rightarrow> database_msg" where
  "database_msg_of req = \<lparr>dm_header = empty_header, dm_request = req\<rparr>"

definition send_with ::
  "('s, 'sw, 'm, 'r, 'db, 'h) database_env \<Rightarrow> 'sw async_database \<Rightarrow> db_request \<Rightarrow> send_policy
     \<Rightarrow> 'r reply_handler \<Rightarrow> ('sw, 'h, 's, 'm, unit) client_prog" where
  "send_with de db req policy h =
     send_message_to_swarm (de_codec de) (log_ops (de_swarms de)) (de_timeout de) (ad_swarm db) (ad_uuid db)
       (database_msg_of req) policy (de_closure de h)"

definition send_message_with_basic_response ::
  "('s, 'sw, 'm, 'r, 'db, 'h) database_env \<Rightarrow> 'sw async_database \<Rightarrow> db_request \<Rightarrow> 'r
     \<Rightarrow> ('sw, 'h, 's, 'm, unit) client_prog" where
  "send_message_with_basic_response de db req resp = send_with de db req Normal (Reply resp Basic_reply)"

text \<open>The frame of every operation: make a response, send, return it; \<open>nullptr\<close> on an exception.\<close>

definition with_response ::
  "('s, 'sw, 'm, 'r, 'db, 'h) database_env \<Rightarrow> ('r \<Rightarrow> ('sw, 'h, 's, 'm, unit) client_prog)
     \<Rightarrow> ('sw, 'h, 's, 'm, 'r option) client_prog" where
  "with_response de body =
     catch_all (sbind (on_snd (on_snd (ra_make (de_api de)))) (\<lambda>resp. andthen (body resp) (ret (Some resp))))
       (ret None)"

definition async_create ::
  "('s, 'sw, 'm, 'r, 'db, 'h) database_env \<Rightarrow> 'sw async_database \<Rightarrow> string \<Rightarrow> string \<Rightarrow> u64
     \<Rightarrow> ('sw, 'h, 's, 'm, 'r option) client_prog" where
  "async_create de db key val expiry =
     with_response de (send_message_with_basic_response de db (Req_create key val expiry))"

definition async_read ::
  "('s, 'sw, 'm, 'r, 'db, 'h) database_env \<Rightarrow> 'sw async_database \<Rightarrow> string
     \<Rightarrow> ('sw, 'h, 's, 'm, 'r option) client_prog" where
  "async_read de db key =
     with_response de (\<lambda>resp. send_with de db (Req_read key) Normal (Reply resp Read_reply))"

definition async_update ::
  "('s, 'sw, 'm, 'r, 'db, 'h) database_env \<Rightarrow> 'sw async_database \<Rightarrow> string \<Rightarrow> string
     \<Rightarrow> ('sw, 'h, 's, 'm, 'r option) client_prog" where
  "async_update de db key val =
     with_response de (send_message_with_basic_response de db (Req_update key val 0))"

definition async_remove ::
  "('s, 'sw, 'm, 'r, 'db, 'h) database_env \<Rightarrow> 'sw async_database \<Rightarrow> string
     \<Rightarrow> ('sw, 'h, 's, 'm, 'r option) client_prog" where
  "async_remove de db key = with_response de (send_message_with_basic_response de db (Req_delete key))"

definition async_quick_read ::
  "('s, 'sw, 'm, 'r, 'db, 'h) database_env \<Rightarrow> 'sw async_database \<Rightarrow> string
     \<Rightarrow> ('sw, 'h, 's, 'm, 'r option) client_prog" where
  "async_quick_read de db key =
     with_response de (\<lambda>resp. send_with de db (Req_quick_read key) Fastest (Reply resp Quick_read_reply))"

definition async_has ::
  "('s, 'sw, 'm, 'r, 'db, 'h) database_env \<Rightarrow> 'sw async_database \<Rightarrow> string
     \<Rightarrow> ('sw, 'h, 's, 'm, 'r option) client_prog" where
  "async_has de db key =
     with_response de (\<lambda>resp. send_with de db (Req_has key) Normal (Reply resp Has_reply))"

definition async_keys ::
  "('s, 'sw, 'm, 'r, 'db, 'h) database_env \<Rightarrow> 'sw async_database
     \<Rightarrow> ('sw, 'h, 's, 'm, 'r option) client_prog" where
  "async_keys de db = with_response de (\<lambda>resp. send_with de db Req_keys Normal (Reply resp Keys_reply))"

definition async_size ::
  "('s, 'sw, 'm, 'r, 'db, 'h) database_env \<Rightarrow> 'sw async_database
     \<Rightarrow> ('sw, 'h, 's, 'm, 'r option) client_prog" where
  "async_size de db = with_response de (\<lambda>resp. send_with de db Req_size Normal (Reply resp Size_reply))"

definition async_expire ::
  "('s, 'sw, 'm, 'r, 'db, 'h) database_env \<Rightarrow> 'sw async_database \<Rightarrow> string \<Rightarrow> u64
     \<Rightarrow> ('sw, 'h, 's, 'm, 'r option) client_prog" where
  "async_expire de db key expiry =
     with_response de (send_message_with_basic_response de db (Req_expire key expiry))"

definition async_persist ::
  "('s, 'sw, 'm, 'r, 'db, 'h) database_env \<Rightarrow> 'sw async_database \<Rightarrow> string
     \<Rightarrow> ('sw, 'h, 's, 'm, 'r option) client_prog" where
  "async_persist de db key = with_response de (send_message_with_basic_response de db (Req_persist key))"

definition async_ttl ::
  "('s, 'sw, 'm, 'r, 'db, 'h) database_env \<Rightarrow> 'sw async_database \<Rightarrow> string
     \<Rightarrow> ('sw, 'h, 's, 'm, 'r option) client_prog" where
  "async_ttl de db key =
     with_response de (\<lambda>resp. send_with de db (Req_ttl key) Normal (Reply resp Ttl_reply))"

definition async_writers ::
  "('s, 'sw, 'm, 'r, 'db, 'h) database_env \<Rightarrow> 'sw async_database
     \<Rightarrow> ('sw, 'h, 's, 'm, 'r option) client_prog" where
  "async_writers de db =
     with_response de (\<lambda>resp. send_with de db Req_writers Normal (Reply resp Writers_reply))"

definition async_add_writer ::
  "('s, 'sw, 'm, 'r, 'db, 'h) database_env \<Rightarrow> 'sw async_database \<Rightarrow> string
     \<Rightarrow> ('sw, 'h, 's, 'm, 'r option) client_prog" where
  "async_add_writer de db writer =
     with_response de (send_message_with_basic_response de db (Req_add_writers [writer]))"

definition async_remove_writer ::
  "('s, 'sw, 'm, 'r, 'db, 'h) database_env \<Rightarrow> 'sw async_database \<Rightarrow> string
     \<Rightarrow> ('sw, 'h, 's, 'm, 'r option) client_prog" where
  "async_remove_writer de db writer =
     with_response de (send_message_with_basic_response de db (Req_remove_writers [writer]))"

section \<open>What a reply means\<close>

text \<open>The outcome of a call: the text of its response and the error value.\<close>

fun value_json :: "reply_kind \<Rightarrow> db_reply \<Rightarrow> json" where
  "value_json Basic_reply r = ok_json"
| "value_json Read_reply r = read_json r"
| "value_json Quick_read_reply r = quick_read_json (get_quick_read r)"
| "value_json Has_reply r = has_json r"
| "value_json Keys_reply r = keys_json r"
| "value_json Size_reply r = size_json r"
| "value_json Ttl_reply r = ttl_json r"
| "value_json Writers_reply r = writers_json r"

definition reply_error :: "reply_kind \<Rightarrow> db_reply \<Rightarrow> string option" where
  "reply_error k r =
     (if k = Quick_read_reply
      then (if snd (snd (get_quick_read r)) = [] then None else Some (snd (snd (get_quick_read r))))
      else if has_error r then Some (get_error_message r) else None)"

definition reply_outcome ::
  "(json \<Rightarrow> string) \<Rightarrow> (error_code \<Rightarrow> string) \<Rightarrow> reply_kind \<Rightarrow> db_reply \<Rightarrow> error_code \<Rightarrow> string \<times> int" where
  "reply_outcome styled message k r ec =
     (if is_err ec then (styled (error_json (message ec)), db_error_int Connection_error)
      else case reply_error k r of
        Some m \<Rightarrow> (styled (error_json m), db_error_int Database_error)
      | None \<Rightarrow> (styled (value_json k r), db_error_int Success))"

lemma reply_with_complete: "reply_with ra resp v = complete (ra_responses ra) resp (ra_styled ra v) 0"
  by (simp add: reply_with_def complete_def mr_set_ready_def)

text \<open>Every closure sets a text and then an error value, once: those of \<open>reply_outcome\<close>.\<close>

lemma run_reply_eq:
  "run_reply ra h r ec =
     (case reply_outcome (ra_styled ra) (ra_message ra) (reply_kind h) (dr_reply r) ec of
        (t, e) \<Rightarrow> complete (ra_responses ra) (reply_resp h) t e)"
proof (cases h)
  case (Reply resp k)
  then show ?thesis
    by (cases k) (simp_all add: reply_outcome_def reply_error_def translate_swarm_response_def
        quick_read_reply_def reply_with_complete Let_def)
qed

section \<open>Runs of the dispatcher that complete responses\<close>

definition run_reply_handler ::
  "('m, 'r, 'db) response_api \<Rightarrow> ('sw, 'r reply_handler, 's \<times> 'm) handler_call" where
  "run_reply_handler ra h r ec = on_snd (on_snd (run_reply ra h r ec))"

definition reply_able :: "('m \<Rightarrow> 'r \<Rightarrow> bool) \<Rightarrow> ('r \<Rightarrow> reply_kind) \<Rightarrow> 'm \<Rightarrow> 'r reply_handler \<Rightarrow> bool" where
  "reply_able pend kinds m h \<longleftrightarrow> pend m (reply_resp h) \<and> reply_kind h = kinds (reply_resp h)"

definition apply_reply ::
  "('m, 'r, 'db) response_api \<Rightarrow> 'r reply_handler \<Rightarrow> database_response \<Rightarrow> 'm \<Rightarrow> 'm" where
  "apply_reply ra h r m = snd (run_reply ra h r No_error m)"

text \<open>\<open>kinds\<close> says which operation a response object was made for: it has one closure.\<close>

locale reply_contract = swarm_contract ops cd +
    response_contract "ra_responses ra" pend content outc dbs
  for ops :: "('w, 'sw) swarm_ops" and cd :: codec and ra :: "('m, 'r, 'db) response_api"
    and pend content outc dbs +
  fixes kinds :: "'r \<Rightarrow> reply_kind"
begin

lemma run_reply_runs:
  assumes "pend m (reply_resp h)"
  shows "run_reply ra h r No_error m = (Inr (), apply_reply ra h r m)"
    and "pend (apply_reply ra h r m) = (pend m)(reply_resp h := False)"
    and "outc (apply_reply ra h r m) = (outc m)(reply_resp h :=
           Some (reply_outcome (ra_styled ra) (ra_message ra) (reply_kind h) (dr_reply r) No_error))"
proof -
  obtain t e where te: "reply_outcome (ra_styled ra) (ra_message ra) (reply_kind h) (dr_reply r) No_error = (t, e)"
    by fastforce
  obtain m' where "complete (ra_responses ra) (reply_resp h) t e m = (Inr (), m')"
    "pend m' = (pend m)(reply_resp h := False)" "outc m' = (outc m)(reply_resp h := Some (t, e))"
    using complete_run [OF assms] by blast
  with te show "run_reply ra h r No_error m = (Inr (), apply_reply ra h r m)"
    and "pend (apply_reply ra h r m) = (pend m)(reply_resp h := False)"
    and "outc (apply_reply ra h r m) = (outc m)(reply_resp h :=
           Some (reply_outcome (ra_styled ra) (ra_message ra) (reply_kind h) (dr_reply r) No_error))"
    by (simp_all add: apply_reply_def run_reply_eq)
qed

end

sublocale reply_contract \<subseteq> replies: handler_effects ops cd "run_reply_handler ra" "reply_able pend kinds" "apply_reply ra"
proof
  fix m h r d w
  assume "reply_able pend kinds m h"
  then show "run_reply_handler ra h r No_error (d, (w, m)) = (Inr (), (d, (w, apply_reply ra h r m)))"
    by (simp add: run_reply_handler_def reply_able_def run_reply_runs(1))
next
  fix m h r h'
  assume "reply_able pend kinds m h"
  then show "reply_able pend kinds (apply_reply ra h r m) h' \<longleftrightarrow> reply_able pend kinds m h' \<and> h' \<noteq> h"
    by (cases h; cases h') (auto simp: reply_able_def run_reply_runs(2))
qed

context reply_contract
begin

text \<open>What the calls of a log have done to the responses.\<close>

lemma apply_replies:
  assumes "\<forall>(h, r) \<in> set log. reply_able pend kinds m h" "distinct (map fst log)"
  shows "\<forall>(h, r) \<in> set log. \<not> pend (apply_calls (apply_reply ra) log m) (reply_resp h)
      \<and> outc (apply_calls (apply_reply ra) log m) (reply_resp h) =
          Some (reply_outcome (ra_styled ra) (ra_message ra) (reply_kind h) (dr_reply r) No_error)"
    and "\<forall>x. x \<notin> reply_resp ` fst ` set log \<longrightarrow>
      pend (apply_calls (apply_reply ra) log m) x = pend m x
      \<and> outc (apply_calls (apply_reply ra) log m) x = outc m x"
proof -
  have "(\<forall>(h, r) \<in> set log. \<not> pend (apply_calls (apply_reply ra) log m) (reply_resp h)
      \<and> outc (apply_calls (apply_reply ra) log m) (reply_resp h) =
          Some (reply_outcome (ra_styled ra) (ra_message ra) (reply_kind h) (dr_reply r) No_error))
    \<and> (\<forall>x. x \<notin> reply_resp ` fst ` set log \<longrightarrow>
      pend (apply_calls (apply_reply ra) log m) x = pend m x
      \<and> outc (apply_calls (apply_reply ra) log m) x = outc m x)"
    using assms
  proof (induction log rule: rev_induct)
    case (snoc e log)
    obtain h r where e: "e = (h, r)" by fastforce
    let ?m = "apply_calls (apply_reply ra) log m"
    have "reply_resp h \<notin> reply_resp ` fst ` set log"
    proof
      assume "reply_resp h \<in> reply_resp ` fst ` set log"
      then obtain h' r' where h': "(h', r') \<in> set log" "reply_resp h' = reply_resp h" by auto
      with snoc.prems(1) e have "reply_kind h' = reply_kind h" by (fastforce simp: reply_able_def)
      with h'(2) have "h' = h" by (metis reply_handler.expand)
      with h'(1) snoc.prems(2) e show False by force
    qed
    moreover have "pend m (reply_resp h)" using snoc.prems(1) e by (auto simp: reply_able_def)
    ultimately have "pend ?m (reply_resp h)" using snoc by auto
    with snoc \<open>reply_resp h \<notin> _\<close> show ?case
      by (auto simp: e run_reply_runs(2,3) split: prod.splits)
  qed simp
  then show "\<forall>(h, r) \<in> set log. \<not> pend (apply_calls (apply_reply ra) log m) (reply_resp h)
      \<and> outc (apply_calls (apply_reply ra) log m) (reply_resp h) =
          Some (reply_outcome (ra_styled ra) (ra_message ra) (reply_kind h) (dr_reply r) No_error)"
    and "\<forall>x. x \<notin> reply_resp ` fst ` set log \<longrightarrow>
      pend (apply_calls (apply_reply ra) log m) x = pend m x
      \<and> outc (apply_calls (apply_reply ra) log m) x = outc m x" by blast+
qed

text \<open>A whole run: exactly the responses whose handlers were called are completed.\<close>

lemma run_completes:
  assumes sent: "distinct (sent_handlers es)" "length (sent_handlers es) < 2 ^ 64 - 1"
    and able: "\<forall>h \<in> set (sent_handlers es). reply_able pend kinds m h"
    and run: "dispatch_run cd (log_ops ops) record_call t es (new_dispatch, (w, [])) = (x, (d', (w', log)))"
  shows "dispatch_run cd (log_ops ops) (run_reply_handler ra) t es (new_dispatch, (w, m))
      = (x, (d', (w', apply_calls (apply_reply ra) log m)))"
    and "distinct (map fst log)" "fst ` set log \<subseteq> set (sent_handlers es)"
    and "\<forall>(h, r) \<in> set log. reply_able pend kinds m h"
proof -
  have to_come: "to_come (able_beside (reply_able pend kinds)) new_dispatch (w, m) es"
    using sent able by (simp add: to_come_def able_beside_def new_dispatch_def handlers_def find_message_def)
  show "dispatch_run cd (log_ops ops) (run_reply_handler ra) t es (new_dispatch, (w, m))
      = (x, (d', (w', apply_calls (apply_reply ra) log m)))"
    using replies.run_simulates [OF dispatch_inv_new to_come run] by simp
  show "distinct (map fst log)" by (rule calls_at_most_once [OF sent run])
  have "h \<in> set (sent_handlers es)" if "h \<in> fst ` set log" for h
  proof (rule ccontr)
    assume "h \<notin> set (sent_handlers es)"
    then have "uncalled (w', log) h"
      using recorded.dispatch_run_untouched [OF dispatch_inv_new _ to_come_new [OF sent] _ _ run]
      by (simp add: called_once_def uncalled_def handlers_def)
    with that show False by (simp add: uncalled_def)
  qed
  then show sub: "fst ` set log \<subseteq> set (sent_handlers es)" by blast
  show "\<forall>(h, r) \<in> set log. reply_able pend kinds m h" using sub able by fastforce
qed

lemma run_outcomes:
  assumes sent: "distinct (sent_handlers es)" "length (sent_handlers es) < 2 ^ 64 - 1"
    and able: "\<forall>h \<in> set (sent_handlers es). reply_able pend kinds m h"
    and run: "dispatch_run cd (log_ops ops) record_call t es (new_dispatch, (w, [])) = (x, (d', (w', log)))"
  shows "(h, r) \<in> set log \<Longrightarrow> outc (apply_calls (apply_reply ra) log m) (reply_resp h) =
      Some (reply_outcome (ra_styled ra) (ra_message ra) (reply_kind h) (dr_reply r) No_error)"
    and "y \<notin> reply_resp ` fst ` set log \<Longrightarrow> pend (apply_calls (apply_reply ra) log m) y = pend m y
      \<and> outc (apply_calls (apply_reply ra) log m) y = outc m y"
  using apply_replies [OF run_completes(4) [OF assms] run_completes(2) [OF assms]] by auto

end

end
