(* ===== verification/Client_Calls.thy ===== *)
theory Client_Calls
  imports Swarm_Ops Async_Database
begin

text \<open>
  The operations on a database over real swarms and UDP responses: the interpretation of
  \<open>reply_contract\<close>, the synchronous wrappers of \<open>database/database_impl.cpp\<close>, and the
  properties of both.
\<close>

section \<open>UDP responses\<close>

definition udp_api ::
  "(json \<Rightarrow> string) \<Rightarrow> (error_code \<Rightarrow> string) \<Rightarrow> int \<times> int \<times> u16 option
     \<Rightarrow> ('db response_heap, nat, 'db) response_api" where
  "udp_api styled message sys =
     \<lparr>ra_responses = udp_ops, ra_make = make_response sys, ra_styled = styled, ra_message = message\<rparr>"

lemma udp_api_sel [simp]:
  "ra_responses (udp_api styled message sys) = udp_ops"
  "ra_make (udp_api styled message sys) = make_response sys"
  "ra_styled (udp_api styled message sys) = styled"
  "ra_message (udp_api styled message sys) = message"
  by (simp_all add: udp_api_def)

interpretation calls: reply_contract "real_ops cd (real_crypto ossl k) pf" cd "udp_api styled message sys"
    pending content outcome database_of kinds
  for cd :: codec and ossl :: "('pk, 'sk) openssl" and k pf styled message sys kinds
  by (intro reply_contract.intro net.swarm_contract_axioms) (simp add: udp.response_contract_axioms)

lemma able_kinds:
  assumes "distinct (map reply_resp hs)" "\<forall>h \<in> set hs. pending m (reply_resp h)"
  obtains kinds where "\<forall>h \<in> set hs. reply_able pending kinds m h" "distinct hs"
proof -
  have inj: "inj_on reply_resp (set hs)" "distinct hs" using assms(1) by (auto simp: distinct_map)
  have "\<forall>h \<in> set hs. reply_able pending (\<lambda>r. reply_kind (inv_into (set hs) reply_resp r)) m h"
    using assms(2) inj(1) by (simp add: reply_able_def)
  with inj(2) that show thesis by blast
qed

section \<open>Completed responses\<close>

definition sample_responses :: "nat response_heap" where
  "sample_responses = [\<lparr>my_id = 4000, their_id = 0, result_str = [], resp_db = None,
     error_val = 0, deferred_signal = False, prom = None, future_taken = False, datagrams = []\<rparr>]"

lemma sample_responses_pending [simp]: "pending sample_responses 0"
  by (simp add: pending_def sample_responses_def)

text \<open>
  C15. A run with the real closures is the recorded run of the dispatcher: it ends the same way in
  the same state of dispatcher and swarms, the response of every handler that was called is
  completed with the outcome of the answer it was called with, and every other response is as it
  was before.
\<close>

theorem responses_refine_recorded_calls:
  fixes ossl :: "('pk, 'sk) openssl" and m :: "'db response_heap"
  assumes "distinct (map reply_resp (sent_handlers es))" "length (sent_handlers es) < 2 ^ 64 - 1"
    and "\<forall>h \<in> set (sent_handlers es). pending m (reply_resp h)"
    and "dispatch_run cd (log_ops (real_ops cd (real_crypto ossl k) pf)) record_call t es
           (new_dispatch, (W, [])) = (x, (d', (W', log)))"
  shows "\<exists>m'. dispatch_run cd (log_ops (real_ops cd (real_crypto ossl k) pf))
        (run_reply_handler (udp_api styled message sys)) t es (new_dispatch, (W, m)) = (x, (d', (W', m')))
    \<and> (\<forall>(h, r) \<in> set log. outcome m' (reply_resp h) =
         Some (reply_outcome styled message (reply_kind h) (dr_reply r) No_error))
    \<and> (\<forall>y. y \<notin> reply_resp ` fst ` set log \<longrightarrow> pending m' y = pending m y \<and> outcome m' y = outcome m y)"
proof -
  obtain kinds where kinds: "\<forall>h \<in> set (sent_handlers es). reply_able pending kinds m h"
    and dist: "distinct (sent_handlers es)" by (rule able_kinds [OF assms(1,3)])
  note run = dist assms(2) kinds assms(4)
  let ?m = "apply_calls (apply_reply (udp_api styled message sys)) log m"
  have "dispatch_run cd (log_ops (real_ops cd (real_crypto ossl k) pf))
      (run_reply_handler (udp_api styled message sys)) t es (new_dispatch, (W, m)) = (x, (d', (W', ?m)))"
    by (rule calls.run_completes(1) [OF run])
  moreover have "\<forall>(h, r) \<in> set log. outcome ?m (reply_resp h) =
      Some (reply_outcome styled message (reply_kind h) (dr_reply r) No_error)"
    using calls.run_outcomes(1) [OF run, where styled = styled and message = message and sys = sys] by auto
  moreover have "\<forall>y. y \<notin> reply_resp ` fst ` set log \<longrightarrow> pending ?m y = pending m y \<and> outcome ?m y = outcome m y"
    using calls.run_outcomes(2) [OF run] by blast
  ultimately show ?thesis by (intro exI [of _ ?m] conjI)
qed

lemma sample_reply_run:
  "\<exists>d W. dispatch_run sample_cd (log_ops (real_ops sample_cd (real_crypto echo_ossl None)
      sample_pf)) record_call 10 (sample_events (Reply (0 :: nat) Read_reply)) (new_dispatch, (sample_heap, [])) =
      (Inr (), (d, (W, [(Reply 0 Read_reply, sample_response ''v'')])))"
  by (rule sample_run)

lemma sample_reply_sent [simp]:
  "sent_handlers (sample_events (Reply (0 :: nat) Read_reply)) = [Reply 0 Read_reply]"
  by (simp add: sample_events_def)

lemma responses_refine_recorded_calls_witness:
  "\<exists>d m' W. dispatch_run sample_cd (log_ops (real_ops sample_cd (real_crypto echo_ossl None) sample_pf))
        (run_reply_handler (udp_api (\<lambda>_. ''json'') (\<lambda>_. []) (3, 0, Some 4000))) 10
        (sample_events (Reply 0 Read_reply)) (new_dispatch, (sample_heap, sample_responses))
        = (Inr (), (d, (W, m'))) \<and> outcome m' 0 = Some (''json'', 0)"
proof -
  obtain d W where run: "dispatch_run sample_cd (log_ops (real_ops sample_cd (real_crypto echo_ossl None)
      sample_pf)) record_call 10 (sample_events (Reply (0 :: nat) Read_reply)) (new_dispatch, (sample_heap, [])) =
      (Inr (), (d, (W, [(Reply 0 Read_reply, sample_response ''v'')])))"
    using sample_reply_run by blast
  from responses_refine_recorded_calls [OF _ _ _ run, where m = sample_responses and styled = "\<lambda>_. ''json''"
      and message = "\<lambda>_. []" and sys = "(3, 0, Some 4000)"]
  show ?thesis
    by (auto simp: reply_outcome_def reply_error_def sample_response_def)
qed

text \<open>
  C14. End to end, over the dispatcher with the closures of the operations, in every run in
  which the lists of nodes of the swarms stay as they are: let \<open>n\<close> be a number that the policy
  of a request asks for, at most the quorum of its swarm, or for a quick read at most one.
  Then the response made for the request is still pending, or it is completed with the outcome
  of the client timeout or of an answer that at least \<open>n\<close> distinct senders gave.
\<close>

theorem completed_response_has_quorum:
  fixes ossl :: "('pk, 'sk) openssl" and m :: "'db response_heap"
  assumes "distinct (map reply_resp (sent_handlers es))" "length (sent_handlers es) < 2 ^ 64 - 1"
    and "\<forall>h \<in> set (sent_handlers es). pending m (reply_resp h)" "h \<in> set (sent_handlers es)"
    and "\<forall>sw u msg p h'. Send sw u msg p h' \<in> set es \<longrightarrow> h' = h \<longrightarrow> (if p = Fastest then n \<le> 1 else sized W sw n)"
    and "dispatch_run cd (log_ops (real_ops cd (real_crypto ossl k) pf))
        (run_reply_handler (udp_api styled message sys)) t es (new_dispatch, (W, m)) = (x, (d', (W', m')))"
  shows "pending m' (reply_resp h) \<or>
    (\<exists>r. outcome m' (reply_resp h) = Some (reply_outcome styled message (reply_kind h) (dr_reply r) No_error)
       \<and> (r = timeout_response \<or> backed cd {env. Response env \<in> set es} n r))"
proof -
  obtain kinds where kinds: "\<forall>h \<in> set (sent_handlers es). reply_able pending kinds m h"
    and dist: "distinct (sent_handlers es)" by (rule able_kinds [OF assms(1,3)])
  obtain y e' V log where rec: "dispatch_run cd (log_ops (real_ops cd (real_crypto ossl k) pf)) record_call t es
      (new_dispatch, (W, [])) = (y, (e', (V, log)))" by (metis prod.collapse)
  note run = dist assms(2) kinds rec
  let ?m = "apply_calls (apply_reply (udp_api styled message sys)) log m"
  have m': "m' = ?m"
    using calls.run_completes(1) [OF run, where styled = styled and message = message and sys = sys] assms(6) by simp
  show ?thesis
  proof (cases "h \<in> fst ` set log")
    case True
    then obtain r where r: "(h, r) \<in> set log" by auto
    then have "outcome m' (reply_resp h) = Some (reply_outcome styled message (reply_kind h) (dr_reply r) No_error)"
      using calls.run_outcomes(1) [OF run, where styled = styled and message = message and sys = sys, OF r] m' by simp
    moreover have "r = timeout_response \<or> backed cd {env. Response env \<in> set es} n r"
      by (rule net.calls_are_backed [OF dist assms(2,5) rec r])
    ultimately show ?thesis by blast
  next
    case False
    have "reply_resp h \<notin> reply_resp ` fst ` set log"
      using False calls.run_completes(3) [OF run] assms(1,4)
      by (auto simp: distinct_map inj_on_def)
    then have "pending m' (reply_resp h)"
      using calls.run_outcomes(2) [OF run, where styled = styled and message = message and sys = sys] m' assms(3,4) by simp
    then show ?thesis ..
  qed
qed

lemma completed_response_has_quorum_witness:
  "\<exists>d m' W. dispatch_run sample_cd (log_ops (real_ops sample_cd (real_crypto echo_ossl None) sample_pf))
        (run_reply_handler (udp_api (\<lambda>_. ''json'') (\<lambda>_. []) (3, 0, Some 4000))) 10
        (sample_events (Reply (0 :: nat) Read_reply)) (new_dispatch, (sample_heap, sample_responses))
        = (Inr (), (d, (W, m')))
     \<and> (pending m' 0 \<or> (\<exists>r. outcome m' 0 = Some (reply_outcome (\<lambda>_. ''json'') (\<lambda>_. []) Read_reply (dr_reply r) No_error)
       \<and> (r = timeout_response \<or> backed sample_cd {env. Response env \<in> set (sample_events (Reply (0 :: nat) Read_reply))} 1 r)))"
proof -
  obtain d W where run: "dispatch_run sample_cd (log_ops (real_ops sample_cd (real_crypto echo_ossl None)
      sample_pf)) record_call 10 (sample_events (Reply (0 :: nat) Read_reply)) (new_dispatch, (sample_heap, [])) =
      (Inr (), (d, (W, [(Reply 0 Read_reply, sample_response ''v'')])))"
    using sample_reply_run by blast
  have able: "\<forall>h \<in> set (sent_handlers (sample_events (Reply (0 :: nat) Read_reply))).
      reply_able pending (\<lambda>_. Read_reply) sample_responses h"
    by (simp add: reply_able_def)
  obtain m' where real: "dispatch_run sample_cd (log_ops (real_ops sample_cd (real_crypto echo_ossl None) sample_pf))
        (run_reply_handler (udp_api (\<lambda>_. ''json'') (\<lambda>_. []) (3, 0, Some 4000))) 10
        (sample_events (Reply (0 :: nat) Read_reply)) (new_dispatch, (sample_heap, sample_responses))
        = (Inr (), (d, (W, m')))"
    using calls.run_completes(1) [OF _ _ able run] by simp
  have sized: "sized sample_heap 0 1"
    by (simp add: sized_def sample_heap_def node_count_def sample_defs majority_of_def)
  have quorum: "\<forall>sw u msg p h'. Send sw u msg p h' \<in> set (sample_events (Reply (0 :: nat) Read_reply)) \<longrightarrow>
      h' = Reply 0 Read_reply \<longrightarrow> (if p = Fastest then (1 :: nat) \<le> 1 else sized sample_heap sw 1)"
    using sized by (simp add: sample_events_def)
  from completed_response_has_quorum [OF _ _ _ _ quorum real] real show ?thesis by simp
qed

section \<open>Results of particular operations\<close>

text \<open>
  An error answer, the client timeout included, is reported as a database error by every
  operation but one: \<open>quick_read\<close> does not look for it and completes its response as a success,
  with an empty key and an empty value.
\<close>

theorem quick_read_reports_errors_as_success:
  "reply_outcome styled message k (Rsp_error m) No_error =
     (if k = Quick_read_reply
      then (styled (JObject [(''key'', JString []), (''result'', JInt 1), (''value'', JString [])]), 0)
      else (styled (JObject [(''error'', JString m)]), 3))"
  by (cases k) (simp_all add: reply_outcome_def reply_error_def quick_read_json_def ok_json_def error_json_def)

text \<open>
  The documented form of results, and where the code departs from it: \<open>keys\<close> of an empty
  database yields \<open>null\<close> instead of an empty array, the \<open>writers\<close> of a database with none
  likewise, and the result of \<open>has\<close> is a boolean where a number is documented.
\<close>

theorem results_of_empty_lists_are_null:
  "jfield ''keys'' (value_json Keys_reply (Rsp_keys ks)) =
     Some (if ks = [] then JNull else JArray (map JString ks))
   \<and> jfield ''writers'' (value_json Writers_reply (Rsp_writers u ws)) =
     Some (if ws = [] then JNull else JArray (map JString ws))
   \<and> jfield ''result'' (value_json Has_reply (Rsp_has key b)) = Some (JBool b)"
  by (simp add: keys_json_def writers_json_def has_json_def fold_jappend_JNull)

end
