(* ===== verification/Dispatch_Faults.thy ===== *)
theory Dispatch_Faults
  imports Client_Calls
begin

text \<open>
  What \<open>database/db_dispatch.cpp\<close> does after a handler has thrown: \<open>handle_swarm_response\<close> erases a
  request behind the call of its handler, so an exception of the handler leaves the request, with
  the responses collected for it, in the table.
\<close>

lemma agreeing_equal: "responses_are_equal cd r r' \<Longrightarrow> agreeing cd rs r = agreeing cd rs r'"
  by (auto simp: agreeing_def responses_are_equal_def)

lemma accepting_response:
  assumes "msg_wf info" "find_message d nonce = Some info" "answers cd nonce r env"
    and "unat (mi_responses_required info) \<le> card (insert (env_sender env) (agreeing cd (mi_responses info) r))"
  shows "handle_swarm_response cd run_handler env (d, w) =
    andthen (run_handler (mi_handler info) r No_error) (andthen (on_fst (modify (erase_message nonce))) (ret False))
      (set_message nonce (add_response (env_sender env) r info) d, w)"
  using qualify_add_response [OF assms(1), of cd "env_sender env" r] assms(4)
  by (simp add: handle_answer [OF assms(2,3)] collect_def agreeing_put andthen_apply)

text \<open>A second equal response from another sender, when the request is still there.\<close>

lemma second_response:
  assumes "msg_wf info" "answers cd nonce r' env'" "s \<noteq> env_sender env'" "responses_are_equal cd r r'"
    and "find_message d nonce = Some (add_response s r info)"
    and "unat (mi_responses_required info) \<le> card (insert s (agreeing cd (mi_responses info) r))"
    and "mi_responses_required info \<noteq> 1"
  shows "handle_swarm_response cd run_handler env' (d, w) =
    andthen (run_handler (mi_handler info) r' No_error) (andthen (on_fst (modify (erase_message nonce))) (ret False))
      (set_message nonce (add_response (env_sender env') r' (add_response s r info)) d, w)"
proof -
  have "agreeing cd (om_put s r (mi_responses info)) r' = insert s (agreeing cd (mi_responses info) r)"
    using agreeing_equal [OF assms(4)] by (simp add: agreeing_put flip: agreeing_equal [OF assms(4)])
  moreover have "card (insert s (agreeing cd (mi_responses info) r))
      \<le> card (insert (env_sender env') (insert s (agreeing cd (mi_responses info) r)))"
    by (rule card_mono) auto
  ultimately have "unat (mi_responses_required (add_response s r info))
      \<le> card (insert (env_sender env') (agreeing cd (mi_responses (add_response s r info)) r'))"
    using assms(6) by simp
  from accepting_response [OF msg_wf_add_response [OF assms(1,7)] assms(5,2) this] show ?thesis by simp
qed

lemma second_single_response:
  assumes "msg_wf info" "answers cd nonce r' env'" "s \<noteq> env_sender env'"
    and "find_message d nonce = Some (add_response s r info)" "mi_responses_required info = 1"
  shows "handle_swarm_response cd run_handler env' (d, w) =
    (Inl Assert_fails, (set_message nonce (add_response (env_sender env') r' (add_response s r info)) d, w))"
proof -
  have "mi_responses info = []" using assms(1,5) by (simp add: msg_wf_def)
  then have "qualify_response cd (add_response (env_sender env') r' (add_response s r info)) (env_sender env') = Inl Assert_fails"
    using assms(3,5) by (simp add: qualify_response_def Let_def)
  then show ?thesis by (simp add: handle_answer [OF assms(4,2)] collect_def andthen_apply)
qed

text \<open>
  A handler that throws is called again, or the process ends.  When the handler of a request
  throws on the response that completes the quorum, the request stays outstanding: the next equal
  response from another sender runs the same handler once more, and if one response was enough for
  the request, it makes the assertion on the number of responses fail.
\<close>

lemma throwing_handler_keeps_request:
  assumes "msg_wf info" "find_message d nonce = Some info"
    and "answers cd nonce r env" "answers cd nonce r' env'"
    and "env_sender env \<noteq> env_sender env'" "responses_are_equal cd r r'"
    and "unat (mi_responses_required info) \<le> card (insert (env_sender env) (agreeing cd (mi_responses info) r))"
    and "run_handler (mi_handler info) r No_error
      (set_message nonce (add_response (env_sender env) r info) d, w) = (Inl f, (d1, w1))"
    and "find_message d1 nonce = Some (add_response (env_sender env) r info)"
  shows "handle_swarm_response cd run_handler env (d, w) = (Inl f, (d1, w1))
    \<and> (\<exists>d2. handle_swarm_response cd run_handler env' (d1, w2) =
          (if mi_responses_required info = 1 then (Inl Assert_fails, (d2, w2))
           else andthen (run_handler (mi_handler info) r' No_error)
                  (andthen (on_fst (modify (erase_message nonce))) (ret False)) (d2, w2)))"
proof
  show "handle_swarm_response cd run_handler env (d, w) = (Inl f, (d1, w1))"
    by (subst accepting_response [OF assms(1-3,7)]) (simp add: assms(8) andthen_apply)
  show "\<exists>d2. handle_swarm_response cd run_handler env' (d1, w2) =
          (if mi_responses_required info = 1 then (Inl Assert_fails, (d2, w2))
           else andthen (run_handler (mi_handler info) r' No_error)
                  (andthen (on_fst (modify (erase_message nonce))) (ret False)) (d2, w2))"
    by (cases "mi_responses_required info = 1")
      (simp_all add: second_single_response [OF assms(1,4,5,9)] second_response [OF assms(1,4,5,6,9,7)] exI)
qed

text \<open>A request of a synchronous call whose response is complete already.\<close>

definition single_request :: "(nat, nat reply_handler) msg_info" where
  "single_request = \<lparr>mi_swarm = 0, mi_request = empty_envelope, mi_policy = Normal, mi_responses_required = 1,
     mi_retry_timer = Some (Armed 1500), mi_timeout_timer = Some (Armed 10000), mi_responses = [],
     mi_handler = Reply 0 Basic_reply\<rparr>"

definition completed_responses :: "nat response_heap" where
  "completed_responses = [(hd sample_responses)\<lparr>prom := Some 0\<rparr>]"

lemma throwing_handler_keeps_request_witness:
  "\<exists>d1 d2 w1. handle_swarm_response sample_cd (run_reply_handler (udp_api (\<lambda>_. ''json'') (\<lambda>_. []) (3, 0, Some 4000)))
      (sample_answer ''a'') (set_message 1 single_request new_dispatch, (sample_heap, completed_responses)) =
      (Inl (Throws ''promise_already_satisfied''), (d1, w1))
    \<and> handle_swarm_response sample_cd (run_reply_handler (udp_api (\<lambda>_. ''json'') (\<lambda>_. []) (3, 0, Some 4000)))
      (sample_answer ''b'') (d1, w1) = (Inl Assert_fails, (d2, w1))"
proof -
  let ?run = "run_reply_handler (udp_api (\<lambda>_. ''json'') (\<lambda>_. []) (3, 0, Some 4000))"
  let ?d = "set_message 1 single_request new_dispatch"
  let ?d1 = "set_message 1 (add_response ''a'' (sample_response ''v'') single_request) ?d"
  have wf: "msg_wf single_request" by (simp add: msg_wf_def single_request_def)
  have find: "find_message ?d 1 = Some single_request" by simp
  have ans: "answers sample_cd 1 (sample_response ''v'') (sample_answer u)" for u
    by (simp add: answers_def sample_answer_def sample_response_def empty_header_def)
  obtain w1 where run: "?run (mi_handler single_request) (sample_response ''v'') No_error
      (set_message 1 (add_response (env_sender (sample_answer ''a'')) (sample_response ''v'') single_request) ?d,
       (sample_heap, completed_responses)) = (Inl (Throws ''promise_already_satisfied''), (?d1, w1))"
    by (simp add: run_reply_handler_def single_request_def sample_response_def sample_answer_def
        translate_swarm_response_def reply_with_def mr_set_ready_def andthen_apply udp_ops_def
        on_response_def completed_responses_def sample_responses_def response_defs sbind_apply)
  have "handle_swarm_response sample_cd ?run (sample_answer ''a'') (?d, (sample_heap, completed_responses)) =
      (Inl (Throws ''promise_already_satisfied''), (?d1, w1))
    \<and> (\<exists>d2. handle_swarm_response sample_cd ?run (sample_answer ''b'') (?d1, w1) =
          (if mi_responses_required single_request = 1 then (Inl Assert_fails, (d2, w1))
           else andthen (?run (mi_handler single_request) (sample_response ''v'') No_error)
                  (andthen (on_fst (modify (erase_message 1))) (ret False)) (d2, w1)))"
    by (rule throwing_handler_keeps_request [where run_handler = ?run and nonce = 1, OF wf find ans ans _ _ _ run])
      (auto simp: sample_answer_def single_request_def responses_are_equal_def agreeing_def)
  then show ?thesis by (auto simp: single_request_def)
qed

end
