(* ===== verification/Node.thy ===== *)
theory Node
  imports Effects
begin

text \<open>
  \<open>node/node.cpp\<close>: the connection to one node of a swarm.  All work runs on a strand, so the
  object is a sequential machine driven by the completion of the asynchronous operations it
  has started.  The record \<open>node\<close> holds its member variables and, beside them, the operations
  that are outstanding at Boost.Asio and Boost.Beast and a log of what was queued, written and
  called back.  A step completes one outstanding operation with an outcome chosen by the
  network.
\<close>

section \<open>State\<close>

datatype connect_state = Disconnected | Connecting | Connected | Disconnecting

text \<open>
  Outstanding operations.  A websocket stream is a number; operations on a stream name it.
  \<open>Post\<close> is the closure that \<open>send_message\<close> posts to the strand.
\<close>

datatype 'c async =
    Post string 'c
  | Async_connect
  | Async_handshake nat
  | Async_write nat string 'c
  | Backoff_wait u64
  | Async_read nat
  | Async_close nat

record 'c node =
  nd_state :: connect_state
  nd_websocket :: "nat option"
  nd_next_websocket :: nat
  nd_backoff_time :: u64
  nd_send_queue :: "(string \<times> 'c) list"
  nd_pending :: "'c async list"
  nd_accepted :: "(string \<times> 'c) list"
  nd_written :: "string list"
  nd_called :: "('c \<times> error_code) list"

definition new_node :: "'c node" where
  "new_node = \<lparr>nd_state = Disconnected, nd_websocket = None, nd_next_websocket = 0,
     nd_backoff_time = 0, nd_send_queue = [], nd_pending = [], nd_accepted = [],
     nd_written = [], nd_called = []\<rparr>"

type_synonym ('c, 'a) node_prog = "('c node, 'a) prog"

definition start :: "'c async \<Rightarrow> ('c, unit) node_prog" where
  "start op = modify (\<lambda>n. n\<lparr>nd_pending := nd_pending n @ [op]\<rparr>)"

definition set_state :: "connect_state \<Rightarrow> ('c, unit) node_prog" where
  "set_state st = modify (\<lambda>n. n\<lparr>nd_state := st\<rparr>)"

definition assert_that :: "('s \<Rightarrow> bool) \<Rightarrow> ('s, unit) prog" where
  "assert_that P = sbind (gets P) (\<lambda>ok. if ok then ret () else raise Assert_fails)"

section \<open>Operations\<close>

definition MAX_BACKOFF_TIME :: u64 where "MAX_BACKOFF_TIME = 1024"

definition next_backoff :: "bool \<Rightarrow> u64 \<Rightarrow> u64" where
  "next_backoff busy t =
     (if busy then min (if t \<noteq> 0 then 2 * t else 1) MAX_BACKOFF_TIME
      else if 1 < t then t div 2 else 0)"

definition back_off :: "bool \<Rightarrow> ('c, unit) node_prog" where
  "back_off busy = modify (\<lambda>n. n\<lparr>nd_backoff_time := next_backoff busy (nd_backoff_time n)\<rparr>)"

definition send_message :: "string \<Rightarrow> 'c \<Rightarrow> ('c, unit) node_prog" where
  "send_message msg callback = start (Post msg callback)"

definition connect :: "('c, unit) node_prog" where
  "connect =
     andthen (assert_that (\<lambda>n. nd_state n \<noteq> Connecting))
     (andthen (assert_that (\<lambda>n. nd_state n \<noteq> Connected))
     (andthen (set_state Connecting) (start Async_connect)))"

definition queue_send :: "string \<Rightarrow> 'c \<Rightarrow> ('c, unit) node_prog" where
  "queue_send msg callback = modify (\<lambda>n. n\<lparr>nd_send_queue := nd_send_queue n @ [(msg, callback)],
     nd_accepted := nd_accepted n @ [(msg, callback)]\<rparr>)"

definition do_send :: "('c, unit) node_prog" where
  "do_send = sbind (gets id) (\<lambda>n.
     case nd_send_queue n of
       [] \<Rightarrow> raise Undefined
     | (msg, callback) # _ \<Rightarrow>
         (case nd_websocket n of
            None \<Rightarrow> raise Undefined
          | Some ws \<Rightarrow>
              andthen (modify (\<lambda>n. n\<lparr>nd_written := nd_written n @ [msg]\<rparr>))
                (start (Async_write ws msg callback))))"

definition schedule_send :: "('c, unit) node_prog" where
  "schedule_send = sbind (gets nd_backoff_time) (\<lambda>t.
     if t \<noteq> 0 then start (Backoff_wait t)
     else andthen (assert_that (\<lambda>n. nd_send_queue n \<noteq> [])) do_send)"

definition receive :: "('c, unit) node_prog" where
  "receive = sbind (gets nd_websocket) (\<lambda>w.
     case w of None \<Rightarrow> raise Undefined | Some ws \<Rightarrow> start (Async_read ws))"

text \<open>\<open>is_open\<close>: what the current websocket reports.\<close>

definition close :: "bool \<Rightarrow> ('c, unit) node_prog" where
  "close is_open = sbind (gets id) (\<lambda>n.
     case nd_websocket n of
       None \<Rightarrow> set_state Disconnected
     | Some ws \<Rightarrow>
         if is_open
         then (if nd_state n \<noteq> Disconnecting
               then andthen (set_state Disconnecting) (start (Async_close ws))
               else ret ())
         else set_state Disconnected)"

section \<open>Completion handlers\<close>

definition handle_post :: "string \<Rightarrow> 'c \<Rightarrow> ('c, unit) node_prog" where
  "handle_post msg callback =
     andthen (queue_send msg callback)
     (sbind (gets id) (\<lambda>n.
       if nd_state n = Connected
       then (if length (nd_send_queue n) = 1 then schedule_send else ret ())
       else (if nd_state n \<noteq> Connecting then connect else ret ())))"

definition handle_connect :: "error_code \<Rightarrow> ('c, unit) node_prog" where
  "handle_connect ec =
     (if is_err ec then set_state Disconnected
      else sbind (gets nd_next_websocket) (\<lambda>ws.
        andthen (modify (\<lambda>n. n\<lparr>nd_websocket := Some ws, nd_next_websocket := Suc ws\<rparr>))
          (start (Async_handshake ws))))"

definition handle_handshake :: "error_code \<Rightarrow> ('c, unit) node_prog" where
  "handle_handshake ec =
     catch_all
       (if is_err ec then set_state Disconnected
        else andthen (set_state Connected)
          (andthen (sbind (gets nd_send_queue) (\<lambda>q. if q \<noteq> [] then schedule_send else ret ()))
             receive))
       (ret ())"

definition is_reconnect :: "error_code \<Rightarrow> bool" where
  "is_reconnect ec \<longleftrightarrow> ec = Ws_closed \<or> ec = Eof \<or> ec = Operation_aborted"

definition handle_write :: "'c \<Rightarrow> error_code \<Rightarrow> ('c, unit) node_prog" where
  "handle_write callback ec =
     (if is_reconnect ec then andthen (set_state Disconnected) connect
      else
        sbind (gets nd_send_queue) (\<lambda>q.
          if q = [] then raise Undefined
          else andthen (modify (\<lambda>n. n\<lparr>nd_send_queue := tl q\<rparr>))
            (andthen (if tl q \<noteq> [] then schedule_send else ret ())
              (modify (\<lambda>n. n\<lparr>nd_called := nd_called n @ [(callback, ec)]\<rparr>)))))"

text \<open>
  The lambda around this handler looks at the error code only and then uses the locked pointer to the
  node, which is null if the node is gone; in this machine the node is alive.
\<close>

definition handle_backoff :: "error_code \<Rightarrow> ('c, unit) node_prog" where
  "handle_backoff ec =
     (if is_err ec then ret ()
      else andthen (assert_that (\<lambda>n. nd_send_queue n \<noteq> [])) do_send)"

text \<open>\<open>verdict\<close>: what the message handler returns or throws.\<close>

definition handle_read :: "error_code \<Rightarrow> bool \<Rightarrow> bool cxx \<Rightarrow> ('c, unit) node_prog" where
  "handle_read ec is_open verdict =
     catch_all
       (if is_err ec then close is_open
        else sbind (lift_cxx verdict) (\<lambda>stop. if stop then close is_open else receive))
       (ret ())"

definition handle_close :: "('c, unit) node_prog" where
  "handle_close = set_state Disconnected"

section \<open>The machine\<close>

text \<open>
  What happens next: a message is sent, the owner adjusts the speed, or the outstanding
  operation at a position completes with an error code; for a read also what the websocket
  reports and what the message handler does.
\<close>

datatype 'c node_event =
    Ev_send string 'c
  | Ev_back_off bool
  | Ev_complete nat error_code bool "bool cxx"

fun complete :: "'c async \<Rightarrow> error_code \<Rightarrow> bool \<Rightarrow> bool cxx \<Rightarrow> ('c, unit) node_prog" where
  "complete (Post msg callback) ec is_open verdict = handle_post msg callback"
| "complete Async_connect ec is_open verdict = handle_connect ec"
| "complete (Async_handshake ws) ec is_open verdict = handle_handshake ec"
| "complete (Async_write ws msg callback) ec is_open verdict = handle_write callback ec"
| "complete (Backoff_wait t) ec is_open verdict = handle_backoff ec"
| "complete (Async_read ws) ec is_open verdict = handle_read ec is_open verdict"
| "complete (Async_close ws) ec is_open verdict = handle_close"

fun node_step :: "'c node_event \<Rightarrow> ('c, unit) node_prog" where
  "node_step (Ev_send msg callback) = send_message msg callback"
| "node_step (Ev_back_off busy) = back_off busy"
| "node_step (Ev_complete k ec is_open verdict) =
     sbind (gets nd_pending) (\<lambda>ops.
       if k < length ops
       then andthen (modify (\<lambda>n. n\<lparr>nd_pending := remove_at k ops\<rparr>))
              (complete (ops ! k) ec is_open verdict)
       else ret ())"

definition node_run :: "'c node_event list \<Rightarrow> ('c, unit) node_prog" where
  "node_run events = for_each events node_step"

inductive reachable :: "('c node_event \<Rightarrow> 'c node \<Rightarrow> bool) \<Rightarrow> 'c node \<Rightarrow> bool"
  for env :: "'c node_event \<Rightarrow> 'c node \<Rightarrow> bool" where
  initial: "reachable env new_node"
| step: "reachable env n \<Longrightarrow> env ev n \<Longrightarrow> node_step ev n = (x, n') \<Longrightarrow> reachable env n'"

inductive_cases reachableE: "reachable env n"

section \<open>Speed\<close>

definition backoff_times :: "u64 set" where
  "backoff_times = {0, 1, 2, 4, 8, 16, 32, 64, 128, 256, 512, 1024}"

lemma next_backoff_times: "t \<in> backoff_times \<Longrightarrow> next_backoff busy t \<in> backoff_times"
  by (cases busy) (auto simp: backoff_times_def next_backoff_def MAX_BACKOFF_TIME_def min_def)

section \<open>An undisturbed connection\<close>

text \<open>
  The operations that move messages.  While nothing disturbs the connection at most one of them
  is outstanding.
\<close>

fun moves :: "'c async \<Rightarrow> bool" where
  "moves (Post _ _) = False"
| "moves (Async_read _) = False"
| "moves (Async_close _) = False"
| "moves _ = True"

definition link :: "'c node \<Rightarrow> 'c async list" where
  "link n = filter moves (nd_pending n)"

definition writing :: "'c async list \<Rightarrow> nat" where
  "writing ops = (case ops of [Async_write ws msg c] \<Rightarrow> 1 | _ \<Rightarrow> 0)"

definition link_ok :: "'c node \<Rightarrow> bool" where
  "link_ok n \<longleftrightarrow>
     (case nd_state n of
        Disconnected \<Rightarrow> link n = []
      | Connecting \<Rightarrow> link n = [Async_connect]
          \<or> (\<exists>ws. nd_websocket n = Some ws \<and> link n = [Async_handshake ws])
      | Connected \<Rightarrow> nd_websocket n \<noteq> None \<and>
          (link n = []
           \<or> (\<exists>t. link n = [Backoff_wait t]) \<and> nd_send_queue n \<noteq> []
           \<or> (\<exists>ws msg c q. link n = [Async_write ws msg c] \<and> nd_send_queue n = (msg, c) # q))
      | Disconnecting \<Rightarrow> False)"

definition log_ok :: "'c node \<Rightarrow> bool" where
  "log_ok n \<longleftrightarrow> (\<exists>sent. nd_accepted n = sent @ nd_send_queue n
     \<and> map fst (nd_called n) = map snd sent
     \<and> nd_written n = map fst sent @ map fst (take (writing (link n)) (nd_send_queue n)))"

definition node_ok :: "'c node \<Rightarrow> bool" where
  "node_ok n \<longleftrightarrow> link_ok n \<and> log_ok n
     \<and> (\<forall>ws. Async_close ws \<notin> set (nd_pending n))
     \<and> (\<forall>ws. Async_read ws \<in> set (nd_pending n) \<longrightarrow> nd_websocket n \<noteq> None)"

text \<open>
  Nothing disturbs the connection: reads succeed and the message handler does not ask to close
  (it may throw), and no write reports that the stream is gone.  Connecting and the handshake
  may fail, and writes may fail otherwise.
\<close>

fun calm :: "'c node_event \<Rightarrow> 'c node \<Rightarrow> bool" where
  "calm (Ev_complete k ec is_open verdict) n \<longleftrightarrow>
     (k < length (nd_pending n) \<longrightarrow>
       (case nd_pending n ! k of
          Async_write _ _ _ \<Rightarrow> \<not> is_reconnect ec
        | Async_read _ \<Rightarrow> \<not> is_err ec \<and> (verdict = Inr False \<or> (\<exists>e. verdict = Inl (Throws e)))
        | _ \<Rightarrow> True))"
| "calm _ n \<longleftrightarrow> True"

lemmas node_defs = start_def set_state_def assert_that_def connect_def queue_send_def do_send_def
  schedule_send_def receive_def close_def handle_post_def handle_connect_def handle_handshake_def
  handle_write_def handle_backoff_def handle_read_def handle_close_def send_message_def back_off_def

abbreviation stays_ok :: "('c, unit) node_prog \<Rightarrow> 'c node \<Rightarrow> bool" where
  "stays_ok p n \<equiv> wp p (\<lambda>_. node_ok) (\<lambda>_ _. False) n"

text \<open>Each handler, run after its operation has been taken off the outstanding ones.\<close>

lemma post_stays_ok: "node_ok n \<Longrightarrow> stays_ok (handle_post msg c) n"
  by (cases "nd_state n")
    (auto simp: node_defs wp_simps node_ok_def link_ok_def log_ok_def link_def writing_def
      split: list.splits prod.splits option.splits)

lemma read_stays_ok:
  assumes "node_ok n" "nd_websocket n \<noteq> None" "\<not> is_err ec"
    and "verdict = Inr False \<or> (\<exists>e. verdict = Inl (Throws e))"
  shows "stays_ok (handle_read ec is_open verdict) n"
  using assms
  by (cases "nd_state n")
    (auto simp: node_defs wp_simps node_ok_def link_ok_def log_ok_def link_def)

lemma connect_stays_ok:
  assumes "nd_state n = Connecting" "link n = []" "log_ok n"
    and "\<forall>ws. Async_close ws \<notin> set (nd_pending n)"
    and "\<forall>ws. Async_read ws \<in> set (nd_pending n) \<longrightarrow> nd_websocket n \<noteq> None"
  shows "stays_ok (handle_connect ec) n"
  using assms
  by (auto simp: node_defs wp_simps node_ok_def link_ok_def log_ok_def link_def writing_def)

lemma handshake_stays_ok:
  assumes "nd_state n = Connecting" "link n = []" "log_ok n" "nd_websocket n = Some ws"
    and "\<forall>ws. Async_close ws \<notin> set (nd_pending n)"
  shows "stays_ok (handle_handshake ec) n"
  using assms
  by (auto simp: node_defs wp_simps node_ok_def link_ok_def log_ok_def link_def writing_def
      split: list.splits prod.splits option.splits)

lemma backoff_stays_ok:
  assumes "nd_state n = Connected" "link n = []" "log_ok n" "nd_websocket n \<noteq> None"
    and "nd_send_queue n \<noteq> []" "\<forall>ws. Async_close ws \<notin> set (nd_pending n)"
  shows "stays_ok (handle_backoff ec) n"
  using assms
  by (auto simp: node_defs wp_simps node_ok_def link_ok_def log_ok_def link_def writing_def
      split: list.splits prod.splits option.splits)

lemma write_stays_ok:
  assumes "nd_state n = Connected" "link n = []" "nd_websocket n \<noteq> None"
    and "nd_send_queue n = (msg, c) # q" "\<not> is_reconnect ec"
    and "nd_accepted n = sent @ nd_send_queue n" "map fst (nd_called n) = map snd sent"
    and "nd_written n = map fst sent @ [msg]"
    and "\<forall>ws. Async_close ws \<notin> set (nd_pending n)"
  shows "stays_ok (handle_write c ec) n"
proof (cases q)
  case Nil
  with assms show ?thesis
    by (auto simp: node_defs wp_simps node_ok_def link_ok_def log_ok_def link_def writing_def
        intro!: exI [of _ "sent @ [(msg, c)]"])
next
  case (Cons e q')
  obtain m2 c2 where e: "e = (m2, c2)" by fastforce
  with assms Cons show ?thesis
    by (auto simp: node_defs wp_simps node_ok_def link_ok_def log_ok_def link_def writing_def
        intro!: exI [of _ "sent @ [(msg, c)]"])
qed

text \<open>What is left of the outstanding operations when one that moves messages completes.\<close>

lemma link_completes:
  assumes "node_ok n" "k < length (nd_pending n)" "moves (nd_pending n ! k)"
  shows "link n = [nd_pending n ! k]" "filter moves (remove_at k (nd_pending n)) = []"
proof -
  have "nd_pending n ! k \<in> set (link n)" using assms(2,3) by (simp add: link_def)
  then have "filter moves (nd_pending n) \<noteq> []" by (auto simp: link_def filter_empty_conv)
  with assms(1) obtain op where one: "filter moves (nd_pending n) = [op]"
    by (cases "nd_state n") (auto simp: node_ok_def link_ok_def link_def)
  from filter_remove_at_only [OF assms(2,3) one] one
  show "link n = [nd_pending n ! k]" "filter moves (remove_at k (nd_pending n)) = []"
    by (simp_all add: link_def)
qed

lemma node_ok_remove:
  assumes "node_ok n" "k < length (nd_pending n)" "\<not> moves (nd_pending n ! k)"
  shows "node_ok (n\<lparr>nd_pending := remove_at k (nd_pending n)\<rparr>)"
  using assms set_remove_at [of k "nd_pending n"] filter_remove_at [OF assms(2), of moves]
  by (cases "nd_state n") (auto simp: node_ok_def link_ok_def log_ok_def link_def)

lemma complete_stays_ok:
  assumes ok: "node_ok n" and k: "k < length (nd_pending n)"
    and calm: "calm (Ev_complete k ec is_open verdict) n"
  shows "stays_ok (complete (nd_pending n ! k) ec is_open verdict)
    (n\<lparr>nd_pending := remove_at k (nd_pending n)\<rparr>)"
proof -
  let ?n = "n\<lparr>nd_pending := remove_at k (nd_pending n)\<rparr>"
  have clean: "\<forall>ws. Async_close ws \<notin> set (nd_pending ?n)"
    "\<forall>ws. Async_read ws \<in> set (nd_pending ?n) \<longrightarrow> nd_websocket ?n \<noteq> None"
    using ok set_remove_at [of k "nd_pending n"] by (auto simp: node_ok_def)
  have member: "nd_pending n ! k \<in> set (nd_pending n)" using k by simp
  show ?thesis
  proof (cases "moves (nd_pending n ! k)")
    case False
    note ok1 = node_ok_remove [OF ok k False]
    show ?thesis
    proof (cases "nd_pending n ! k")
      case (Post msg c)
      with post_stays_ok [OF ok1] show ?thesis by simp
    next
      case (Async_read ws)
      with calm k have "\<not> is_err ec" "verdict = Inr False \<or> (\<exists>e. verdict = Inl (Throws e))" by auto
      moreover have "nd_websocket ?n \<noteq> None" using ok member Async_read by (auto simp: node_ok_def)
      ultimately show ?thesis using read_stays_ok [OF ok1] Async_read by simp
    next
      case (Async_close ws)
      with ok member show ?thesis by (auto simp: node_ok_def)
    qed (use False in simp_all)
  next
    case True
    note link = link_completes [OF ok k True]
    have gap: "link ?n = []" using link(2) by (simp add: link_def)
    show ?thesis
    proof (cases "nd_pending n ! k")
      case Async_connect
      then have "nd_state ?n = Connecting" "log_ok ?n"
        using ok link by (auto simp: node_ok_def link_ok_def log_ok_def writing_def gap split: connect_state.splits)
      with connect_stays_ok [OF _ gap _ clean] Async_connect show ?thesis by simp
    next
      case (Async_handshake ws)
      then have "nd_state ?n = Connecting" "log_ok ?n" "nd_websocket ?n = Some ws"
        using ok link by (auto simp: node_ok_def link_ok_def log_ok_def writing_def gap split: connect_state.splits)
      with handshake_stays_ok [OF _ gap _ _ clean(1)] Async_handshake show ?thesis by simp
    next
      case (Backoff_wait t)
      then have "nd_state ?n = Connected" "log_ok ?n" "nd_websocket ?n \<noteq> None" "nd_send_queue ?n \<noteq> []"
        using ok link by (auto simp: node_ok_def link_ok_def log_ok_def writing_def gap split: connect_state.splits)
      with backoff_stays_ok [OF _ gap _ _ _ clean(1)] Backoff_wait show ?thesis by simp
    next
      case (Async_write ws msg c)
      then obtain q where st: "nd_state ?n = Connected" "nd_websocket ?n \<noteq> None"
        "nd_send_queue ?n = (msg, c) # q"
        using ok link by (auto simp: node_ok_def link_ok_def split: connect_state.splits)
      obtain sent where "nd_accepted ?n = sent @ nd_send_queue ?n" "map fst (nd_called ?n) = map snd sent"
        "nd_written ?n = map fst sent @ [msg]"
        using ok link Async_write st(3) by (auto simp: node_ok_def log_ok_def writing_def)
      moreover have "\<not> is_reconnect ec" using calm k Async_write by simp
      ultimately show ?thesis
        using write_stays_ok [OF st(1) gap st(2,3) _ _ _ _ clean(1)] Async_write by simp
    qed (use True in simp_all)
  qed
qed

lemma step_stays_ok:
  assumes "node_ok n" "calm ev n"
  shows "stays_ok (node_step ev) n"
proof (cases ev)
  case (Ev_send msg c)
  with assms show ?thesis
    by (cases "nd_state n") (auto simp: node_defs wp_simps node_ok_def link_ok_def log_ok_def link_def)
next
  case (Ev_back_off busy)
  with assms show ?thesis
    by (cases "nd_state n") (auto simp: node_defs wp_simps node_ok_def link_ok_def log_ok_def link_def)
next
  case (Ev_complete k ec is_open verdict)
  with assms complete_stays_ok [OF assms(1), of k ec is_open verdict] show ?thesis
    by (auto simp: wp_simps)
qed

lemma new_node_ok: "node_ok new_node"
  by (simp add: node_ok_def link_ok_def log_ok_def link_def new_node_def writing_def)

lemma calm_reachable_ok: "reachable calm n \<Longrightarrow> node_ok n"
proof (induction rule: reachable.induct)
  case (step n ev x n')
  from wpD [OF step_stays_ok [OF step.IH step.hyps(2)] step.hyps(3)] show ?case
    by (cases x) auto
qed (rule new_node_ok)

section \<open>Properties of a connection\<close>

text \<open>
  C24. While nothing disturbs the connection (reads succeed, the message handler does not ask to
  close, no write reports a closed stream; connecting, handshakes and writes may fail in other
  ways) the messages are written in the order they were queued, each at most once and none
  skipped, the callbacks run in that order, one per message, and no assertion fails and nothing
  undefined happens in the next step.
\<close>

theorem calm_node_sends_in_order:
  assumes "reachable calm n"
  shows "(\<exists>sent. nd_accepted n = sent @ nd_send_queue n \<and> map fst (nd_called n) = map snd sent
      \<and> (nd_written n = map fst sent
         \<or> (\<exists>m c q. nd_send_queue n = (m, c) # q \<and> nd_written n = map fst sent @ [m])))
    \<and> (\<forall>ev. calm ev n \<longrightarrow> (\<exists>n'. node_step ev n = (Inr (), n')))"
proof (intro conjI allI impI)
  have ok: "node_ok n" using assms by (rule calm_reachable_ok)
  then obtain sent where s: "nd_accepted n = sent @ nd_send_queue n" "map fst (nd_called n) = map snd sent"
    "nd_written n = map fst sent @ map fst (take (writing (link n)) (nd_send_queue n))"
    by (auto simp: node_ok_def log_ok_def)
  have "writing (link n) \<le> 1" by (auto simp: writing_def split: list.splits async.splits)
  then have "writing (link n) = 0 \<or> writing (link n) = 1" by linarith
  then have "nd_written n = map fst sent
      \<or> (\<exists>m c q. nd_send_queue n = (m, c) # q \<and> nd_written n = map fst sent @ [m])"
    using s(3) by (cases "nd_send_queue n") auto
  with s(1,2) show "\<exists>sent. nd_accepted n = sent @ nd_send_queue n \<and> map fst (nd_called n) = map snd sent
      \<and> (nd_written n = map fst sent
         \<or> (\<exists>m c q. nd_send_queue n = (m, c) # q \<and> nd_written n = map fst sent @ [m]))"
    by blast
next
  fix ev assume "calm ev n"
  from step_stays_ok [OF calm_reachable_ok [OF assms] this]
  show "\<exists>n'. node_step ev n = (Inr (), n')"
    by (cases "node_step ev n") (auto simp: wp_def split: sum.splits)
qed

lemma calm_node_sends_in_order_witness:
  "\<exists>n'. node_step (Ev_complete 0 Eof True (Inr False)) (new_node\<lparr>nd_pending := [Post ''m'' (7 :: nat)]\<rparr>) = (Inr (), n')"
proof -
  have "reachable calm (new_node\<lparr>nd_pending := [Post ''m'' (7 :: nat)]\<rparr>)"
    by (rule reachable.step [OF reachable.initial, of _ "Ev_send ''m'' 7" "Inr ()"])
      (simp_all add: send_message_def start_def new_node_def)
  from calm_node_sends_in_order [OF this, THEN conjunct2, rule_format,
      of "Ev_complete 0 Eof True (Inr False)"]
  show ?thesis by (simp del: node_step.simps)
qed

text \<open>
  Whatever happens, the pause between messages is zero or a power of two up to 1024
  milliseconds; a busy signal doubles it up to that bound, any other message halves it.
\<close>

lemma backoff_is_bounded:
  assumes "reachable (\<lambda>ev n. True) n"
  shows "nd_backoff_time n \<in> backoff_times
    \<and> unat (next_backoff True (nd_backoff_time n)) = min 1024 (max 1 (2 * unat (nd_backoff_time n)))
    \<and> unat (next_backoff False (nd_backoff_time n)) = unat (nd_backoff_time n) div 2"
proof -
  have keep: "nd_backoff_time n' = nd_backoff_time n" if "complete op ec is_open verdict n = (x, n')"
    for op :: "'a async" and ec is_open verdict n x n'
  proof -
    have "wp (complete op ec is_open verdict) (\<lambda>_ n'. nd_backoff_time n' = nd_backoff_time n)
        (\<lambda>_ n'. nd_backoff_time n' = nd_backoff_time n) n"
      by (cases op)
        (auto simp: node_defs wp_simps split: option.splits list.splits sum.splits cxx_fault.splits)
    from wpD [OF this that] show ?thesis by (cases x) auto
  qed
  have "nd_backoff_time n \<in> backoff_times"
    using assms
  proof (induction rule: reachable.induct)
    case initial
    show ?case by (simp add: new_node_def backoff_times_def)
  next
    case (step n ev x n')
    then show ?case
    proof (cases ev)
      case (Ev_complete k ec is_open verdict)
      with step.hyps(3) have "nd_backoff_time n' = nd_backoff_time n"
        by (auto split: if_splits dest: keep)
      with step.IH show ?thesis by simp
    qed (auto simp: send_message_def start_def back_off_def next_backoff_times)
  qed
  then show ?thesis
    by (auto simp: backoff_times_def next_backoff_def MAX_BACKOFF_TIME_def min_def)
qed

lemma backoff_is_bounded_witness:
  "nd_backoff_time (new_node\<lparr>nd_backoff_time := 1\<rparr> :: nat node) \<in> backoff_times"
proof -
  have "reachable (\<lambda>ev n. True) (new_node\<lparr>nd_backoff_time := 1\<rparr> :: nat node)"
    by (rule reachable.step [OF reachable.initial, of _ "Ev_back_off True" "Inr ()"])
      (simp_all add: back_off_def new_node_def next_backoff_def MAX_BACKOFF_TIME_def min_def)
  from backoff_is_bounded [OF this] show ?thesis by simp
qed

text \<open>
  A connection that the peer closes while a message is written: the write reports it and starts
  to reconnect; then the read of the old stream reports it too, and \<open>close\<close>, which looks at
  the member variables and not at the stream that was read, marks the object disconnected, so
  the next message starts a second connection.
\<close>

definition peer_closes :: "nat node_event list" where
  "peer_closes =
    [Ev_send ''a'' 1, Ev_complete 0 No_error True (Inr False), \<comment> \<open>post a: connect\<close>
     Ev_complete 0 No_error True (Inr False), Ev_complete 0 No_error True (Inr False), \<comment> \<open>connect, handshake: write a, read\<close>
     Ev_complete 0 Eof True (Inr False), \<comment> \<open>the write fails: reconnect\<close>
     Ev_complete 0 Eof False (Inr False), \<comment> \<open>the old read fails: disconnected\<close>
     Ev_send ''b'' 2, Ev_complete 1 No_error True (Inr False)]  \<comment> \<open>post b: connect again\<close>"

definition both_connect :: "nat node_event list" where
  "both_connect =
    [Ev_complete 0 No_error True (Inr False), Ev_complete 0 No_error True (Inr False),
     Ev_complete 0 No_error True (Inr False), Ev_complete 0 No_error True (Inr False),
     Ev_complete 0 No_error True (Inr False), Ev_complete 1 No_error True (Inr False),
     Ev_complete 2 No_error True (Inr False)]"

lemmas node_run_simps = node_run_def remove_at_def peer_closes_def both_connect_def new_node_def
  is_reconnect_def catch_all_def andthen_apply sbind_apply

text \<open>
  What follows from a peer that closes while a message is written: two connection attempts
  at the same time; then two writes of the same message on one stream (the message goes out
  three times in all and its callback runs twice); and when the write of the next message
  completes, \<open>pop_front\<close> on an empty queue, which is undefined behaviour.
\<close>

lemma stale_read_error_corrupts_node:
  "(\<exists>n. node_run peer_closes new_node = (Inr (), n)
      \<and> nd_state n = Connecting \<and> nd_pending n = [Async_connect, Async_connect])
   \<and> (\<exists>n. node_run (peer_closes @ take 6 both_connect) new_node = (Inr (), n)
      \<and> nd_written n = [''a'', ''a'', ''a'', ''b''] \<and> nd_called n = [(1, No_error), (1, No_error)]
      \<and> nd_send_queue n = [])
   \<and> fst (node_run (peer_closes @ both_connect) new_node) = Inl Undefined"
proof (intro conjI)
  show "\<exists>n. node_run peer_closes new_node = (Inr (), n)
      \<and> nd_state n = Connecting \<and> nd_pending n = [Async_connect, Async_connect]"
    by (simp add: node_run_simps node_defs)
  show "\<exists>n. node_run (peer_closes @ take 6 both_connect) new_node = (Inr (), n)
      \<and> nd_written n = [''a'', ''a'', ''a'', ''b''] \<and> nd_called n = [(1, No_error), (1, No_error)]
      \<and> nd_send_queue n = []"
    by (simp add: node_run_simps node_defs)
  show "fst (node_run (peer_closes @ both_connect) new_node) = Inl Undefined"
    by (simp add: node_run_simps node_defs)
qed

end
