(* ===== verification/Node_Faults.thy ===== *)
theory Node_Faults
  imports Node
begin

text \<open>
  What an exception in the message handler of a node does to its connection.

  \<open>node::receive\<close> catches the exception, but the call of \<open>receive\<close> that would start the next read
  stands behind the handler in the same \<open>try\<close> block.
\<close>

section \<open>Outstanding reads\<close>

fun is_read :: "'c async \<Rightarrow> bool" where
  "is_read (Async_read ws) = True"
| "is_read _ = False"

definition reads :: "'c node \<Rightarrow> nat" where
  "reads n = length (filter is_read (nd_pending n))"

lemma reads_none: "reads n = 0 \<longleftrightarrow> (\<forall>ws. Async_read ws \<notin> set (nd_pending n))"
proof -
  have "is_read op \<longleftrightarrow> (\<exists>ws. op = Async_read ws)" for op :: "'c async" by (cases op) simp_all
  then show ?thesis by (auto simp: reads_def filter_empty_conv)
qed

lemma reads_remove:
  assumes "k < length (nd_pending n)"
  shows "length (filter is_read (remove_at k (nd_pending n))) = (if is_read (nd_pending n ! k) then reads n - 1 else reads n)"
proof -
  have "nd_pending n = take k (nd_pending n) @ nd_pending n ! k # drop (Suc k) (nd_pending n)"
    using assms by (rule id_take_nth_drop)
  then have "reads n = length (filter is_read (take k (nd_pending n) @ nd_pending n ! k # drop (Suc k) (nd_pending n)))"
    unfolding reads_def by (rule arg_cong)
  then show ?thesis by (simp add: remove_at_def)
qed

lemma reads_positive: "k < length (nd_pending n) \<Longrightarrow> is_read (nd_pending n ! k) \<Longrightarrow> 0 < reads n"
  by (auto simp: reads_def filter_empty_conv intro!: bexI [of _ "nd_pending n ! k"])

text \<open>An undisturbed connection stays up and never gets another read while it is up.\<close>

definition hears :: "'c node \<Rightarrow> 'c node \<Rightarrow> bool" where
  "hears n n' \<longleftrightarrow> (nd_state n = Connected \<longrightarrow> nd_state n' = Connected \<and> reads n' \<le> reads n)
     \<and> (nd_state n \<noteq> Connected \<longrightarrow> reads n = 0 \<longrightarrow> reads n' \<le> (if nd_state n' = Connected then 1 else 0))"

lemma complete_hears:
  assumes ok: "node_ok n" and k: "k < length (nd_pending n)"
    and calm: "calm (Ev_complete k ec is_open verdict) n"
  shows "wp (complete (nd_pending n ! k) ec is_open verdict) (\<lambda>_. hears n) (\<lambda>_. hears n)
    (n\<lparr>nd_pending := remove_at k (nd_pending n)\<rparr>)"
proof (cases "nd_pending n ! k")
  case (Async_read ws)
  with calm k reads_positive [OF k] reads_remove [OF k] show ?thesis
    by (auto simp: node_defs wp_simps hears_def reads_def split: option.splits)
next
  case (Async_close ws)
  with ok k nth_mem [OF k] show ?thesis by (auto simp: node_ok_def)
next
  case (Post msg c)
  with reads_remove [OF k] show ?thesis
    by (auto simp: node_defs wp_simps hears_def reads_def split: option.splits list.splits prod.splits)
next
  case (Async_write ws msg c)
  with calm k reads_remove [OF k] show ?thesis
    by (auto simp: node_defs wp_simps hears_def reads_def split: option.splits list.splits prod.splits)
next
  case (Backoff_wait t)
  with reads_remove [OF k] show ?thesis
    by (auto simp: node_defs wp_simps hears_def reads_def split: option.splits list.splits prod.splits)
next
  case Async_connect
  then have "nd_state n \<noteq> Connected"
    using link_completes [OF ok k] ok by (auto simp: node_ok_def link_ok_def)
  with Async_connect reads_remove [OF k] show ?thesis
    by (auto simp: node_defs wp_simps hears_def reads_def split: option.splits list.splits prod.splits)
next
  case (Async_handshake ws)
  then have "nd_state n \<noteq> Connected"
    using link_completes [OF ok k] ok by (auto simp: node_ok_def link_ok_def)
  with Async_handshake reads_remove [OF k] show ?thesis
    by (auto simp: node_defs wp_simps hears_def reads_def split: option.splits list.splits prod.splits sum.splits cxx_fault.splits)
qed

lemma step_hears:
  assumes "node_ok n" "calm ev n" "node_step ev n = (x, n')"
  shows "hears n n'"
proof (cases ev)
  case (Ev_send msg c)
  with assms(3) show ?thesis by (auto simp: send_message_def start_def hears_def reads_def)
next
  case (Ev_back_off busy)
  with assms(3) show ?thesis by (auto simp: back_off_def hears_def reads_def)
next
  case (Ev_complete k ec is_open verdict)
  show ?thesis
  proof (cases "k < length (nd_pending n)")
    case True
    with Ev_complete assms have "complete (nd_pending n ! k) ec is_open verdict
        (n\<lparr>nd_pending := remove_at k (nd_pending n)\<rparr>) = (x, n')" by (simp add: sbind_apply andthen_apply)
    from wpD [OF complete_hears [OF assms(1) True] this] assms(2) Ev_complete show ?thesis by (cases x) auto
  next
    case False
    with Ev_complete assms(3) show ?thesis by (auto simp: sbind_apply hears_def)
  qed
qed

lemma calm_reads:
  "reachable calm n \<Longrightarrow> reads n \<le> (if nd_state n = Connected then 1 else 0)"
proof (induction rule: reachable.induct)
  case (step n ev x n')
  from step_hears [OF calm_reachable_ok [OF step.hyps(1)] step.hyps(2,3)] step.IH show ?case
    by (auto simp: hears_def split: if_splits)
qed (simp add: reads_def new_node_def)

section \<open>A connection that is never read again\<close>

text \<open>A node that is up and has nothing to send starts to write the next message at once.\<close>

lemma idle_node_writes:
  assumes "nd_state n = Connected" "nd_websocket n = Some ws" "nd_send_queue n = []"
  shows "\<exists>n'. handle_post msg c n = (Inr (), n')
    \<and> (if nd_backoff_time n = 0
       then nd_pending n' = nd_pending n @ [Async_write ws msg c] \<and> nd_written n' = nd_written n @ [msg]
       else nd_pending n' = nd_pending n @ [Backoff_wait (nd_backoff_time n)] \<and> nd_written n' = nd_written n)"
  using assms by (simp add: node_defs sbind_apply andthen_apply)

text \<open>
  C37. An exception in the message handler silences a connection that nothing else disturbs, before or
  after (the reads succeed, the handler does not ask to close, no write reports that the stream
  is gone): in every state that such steps lead to from there the connection is up, and a
  message that is sent while nothing is queued starts to be written at once, or after the
  back-off; but no read is outstanding, so that no answer of the node is received any more.
\<close>

theorem throwing_handler_silences_node:
  assumes "reachable calm n" "k < length (nd_pending n)" "nd_pending n ! k = Async_read ws"
    and "\<not> is_err ec" "node_step (Ev_complete k ec is_open (Inl (Throws e))) n = (x, n1)"
    and "(\<lambda>m m'. \<exists>ev y. calm ev m \<and> node_step ev m = (y, m'))\<^sup>*\<^sup>* n1 n2"
  shows "nd_state n2 = Connected \<and> (\<forall>ws. Async_read ws \<notin> set (nd_pending n2))
    \<and> (\<exists>ws. nd_websocket n2 = Some ws \<and> (nd_send_queue n2 = [] \<longrightarrow>
         (\<forall>msg c. \<exists>n3. handle_post msg c n2 = (Inr (), n3)
           \<and> (if nd_backoff_time n2 = 0
              then nd_pending n3 = nd_pending n2 @ [Async_write ws msg c] \<and> nd_written n3 = nd_written n2 @ [msg]
              else nd_pending n3 = nd_pending n2 @ [Backoff_wait (nd_backoff_time n2)]
                   \<and> nd_written n3 = nd_written n2))))"
proof -
  have calm: "calm (Ev_complete k ec is_open (Inl (Throws e))) n" using assms(2-4) by simp
  have "0 < reads n" using reads_positive assms(2,3) by fastforce
  with calm_reads [OF assms(1)] have n: "nd_state n = Connected" "reads n = 1" by (auto split: if_splits)
  have "n1 = n\<lparr>nd_pending := remove_at k (nd_pending n)\<rparr>"
    using assms(2-5) by (auto simp: sbind_apply andthen_apply handle_read_def catch_all_def)
  then have n1: "nd_state n1 = Connected" "reads n1 = 0"
    using n reads_remove [OF assms(2)] assms(3) by (simp_all add: reads_def)
  have "reachable calm n1" using assms(1) calm assms(5) by (rule reachable.step)
  from assms(6) have n2: "reachable calm n2 \<and> nd_state n2 = Connected \<and> reads n2 = 0"
  proof (induction rule: rtranclp_induct)
    case base
    from \<open>reachable calm n1\<close> n1 show ?case by blast
  next
    case (step m m')
    then obtain ev y where ev: "calm ev m" "node_step ev m = (y, m')" by blast
    from step.IH ev have "reachable calm m'" by (blast intro: reachable.step)
    with step_hears [OF calm_reachable_ok ev] step.IH show ?case by (auto simp: hears_def)
  qed
  then obtain ws where "nd_websocket n2 = Some ws"
    using calm_reachable_ok [of n2] by (auto simp: node_ok_def link_ok_def)
  with n2 idle_node_writes [of n2 ws] show ?thesis by (simp add: reads_none)
qed

text \<open>A node that has connected for one message, which it has written, and reads.\<close>

definition reading_node :: "nat node" where
  "reading_node = new_node\<lparr>nd_state := Connected, nd_websocket := Some 0, nd_next_websocket := 1,
     nd_pending := [Async_read 0], nd_accepted := [(''m'', 1)], nd_written := [''m''], nd_called := [(1, No_error)]\<rparr>"

lemma reading_node_reachable: "reachable calm reading_node"
proof -
  have run: "reachable calm n'" if "reachable calm n" "calm ev n" "node_step ev n = (Inr (), n')" for n n' :: "nat node" and ev
    using that by (rule reachable.step)
  let ?n = "new_node :: nat node"
  have 1: "reachable calm (?n\<lparr>nd_pending := [Post ''m'' 1]\<rparr>)"
    by (rule run [OF reachable.initial, of "Ev_send ''m'' 1"]) (simp_all add: node_defs new_node_def)
  have 2: "reachable calm (?n\<lparr>nd_state := Connecting, nd_pending := [Async_connect], nd_send_queue := [(''m'', 1)],
      nd_accepted := [(''m'', 1)]\<rparr>)"
    by (rule run [OF 1, of "Ev_complete 0 No_error True (Inr False)"])
      (simp_all add: node_defs new_node_def remove_at_def sbind_apply andthen_apply)
  have 3: "reachable calm (?n\<lparr>nd_state := Connecting, nd_websocket := Some 0, nd_next_websocket := 1,
      nd_pending := [Async_handshake 0], nd_send_queue := [(''m'', 1)], nd_accepted := [(''m'', 1)]\<rparr>)"
    by (rule run [OF 2, of "Ev_complete 0 No_error True (Inr False)"])
      (simp_all add: node_defs new_node_def remove_at_def sbind_apply andthen_apply)
  have 4: "reachable calm (?n\<lparr>nd_state := Connected, nd_websocket := Some 0, nd_next_websocket := 1,
      nd_pending := [Async_write 0 ''m'' 1, Async_read 0], nd_send_queue := [(''m'', 1)], nd_accepted := [(''m'', 1)],
      nd_written := [''m'']\<rparr>)"
    by (rule run [OF 3, of "Ev_complete 0 No_error True (Inr False)"])
      (simp_all add: node_defs new_node_def remove_at_def sbind_apply andthen_apply catch_all_def)
  show ?thesis
    by (rule run [OF 4, of "Ev_complete 0 No_error True (Inr False)"])
      (simp_all add: node_defs new_node_def remove_at_def sbind_apply andthen_apply is_reconnect_def reading_node_def)
qed

lemma throwing_handler_silences_node_witness:
  "\<exists>n1 n2. node_step (Ev_complete 0 No_error True (Inl (Throws ''e''))) reading_node = (Inr (), n1)
    \<and> node_step (Ev_send ''n'' 2) n1 = (Inr (), n2)
    \<and> nd_state n2 = Connected \<and> (\<forall>ws. Async_read ws \<notin> set (nd_pending n2))
    \<and> (\<exists>n3. handle_post ''o'' 3 n2 = (Inr (), n3) \<and> nd_written n3 = [''m'', ''o''])"
proof -
  obtain n1 where n1: "node_step (Ev_complete 0 No_error True (Inl (Throws ''e''))) reading_node = (Inr (), n1)"
    by (simp add: reading_node_def sbind_apply andthen_apply handle_read_def catch_all_def)
  obtain n2 where n2: "node_step (Ev_send ''n'' 2) n1 = (Inr (), n2)" by (simp add: send_message_def start_def)
  have step: "(\<lambda>m m'. \<exists>ev y. calm ev m \<and> node_step ev m = (y, m'))\<^sup>*\<^sup>* n1 n2"
    by (rule r_into_rtranclp) (metis n2 calm.simps(2))
  have "nd_pending reading_node ! 0 = Async_read 0" "0 < length (nd_pending reading_node)" by (simp_all add: reading_node_def)
  from throwing_handler_silences_node [OF reading_node_reachable this(2,1) _ n1 step]
  have "nd_state n2 = Connected \<and> (\<forall>ws. Async_read ws \<notin> set (nd_pending n2))"
    and writes: "nd_send_queue n2 = [] \<longrightarrow> nd_backoff_time n2 = 0
      \<longrightarrow> (\<exists>n3. handle_post ''o'' 3 n2 = (Inr (), n3) \<and> nd_written n3 = nd_written n2 @ [''o''])"
    by (auto split: if_splits) blast
  moreover have "nd_send_queue n2 = []" "nd_backoff_time n2 = 0" "nd_written n2 = [''m'']"
    using n1 n2 by (auto simp: reading_node_def new_node_def send_message_def start_def sbind_apply andthen_apply
        handle_read_def catch_all_def)
  ultimately show ?thesis using n1 n2 by auto
qed

end
