(* ===== verification/Web_Streams.thy ===== *)
theory Web_Streams
  imports Effects
begin

text \<open>
  \<open>include/boost_asio_beast.hpp\<close>: the interfaces through which the program reaches Boost.Asio and
  Boost.Beast, and the classes that implement them.  An interface is a record with one field per
  virtual function; an object of a class is a value of the record, made by its constructor.

  The Boost objects themselves are numbered.  The state \<open>boost\<close> holds what the wrappers have set
  on them and the asynchronous operations that are outstanding, each with the handler it was given;
  a handler is a value of the type \<open>'h\<close>.  What Boost answers to a synchronous call is a parameter.
  The order of the outstanding operations carries no meaning.
\<close>

section \<open>Boost\<close>

record endpoint =
  ep_address :: string
  ep_port :: u16

datatype boost_object =
    Io_context
  | Udp_socket nat
  | Tcp_socket nat
  | Tcp_acceptor nat endpoint
  | Steady_timer nat
  | Strand nat
  | Http_stream nat
  | Websocket nat
  | Secure_websocket nat nat

text \<open>
  \<open>Tls_accept\<close> and \<open>Tls_connect\<close> are the two TLS handshakes, with what their lambdas capture; all
  other operations call the handler they hold.
\<close>

datatype 'h boost_op =
    Send_to nat string endpoint 'h
  | Connect nat endpoint 'h
  | Accept nat nat 'h
  | Wait nat u64 'h \<comment> \<open>with the milliseconds the timer was set to\<close>
  | Posted nat 'h
  | Http_read nat 'h
  | Http_write nat string 'h
  | Ws_accept nat 'h
  | Ws_read nat 'h
  | Ws_write nat string 'h
  | Ws_close nat u16 'h
  | Ws_handshake nat string string 'h
  | Tls_accept nat 'h
  | Tls_connect nat string string 'h

record 'h boost =
  bs_objects :: "boost_object list"
  bs_ops :: "'h boost_op list"
  bs_deadline :: "nat \<Rightarrow> u64 option" \<comment> \<open>seconds a stream's operations may take\<close>
  bs_binary :: "nat \<Rightarrow> bool"
  bs_timer :: "nat \<Rightarrow> u64" \<comment> \<open>milliseconds a timer is set to\<close>
  bs_stopped :: bool
  bs_cancels :: "nat list" \<comment> \<open>timers cancelled\<close>
  bs_closed :: "nat list" \<comment> \<open>sockets closed\<close>

definition no_boost :: "'h boost" where
  "no_boost = \<lparr>bs_objects = [], bs_ops = [], bs_deadline = (\<lambda>_. None), bs_binary = (\<lambda>_. False),
     bs_timer = (\<lambda>_. 0), bs_stopped = False, bs_cancels = [], bs_closed = []\<rparr>"

record 'h boost_env =
  be_open_udp :: "unit cxx"
  be_bind :: "endpoint \<Rightarrow> unit cxx"
  be_wrap :: "nat \<Rightarrow> 'h \<Rightarrow> 'h"
  be_remote_endpoint :: "'h boost \<Rightarrow> nat \<Rightarrow> endpoint cxx"
  be_is_open :: "'h boost \<Rightarrow> nat \<Rightarrow> bool"
  be_write :: "'h boost \<Rightarrow> nat \<Rightarrow> string \<Rightarrow> nat \<times> error_code"
  be_cancelled :: "'h boost \<Rightarrow> nat \<Rightarrow> nat"
  be_events_run :: "'h boost \<Rightarrow> nat"

type_synonym ('h, 'a) boost_prog = "('h boost, 'a) prog"

definition make_object :: "boost_object \<Rightarrow> ('h, nat) boost_prog" where
  "make_object ob = sbind (gets (\<lambda>b. length (bs_objects b))) (\<lambda>n.
     andthen (modify (\<lambda>b. b\<lparr>bs_objects := bs_objects b @ [ob]\<rparr>)) (ret n))"

definition start_op :: "'h boost_op \<Rightarrow> ('h, unit) boost_prog" where
  "start_op op = modify (\<lambda>b. b\<lparr>bs_ops := bs_ops b @ [op]\<rparr>)"

definition expires_after :: "nat \<Rightarrow> u64 \<Rightarrow> ('h, unit) boost_prog" where
  "expires_after ws seconds = modify (\<lambda>b. b\<lparr>bs_deadline := (bs_deadline b)(ws := Some seconds)\<rparr>)"

definition expires_never :: "nat \<Rightarrow> ('h, unit) boost_prog" where
  "expires_never ws = modify (\<lambda>b. b\<lparr>bs_deadline := (bs_deadline b)(ws := None)\<rparr>)"

section \<open>Interfaces of \<open>bzn::asio\<close>\<close>

record 'h tcp_socket_base =
  tcp_async_connect :: "endpoint \<Rightarrow> 'h \<Rightarrow> ('h, unit) boost_prog"
  tcp_remote_endpoint :: "('h, endpoint) boost_prog"
  get_tcp_socket :: nat

record 'h udp_socket_base =
  udp_async_send_to :: "string \<Rightarrow> endpoint \<Rightarrow> 'h \<Rightarrow> ('h, unit) boost_prog"

record 'h tcp_acceptor_base =
  acceptor_async_accept :: "'h tcp_socket_base \<Rightarrow> 'h \<Rightarrow> ('h, unit) boost_prog"
  get_tcp_acceptor :: nat

record 'h steady_timer_base =
  timer_async_wait :: "'h \<Rightarrow> ('h, unit) boost_prog"
  timer_expires_from_now :: "u64 \<Rightarrow> ('h, nat) boost_prog"
  timer_cancel :: "('h, unit) boost_prog"
  get_steady_timer :: nat

record 'h strand_base =
  strand_wrap :: "'h \<Rightarrow> 'h"
  strand_post :: "'h \<Rightarrow> ('h, unit) boost_prog"
  get_strand :: nat

record 'h io_context_base =
  make_unique_tcp_acceptor :: "endpoint \<Rightarrow> ('h, 'h tcp_acceptor_base) boost_prog"
  make_unique_tcp_socket :: "('h, 'h tcp_socket_base) boost_prog"
  make_unique_tcp_socket_on :: "'h strand_base \<Rightarrow> ('h, 'h tcp_socket_base) boost_prog"
  make_unique_udp_socket :: "('h, 'h udp_socket_base) boost_prog"
  make_unique_steady_timer :: "('h, 'h steady_timer_base) boost_prog"
  make_unique_strand :: "('h, 'h strand_base) boost_prog"
  io_post :: "'h \<Rightarrow> ('h, unit) boost_prog"
  io_run :: "('h, nat) boost_prog"
  io_stop :: "('h, unit) boost_prog"
  get_io_context :: nat

section \<open>Classes of \<open>bzn::asio\<close>\<close>

text \<open>For each class the object around a Boost object, and the constructor.\<close>

definition udp_socket_object :: "nat \<Rightarrow> 'h udp_socket_base" where
  "udp_socket_object s = \<lparr>udp_async_send_to = (\<lambda>msg ep handler. start_op (Send_to s msg ep handler))\<rparr>"

definition udp_socket :: "'h boost_env \<Rightarrow> nat \<Rightarrow> ('h, 'h udp_socket_base) boost_prog" where
  "udp_socket be io = sbind (make_object (Udp_socket io)) (\<lambda>s.
     andthen (lift_cxx (be_open_udp be)) (ret (udp_socket_object s)))"

text \<open>The executor of a socket is the io context or a strand.\<close>

definition tcp_socket_object :: "'h boost_env \<Rightarrow> nat \<Rightarrow> 'h tcp_socket_base" where
  "tcp_socket_object be s =
     \<lparr>tcp_async_connect = (\<lambda>ep handler. start_op (Connect s ep handler)),
      tcp_remote_endpoint = sbind (gets (\<lambda>b. be_remote_endpoint be b s)) lift_cxx,
      get_tcp_socket = s\<rparr>"

definition tcp_socket :: "'h boost_env \<Rightarrow> nat \<Rightarrow> ('h, 'h tcp_socket_base) boost_prog" where
  "tcp_socket be executor = sbind (make_object (Tcp_socket executor)) (\<lambda>s. ret (tcp_socket_object be s))"

definition tcp_acceptor_object :: "nat \<Rightarrow> 'h tcp_acceptor_base" where
  "tcp_acceptor_object a =
     \<lparr>acceptor_async_accept = (\<lambda>socket handler. start_op (Accept a (get_tcp_socket socket) handler)),
      get_tcp_acceptor = a\<rparr>"

definition tcp_acceptor :: "'h boost_env \<Rightarrow> nat \<Rightarrow> endpoint \<Rightarrow> ('h, 'h tcp_acceptor_base) boost_prog" where
  "tcp_acceptor be io ep = andthen (lift_cxx (be_bind be ep))
     (sbind (make_object (Tcp_acceptor io ep)) (\<lambda>a. ret (tcp_acceptor_object a)))"

text \<open>Setting a timer and \<open>cancel\<close> abort its waits; how many there were is Boost's answer.\<close>

definition steady_timer_object :: "'h boost_env \<Rightarrow> nat \<Rightarrow> 'h steady_timer_base" where
  "steady_timer_object be t =
     \<lparr>timer_async_wait = (\<lambda>handler. sbind (gets (\<lambda>b. bs_timer b t)) (\<lambda>ms. start_op (Wait t ms handler))),
      timer_expires_from_now = (\<lambda>ms. sbind (gets (\<lambda>b. be_cancelled be b t)) (\<lambda>n.
        andthen (modify (\<lambda>b. b\<lparr>bs_timer := (bs_timer b)(t := ms)\<rparr>)) (ret n))),
      timer_cancel = modify (\<lambda>b. b\<lparr>bs_cancels := bs_cancels b @ [t]\<rparr>),
      get_steady_timer = t\<rparr>"

definition steady_timer :: "'h boost_env \<Rightarrow> nat \<Rightarrow> ('h, 'h steady_timer_base) boost_prog" where
  "steady_timer be io = sbind (make_object (Steady_timer io)) (\<lambda>t. ret (steady_timer_object be t))"

definition strand_object :: "'h boost_env \<Rightarrow> nat \<Rightarrow> 'h strand_base" where
  "strand_object be s = \<lparr>strand_wrap = be_wrap be s,
     strand_post = (\<lambda>action. start_op (Posted s action)), get_strand = s\<rparr>"

definition strand :: "'h boost_env \<Rightarrow> nat \<Rightarrow> ('h, 'h strand_base) boost_prog" where
  "strand be io = sbind (make_object (Strand io)) (\<lambda>s. ret (strand_object be s))"

definition io_context_object :: "'h boost_env \<Rightarrow> nat \<Rightarrow> 'h io_context_base" where
  "io_context_object be io =
     \<lparr>make_unique_tcp_acceptor = tcp_acceptor be io,
      make_unique_tcp_socket = tcp_socket be io,
      make_unique_tcp_socket_on = (\<lambda>st. tcp_socket be (get_strand st)),
      make_unique_udp_socket = udp_socket be io,
      make_unique_steady_timer = steady_timer be io,
      make_unique_strand = strand be io,
      io_post = (\<lambda>func. start_op (Posted io func)),
      io_run = gets (be_events_run be),
      io_stop = modify (\<lambda>b. b\<lparr>bs_stopped := True\<rparr>),
      get_io_context = io\<rparr>"

definition io_context :: "'h boost_env \<Rightarrow> ('h, 'h io_context_base) boost_prog" where
  "io_context be = sbind (make_object Io_context) (\<lambda>io. ret (io_context_object be io))"

section \<open>Interfaces of \<open>bzn::beast\<close>\<close>

record 'h http_socket_base =
  http_get_socket :: nat
  http_async_read :: "'h \<Rightarrow> ('h, unit) boost_prog"
  http_async_write :: "string \<Rightarrow> 'h \<Rightarrow> ('h, unit) boost_prog"
  http_close :: "('h, unit) boost_prog"

record 'h websocket_stream_base =
  ws_async_accept :: "'h \<Rightarrow> ('h, unit) boost_prog"
  ws_async_read :: "'h \<Rightarrow> ('h, unit) boost_prog"
  ws_async_write :: "string \<Rightarrow> 'h \<Rightarrow> ('h, unit) boost_prog"
  ws_write :: "string \<Rightarrow> ('h, nat \<times> error_code) boost_prog"
  ws_async_close :: "u16 \<Rightarrow> 'h \<Rightarrow> ('h, unit) boost_prog"
  ws_async_handshake :: "string \<Rightarrow> string \<Rightarrow> 'h \<Rightarrow> ('h, unit) boost_prog"
  ws_binary :: "bool \<Rightarrow> ('h, unit) boost_prog"
  ws_is_open :: "('h, bool) boost_prog"

record 'h websocket_base =
  make_websocket_stream :: "nat \<Rightarrow> ('h, 'h websocket_stream_base) boost_prog"
  make_websocket_secure_stream :: "nat \<Rightarrow> nat \<Rightarrow> ('h, 'h websocket_stream_base) boost_prog"

section \<open>Classes of \<open>bzn::beast\<close>\<close>

definition http_socket :: "'h boost_env \<Rightarrow> nat \<Rightarrow> ('h, 'h http_socket_base) boost_prog" where
  "http_socket be socket = sbind (make_object (Http_stream socket)) (\<lambda>s.
     ret \<lparr>http_get_socket = s,
          http_async_read = (\<lambda>handler. start_op (Http_read s handler)),
          http_async_write = (\<lambda>response handler. start_op (Http_write s response handler)),
          http_close = modify (\<lambda>b. b\<lparr>bs_closed := bs_closed b @ [s]\<rparr>)\<rparr>)"

definition set_binary :: "nat \<Rightarrow> bool \<Rightarrow> ('h, unit) boost_prog" where
  "set_binary ws bin = modify (\<lambda>b. b\<lparr>bs_binary := (bs_binary b)(ws := bin)\<rparr>)"

definition plain_stream :: "'h boost_env \<Rightarrow> nat \<Rightarrow> 'h websocket_stream_base" where
  "plain_stream be ws =
     \<lparr>ws_async_accept = (\<lambda>handler. start_op (Ws_accept ws handler)),
      ws_async_read = (\<lambda>handler. start_op (Ws_read ws handler)),
      ws_async_write = (\<lambda>msg handler. start_op (Ws_write ws msg handler)),
      ws_write = (\<lambda>msg. gets (\<lambda>b. be_write be b ws msg)),
      ws_async_close = (\<lambda>reason handler. start_op (Ws_close ws reason handler)),
      ws_async_handshake = (\<lambda>host target handler. start_op (Ws_handshake ws host target handler)),
      ws_binary = set_binary ws,
      ws_is_open = gets (\<lambda>b. be_is_open be b ws)\<rparr>"

definition websocket_stream :: "'h boost_env \<Rightarrow> nat \<Rightarrow> ('h, 'h websocket_stream_base) boost_prog" where
  "websocket_stream be socket = sbind (make_object (Websocket socket)) (\<lambda>ws. ret (plain_stream be ws))"

text \<open>
  The secure stream: its \<open>async_accept\<close> and \<open>async_handshake\<close> do the TLS handshake first, within
  thirty seconds, and go on with the websocket handshake in the lambdas \<open>tls_accepted\<close> and
  \<open>tls_connected\<close>.
\<close>

definition secure_stream :: "'h boost_env \<Rightarrow> nat \<Rightarrow> 'h websocket_stream_base" where
  "secure_stream be ws =
     \<lparr>ws_async_accept = (\<lambda>handler. andthen (expires_after ws 30) (start_op (Tls_accept ws handler))),
      ws_async_read = (\<lambda>handler. start_op (Ws_read ws handler)),
      ws_async_write = (\<lambda>msg handler. start_op (Ws_write ws msg handler)),
      ws_write = (\<lambda>msg. gets (\<lambda>b. be_write be b ws msg)),
      ws_async_close = (\<lambda>reason handler. start_op (Ws_close ws reason handler)),
      ws_async_handshake = (\<lambda>host target handler.
        andthen (expires_after ws 30) (start_op (Tls_connect ws host target handler))),
      ws_binary = set_binary ws,
      ws_is_open = gets (\<lambda>b. be_is_open be b ws)\<rparr>"

definition websocket_secure_stream ::
  "'h boost_env \<Rightarrow> nat \<Rightarrow> nat \<Rightarrow> ('h, 'h websocket_stream_base) boost_prog" where
  "websocket_secure_stream be socket ctx =
     sbind (make_object (Secure_websocket socket ctx)) (\<lambda>ws. ret (secure_stream be ws))"

definition tls_accepted :: "nat \<Rightarrow> 'h \<Rightarrow> error_code \<Rightarrow> ('h, unit) boost_prog" where
  "tls_accepted self handler ec =
     (if is_err ec then ret () else andthen (expires_never self) (start_op (Ws_accept self handler)))"

definition tls_connected :: "nat \<Rightarrow> string \<Rightarrow> string \<Rightarrow> 'h \<Rightarrow> error_code \<Rightarrow> ('h, unit) boost_prog" where
  "tls_connected self host target handler ec =
     (if is_err ec then ret ()
      else andthen (expires_never self) (start_op (Ws_handshake self host target handler)))"

definition websocket :: "'h boost_env \<Rightarrow> 'h websocket_base" where
  "websocket be = \<lparr>make_websocket_stream = websocket_stream be,
     make_websocket_secure_stream = websocket_secure_stream be\<rparr>"

section \<open>Completion\<close>

fun op_handler :: "'h boost_op \<Rightarrow> 'h" where
  "op_handler (Send_to s msg ep handler) = handler"
| "op_handler (Connect s ep handler) = handler"
| "op_handler (Accept a s handler) = handler"
| "op_handler (Wait t ms handler) = handler"
| "op_handler (Posted s handler) = handler"
| "op_handler (Http_read s handler) = handler"
| "op_handler (Http_write s response handler) = handler"
| "op_handler (Ws_accept ws handler) = handler"
| "op_handler (Ws_read ws handler) = handler"
| "op_handler (Ws_write ws msg handler) = handler"
| "op_handler (Ws_close ws reason handler) = handler"
| "op_handler (Ws_handshake ws host target handler) = handler"
| "op_handler (Tls_accept ws handler) = handler"
| "op_handler (Tls_connect ws host target handler) = handler"

fun tls_op :: "'h boost_op \<Rightarrow> bool" where
  "tls_op (Tls_accept ws handler) = True"
| "tls_op (Tls_connect ws host target handler) = True"
| "tls_op _ = False"

text \<open>
  The operation at a position completes: the lambda of a TLS handshake runs, any other operation
  yields the handler to be called.
\<close>

definition complete_op :: "nat \<Rightarrow> error_code \<Rightarrow> ('h, 'h option) boost_prog" where
  "complete_op k ec = sbind (gets bs_ops) (\<lambda>ops.
     if k < length ops
     then andthen (modify (\<lambda>b. b\<lparr>bs_ops := remove_at k ops\<rparr>))
       (case ops ! k of
          Tls_accept ws handler \<Rightarrow> andthen (tls_accepted ws handler ec) (ret None)
        | Tls_connect ws host target handler \<Rightarrow> andthen (tls_connected ws host target handler ec) (ret None)
        | op \<Rightarrow> ret (Some (op_handler op)))
     else ret None)"

section \<open>What a stream promises\<close>

text \<open>
  An asynchronous call starts one operation and returns; a setting starts nothing.  Neither takes
  the binary mode from a stream.
\<close>

definition starts :: "('h, unit) boost_prog \<Rightarrow> 'h boost_op \<Rightarrow> bool" where
  "starts p op \<longleftrightarrow> (\<forall>b. \<exists>b'. p b = (Inr (), b') \<and> bs_ops b' = bs_ops b @ [op]
     \<and> bs_timer b' = bs_timer b \<and> bs_binary b' = bs_binary b)"

lemma startsE:
  assumes "starts p op"
  obtains b' where "p b = (Inr (), b')" "bs_ops b' = bs_ops b @ [op]" "bs_timer b' = bs_timer b"
    "bs_binary b' = bs_binary b"
  using assms unfolding starts_def by blast

lemma starts_op [simp]: "starts (start_op op) op' \<longleftrightarrow> op = op'"
  by (auto simp: starts_def start_op_def)

lemma starts_after_deadline [simp]: "starts (andthen (expires_after ws t) (start_op op)) op"
  by (simp add: starts_def start_op_def expires_after_def andthen_apply)

text \<open>
  The contract of the stream with number \<open>ws\<close>: each call starts the operation it is named after, on that
  stream and with its arguments; over TLS the two handshakes of the websocket begin with that
  of TLS.
\<close>

locale websocket_contract =
  fixes tls :: bool and ws :: nat and stream :: "'h websocket_stream_base"
  assumes handshakes: "starts (ws_async_handshake stream host target h)
      (if tls then Tls_connect ws host target h else Ws_handshake ws host target h)"
    and accepts: "starts (ws_async_accept stream h) (if tls then Tls_accept ws h else Ws_accept ws h)"
    and reads: "starts (ws_async_read stream h) (Ws_read ws h)"
    and writes: "starts (ws_async_write stream msg h) (Ws_write ws msg h)"
    and closes: "starts (ws_async_close stream reason h) (Ws_close ws reason h)"
    and sets_binary: "ws_binary stream bin = set_binary ws bin"
    and is_open_reads: "\<exists>g. ws_is_open stream = gets g"
begin

lemma writes_binary:
  "\<exists>b'. andthen (ws_binary stream True) (ws_async_write stream msg h) b = (Inr (), b')
     \<and> bs_ops b' = bs_ops b @ [Ws_write ws msg h] \<and> bs_timer b' = bs_timer b
     \<and> bs_binary b' = (bs_binary b)(ws := True)"
proof -
  let ?b = "b\<lparr>bs_binary := (bs_binary b)(ws := True)\<rparr>"
  obtain b' where "ws_async_write stream msg h ?b = (Inr (), b')" "bs_ops b' = bs_ops b @ [Ws_write ws msg h]"
    "bs_timer b' = bs_timer b" "bs_binary b' = (bs_binary b)(ws := True)"
    by (rule startsE [OF writes, where b = ?b]) simp
  then show ?thesis by (auto simp: sets_binary set_binary_def andthen_apply)
qed

end

interpretation plain: websocket_contract False ws "plain_stream be ws" for be ws
  by unfold_locales (auto simp: plain_stream_def)

interpretation secure: websocket_contract True ws "secure_stream be ws" for be ws
  by unfold_locales (auto simp: secure_stream_def)

end
