(* ===== verification/Node_Streams.thy ===== *)
theory Node_Streams
  imports Node Web_Streams "HOL-Library.Multiset"
begin

text \<open>
  \<open>node/node.cpp\<close> over the wrappers of \<open>include/boost_asio_beast.hpp\<close>: the constructor of a node
  with its TLS context, and the machine of \<open>Node\<close> with its asynchronous operations carried out on
  sockets, timers and streams.  A handler is the operation of the machine it completes.
\<close>

section \<open>State\<close>

type_synonym 'c handler = "'c async"

record 'c wire_env =
  we_boost :: "'c handler boost_env"
  we_getenv :: "string \<Rightarrow> string option"
  we_resolve :: "string \<Rightarrow> string \<Rightarrow> endpoint list cxx"

record 'c wire =
  wr_node :: "'c node"
  wr_boost :: "'c handler boost"
  wr_io :: "'c handler io_context_base"
  wr_strand :: "'c handler strand_base"
  wr_timer :: "'c handler steady_timer_base"
  wr_endpoint :: endpoint
  wr_client_ctx :: bool
  wr_streams :: "'c handler websocket_stream_base list" \<comment> \<open>by the numbers of the node's websockets\<close>
  wr_socket :: nat \<comment> \<open>the socket of the connection that was just made\<close>

type_synonym ('c, 'a) wire_prog = "('c wire, 'a) prog"

definition at_boost :: "('c handler, 'a) boost_prog \<Rightarrow> ('c, 'a) wire_prog" where
  "at_boost m = (\<lambda>w. case m (wr_boost w) of (r, b) \<Rightarrow> (r, w\<lparr>wr_boost := b\<rparr>))"

section \<open>Making a node\<close>

definition WSS_ENABLED_ENV :: string where "WSS_ENABLED_ENV = ''WSS_ENABLED''"

definition initialize_ssl_context :: "(string \<Rightarrow> string option) \<Rightarrow> bool" where
  "initialize_ssl_context getenv = (case getenv WSS_ENABLED_ENV of None \<Rightarrow> False | Some v \<Rightarrow> v \<noteq> ''0'')"

definition make_tcp_endpoint :: "(string \<Rightarrow> string \<Rightarrow> endpoint list cxx) \<Rightarrow> string \<Rightarrow> u16 \<Rightarrow> endpoint cxx" where
  "make_tcp_endpoint resolve host port = cbind (resolve host (to_string (unat port))) (\<lambda>eps.
     case eps of [] \<Rightarrow> Inr \<lparr>ep_address = ''0.0.0.0'', ep_port = 0\<rparr> | ep # _ \<Rightarrow> Inr ep)"

definition node_constructor ::
  "'c wire_env \<Rightarrow> 'c handler io_context_base \<Rightarrow> string \<Rightarrow> u16 \<Rightarrow> ('c handler, 'c wire) boost_prog" where
  "node_constructor we io host port =
     sbind (lift_cxx (make_tcp_endpoint (we_resolve we) host port)) (\<lambda>ep.
     sbind (make_unique_strand io) (\<lambda>st.
     sbind (make_unique_steady_timer io) (\<lambda>tm.
     sbind (gets id) (\<lambda>b.
      ret \<lparr>wr_node = new_node, wr_boost = b, wr_io = io, wr_strand = st, wr_timer = tm, wr_endpoint = ep,
           wr_client_ctx = initialize_ssl_context (we_getenv we), wr_streams = [], wr_socket = 0\<rparr>))))"

text \<open>\<open>node_factory\<close>\<close>

definition create_node ::
  "'c wire_env \<Rightarrow> 'c handler io_context_base \<Rightarrow> string \<Rightarrow> u16 \<Rightarrow> ('c handler, 'c wire) boost_prog" where
  "create_node we io host port = node_constructor we io host port"

section \<open>Carrying out the operations\<close>

text \<open>The websocket that the factory makes once the connection is up, secure if there is a context.\<close>

definition make_stream :: "'c wire_env \<Rightarrow> ('c, 'c handler websocket_stream_base) wire_prog" where
  "make_stream we = sbind (gets id) (\<lambda>w.
     let ws_factory = websocket (we_boost we) in
     sbind (at_boost (if wr_client_ctx w then make_websocket_secure_stream ws_factory (wr_socket w) 0
                      else make_websocket_stream ws_factory (wr_socket w))) (\<lambda>stream.
     andthen (modify (\<lambda>w. w\<lparr>wr_streams := wr_streams w @ [stream]\<rparr>)) (ret stream)))"

definition with_stream :: "nat \<Rightarrow> ('c handler websocket_stream_base \<Rightarrow> ('c handler, 'a) boost_prog) \<Rightarrow> ('c, 'a) wire_prog" where
  "with_stream ws k = sbind (gets wr_streams) (\<lambda>streams.
     if ws < length streams then at_boost (k (streams ! ws)) else raise Undefined)"

definition CLOSE_NORMAL :: u16 where "CLOSE_NORMAL = 1000"

text \<open>The call that starts an operation of the node.\<close>

definition issue :: "'c wire_env \<Rightarrow> 'c async \<Rightarrow> ('c, unit) wire_prog" where
  "issue we op = sbind (gets id) (\<lambda>w.
     let handler = strand_wrap (wr_strand w) op in
     case op of
       Post msg callback \<Rightarrow> at_boost (strand_post (wr_strand w) op)
     | Async_connect \<Rightarrow> sbind (at_boost (make_unique_tcp_socket (wr_io w))) (\<lambda>socket.
         at_boost (tcp_async_connect socket (wr_endpoint w) handler))
     | Async_handshake ws \<Rightarrow> sbind (make_stream we) (\<lambda>stream.
         at_boost (ws_async_handshake stream (ep_address (wr_endpoint w)) ''/'' handler))
     | Async_write ws msg callback \<Rightarrow> with_stream ws (\<lambda>stream.
         andthen (ws_binary stream True) (ws_async_write stream msg handler))
     | Backoff_wait t \<Rightarrow> sbind (at_boost (timer_expires_from_now (wr_timer w) t)) (\<lambda>_.
         at_boost (timer_async_wait (wr_timer w) handler))
     | Async_read ws \<Rightarrow> with_stream ws (\<lambda>stream. ws_async_read stream handler)
     | Async_close ws \<Rightarrow> with_stream ws (\<lambda>stream. ws_async_close stream CLOSE_NORMAL handler))"

text \<open>A handler of the node runs, and the operations it starts are started.\<close>

definition run_node :: "'c wire_env \<Rightarrow> ('c, unit) node_prog \<Rightarrow> ('c, unit) wire_prog" where
  "run_node we p = (\<lambda>w. case p (wr_node w) of (r, n) \<Rightarrow>
     andthen (for_each (nd_pending n) (issue we)) (lift_cxx r)
       (w\<lparr>wr_node := n\<lparr>nd_pending := []\<rparr>\<rparr>))"

definition websocket_is_open :: "('c, bool) wire_prog" where
  "websocket_is_open = sbind (gets (\<lambda>w. nd_websocket (wr_node w))) (\<lambda>ws.
     case ws of None \<Rightarrow> ret False | Some ws \<Rightarrow> with_stream ws ws_is_open)"

fun connected_socket :: "'h boost_op \<Rightarrow> nat \<Rightarrow> nat" where
  "connected_socket (Connect s ep handler) old = s"
| "connected_socket _ old = old"

definition note_socket :: "nat \<Rightarrow> ('c, unit) wire_prog" where
  "note_socket k = modify (\<lambda>w. if k < length (bs_ops (wr_boost w))
     then w\<lparr>wr_socket := connected_socket (bs_ops (wr_boost w) ! k) (wr_socket w)\<rparr> else w)"

datatype 'c wire_event =
    Wire_send string 'c
  | Wire_back_off bool
  | Wire_complete nat error_code "bool cxx"

fun wire_step :: "'c wire_env \<Rightarrow> 'c wire_event \<Rightarrow> ('c, unit) wire_prog" where
  "wire_step we (Wire_send msg callback) = run_node we (send_message msg callback)"
| "wire_step we (Wire_back_off busy) = run_node we (back_off busy)"
| "wire_step we (Wire_complete k ec verdict) =
     andthen (note_socket k)
     (sbind (at_boost (complete_op k ec)) (\<lambda>handler. case handler of
        None \<Rightarrow> ret ()
      | Some op \<Rightarrow> sbind websocket_is_open (\<lambda>is_open. run_node we (complete op ec is_open verdict))))"

definition wire_run :: "'c wire_env \<Rightarrow> 'c wire_event list \<Rightarrow> ('c, unit) wire_prog" where
  "wire_run we events = for_each events (wire_step we)"

inductive wire_reachable :: "'c wire_env \<Rightarrow> ('c wire_event \<Rightarrow> 'c wire \<Rightarrow> bool) \<Rightarrow> 'c wire \<Rightarrow> bool"
  for we and env where
  made: "io_context (we_boost we) no_boost = (Inr io, b) \<Longrightarrow> node_constructor we io host port b = (Inr w, b')
    \<Longrightarrow> wire_reachable we env w"
| step: "wire_reachable we env w \<Longrightarrow> env ev w \<Longrightarrow> wire_step we ev w = (x, w') \<Longrightarrow> wire_reachable we env w'"

inductive_cases wire_reachableE: "wire_reachable we env w"

section \<open>The handlers of a node and the operations already outstanding\<close>

text \<open>A handler adds operations at the end and does not look at those that are outstanding.\<close>

definition later :: "'c async list \<Rightarrow> 'c node \<Rightarrow> 'c node" where
  "later ps n = n\<lparr>nd_pending := ps @ nd_pending n\<rparr>"

definition adds_ops :: "('c, unit) node_prog \<Rightarrow> bool" where
  "adds_ops p \<longleftrightarrow> (\<forall>n ps r n'. p n = (r, n') \<longrightarrow> p (later ps n) = (r, later ps n'))"

lemma adds_ops_complete: "adds_ops (complete op ec is_open verdict)"
  unfolding adds_ops_def
  by (cases op)
    (auto simp: later_def node_defs catch_all_def sbind_apply andthen_apply
      split: list.splits option.splits prod.splits sum.splits cxx_fault.splits if_splits)

lemma adds_ops_calls: "adds_ops (send_message msg c)" "adds_ops (back_off busy)"
  by (auto simp: adds_ops_def later_def node_defs)

text \<open>The websockets that the operations name, and when a new one is made.\<close>

fun on_websocket :: "'c async \<Rightarrow> nat option" where
  "on_websocket (Async_handshake ws) = Some ws"
| "on_websocket (Async_write ws msg c) = Some ws"
| "on_websocket (Async_read ws) = Some ws"
| "on_websocket (Async_close ws) = Some ws"
| "on_websocket _ = None"

definition names_streams :: "nat \<Rightarrow> 'c async list \<Rightarrow> bool" where
  "names_streams k ops \<longleftrightarrow> (\<forall>op \<in> set ops. \<forall>ws. on_websocket op = Some ws \<longrightarrow> ws < k \<and> (\<forall>ws'. op \<noteq> Async_handshake ws'))"

definition websocket_known :: "'c node \<Rightarrow> bool" where
  "websocket_known n \<longleftrightarrow> (\<forall>ws. nd_websocket n = Some ws \<longrightarrow> ws < nd_next_websocket n)"

definition makes_streams :: "('c, unit) node_prog \<Rightarrow> bool" where
  "makes_streams p \<longleftrightarrow> (\<forall>n r n'. p n = (r, n') \<longrightarrow> nd_pending n = [] \<longrightarrow> websocket_known n \<longrightarrow> websocket_known n'
     \<and> (nd_next_websocket n' = nd_next_websocket n \<and> names_streams (nd_next_websocket n) (nd_pending n')
        \<or> nd_next_websocket n' = Suc (nd_next_websocket n)
          \<and> nd_pending n' = [Async_handshake (nd_next_websocket n)]))"

lemma makes_streams_complete: "makes_streams (complete op ec is_open verdict)"
  unfolding makes_streams_def
  by (cases op)
    (auto simp: websocket_known_def names_streams_def node_defs catch_all_def sbind_apply andthen_apply
      split: list.splits option.splits prod.splits sum.splits cxx_fault.splits if_splits)

lemma makes_streams_calls: "makes_streams (send_message msg c)" "makes_streams (back_off busy)"
  by (auto simp: makes_streams_def websocket_known_def names_streams_def node_defs)

section \<open>Starting the operations\<close>

text \<open>\<open>strand::wrap\<close> calls the handler it is given: one handler runs at a time here.\<close>

definition wraps :: "'c wire_env \<Rightarrow> bool" where
  "wraps we \<longleftrightarrow> (\<forall>s h. be_wrap (we_boost we) s h = h)"

text \<open>The stream of a node: secure if there is a TLS context, around the Boost object \<open>ws\<close>.\<close>

definition node_stream :: "'c wire_env \<Rightarrow> bool \<Rightarrow> nat \<Rightarrow> 'c handler websocket_stream_base" where
  "node_stream we tls ws = (if tls then secure_stream (we_boost we) ws else plain_stream (we_boost we) ws)"

lemma node_stream_contract: "websocket_contract tls ws (node_stream we tls ws)"
  using plain.websocket_contract_axioms secure.websocket_contract_axioms
  by (cases tls) (simp_all add: node_stream_def)

text \<open>The objects of a node are those its constructor and the factory of websockets made.\<close>

definition wired :: "'c wire_env \<Rightarrow> 'c wire \<Rightarrow> bool" where
  "wired we w \<longleftrightarrow>
     (\<exists>io. wr_io w = io_context_object (we_boost we) io) \<and> (\<exists>st. wr_strand w = strand_object (we_boost we) st)
     \<and> (\<exists>tm. wr_timer w = steady_timer_object (we_boost we) tm)
     \<and> (\<forall>stream \<in> set (wr_streams w). \<exists>ws. stream = node_stream we (wr_client_ctx w) ws)"

lemma wiredI:
  assumes "wired we w" "wr_io w' = wr_io w" "wr_strand w' = wr_strand w" "wr_timer w' = wr_timer w"
    and "wr_client_ctx w' = wr_client_ctx w" "wr_streams w' = wr_streams w"
  shows "wired we w'"
  using assms by (simp add: wired_def)

fun is_handshake :: "'c async \<Rightarrow> bool" where
  "is_handshake (Async_handshake ws) = True"
| "is_handshake _ = False"

text \<open>
  What carries an operation of the node: the operation of Boost that has its payload and goes to the object
  it is meant for.  Messages are posted to the node's strand, connections made to its endpoint,
  handshakes done for its host and the target \<open>/\<close>, messages written as they are in binary mode,
  waits made on its timer for the time of the back-off, and streams closed with the normal reason.
\<close>

definition on_stream :: "'c wire_env \<Rightarrow> 'c wire \<Rightarrow> nat \<Rightarrow> nat \<Rightarrow> bool" where
  "on_stream we w i ws \<longleftrightarrow> i < length (wr_streams w) \<and> wr_streams w ! i = node_stream we (wr_client_ctx w) ws"

definition carries :: "'c wire_env \<Rightarrow> 'c wire \<Rightarrow> 'c handler boost_op \<Rightarrow> bool" where
  "carries we w bop \<longleftrightarrow> (case op_handler bop of
       Post msg callback \<Rightarrow> bop = Posted (get_strand (wr_strand w)) (Post msg callback)
     | Async_connect \<Rightarrow> (\<exists>s. bop = Connect s (wr_endpoint w) Async_connect)
     | Async_handshake i \<Rightarrow> (\<exists>ws. on_stream we w i ws
         \<and> (bop = Ws_handshake ws (ep_address (wr_endpoint w)) ''/'' (Async_handshake i)
           \<or> wr_client_ctx w \<and> bop = Tls_connect ws (ep_address (wr_endpoint w)) ''/'' (Async_handshake i)))
     | Async_write i msg callback \<Rightarrow> (\<exists>ws. on_stream we w i ws \<and> bs_binary (wr_boost w) ws
         \<and> bop = Ws_write ws msg (Async_write i msg callback))
     | Backoff_wait t \<Rightarrow> bop = Wait (get_steady_timer (wr_timer w)) t (Backoff_wait t)
     | Async_read i \<Rightarrow> (\<exists>ws. on_stream we w i ws \<and> bop = Ws_read ws (Async_read i))
     | Async_close i \<Rightarrow> (\<exists>ws. on_stream we w i ws \<and> bop = Ws_close ws CLOSE_NORMAL (Async_close i)))"

lemma carries_tls: "carries we w bop \<Longrightarrow> tls_op bop \<Longrightarrow> wr_client_ctx w \<and> is_handshake (op_handler bop)"
  by (cases bop) (auto simp: carries_def split: async.splits)

text \<open>What carries an operation goes on carrying it while the wire grows.\<close>

definition grows :: "'c wire \<Rightarrow> 'c wire \<Rightarrow> bool" where
  "grows w w' \<longleftrightarrow> wr_strand w' = wr_strand w \<and> wr_timer w' = wr_timer w \<and> wr_endpoint w' = wr_endpoint w
     \<and> wr_client_ctx w' = wr_client_ctx w \<and> (\<exists>more. wr_streams w' = wr_streams w @ more)
     \<and> (\<forall>ws. bs_binary (wr_boost w) ws \<longrightarrow> bs_binary (wr_boost w') ws)"

lemma growsI:
  assumes "wr_strand w' = wr_strand w" "wr_timer w' = wr_timer w" "wr_endpoint w' = wr_endpoint w"
    and "wr_client_ctx w' = wr_client_ctx w" "wr_streams w' = wr_streams w"
    and "bs_binary (wr_boost w') = bs_binary (wr_boost w)"
  shows "grows w w'"
  using assms by (simp add: grows_def)

lemma grows_refl [simp]: "grows w w"
  by (simp add: growsI)

lemma grows_trans: "grows w w' \<Longrightarrow> grows w' w'' \<Longrightarrow> grows w w''"
  by (fastforce simp: grows_def)

lemma carries_grows: "grows w w' \<Longrightarrow> carries we w bop \<Longrightarrow> carries we w' bop"
  by (auto simp: carries_def grows_def on_stream_def nth_append split: async.splits)

text \<open>What a program of the wire may do: start what carries the operation, and make a stream.\<close>

definition issues :: "'c wire_env \<Rightarrow> 'c async list \<Rightarrow> nat \<Rightarrow> 'c wire \<Rightarrow> 'c wire \<Rightarrow> bool" where
  "issues we ops made w w' \<longleftrightarrow> wr_node w' = wr_node w \<and> length (wr_streams w') = length (wr_streams w) + made
     \<and> grows w w'
     \<and> (\<exists>bops. bs_ops (wr_boost w') = bs_ops (wr_boost w) @ bops \<and> map op_handler bops = ops
         \<and> (\<forall>bop \<in> set bops. carries we w' bop))"

lemma issues_at_boost:
  assumes "wired we w" "m (wr_boost w) = (Inr (), b')" "bs_ops b' = bs_ops (wr_boost w) @ [bop]"
    and "\<And>ws. bs_binary (wr_boost w) ws \<Longrightarrow> bs_binary b' ws" "op_handler bop = op"
    and "carries we (w\<lparr>wr_boost := b'\<rparr>) bop"
  shows "\<exists>w'. at_boost m w = (Inr (), w') \<and> wired we w' \<and> issues we [op] 0 w w'"
proof -
  have "wired we (w\<lparr>wr_boost := b'\<rparr>)" by (rule wiredI [OF assms(1)]) simp_all
  with assms show ?thesis by (auto simp: at_boost_def issues_def grows_def)
qed

lemma issues_start:
  assumes "wired we w" "starts m bop" "op_handler bop = op"
    and "\<And>b'. bs_binary b' = bs_binary (wr_boost w) \<Longrightarrow> carries we (w\<lparr>wr_boost := b'\<rparr>) bop"
  shows "\<exists>w'. at_boost m w = (Inr (), w') \<and> wired we w' \<and> issues we [op] 0 w w'"
proof (rule startsE [OF assms(2), where b = "wr_boost w"])
  fix b' assume b': "m (wr_boost w) = (Inr (), b')" "bs_ops b' = bs_ops (wr_boost w) @ [bop]"
    "bs_binary b' = bs_binary (wr_boost w)"
  show ?thesis
    by (rule issues_at_boost [where m = m, OF assms(1) b'(1,2) _ assms(3,4)]) (simp_all add: b'(3))
qed

lemma stream_at:
  assumes "wired we w" "i < length (wr_streams w)"
  obtains ws where "on_stream we w i ws" "websocket_contract (wr_client_ctx w) ws (wr_streams w ! i)"
    "with_stream i k w = at_boost (k (wr_streams w ! i)) w"
proof -
  obtain ws where "wr_streams w ! i = node_stream we (wr_client_ctx w) ws"
    using assms nth_mem unfolding wired_def by blast
  with assms(2) node_stream_contract [of "wr_client_ctx w" ws we] that [of ws] show ?thesis
    by (simp add: on_stream_def with_stream_def)
qed

lemma on_stream_boost [simp]: "on_stream we (w\<lparr>wr_boost := b\<rparr>) i ws = on_stream we w i ws"
  by (simp add: on_stream_def)

lemma make_stream_makes:
  assumes "wired we w"
  shows "\<exists>ws stream w'. make_stream we w = (Inr stream, w') \<and> wired we w' \<and> issues we [] 1 w w'
    \<and> stream = node_stream we (wr_client_ctx w) ws \<and> on_stream we w' (length (wr_streams w)) ws"
proof -
  define b where "b = wr_boost w"
  define object where "object = (if wr_client_ctx w then Secure_websocket (wr_socket w) 0 else Websocket (wr_socket w))"
  define stream where "stream = node_stream we (wr_client_ctx w) (length (bs_objects b))"
  define w' where "w' = w\<lparr>wr_boost := b\<lparr>bs_objects := bs_objects b @ [object]\<rparr>, wr_streams := wr_streams w @ [stream]\<rparr>"
  have run: "make_stream we w = (Inr stream, w')"
    by (simp add: make_stream_def at_boost_def websocket_def websocket_stream_def websocket_secure_stream_def
        make_object_def andthen_apply sbind_apply Let_def w'_def stream_def node_stream_def object_def b_def)
  have "wired we w'" using assms by (auto simp: w'_def wired_def stream_def)
  moreover have "issues we [] 1 w w'" by (simp add: issues_def grows_def w'_def b_def)
  moreover have "on_stream we w' (length (wr_streams w)) (length (bs_objects b))"
    by (simp add: on_stream_def w'_def stream_def)
  ultimately show ?thesis using run stream_def by blast
qed

lemma issues_trans: "issues we ops m w w' \<Longrightarrow> issues we ops' m' w' w'' \<Longrightarrow> issues we (ops @ ops') (m + m') w w''"
  unfolding issues_def by (force intro: grows_trans carries_grows)

text \<open>Each operation reaches Boost with what it carries.\<close>

lemma issue_stream_op:
  assumes "wraps we" "wired we w" "names_streams (length (wr_streams w)) [op]"
  shows "\<exists>w'. issue we op w = (Inr (), w') \<and> wired we w' \<and> issues we [op] 0 w w'"
proof -
  obtain io st tm where obs: "wr_io w = io_context_object (we_boost we) io"
      "wr_strand w = strand_object (we_boost we) st" "wr_timer w = steady_timer_object (we_boost we) tm"
    using assms(2) unfolding wired_def by blast
  have handler: "strand_wrap (wr_strand w) op = op" using assms(1) obs(2) by (simp add: wraps_def strand_object_def)
  show ?thesis
  proof (cases op)
    case (Post msg c)
    have "\<exists>w'. at_boost (start_op (Posted st op)) w = (Inr (), w') \<and> wired we w' \<and> issues we [op] 0 w w'"
      by (rule issues_start [OF assms(2) starts_op [THEN iffD2, OF refl]])
        (simp_all add: carries_def obs(2) strand_object_def Post)
    then show ?thesis using obs(2) Post by (simp add: issue_def strand_object_def)
  next
    case Async_connect
    define b' where "b' = (wr_boost w)\<lparr>bs_objects := bs_objects (wr_boost w) @ [Tcp_socket io]\<rparr>"
    define w1 where "w1 = w\<lparr>wr_boost := b'\<rparr>"
    let ?s = "tcp_socket_object (we_boost we) (length (bs_objects (wr_boost w)))"
    have made: "at_boost (make_unique_tcp_socket (wr_io w)) w = (Inr ?s, w1)"
      by (simp add: obs(1) io_context_object_def tcp_socket_def make_object_def at_boost_def w1_def b'_def
          sbind_apply andthen_apply)
    have w1: "wired we w1" "issues we [] 0 w w1"
      using assms(2) by (auto simp: wired_def w1_def b'_def issues_def grows_def)
    have "\<exists>w'. at_boost (start_op (Connect (length (bs_objects (wr_boost w))) (wr_endpoint w) op)) w1 = (Inr (), w')
        \<and> wired we w' \<and> issues we [op] 0 w1 w'"
      by (rule issues_start [OF w1(1) starts_op [THEN iffD2, OF refl]])
        (simp_all add: carries_def Async_connect w1_def)
    then show ?thesis
      using issues_trans [OF w1(2)] Async_connect handler
      by (auto simp: issue_def made sbind_apply tcp_socket_object_def)
  next
    case (Async_handshake i)
    then show ?thesis using assms(3) by (simp add: names_streams_def)
  next
    case (Async_write i msg c)
    let ?m = "andthen (ws_binary (wr_streams w ! i) True) (ws_async_write (wr_streams w ! i) msg op)"
    have "i < length (wr_streams w)" using Async_write assms(3) by (simp add: names_streams_def)
    then obtain ws where ws: "on_stream we w i ws" "websocket_contract (wr_client_ctx w) ws (wr_streams w ! i)"
      "with_stream i (\<lambda>stream. andthen (ws_binary stream True) (ws_async_write stream msg op)) w
         = at_boost (andthen (ws_binary (wr_streams w ! i) True) (ws_async_write (wr_streams w ! i) msg op)) w"
      by (rule stream_at [OF assms(2)])
    obtain b' where b': "andthen (ws_binary (wr_streams w ! i) True) (ws_async_write (wr_streams w ! i) msg op) (wr_boost w)
        = (Inr (), b')" "bs_ops b' = bs_ops (wr_boost w) @ [Ws_write ws msg op]"
        "bs_binary b' = (bs_binary (wr_boost w))(ws := True)"
      using websocket_contract.writes_binary [OF ws(2)] by blast
    have "carries we (w\<lparr>wr_boost := b'\<rparr>) (Ws_write ws msg op)"
      using ws(1) b'(3) by (auto simp: carries_def Async_write)
    then have "\<exists>w'. at_boost (andthen (ws_binary (wr_streams w ! i) True) (ws_async_write (wr_streams w ! i) msg op)) w
        = (Inr (), w') \<and> wired we w' \<and> issues we [op] 0 w w'"
      by (rule issues_at_boost [where m = ?m and w = w and b' = b' and bop = "Ws_write ws msg op", OF assms(2) b'(1,2), rotated 2]) (simp_all add: b'(3))
    then show ?thesis using Async_write handler ws(3) by (simp add: issue_def)
  next
    case (Backoff_wait t)
    define b' where "b' = (wr_boost w)\<lparr>bs_timer := (bs_timer (wr_boost w))(tm := t)\<rparr>"
    define w1 where "w1 = w\<lparr>wr_boost := b'\<rparr>"
    have set: "\<exists>k. at_boost (timer_expires_from_now (wr_timer w) t) w = (Inr k, w1)"
      by (simp add: obs(3) steady_timer_object_def at_boost_def w1_def b'_def sbind_apply andthen_apply)
    have w1: "wired we w1" "issues we [] 0 w w1"
      using assms(2) by (auto simp: wired_def w1_def b'_def issues_def grows_def)
    have "timer_async_wait (wr_timer w) op (wr_boost w1)
        = (Inr (), (wr_boost w1)\<lparr>bs_ops := bs_ops (wr_boost w1) @ [Wait tm t op]\<rparr>)"
      by (simp add: obs(3) steady_timer_object_def w1_def b'_def sbind_apply start_op_def)
    then have "\<exists>w'. at_boost (timer_async_wait (wr_timer w) op) w1 = (Inr (), w') \<and> wired we w' \<and> issues we [op] 0 w1 w'"
      by (rule issues_at_boost [where bop = "Wait tm t op", OF w1(1)])
        (simp_all add: carries_def Backoff_wait w1_def obs(3) steady_timer_object_def)
    then show ?thesis
      using issues_trans [OF w1(2)] Backoff_wait handler set by (auto simp: issue_def sbind_apply)
  next
    case (Async_read i)
    then have "i < length (wr_streams w)" using assms(3) by (simp add: names_streams_def)
    then obtain ws where ws: "on_stream we w i ws" "websocket_contract (wr_client_ctx w) ws (wr_streams w ! i)"
      "with_stream i (\<lambda>stream. ws_async_read stream op) w = at_boost (ws_async_read (wr_streams w ! i) op) w"
      by (rule stream_at [OF assms(2)])
    have "\<exists>w'. at_boost (ws_async_read (wr_streams w ! i) op) w = (Inr (), w') \<and> wired we w' \<and> issues we [op] 0 w w'"
      by (rule issues_start [OF assms(2) websocket_contract.reads [OF ws(2)]])
        (use ws(1) in \<open>auto simp: carries_def Async_read\<close>)
    then show ?thesis using Async_read handler ws(3) by (simp add: issue_def)
  next
    case (Async_close i)
    then have "i < length (wr_streams w)" using assms(3) by (simp add: names_streams_def)
    then obtain ws where ws: "on_stream we w i ws" "websocket_contract (wr_client_ctx w) ws (wr_streams w ! i)"
      "with_stream i (\<lambda>stream. ws_async_close stream CLOSE_NORMAL op) w
         = at_boost (ws_async_close (wr_streams w ! i) CLOSE_NORMAL op) w"
      by (rule stream_at [OF assms(2)])
    have "\<exists>w'. at_boost (ws_async_close (wr_streams w ! i) CLOSE_NORMAL op) w = (Inr (), w') \<and> wired we w' \<and> issues we [op] 0 w w'"
      by (rule issues_start [OF assms(2) websocket_contract.closes [OF ws(2)]])
        (use ws(1) in \<open>auto simp: carries_def Async_close\<close>)
    then show ?thesis using Async_close handler ws(3) by (simp add: issue_def)
  qed
qed

lemma issue_handshake:
  assumes "wraps we" "wired we w"
  defines "op \<equiv> Async_handshake (length (wr_streams w))"
  shows "\<exists>w'. issue we op w = (Inr (), w') \<and> wired we w' \<and> issues we [op] 1 w w'"
proof -
  obtain ws stream w1 where w1: "make_stream we w = (Inr stream, w1)" "wired we w1" "issues we [] 1 w w1"
    "stream = node_stream we (wr_client_ctx w) ws" "on_stream we w1 (length (wr_streams w)) ws"
    using make_stream_makes [OF assms(2)] by blast
  obtain st where "wr_strand w = strand_object (we_boost we) st" using assms(2) unfolding wired_def by blast
  then have handler: "strand_wrap (wr_strand w) op = op" using assms(1) by (simp add: wraps_def strand_object_def)
  have same: "wr_client_ctx w1 = wr_client_ctx w" "wr_endpoint w1 = wr_endpoint w"
    using w1(3) by (simp_all add: issues_def grows_def)
  have contract: "websocket_contract (wr_client_ctx w) ws stream" using node_stream_contract w1(4) by simp
  have "\<exists>w'. at_boost (ws_async_handshake stream (ep_address (wr_endpoint w)) ''/'' op) w1 = (Inr (), w')
      \<and> wired we w' \<and> issues we [op] 0 w1 w'"
    by (rule issues_start [OF w1(2) websocket_contract.handshakes [OF contract]])
      (use w1(5) same in \<open>auto simp: carries_def op_def\<close>)
  then show ?thesis
    using issues_trans [OF w1(3)] handler by (fastforce simp: issue_def sbind_apply w1(1) op_def)
qed

text \<open>A program of the node, carried out on the wire.\<close>

lemma for_each_issue:
  assumes "wraps we" "wired we w" "names_streams (length (wr_streams w)) ops"
  shows "\<exists>w'. for_each ops (issue we) w = (Inr (), w') \<and> wired we w' \<and> issues we ops 0 w w'"
  using assms(2,3)
proof (induction ops arbitrary: w)
  case Nil
  then show ?case by (simp add: issues_def)
next
  case (Cons op ops)
  from Cons.prems have names: "names_streams (length (wr_streams w)) [op]" "names_streams (length (wr_streams w)) ops"
    by (simp_all add: names_streams_def)
  obtain w1 where w1: "issue we op w = (Inr (), w1)" "wired we w1" "issues we [op] 0 w w1"
    using issue_stream_op [OF assms(1) Cons.prems(1) names(1)] by blast
  have "length (wr_streams w1) = length (wr_streams w)" using w1(3) by (simp add: issues_def)
  with Cons.IH [OF w1(2)] names(2) obtain w' where
    "for_each ops (issue we) w1 = (Inr (), w')" "wired we w'" "issues we ops 0 w1 w'" by auto
  then show ?case using issues_trans [OF w1(3)] w1(1) by (fastforce simp: andthen_apply)
qed

lemma run_node_issues:
  assumes "wraps we" "wired we w" "makes_streams p" "p (wr_node w) = (r, n)"
    and "nd_pending (wr_node w) = []" "websocket_known (wr_node w)"
    and "nd_next_websocket (wr_node w) = length (wr_streams w)"
  shows "\<exists>w' made. run_node we p w = (r, w') \<and> wired we w'
    \<and> issues we (nd_pending n) made (w\<lparr>wr_node := n\<lparr>nd_pending := []\<rparr>\<rparr>) w'
    \<and> nd_next_websocket n = length (wr_streams w')"
proof -
  let ?w = "w\<lparr>wr_node := n\<lparr>nd_pending := []\<rparr>\<rparr>"
  have ok: "wired we ?w" by (rule wiredI [OF assms(2)]) simp_all
  have run: "run_node we p w = andthen (for_each (nd_pending n) (issue we)) (lift_cxx r) ?w"
    by (simp add: run_node_def assms(4))
  consider (stay) "nd_next_websocket n = length (wr_streams w)" "names_streams (length (wr_streams w)) (nd_pending n)"
    | (new) "nd_next_websocket n = Suc (length (wr_streams w))" "nd_pending n = [Async_handshake (length (wr_streams w))]"
    using assms(3-7) unfolding makes_streams_def by metis
  then show ?thesis
  proof cases
    case stay
    obtain w' where "for_each (nd_pending n) (issue we) ?w = (Inr (), w')" "wired we w'" "issues we (nd_pending n) 0 ?w w'"
      using for_each_issue [OF assms(1) ok, of "nd_pending n"] stay(2) by auto
    then show ?thesis using stay(1) by (auto simp: run andthen_apply issues_def)
  next
    case new
    obtain w' where "issue we (Async_handshake (length (wr_streams w))) ?w = (Inr (), w')" "wired we w'"
        "issues we (nd_pending n) 1 ?w w'"
      using issue_handshake [OF assms(1) ok] new(2) by auto
    then show ?thesis using new by (auto simp: run andthen_apply issues_def)
  qed
qed

section \<open>The wire refines the node\<close>

text \<open>
  A state of the wire matches a state of the node when the fields agree, every operation that Boost
  holds carries the node's operation that is its handler, and the node's outstanding operations
  are those and \<open>lost\<close>, the handshakes whose handlers secure streams have dropped.
\<close>

definition matches :: "'c wire_env \<Rightarrow> 'c async multiset \<Rightarrow> 'c wire \<Rightarrow> 'c node \<Rightarrow> bool" where
  "matches we lost w n \<longleftrightarrow> wr_node w = n\<lparr>nd_pending := []\<rparr> \<and> websocket_known n
     \<and> nd_next_websocket n = length (wr_streams w)
     \<and> (\<forall>bop \<in> set (bs_ops (wr_boost w)). carries we w bop)
     \<and> mset (nd_pending n) = mset (map op_handler (bs_ops (wr_boost w))) + lost"

lemma run_node_matches:
  assumes "wraps we" "wired we w" "matches we lost w n" "makes_streams p" "adds_ops p" "p n = (r, n')"
  shows "\<exists>w'. run_node we p w = (r, w') \<and> wired we w' \<and> matches we lost w' n'"
proof -
  let ?n = "wr_node w"
  have n: "n = later (nd_pending n) ?n" "nd_pending ?n = []" "websocket_known ?n"
      "nd_next_websocket ?n = length (wr_streams w)"
    using assms(3) by (auto simp: matches_def later_def websocket_known_def)
  obtain r0 m where m: "p ?n = (r0, m)" by fastforce
  from assms(5) m have "p (later (nd_pending n) ?n) = (r0, later (nd_pending n) m)" by (simp add: adds_ops_def)
  with n(1) assms(6) have r: "r0 = r" "n' = later (nd_pending n) m" by simp_all
  obtain w' made where w': "run_node we p w = (r, w')" "wired we w'"
      "issues we (nd_pending m) made (w\<lparr>wr_node := m\<lparr>nd_pending := []\<rparr>\<rparr>) w'" "nd_next_websocket m = length (wr_streams w')"
    using run_node_issues [OF assms(1,2,4) m n(2,3,4)] r(1) by blast
  have known: "websocket_known m" using assms(4) m n(2,3) unfolding makes_streams_def by blast
  obtain bops where bops: "bs_ops (wr_boost w') = bs_ops (wr_boost w) @ bops" "nd_pending m = map op_handler bops"
      "\<forall>bop \<in> set bops. carries we w' bop"
    using w'(3) unfolding issues_def by auto
  have grown: "grows w w'" using w'(3) by (simp add: issues_def grows_def)
  have "\<forall>bop \<in> set (bs_ops (wr_boost w')). carries we w' bop"
    using assms(3) bops(1,3) carries_grows [OF grown] by (auto simp: matches_def)
  moreover have "mset (nd_pending n') = mset (map op_handler (bs_ops (wr_boost w'))) + lost"
    using assms(3) bops(1,2) by (simp add: matches_def r(2) later_def)
  moreover have "wr_node w' = n'\<lparr>nd_pending := []\<rparr>" "websocket_known n'" "nd_next_websocket n' = length (wr_streams w')"
    using w'(3,4) known by (auto simp: r(2) later_def issues_def websocket_known_def)
  ultimately have "matches we lost w' n'" unfolding matches_def by blast
  with w'(1,2) show ?thesis by blast
qed

lemma mset_remove_at: "k < length xs \<Longrightarrow> mset xs = add_mset (xs ! k) (mset (remove_at k xs))"
  by (subst remove_at_split [of k xs]) (simp_all add: remove_at_def)

lemma remove_at_map: "remove_at k (map f xs) = map f (remove_at k xs)"
  by (simp add: remove_at_def take_map drop_map)

text \<open>
  A completion at Boost: the handler of a TLS handshake is inside the stream, any other operation
  yields its handler.
\<close>

lemma complete_op_cases:
  assumes "k < length (bs_ops b)" "\<And>ws h. bs_ops b ! k \<noteq> Tls_accept ws h"
  obtains (handler) "\<not> tls_op (bs_ops b ! k)"
      "complete_op k ec b = (Inr (Some (op_handler (bs_ops b ! k))), b\<lparr>bs_ops := remove_at k (bs_ops b)\<rparr>)"
    | (tls) "tls_op (bs_ops b ! k)" "is_err ec" "complete_op k ec b = (Inr None, b\<lparr>bs_ops := remove_at k (bs_ops b)\<rparr>)"
    | (next_handshake) ws host target h b' where "bs_ops b ! k = Tls_connect ws host target h" "\<not> is_err ec"
      "complete_op k ec b = (Inr None, b')" "bs_binary b' = bs_binary b"
      "bs_ops b' = remove_at k (bs_ops b) @ [Ws_handshake ws host target h]"
  using assms
  by (cases "bs_ops b ! k"; cases "is_err ec")
    (auto simp: complete_op_def tls_connected_def expires_never_def start_op_def andthen_apply)

text \<open>Nothing disturbs the connection, as for the machine of the node.\<close>

fun wire_calm :: "'c wire_event \<Rightarrow> 'c wire \<Rightarrow> bool" where
  "wire_calm (Wire_complete k ec verdict) w \<longleftrightarrow>
     (k < length (bs_ops (wr_boost w)) \<longrightarrow>
       (case op_handler (bs_ops (wr_boost w) ! k) of
          Async_write _ _ _ \<Rightarrow> \<not> is_reconnect ec
        | Async_read _ \<Rightarrow> \<not> is_err ec \<and> (verdict = Inr False \<or> (\<exists>e. verdict = Inl (Throws e)))
        | _ \<Rightarrow> True))"
| "wire_calm _ w \<longleftrightarrow> True"

text \<open>
  \<open>unseen\<close>: the node does not see the completion of a TLS handshake, or of an operation that is
  not there.  \<open>stands_for\<close>: any other event of the wire is one of the machine, a completion that of
  the same operation with the same error code and verdict.  \<open>lost_by\<close>: the handler that goes
  with a failed TLS handshake.
\<close>

fun unseen :: "'c wire_event \<Rightarrow> 'c wire \<Rightarrow> bool" where
  "unseen (Wire_complete k ec verdict) w \<longleftrightarrow>
     (k < length (bs_ops (wr_boost w)) \<longrightarrow> tls_op (bs_ops (wr_boost w) ! k))"
| "unseen _ w \<longleftrightarrow> False"

fun stands_for :: "'c wire_event \<Rightarrow> 'c wire \<Rightarrow> 'c node \<Rightarrow> 'c node_event \<Rightarrow> bool" where
  "stands_for (Wire_send msg callback) w n ev \<longleftrightarrow> ev = Ev_send msg callback"
| "stands_for (Wire_back_off busy) w n ev \<longleftrightarrow> ev = Ev_back_off busy"
| "stands_for (Wire_complete k ec verdict) w n ev \<longleftrightarrow> (\<exists>j is_open. ev = Ev_complete j ec is_open verdict
     \<and> j < length (nd_pending n) \<and> nd_pending n ! j = op_handler (bs_ops (wr_boost w) ! k))"

fun lost_by :: "'c wire_event \<Rightarrow> 'c wire \<Rightarrow> 'c async multiset" where
  "lost_by (Wire_complete k ec verdict) w =
     (if k < length (bs_ops (wr_boost w)) \<and> tls_op (bs_ops (wr_boost w) ! k) \<and> is_err ec
      then {#op_handler (bs_ops (wr_boost w) ! k)#} else {#})"
| "lost_by _ w = {#}"

lemma websocket_is_open_returns:
  assumes "wired we w" "websocket_known (wr_node w)" "nd_next_websocket (wr_node w) = length (wr_streams w)"
  shows "\<exists>v. websocket_is_open w = (Inr v, w)"
proof (cases "nd_websocket (wr_node w)")
  case None
  then show ?thesis by (auto simp: websocket_is_open_def)
next
  case (Some i)
  then have "i < length (wr_streams w)" using assms(2,3) by (simp add: websocket_known_def)
  then obtain ws where ws: "websocket_contract (wr_client_ctx w) ws (wr_streams w ! i)"
    "with_stream i ws_is_open w = at_boost (ws_is_open (wr_streams w ! i)) w"
    by (rule stream_at [OF assms(1)])
  obtain g where "ws_is_open (wr_streams w ! i) = gets g"
    using websocket_contract.is_open_reads [OF ws(1)] by blast
  with ws Some show ?thesis by (simp add: websocket_is_open_def at_boost_def)
qed

text \<open>One step of the wire against the machine.\<close>

definition simulated :: "'c wire_env \<Rightarrow> 'c async multiset \<Rightarrow> 'c wire_event \<Rightarrow> 'c wire \<Rightarrow> 'c node
    \<Rightarrow> unit cxx \<Rightarrow> 'c wire \<Rightarrow> bool" where
  "simulated we lost e w n r w' \<longleftrightarrow> wired we w' \<and> (\<exists>n'. matches we (lost + lost_by e w) w' n'
     \<and> (if unseen e w then r = Inr () \<and> n' = n
        else \<exists>ev. stands_for e w n ev \<and> node_step ev n = (r, n') \<and> (wire_calm e w \<longrightarrow> calm ev n)))"

lemma carries_not_accept: "carries we w bop \<Longrightarrow> bop \<noteq> Tls_accept ws h"
  by (auto simp: carries_def split: async.splits)

lemma wire_complete_simulated:
  assumes "wraps we" "wired we w" "matches we lost w n" "k < length (bs_ops (wr_boost w))"
    and "wire_step we (Wire_complete k ec verdict) w = (r, w')"
  shows "simulated we lost (Wire_complete k ec verdict) w n r w'"
proof -
  let ?b = "wr_boost w"
  let ?op = "op_handler (bs_ops ?b ! k)"
  define w1 where "w1 = w\<lparr>wr_socket := connected_socket (bs_ops ?b ! k) (wr_socket w)\<rparr>"
  define w2 where "w2 = w1\<lparr>wr_boost := ?b\<lparr>bs_ops := remove_at k (bs_ops ?b)\<rparr>\<rparr>"
  have noted: "note_socket k w = (Inr (), w1)" using assms(4) by (simp add: note_socket_def w1_def)
  have fewer: "mset (map op_handler (bs_ops ?b)) = add_mset ?op (mset (map op_handler (remove_at k (bs_ops ?b))))"
    using mset_remove_at [of k "map op_handler (bs_ops ?b)"] assms(4) by (simp add: remove_at_map)
  have sub: "set (remove_at k (bs_ops ?b)) \<subseteq> set (bs_ops ?b)" by (rule set_remove_at)
  have carried: "carries we w (bs_ops ?b ! k)" using assms(3,4) by (simp add: matches_def)
  have wired2: "wired we w2" by (rule wiredI [OF assms(2)]) (simp_all add: w2_def w1_def)
  have grows2: "grows w w2" by (rule growsI) (simp_all add: w2_def w1_def)
  have carries2: "\<forall>bop \<in> set (bs_ops (wr_boost w2)). carries we w2 bop"
    using assms(3) sub carries_grows [OF grows2] by (auto simp: matches_def w2_def)
  show ?thesis
  proof (cases rule: complete_op_cases [OF assms(4) carries_not_accept [OF carried], where ec = ec,
        case_names handler tls next_handshake])
    case handler
    have completed: "at_boost (complete_op k ec) w1 = (Inr (Some ?op), w2)"
      by (simp add: at_boost_def w1_def w2_def handler(2))
    have pending: "mset (nd_pending n) = add_mset ?op (mset (map op_handler (remove_at k (bs_ops ?b))) + lost)"
      using assms(3) fewer by (simp add: matches_def)
    then have "?op \<in> set (nd_pending n)" by (metis set_mset_mset union_single_eq_member)
    then obtain j where j: "j < length (nd_pending n)" "nd_pending n ! j = ?op" by (auto simp: in_set_conv_nth)
    define n1 where "n1 = n\<lparr>nd_pending := remove_at j (nd_pending n)\<rparr>"
    have "mset (remove_at j (nd_pending n)) = mset (map op_handler (remove_at k (bs_ops ?b))) + lost"
      using mset_remove_at [OF j(1)] j(2) pending by simp
    then have matches2: "matches we lost w2 n1"
      using assms(3) carries2 by (auto simp: matches_def w2_def w1_def n1_def websocket_known_def)
    obtain is_open where is_open: "websocket_is_open w2 = (Inr is_open, w2)"
      using websocket_is_open_returns [OF wired2] matches2 by (auto simp: matches_def websocket_known_def)
    obtain r' n' where n': "complete ?op ec is_open verdict n1 = (r', n')" by fastforce
    obtain w'' where w'': "run_node we (complete ?op ec is_open verdict) w2 = (r', w'')" "wired we w''" "matches we lost w'' n'"
      using run_node_matches [OF assms(1) wired2 matches2 makes_streams_complete adds_ops_complete n'] by blast
    have "wire_step we (Wire_complete k ec verdict) w = (r', w'')"
      by (simp add: noted completed is_open w''(1) andthen_apply sbind_apply)
    with assms(5) have same: "r = r'" "w' = w''" by simp_all
    have "node_step (Ev_complete j ec is_open verdict) n = (r', n')"
      using j n' by (simp add: n1_def)
    moreover have "wire_calm (Wire_complete k ec verdict) w \<longrightarrow> calm (Ev_complete j ec is_open verdict) n"
      using j assms(4) by simp
    moreover have "stands_for (Wire_complete k ec verdict) w n (Ev_complete j ec is_open verdict)"
      using j by simp
    moreover have "\<not> unseen (Wire_complete k ec verdict) w" "lost + lost_by (Wire_complete k ec verdict) w = lost"
      using handler(1) assms(4) by simp_all
    ultimately show ?thesis
      using w''(2,3) same unfolding simulated_def by (metis (no_types, lifting))
  next
    case tls
    have "wire_step we (Wire_complete k ec verdict) w = (Inr (), w2)"
      using tls(3) by (simp add: noted at_boost_def andthen_apply sbind_apply w2_def w1_def)
    with assms(5) have same: "r = Inr ()" "w' = w2" by simp_all
    have "matches we (lost + {#?op#}) w2 n"
      using assms(3) fewer carries2 by (auto simp: matches_def w2_def w1_def)
    then show ?thesis using wired2 same tls(1,2) assms(4) by (auto simp: simulated_def)
  next
    case (next_handshake ws host target h b')
    define w3 where "w3 = w1\<lparr>wr_boost := b'\<rparr>"
    have "wire_step we (Wire_complete k ec verdict) w = (Inr (), w3)"
      using next_handshake(3) by (simp add: noted at_boost_def andthen_apply sbind_apply w3_def w1_def)
    with assms(5) have same: "r = Inr ()" "w' = w3" by simp_all
    have wired3: "wired we w3" by (rule wiredI [OF assms(2)]) (simp_all add: w3_def w1_def)
    have grows3: "grows w w3" by (rule growsI) (simp_all add: w3_def w1_def next_handshake(4))
    have "carries we w3 (Tls_connect ws host target h)"
      using carries_grows [OF grows3 carried] next_handshake(1) by simp
    then have "carries we w3 (Ws_handshake ws host target h)"
      by (auto simp: carries_def split: async.splits)
    moreover have "\<forall>bop \<in> set (remove_at k (bs_ops ?b)). carries we w3 bop"
      using assms(3) sub carries_grows [OF grows3] by (auto simp: matches_def)
    moreover have "mset (map op_handler (bs_ops b')) = mset (map op_handler (bs_ops ?b))"
      using fewer next_handshake(1,5) by simp
    ultimately have "matches we lost w3 n"
      using assms(3) next_handshake(5) by (auto simp: matches_def w3_def w1_def)
    then show ?thesis using wired3 same next_handshake(1,2) assms(4) by (auto simp: simulated_def)
  qed
qed

lemma run_call_simulated:
  assumes "wraps we" "wired we w" "matches we lost w n" "node_step ev = p" "makes_streams p" "adds_ops p"
    and "run_node we p w = (r, w')"
  shows "wired we w' \<and> (\<exists>n'. matches we lost w' n' \<and> node_step ev n = (r, n'))"
proof -
  obtain r' n' where n': "p n = (r', n')" by fastforce
  from run_node_matches [OF assms(1,2,3,5,6) n'] assms(7) n' show ?thesis
    by (auto simp: assms(4))
qed

lemma wire_step_simulated:
  assumes "wraps we" "wired we w" "matches we lost w n" "wire_step we e w = (r, w')"
  shows "simulated we lost e w n r w'"
proof (cases e)
  case (Wire_send msg c)
  have "node_step (Ev_send msg c) = send_message msg c" by (simp add: fun_eq_iff)
  from run_call_simulated [OF assms(1-3) this makes_streams_calls(1) adds_ops_calls(1)] assms(4) Wire_send
  show ?thesis by (auto simp: simulated_def)
next
  case (Wire_back_off busy)
  have "node_step (Ev_back_off busy :: 'a node_event) = back_off busy" by (simp add: fun_eq_iff)
  from run_call_simulated [OF assms(1-3) this makes_streams_calls(2) adds_ops_calls(2)] assms(4) Wire_back_off
  show ?thesis by (auto simp: simulated_def)
next
  case (Wire_complete k ec verdict)
  show ?thesis
  proof (cases "k < length (bs_ops (wr_boost w))")
    case True
    with wire_complete_simulated [OF assms(1-3) True] assms(4) Wire_complete show ?thesis by blast
  next
    case False
    then have "note_socket k w = (Inr (), w)" "at_boost (complete_op k ec) w = (Inr None, w)"
      by (simp_all add: note_socket_def at_boost_def complete_op_def)
    then have "wire_step we e w = (Inr (), w)" by (simp add: Wire_complete andthen_apply sbind_apply)
    with assms(2-4) False Wire_complete show ?thesis by (simp add: simulated_def)
  qed
qed

lemma constructor_matches:
  assumes "io_context (we_boost we) no_boost = (Inr io, b)" "node_constructor we io host port b = (Inr w, b')"
  shows "wired we w \<and> matches we {#} w new_node"
proof -
  have "\<exists>k. io = io_context_object (we_boost we) k" "bs_ops b = []"
    using assms(1) by (auto simp: io_context_def make_object_def sbind_apply andthen_apply no_boost_def)
  with assms(2) show ?thesis
    by (auto simp: node_constructor_def io_context_object_def strand_def steady_timer_def make_object_def
        sbind_apply andthen_apply wired_def matches_def websocket_known_def new_node_def
        split: sum.splits prod.splits)
qed

lemma reachable_wired:
  assumes "wraps we" "wire_reachable we env w" "\<And>ev w. env ev w \<Longrightarrow> calm_only \<Longrightarrow> wire_calm ev w"
  shows "wired we w \<and> (\<exists>lost n. reachable (\<lambda>ev n. calm_only \<longrightarrow> calm ev n) n \<and> matches we lost w n)"
  using assms(2)
proof (induction rule: wire_reachable.induct)
  case (made io b host port w b')
  from constructor_matches [OF made] reachable.initial show ?case by blast
next
  case (step w ev x w')
  then obtain lost n where n: "wired we w" "reachable (\<lambda>ev n. calm_only \<longrightarrow> calm ev n) n" "matches we lost w n" by blast
  from wire_step_simulated [OF assms(1) n(1,3) step.hyps(3)] assms(3) [OF step.hyps(2)] reachable.step [OF n(2)] n(2)
  show ?case unfolding simulated_def by (metis (no_types, lifting))
qed

section \<open>Properties of a node over streams\<close>

text \<open>
  C25. The node over sockets, timers and plain or secure streams simulates the machine step by step.
  A new node matches the machine's initial state; and from a state that matches, every step of the wire
  is either one that the node does not see (the completion of a TLS handshake), or ends as the step
  of the machine for the same event: the same message sent, the same change of speed, or the
  completion of the same operation with the same error code, and a calm event for a calm one.
  Afterwards the states match again: every operation that Boost holds carries one of the node, on the right
  object and with its message, time, host or reason, and no operation of the node is missing but
  the handshakes lost in TLS handshakes that failed.
\<close>

theorem wire_refines_node:
  assumes "wraps we"
  shows "(\<forall>io b host port w b'. io_context (we_boost we) no_boost = (Inr io, b)
      \<longrightarrow> node_constructor we io host port b = (Inr w, b') \<longrightarrow> wired we w \<and> matches we {#} w new_node)
   \<and> (\<forall>lost e w n r w'. wired we w \<longrightarrow> matches we lost w n \<longrightarrow> wire_step we e w = (r, w') \<longrightarrow>
       wired we w' \<and> (\<exists>n'. matches we (lost + lost_by e w) w' n'
         \<and> (if unseen e w then r = Inr () \<and> n' = n
            else \<exists>ev. stands_for e w n ev \<and> node_step ev n = (r, n') \<and> (wire_calm e w \<longrightarrow> calm ev n))))"
  using constructor_matches wire_step_simulated [OF assms, unfolded simulated_def] by blast

section \<open>A TLS handshake that fails\<close>

text \<open>While nothing disturbs the connection a read is outstanding only when it is up.\<close>

definition reads_connected :: "'c node \<Rightarrow> bool" where
  "reads_connected n \<longleftrightarrow> (\<forall>ws. Async_read ws \<in> set (nd_pending n) \<longrightarrow> nd_state n = Connected)"

lemma reads_connected_subset:
  "reads_connected n \<Longrightarrow> k < length (nd_pending n) \<Longrightarrow> reads_connected (n\<lparr>nd_pending := remove_at k (nd_pending n)\<rparr>)"
  using set_remove_at [of k "nd_pending n"] by (auto simp: reads_connected_def)

abbreviation stays_reading :: "('c, unit) node_prog \<Rightarrow> 'c node \<Rightarrow> bool" where
  "stays_reading p n \<equiv> wp p (\<lambda>_. reads_connected) (\<lambda>_. reads_connected) n"

lemmas reading_simps = reads_connected_def node_defs wp_simps

lemma post_reading: "reads_connected n \<Longrightarrow> stays_reading (handle_post msg c) n"
  by (cases "nd_state n") (auto simp: reading_simps split: list.splits option.splits prod.splits)

lemma connect_reading: "reads_connected n \<Longrightarrow> nd_state n = Connecting \<Longrightarrow> stays_reading (handle_connect ec) n"
  by (auto simp: reading_simps)

lemma handshake_reading: "reads_connected n \<Longrightarrow> nd_state n = Connecting \<Longrightarrow> stays_reading (handle_handshake ec) n"
  by (auto simp: reading_simps split: list.splits option.splits prod.splits cxx_fault.splits)

lemma backoff_reading: "reads_connected n \<Longrightarrow> nd_state n = Connected \<Longrightarrow> stays_reading (handle_backoff ec) n"
  by (auto simp: reading_simps split: list.splits option.splits prod.splits)

lemma write_reading:
  "reads_connected n \<Longrightarrow> nd_state n = Connected \<Longrightarrow> \<not> is_reconnect ec \<Longrightarrow> stays_reading (handle_write c ec) n"
  by (auto simp: reading_simps split: list.splits option.splits prod.splits)

lemma read_reading:
  "reads_connected n \<Longrightarrow> nd_state n = Connected \<Longrightarrow> \<not> is_err ec
    \<Longrightarrow> verdict = Inr False \<or> (\<exists>e. verdict = Inl (Throws e)) \<Longrightarrow> stays_reading (handle_read ec is_open verdict) n"
  by (auto simp: reading_simps split: list.splits option.splits prod.splits)

text \<open>What the state is when an operation that moves messages is outstanding.\<close>

lemma link_state:
  assumes "node_ok n" "k < length (nd_pending n)" "moves (nd_pending n ! k)"
  shows "nd_state n = (case nd_pending n ! k of Async_connect \<Rightarrow> Connecting | Async_handshake ws \<Rightarrow> Connecting | _ \<Rightarrow> Connected)"
  using assms(1,3) link_completes(1) [OF assms]
  by (cases "nd_state n"; cases "nd_pending n ! k") (auto simp: node_ok_def link_ok_def)

lemma complete_reading:
  assumes "node_ok n" "reads_connected n" "k < length (nd_pending n)" "calm (Ev_complete k ec is_open verdict) n"
  shows "stays_reading (complete (nd_pending n ! k) ec is_open verdict) (n\<lparr>nd_pending := remove_at k (nd_pending n)\<rparr>)"
proof -
  let ?n = "n\<lparr>nd_pending := remove_at k (nd_pending n)\<rparr>"
  have ok: "reads_connected ?n" by (rule reads_connected_subset [OF assms(2,3)])
  have member: "nd_pending n ! k \<in> set (nd_pending n)" using assms(3) by simp
  note state = link_state [OF assms(1,3)]
  show ?thesis
  proof (cases "nd_pending n ! k")
    case (Async_close ws)
    with assms(1) member show ?thesis by (auto simp: node_ok_def)
  next
    case (Async_read ws)
    with assms(2) member have "nd_state ?n = Connected" by (auto simp: reads_connected_def)
    with Async_read assms(3,4) show ?thesis using read_reading [OF ok] by simp
  next
    case (Async_write ws msg c)
    with state assms(3,4) show ?thesis using write_reading [OF ok] by simp
  qed (use state post_reading [OF ok] connect_reading [OF ok] handshake_reading [OF ok] backoff_reading [OF ok] in simp_all)
qed

lemma calm_reads_connected: "reachable calm n \<Longrightarrow> reads_connected n"
proof (induction rule: reachable.induct)
  case initial
  show ?case by (simp add: reads_connected_def new_node_def)
next
  case (step n ev x n')
  show ?case
  proof (cases ev)
    case (Ev_complete k ec is_open verdict)
    show ?thesis
    proof (cases "k < length (nd_pending n)")
      case True
      from complete_reading [OF calm_reachable_ok [OF step.hyps(1)] step.IH True] step.hyps(2,3) Ev_complete True
      show ?thesis by (cases x) (auto dest: wpD)
    qed (use step Ev_complete in simp)
  qed (use step in \<open>auto simp: reads_connected_def node_defs\<close>)
qed

text \<open>Nothing is outstanding but posted messages, and the node believes it is connecting.\<close>

definition blocked :: "'c wire \<Rightarrow> bool" where
  "blocked w \<longleftrightarrow> nd_state (wr_node w) = Connecting
     \<and> (\<forall>bop \<in> set (bs_ops (wr_boost w)). \<not> tls_op bop \<and> (\<exists>msg c. op_handler bop = Post msg c))"

text \<open>The messages that the node holds: those queued and those posted to its strand.\<close>

fun posted_messages :: "'c async list \<Rightarrow> (string \<times> 'c) list" where
  "posted_messages [] = []"
| "posted_messages (Post msg c # ops) = (msg, c) # posted_messages ops"
| "posted_messages (_ # ops) = posted_messages ops"

definition held :: "'c wire \<Rightarrow> (string \<times> 'c) multiset" where
  "held w = mset (nd_send_queue (wr_node w)) + mset (posted_messages (map op_handler (bs_ops (wr_boost w))))"

fun messages_sent :: "'c wire_event list \<Rightarrow> (string \<times> 'c) list" where
  "messages_sent [] = []"
| "messages_sent (Wire_send msg c # evs) = (msg, c) # messages_sent evs"
| "messages_sent (_ # evs) = messages_sent evs"

lemma posted_messages_append [simp]: "posted_messages (ops @ ops') = posted_messages ops @ posted_messages ops'"
  by (induction ops rule: posted_messages.induct) simp_all

lemma posted_messages_remove:
  "k < length ops \<Longrightarrow> ops ! k = Post msg c
    \<Longrightarrow> mset (posted_messages ops) = add_mset (msg, c) (mset (posted_messages (remove_at k ops)))"
  by (subst remove_at_split [of k ops]) (simp_all add: remove_at_def)

definition only_queued :: "'c node \<Rightarrow> 'c node \<Rightarrow> bool" where
  "only_queued n n' \<longleftrightarrow> nd_state n' = nd_state n \<and> nd_written n' = nd_written n \<and> nd_called n' = nd_called n
     \<and> (\<exists>more. nd_send_queue n' = nd_send_queue n @ more)"

lemma only_queued_refl [simp]: "only_queued n n"
  by (simp add: only_queued_def)

lemma only_queued_trans: "only_queued n n' \<Longrightarrow> only_queued n' n'' \<Longrightarrow> only_queued n n''"
  by (auto simp: only_queued_def)

lemma run_node_queues:
  assumes "wraps we" "wired we w" "matches we lost w n0" "blocked w" "makes_streams p" "p (wr_node w) = (Inr (), n)"
    and "\<forall>op \<in> set (nd_pending n). \<exists>msg c. op = Post msg c" "only_queued (wr_node w) n"
  shows "\<exists>w'. run_node we p w = (Inr (), w') \<and> blocked w' \<and> only_queued (wr_node w) (wr_node w')
    \<and> held w' + mset (nd_send_queue (wr_node w))
      = held w + mset (nd_send_queue n) + mset (posted_messages (nd_pending n))"
proof -
  have fields: "nd_pending (wr_node w) = []" "websocket_known (wr_node w)"
      "nd_next_websocket (wr_node w) = length (wr_streams w)"
    using assms(3) by (auto simp: matches_def websocket_known_def)
  obtain w' made where w': "run_node we p w = (Inr (), w')"
      "issues we (nd_pending n) made (w\<lparr>wr_node := n\<lparr>nd_pending := []\<rparr>\<rparr>) w'"
    using run_node_issues [OF assms(1,2,5,6) fields] by blast
  then obtain bops where bops: "wr_node w' = n\<lparr>nd_pending := []\<rparr>" "bs_ops (wr_boost w') = bs_ops (wr_boost w) @ bops"
      "map op_handler bops = nd_pending n" "\<forall>bop \<in> set bops. carries we w' bop"
    by (auto simp: issues_def)
  have posts: "\<not> tls_op bop \<and> (\<exists>msg c. op_handler bop = Post msg c)" if "bop \<in> set bops" for bop
  proof -
    have "op_handler bop \<in> set (nd_pending n)" using bops(3) that by (metis image_eqI list.set_map)
    then obtain msg c where "op_handler bop = Post msg c" using assms(7) by blast
    with bops(4) that carries_tls show ?thesis by (metis is_handshake.simps(2))
  qed
  have "blocked w'" using assms(4,8) bops(1,2) posts by (auto simp: blocked_def only_queued_def)
  moreover have "only_queued (wr_node w) (wr_node w')" using assms(8) bops(1) by (simp add: only_queued_def)
  moreover have "held w' + mset (nd_send_queue (wr_node w))
      = held w + mset (nd_send_queue n) + mset (posted_messages (nd_pending n))"
    using bops(1-3) by (simp add: held_def)
  ultimately show ?thesis using w'(1) by blast
qed

lemma blocked_step:
  assumes "wraps we" "wired we w" "matches we lost w n" "blocked w"
  shows "\<exists>w'. wire_step we ev w = (Inr (), w') \<and> blocked w' \<and> only_queued (wr_node w) (wr_node w')
    \<and> held w' = held w + mset (messages_sent [ev])"
proof (cases ev)
  case (Wire_send msg c)
  have "nd_pending (wr_node w) = []" using assms(3) by (simp add: matches_def)
  then show ?thesis
    using run_node_queues [OF assms makes_streams_calls(1), of msg c] Wire_send
    by (simp add: send_message_def start_def only_queued_def)
next
  case (Wire_back_off busy)
  have "nd_pending (wr_node w) = []" using assms(3) by (simp add: matches_def)
  then show ?thesis
    using run_node_queues [OF assms makes_streams_calls(2), of busy] Wire_back_off
    by (simp add: back_off_def only_queued_def)
next
  case (Wire_complete k ec verdict)
  show ?thesis
  proof (cases "k < length (bs_ops (wr_boost w))")
    case True
    let ?b = "wr_boost w"
    have "bs_ops ?b ! k \<in> set (bs_ops ?b)" using True by simp
    with assms(4) obtain msg c where post: "\<not> tls_op (bs_ops ?b ! k)" "op_handler (bs_ops ?b ! k) = Post msg c"
      unfolding blocked_def by blast
    define w1 where "w1 = w\<lparr>wr_socket := connected_socket (bs_ops ?b ! k) (wr_socket w)\<rparr>"
    define w2 where "w2 = w1\<lparr>wr_boost := ?b\<lparr>bs_ops := remove_at k (bs_ops ?b)\<rparr>\<rparr>"
    have sub: "set (remove_at k (bs_ops ?b)) \<subseteq> set (bs_ops ?b)" by (rule set_remove_at)
    have noted: "note_socket k w = (Inr (), w1)" using True by (simp add: note_socket_def w1_def)
    have "complete_op k ec ?b = (Inr (Some (Post msg c)), ?b\<lparr>bs_ops := remove_at k (bs_ops ?b)\<rparr>)"
      using complete_op_cases [OF True, of ec] post by (metis tls_op.simps(1,2))
    then have completed: "at_boost (complete_op k ec) w1 = (Inr (Some (Post msg c)), w2)"
      by (simp add: at_boost_def w1_def w2_def)
    have wired2: "wired we w2" by (rule wiredI [OF assms(2)]) (simp_all add: w2_def w1_def)
    have grows2: "grows w w2" by (rule growsI) (simp_all add: w2_def w1_def)
    have blocked2: "blocked w2" using assms(4) sub by (auto simp: blocked_def w2_def w1_def)
    have fields: "websocket_known (wr_node w2)" "nd_next_websocket (wr_node w2) = length (wr_streams w2)"
        "nd_pending (wr_node w2) = []" "wr_node w2 = wr_node w" "nd_state (wr_node w2) = Connecting"
      using assms(3,4) by (auto simp: matches_def websocket_known_def w2_def w1_def blocked_def)
    have "\<forall>bop \<in> set (bs_ops (wr_boost w2)). carries we w2 bop"
      using assms(3) sub carries_grows [OF grows2] by (auto simp: matches_def w2_def)
    then have matches2: "matches we {#} w2 (wr_node w2\<lparr>nd_pending := map op_handler (bs_ops (wr_boost w2))\<rparr>)"
      using fields by (simp add: matches_def websocket_known_def)
    obtain is_open where is_open: "websocket_is_open w2 = (Inr is_open, w2)"
      using websocket_is_open_returns [OF wired2 fields(1,2)] by blast
    let ?n = "(wr_node w2)\<lparr>nd_send_queue := nd_send_queue (wr_node w2) @ [(msg, c)],
             nd_accepted := nd_accepted (wr_node w2) @ [(msg, c)]\<rparr>"
    have "\<exists>w'. run_node we (complete (Post msg c) ec is_open verdict) w2 = (Inr (), w') \<and> blocked w'
        \<and> only_queued (wr_node w2) (wr_node w') \<and> held w' + mset (nd_send_queue (wr_node w2))
          = held w2 + mset (nd_send_queue ?n) + mset (posted_messages (nd_pending ?n))"
      by (rule run_node_queues [OF assms(1) wired2 matches2 blocked2 makes_streams_complete])
        (use fields in \<open>simp_all add: node_defs only_queued_def\<close>)
    then obtain w' where w': "run_node we (complete (Post msg c) ec is_open verdict) w2 = (Inr (), w')" "blocked w'"
        "only_queued (wr_node w2) (wr_node w')" "held w' = add_mset (msg, c) (held w2)"
      using fields(3) by auto
    moreover have "add_mset (msg, c) (held w2) = held w"
      using posted_messages_remove [of k "map op_handler (bs_ops ?b)" msg c] True post(2)
      by (simp add: held_def w2_def w1_def remove_at_map)
    ultimately show ?thesis
      using fields(4) by (auto simp: Wire_complete noted completed is_open andthen_apply sbind_apply)
  next
    case False
    then have "note_socket k w = (Inr (), w)" "at_boost (complete_op k ec) w = (Inr None, w)"
      by (simp_all add: note_socket_def at_boost_def complete_op_def)
    with assms(4) show ?thesis by (simp add: Wire_complete andthen_apply sbind_apply)
  qed
qed

lemma blocked_run:
  assumes "wraps we" "wired we w" "matches we lost w n" "blocked w"
  shows "\<exists>w'. wire_run we evs w = (Inr (), w') \<and> only_queued (wr_node w) (wr_node w')
    \<and> held w' = held w + mset (messages_sent evs)"
  using assms(2-)
proof (induction evs arbitrary: w lost n)
  case (Cons ev evs)
  obtain w1 where w1: "wire_step we ev w = (Inr (), w1)" "blocked w1" "only_queued (wr_node w) (wr_node w1)"
    "held w1 = held w + mset (messages_sent [ev])"
    using blocked_step [OF assms(1) Cons.prems] by blast
  obtain lost1 n1 where "wired we w1" "matches we lost1 w1 n1"
    using wire_step_simulated [OF assms(1) Cons.prems(1,2) w1(1)] unfolding simulated_def by blast
  moreover have "mset (messages_sent (ev # evs)) = mset (messages_sent [ev]) + mset (messages_sent evs)"
    by (cases ev) simp_all
  ultimately show ?case
    using Cons.IH [of w1 lost1 n1] w1 only_queued_trans [OF w1(3)] by (auto simp: wire_run_def andthen_apply)
qed (simp add: wire_run_def)

text \<open>In a calm state with a handshake outstanding everything else that is outstanding was posted.\<close>

lemma handshake_alone:
  assumes "reachable calm n" "matches we lost w n" "k < length (bs_ops (wr_boost w))"
    and "is_handshake (op_handler (bs_ops (wr_boost w) ! k))"
  shows "nd_state (wr_node w) = Connecting"
    and "\<forall>bop \<in> set (remove_at k (bs_ops (wr_boost w))). \<not> tls_op bop \<and> (\<exists>msg c. op_handler bop = Post msg c)"
proof -
  let ?ops = "map op_handler (bs_ops (wr_boost w))"
  have ok: "node_ok n" "reads_connected n" using assms(1) by (rule calm_reachable_ok, rule calm_reads_connected)
  obtain ws where ws: "op_handler (bs_ops (wr_boost w) ! k) = Async_handshake ws"
    using assms(4) by (cases "op_handler (bs_ops (wr_boost w) ! k)") auto
  have split: "mset ?ops = add_mset (Async_handshake ws) (mset (map op_handler (remove_at k (bs_ops (wr_boost w)))))"
    using mset_remove_at [of k ?ops] assms(3) ws by (simp add: remove_at_map)
  then have all: "mset (nd_pending n)
      = add_mset (Async_handshake ws) (mset (map op_handler (remove_at k (bs_ops (wr_boost w)))) + lost)"
    using assms(2) by (simp add: matches_def)
  then have "Async_handshake ws \<in># mset (nd_pending n)" by (metis union_single_eq_member)
  then obtain j where j: "j < length (nd_pending n)" "nd_pending n ! j = Async_handshake ws"
    by (auto simp: in_set_conv_nth)
  have state: "nd_state n = Connecting" using link_state [OF ok(1) j(1)] j(2) by simp
  with assms(2) show "nd_state (wr_node w) = Connecting" by (simp add: matches_def)
  have "mset (filter moves (nd_pending n)) = {#Async_handshake ws#}"
    using link_completes(1) [OF ok(1) j(1)] j(2) by (simp add: link_def)
  then have "filter_mset moves (mset (nd_pending n)) = {#Async_handshake ws#}" by simp
  then have none: "filter_mset moves (mset (map op_handler (remove_at k (bs_ops (wr_boost w)))) + lost) = {#}"
    unfolding all by simp
  show "\<forall>bop \<in> set (remove_at k (bs_ops (wr_boost w))). \<not> tls_op bop \<and> (\<exists>msg c. op_handler bop = Post msg c)"
  proof
    fix bop assume bop: "bop \<in> set (remove_at k (bs_ops (wr_boost w)))"
    then have "op_handler bop \<in># mset (map op_handler (remove_at k (bs_ops (wr_boost w))))" by simp
    then have "op_handler bop \<in># mset (nd_pending n)" "\<not> moves (op_handler bop)"
      using all none by (auto simp: filter_mset_eq_mempty_iff)
    then have "\<not> moves (op_handler bop)" "\<And>ws. op_handler bop \<noteq> Async_read ws" "\<And>ws. op_handler bop \<noteq> Async_close ws"
      using ok state by (auto simp: node_ok_def reads_connected_def)
    moreover have "tls_op bop \<Longrightarrow> is_handshake (op_handler bop)"
      using assms(2) bop set_remove_at [of k "bs_ops (wr_boost w)"] carries_tls unfolding matches_def by blast
    ultimately show "\<not> tls_op bop \<and> (\<exists>msg c. op_handler bop = Post msg c)"
      by (cases "op_handler bop") auto
  qed
qed

text \<open>
  C40. Over secure streams, in a state that nothing has disturbed so far (reads and written messages have
  not failed), a TLS handshake that fails or times out is never reported.  The node
  stays in the state connecting whatever happens afterwards; every message that it holds or that is
  sent to it later is in its queue or on its way there for ever, and nothing is written and nothing called
  back.  A websocket handshake that fails disconnects the node, so that the next message
  connects again.
\<close>

theorem failed_tls_handshake_blocks_node:
  assumes "wraps we" "wire_reachable we wire_calm w" "k < length (bs_ops (wr_boost w))"
    and "is_handshake (op_handler (bs_ops (wr_boost w) ! k))" "is_err ec"
  shows "\<exists>w1. wire_step we (Wire_complete k ec verdict) w = (Inr (), w1)
    \<and> (if tls_op (bs_ops (wr_boost w) ! k)
       then \<forall>evs. \<exists>w2 more. wire_run we evs w1 = (Inr (), w2) \<and> nd_state (wr_node w2) = Connecting
              \<and> held w2 = held w + mset (messages_sent evs)
              \<and> nd_send_queue (wr_node w2) = nd_send_queue (wr_node w) @ more
              \<and> nd_written (wr_node w2) = nd_written (wr_node w) \<and> nd_called (wr_node w2) = nd_called (wr_node w)
       else nd_state (wr_node w1) = Disconnected)"
proof -
  let ?b = "wr_boost w"
  obtain lost n where n: "wired we w" "reachable calm n" "matches we lost w n"
    using reachable_wired [OF assms(1,2), where calm_only = True] by auto
  note alone = handshake_alone [OF n(2,3) assms(3,4)]
  obtain ws where ws: "op_handler (bs_ops ?b ! k) = Async_handshake ws"
    using assms(4) by (cases "op_handler (bs_ops ?b ! k)") auto
  define w1 where "w1 = w\<lparr>wr_socket := connected_socket (bs_ops ?b ! k) (wr_socket w),
    wr_boost := ?b\<lparr>bs_ops := remove_at k (bs_ops ?b)\<rparr>\<rparr>"
  have "carries we w (bs_ops ?b ! k)" using n(3) assms(3) by (simp add: matches_def)
  note completion = complete_op_cases [OF assms(3) carries_not_accept [OF this], of ec]
  show ?thesis
  proof (cases "tls_op (bs_ops ?b ! k)")
    case True
    then have "complete_op k ec ?b = (Inr None, ?b\<lparr>bs_ops := remove_at k (bs_ops ?b)\<rparr>)"
      using completion assms(5) by metis
    then have step: "wire_step we (Wire_complete k ec verdict) w = (Inr (), w1)"
      using assms(3) by (simp add: note_socket_def at_boost_def andthen_apply sbind_apply w1_def)
    obtain lost1 n1 where n1: "wired we w1" "matches we lost1 w1 n1"
      using wire_step_simulated [OF assms(1) n(1,3) step] unfolding simulated_def by blast
    have "blocked w1" using alone by (auto simp: blocked_def w1_def)
    note run = blocked_run [OF assms(1) n1 this]
    have "posted_messages (map op_handler (bs_ops ?b)) = posted_messages (map op_handler (remove_at k (bs_ops ?b)))"
      using assms(3) ws by (subst remove_at_split [of k "bs_ops ?b"]) (simp_all add: remove_at_def)
    then have "held w1 = held w" by (simp add: held_def w1_def)
    then have "\<forall>evs. \<exists>w2 more. wire_run we evs w1 = (Inr (), w2) \<and> nd_state (wr_node w2) = Connecting
              \<and> held w2 = held w + mset (messages_sent evs)
              \<and> nd_send_queue (wr_node w2) = nd_send_queue (wr_node w) @ more
              \<and> nd_written (wr_node w2) = nd_written (wr_node w) \<and> nd_called (wr_node w2) = nd_called (wr_node w)"
      using run alone(1) by (fastforce simp: only_queued_def w1_def)
    with step True show ?thesis by auto
  next
    case False
    have wired1: "wired we w1" by (rule wiredI [OF n(1)]) (simp_all add: w1_def)
    obtain is_open where is_open: "websocket_is_open w1 = (Inr is_open, w1)"
      using websocket_is_open_returns [OF wired1] n(3) by (auto simp: matches_def websocket_known_def w1_def)
    have "complete_op k ec ?b = (Inr (Some (Async_handshake ws)), ?b\<lparr>bs_ops := remove_at k (bs_ops ?b)\<rparr>)"
      using completion False ws by (metis tls_op.simps(2))
    then have "wire_step we (Wire_complete k ec verdict) w = run_node we (handle_handshake ec) w1"
      using is_open assms(3) by (simp add: note_socket_def at_boost_def andthen_apply sbind_apply w1_def)
    moreover have "run_node we (handle_handshake ec) w1 = (Inr (), w1\<lparr>wr_node := (wr_node w)\<lparr>nd_state := Disconnected\<rparr>\<rparr>)"
      using assms(5) n(3) by (simp add: run_node_def node_defs catch_all_def matches_def w1_def)
    ultimately show ?thesis using False by simp
  qed
qed

text \<open>A node with a TLS context, connected and doing the TLS handshake with two messages queued.\<close>

definition tls_env :: "nat wire_env" where
  "tls_env = \<lparr>we_boost = \<lparr>be_open_udp = Inr (), be_bind = (\<lambda>ep. Inr ()), be_wrap = (\<lambda>s h. h),
     be_remote_endpoint = (\<lambda>b s. Inl (Throws ''not connected'')), be_is_open = (\<lambda>b ws. True),
     be_write = (\<lambda>b ws msg. (length msg, No_error)), be_cancelled = (\<lambda>b t. 0), be_events_run = (\<lambda>b. 0)\<rparr>,
     we_getenv = (\<lambda>name. if name = ''WSS_ENABLED'' then Some ''1'' else None),
     we_resolve = (\<lambda>host port. Inr [\<lparr>ep_address = host, ep_port = 51010\<rparr>])\<rparr>"

definition tls_node :: "nat wire" where
  "tls_node = (case io_context (we_boost tls_env) no_boost of
     (Inr io, b) \<Rightarrow> (case node_constructor tls_env io ''127.0.0.1'' 51010 b of (Inr w, b') \<Rightarrow> w))"

definition tls_events :: "nat wire_event list" where
  "tls_events = [Wire_send ''a'' 1, Wire_send ''b'' 2,
     Wire_complete 0 No_error (Inr False), Wire_complete 0 No_error (Inr False),
     Wire_complete 0 No_error (Inr False)]"

lemmas tls_simps = tls_env_def io_context_def node_constructor_def make_object_def no_boost_def
  make_tcp_endpoint_def io_context_object_def strand_def steady_timer_def initialize_ssl_context_def
  WSS_ENABLED_ENV_def strand_object_def steady_timer_object_def andthen_apply sbind_apply

lemma tls_node_reachable: "wire_reachable tls_env env tls_node"
proof -
  obtain io b where io: "io_context (we_boost tls_env) no_boost = (Inr io, b)" by (simp add: tls_simps)
  obtain w b' where w: "node_constructor tls_env io ''127.0.0.1'' 51010 b = (Inr w, b')"
    using io by (auto simp: tls_simps)
  have "tls_node = w" by (simp add: tls_node_def io w)
  with wire_reachable.made [OF io w] show ?thesis by simp
qed

lemma quiet_run_reachable:
  assumes "\<And>ev w. ev \<in> set evs \<Longrightarrow> env ev w" "wire_reachable we env w" "wire_run we evs w = (Inr (), w')"
  shows "wire_reachable we env w'"
  using assms
proof (induction evs arbitrary: w)
  case (Cons ev evs)
  from Cons.prems(3) obtain w1 where w1: "wire_step we ev w = (Inr (), w1)" "wire_run we evs w1 = (Inr (), w')"
    by (auto simp: wire_run_def elim!: andthen_cases)
  have "wire_reachable we env w1"
    using wire_reachable.step [OF Cons.prems(2) _ w1(1)] Cons.prems(1) by simp
  with Cons.IH [OF _ _ w1(2)] Cons.prems(1) show ?case by simp
qed (simp add: wire_run_def)

lemmas wire_simps = tls_simps wire_run_def run_node_def at_boost_def issue_def start_op_def
  tcp_socket_def tcp_socket_object_def note_socket_def complete_op_def remove_at_def websocket_is_open_def
  with_stream_def make_stream_def websocket_def websocket_secure_stream_def secure_stream_def expires_after_def
  Let_def is_err_def

lemma tls_run:
  "\<exists>w. wire_run tls_env tls_events tls_node = (Inr (), w)
     \<and> bs_ops (wr_boost w) = [Tls_connect 4 ''127.0.0.1'' ''/'' (Async_handshake 0)]
     \<and> nd_send_queue (wr_node w) = [(''a'', 1), (''b'', 2)]"
  by (simp add: tls_node_def tls_events_def wire_simps node_defs new_node_def)

lemma tls_reachable:
  obtains w where "wire_reachable tls_env wire_calm w"
    "bs_ops (wr_boost w) = [Tls_connect 4 ''127.0.0.1'' ''/'' (Async_handshake 0)]"
    "nd_send_queue (wr_node w) = [(''a'', 1), (''b'', 2)]"
proof -
  obtain w where w: "wire_run tls_env tls_events tls_node = (Inr (), w)"
     "bs_ops (wr_boost w) = [Tls_connect 4 ''127.0.0.1'' ''/'' (Async_handshake 0)]"
     "nd_send_queue (wr_node w) = [(''a'', 1), (''b'', 2)]"
    using tls_run by blast
  have "wire_reachable tls_env wire_calm w"
    by (rule quiet_run_reachable [OF _ tls_node_reachable w(1)])
      (auto simp: tls_events_def is_reconnect_def is_err_def split: async.splits)
  with w(2,3) that show ?thesis by blast
qed

lemma tls_env_wraps: "wraps tls_env"
  by (simp add: wraps_def tls_env_def)

lemma failed_tls_handshake_blocks_node_witness:
  "\<exists>w w1. wire_step tls_env (Wire_complete 0 (Other_error ''certificate'') (Inr False)) (w :: nat wire) = (Inr (), w1)
     \<and> (\<exists>w2. wire_run tls_env [Wire_send ''c'' 3, Wire_complete 0 No_error (Inr False)] w1 = (Inr (), w2)
          \<and> nd_state (wr_node w2) = Connecting \<and> take 2 (nd_send_queue (wr_node w2)) = [(''a'', 1), (''b'', 2)]
          \<and> held w2 = {#(''a'', 1), (''b'', 2), (''c'', 3)#})"
proof -
  obtain w where w: "wire_reachable tls_env wire_calm w"
    "bs_ops (wr_boost w) = [Tls_connect 4 ''127.0.0.1'' ''/'' (Async_handshake 0)]"
    "nd_send_queue (wr_node w) = [(''a'', 1), (''b'', 2)]"
    by (rule tls_reachable)
  have pre: "0 < length (bs_ops (wr_boost w))" "is_handshake (op_handler (bs_ops (wr_boost w) ! 0))"
    "is_err (Other_error ''certificate'')" and tls: "tls_op (bs_ops (wr_boost w) ! 0)" by (simp_all add: w(2) is_err_def)
  obtain w1 where
    w1: "wire_step tls_env (Wire_complete 0 (Other_error ''certificate'') (Inr False)) w = (Inr (), w1)"
    "\<forall>evs. \<exists>w2 more. wire_run tls_env evs w1 = (Inr (), w2) \<and> nd_state (wr_node w2) = Connecting
        \<and> held w2 = held w + mset (messages_sent evs)
        \<and> nd_send_queue (wr_node w2) = nd_send_queue (wr_node w) @ more
        \<and> nd_written (wr_node w2) = nd_written (wr_node w) \<and> nd_called (wr_node w2) = nd_called (wr_node w)"
    using failed_tls_handshake_blocks_node [OF tls_env_wraps w(1) pre, of "Inr False", unfolded if_P [OF tls]]
    by blast
  obtain w2 more where
    "wire_run tls_env [Wire_send ''c'' 3, Wire_complete 0 No_error (Inr False)] w1 = (Inr (), w2)"
    "nd_state (wr_node w2) = Connecting" "nd_send_queue (wr_node w2) = nd_send_queue (wr_node w) @ more"
    "held w2 = held w + mset (messages_sent [Wire_send ''c'' 3, Wire_complete 0 No_error (Inr False)])"
    using w1(2) by blast
  then have "wire_run tls_env [Wire_send ''c'' 3, Wire_complete 0 No_error (Inr False)] w1 = (Inr (), w2)
      \<and> nd_state (wr_node w2) = Connecting \<and> take 2 (nd_send_queue (wr_node w2)) = [(''a'', 1), (''b'', 2)]
      \<and> held w2 = {#(''a'', 1), (''b'', 2), (''c'', 3)#}"
    by (simp add: w(2,3) held_def add_mset_commute)
  with w1(1) show ?thesis by blast
qed

text \<open>The same node after both handshakes, writing the first message.\<close>

lemma writing_run:
  "\<exists>w. wire_run tls_env (tls_events @ [Wire_complete 0 No_error (Inr False), Wire_complete 0 No_error (Inr False)]) tls_node
       = (Inr (), w)
     \<and> bs_ops (wr_boost w) = [Ws_write 4 ''a'' (Async_write 0 ''a'' 1), Ws_read 4 (Async_read 0)]
     \<and> fst (wire_step tls_env (Wire_complete 0 No_error (Inr False)) w) = Inr ()"
  by (simp add: tls_node_def tls_events_def wire_simps node_defs new_node_def tls_connected_def expires_never_def
      set_binary_def catch_all_def is_reconnect_def)

lemma wire_refines_node_witness:
  "\<exists>lost w (n :: nat node) w' n' ev.
     bs_ops (wr_boost w) = [Ws_write 4 ''a'' (Async_write 0 ''a'' 1), Ws_read 4 (Async_read 0)]
     \<and> matches tls_env lost w n \<and> wire_step tls_env (Wire_complete 0 No_error (Inr False)) w = (Inr (), w')
     \<and> stands_for (Wire_complete 0 No_error (Inr False)) w n ev \<and> node_step ev n = (Inr (), n')
     \<and> calm ev n \<and> matches tls_env lost w' n'"
proof -
  let ?e = "Wire_complete 0 No_error (Inr False) :: nat wire_event"
  obtain w where w: "wire_run tls_env (tls_events @ [?e, ?e]) tls_node = (Inr (), w)"
     "bs_ops (wr_boost w) = [Ws_write 4 ''a'' (Async_write 0 ''a'' 1), Ws_read 4 (Async_read 0)]"
     "fst (wire_step tls_env ?e w) = Inr ()"
    using writing_run by blast
  have "wire_reachable tls_env (\<lambda>ev w. True) w"
    by (rule quiet_run_reachable [OF _ tls_node_reachable w(1)]) simp
  then obtain lost n where n: "wired tls_env w" "matches tls_env lost w n"
    using reachable_wired [OF tls_env_wraps, where calm_only = False] by blast
  obtain w' where w': "wire_step tls_env ?e w = (Inr (), w')" using w(3) by (metis prod.collapse)
  have ev: "\<not> unseen ?e w" "lost + lost_by ?e w = lost" "wire_calm ?e w"
    by (simp_all add: w(2) is_reconnect_def)
  have "\<exists>n'. matches tls_env (lost + lost_by ?e w) w' n' \<and> (if unseen ?e w then Inr () = (Inr () :: unit cxx) \<and> n' = n
      else \<exists>ev. stands_for ?e w n ev \<and> node_step ev n = (Inr (), n') \<and> (wire_calm ?e w \<longrightarrow> calm ev n))"
    using wire_refines_node [OF tls_env_wraps] n w' by blast
  then obtain n' ev where "matches tls_env lost w' n'" "stands_for ?e w n ev" "node_step ev n = (Inr (), n')" "calm ev n"
    unfolding ev(2) using ev(1,3) by auto
  with w(2) w' n(2) show ?thesis by blast
qed

end
