(* ===== verification/Http_Req.thy ===== *)
theory Http_Req
  imports Effects
begin

text \<open>
  \<open>utils/http_req.cpp\<close>: the HTTP request that the contract client makes - taking the address apart,
  the request, and the order of the operations on the network, which are parameters.
\<close>

section \<open>The address\<close>

text \<open>
  \<open>std::regex_match\<close> with \<open>URL_REGEX\<close>, \<open>(http|https)://([^/ :]+):?([^/ ]*)(/.*)?\<close>, in the ECMAScript
  grammar: repetitions are greedy, and the dot does not match a line terminator.  No group can give
  up characters that another then takes: a port ends at a slash, a blank or the end wherever it
  starts.  So the greedy reading is the match, or there is none.
\<close>

definition host_char :: "char \<Rightarrow> bool" where
  "host_char c \<longleftrightarrow> c \<notin> {CHR ''/'', CHR '' '', CHR '':''}"

definition port_char :: "char \<Rightarrow> bool" where
  "port_char c \<longleftrightarrow> c \<notin> {CHR ''/'', CHR '' ''}"

definition path_text :: "string \<Rightarrow> bool" where
  "path_text s \<longleftrightarrow> s = [] \<or> (hd s = CHR ''/'' \<and> CHR 0x0A \<notin> set s \<and> CHR 0x0D \<notin> set s)"

definition strip_prefix :: "string \<Rightarrow> string \<Rightarrow> string option" where
  "strip_prefix p s = (if take (length p) s = p then Some (drop (length p) s) else None)"

definition parse_authority :: "string \<Rightarrow> (string \<times> string \<times> string) option" where
  "parse_authority s =
     (let host = takeWhile host_char s; t = dropWhile host_char s;
          u = (if t \<noteq> [] \<and> hd t = CHR '':'' then tl t else t);
          port = takeWhile port_char u; path = dropWhile port_char u
      in if host \<noteq> [] \<and> path_text path then Some (host, port, path) else None)"

definition parse_url :: "string \<Rightarrow> (string \<times> string \<times> string \<times> string) option" where
  "parse_url url =
     (case strip_prefix ''http://'' url of
        Some s \<Rightarrow> map_option (Pair ''http'') (parse_authority s)
      | None \<Rightarrow> (case strip_prefix ''https://'' url of
            Some s \<Rightarrow> map_option (Pair ''https'') (parse_authority s)
          | None \<Rightarrow> None))"

lemma strip_prefix_Some: "strip_prefix p s = Some t \<longleftrightarrow> s = p @ t"
  by (auto simp: strip_prefix_def) (metis append_take_drop_id)

section \<open>The request\<close>

datatype http_method = Http_get | Http_post

record http_request =
  hr_method :: http_method
  hr_target :: string
  hr_host :: string
  hr_body :: string

definition CERT_DIRS :: "string list" where
  "CERT_DIRS = [''/etc/ssl/certs'', ''/system/etc/security/cacerts'', ''/usr/local/share/certs'',
     ''/etc/pki/tls/certs'', ''/etc/openssl/certs'', ''/var/ssl/certs'']"

definition build_request :: "string \<Rightarrow> string \<Rightarrow> string \<Rightarrow> http_request" where
  "build_request host path post =
     \<lparr>hr_method = (if post \<noteq> [] then Http_post else Http_get), hr_target = (if path \<noteq> [] then path else ''/''),
      hr_host = host, hr_body = post\<rparr>"

text \<open>The operations of Boost and OpenSSL; \<open>'e\<close> is what the resolver returns.\<close>

record ('w, 'e) http_env =
  he_resolve :: "string \<Rightarrow> string \<Rightarrow> ('w, 'e) prog"
  he_default_verify_paths :: "('w, unit) prog"
  he_add_verify_path :: "string \<Rightarrow> ('w, unit) prog"
  he_set_host_name :: "string \<Rightarrow> ('w, bool) prog"
  he_connect :: "bool \<Rightarrow> 'e \<Rightarrow> ('w, unit) prog"
  he_verify_peer :: "string \<Rightarrow> ('w, unit) prog"
  he_handshake :: "('w, unit) prog"
  he_write :: "bool \<Rightarrow> http_request \<Rightarrow> ('w, unit) prog"
  he_read :: "bool \<Rightarrow> ('w, string) prog"
  he_shutdown :: "bool \<Rightarrow> ('w, unit) prog"

definition secure_connect ::
  "('w, 'e) http_env \<Rightarrow> string \<Rightarrow> 'e \<Rightarrow> ('w, unit) prog" where
  "secure_connect he host endpoints =
     andthen (he_default_verify_paths he)
     (andthen (for_each CERT_DIRS (he_add_verify_path he))
     (sbind (he_set_host_name he host) (\<lambda>ok.
      if \<not> ok then raise (Throws ''boost::system::system_error'')
      else andthen (he_connect he True endpoints)
        (andthen (he_verify_peer he host) (he_handshake he)))))"

definition sync_req :: "('w, 'e) http_env \<Rightarrow> string \<Rightarrow> string \<Rightarrow> ('w, string) prog" where
  "sync_req he url post =
     (case parse_url url of
        None \<Rightarrow> raise (Throws (''could not parse url '' @ url))
      | Some (protocol, host, port, path) \<Rightarrow>
          let secure = (protocol = ''https''); req = build_request host path post in
          sbind (he_resolve he host (if port = [] then protocol else port)) (\<lambda>endpoints.
          andthen (if secure then secure_connect he host endpoints else he_connect he False endpoints)
          (andthen (he_write he secure req)
          (sbind (he_read he secure) (\<lambda>body.
           andthen (he_shutdown he secure) (ret body))))))"

section \<open>What an address is\<close>

text \<open>The match of the regular expression, as the concatenation of its parts.\<close>

definition url_match :: "string \<Rightarrow> string \<Rightarrow> string \<Rightarrow> string \<Rightarrow> string \<Rightarrow> bool" where
  "url_match url protocol host port path \<longleftrightarrow>
     (\<exists>colon. url = protocol @ ''://'' @ host @ colon @ port @ path
       \<and> protocol \<in> {''http'', ''https''} \<and> host \<noteq> [] \<and> (\<forall>c \<in> set host. host_char c)
       \<and> colon \<in> {[], '':''} \<and> (\<forall>c \<in> set port. port_char c) \<and> path_text path)"

text \<open>
  Of all matches the greedy one: the longest host, and then a colon after it is taken, which leaves
  the shortest port.
\<close>

definition greedy_match :: "string \<Rightarrow> string \<times> string \<times> string \<times> string \<Rightarrow> bool" where
  "greedy_match url = (\<lambda>(protocol, host, port, path). url_match url protocol host port path
     \<and> (\<forall>protocol' host' port' path'. url_match url protocol' host' port' path' \<longrightarrow>
          length host' < length host \<or> length host' = length host \<and> length port \<le> length port'))"

lemma takeWhile_host:
  assumes "\<forall>c \<in> set host. host_char c" "s = [] \<or> \<not> host_char (hd s)"
  shows "takeWhile host_char (host @ s) = host" "dropWhile host_char (host @ s) = s"
  using assms by (cases s; simp add: takeWhile_append2 dropWhile_append2)+

lemma takeWhile_port:
  assumes "\<forall>c \<in> set port. port_char c" "path_text path"
  shows "takeWhile port_char (port @ path) = port" "dropWhile port_char (port @ path) = path"
  using assms by (cases path; simp add: takeWhile_append2 dropWhile_append2 path_text_def port_char_def)+

lemma path_no_host: "path_text path \<Longrightarrow> path = [] \<or> \<not> host_char (hd path)"
  by (auto simp: path_text_def host_char_def)

lemma parse_authority_colon:
  assumes "host \<noteq> []" "\<forall>c \<in> set host. host_char c" "\<forall>c \<in> set port. port_char c" "path_text path"
  shows "parse_authority (host @ CHR '':'' # port @ path) = Some (host, port, path)"
proof -
  have "takeWhile host_char (host @ CHR '':'' # port @ path) = host"
    "dropWhile host_char (host @ CHR '':'' # port @ path) = CHR '':'' # port @ path"
    by (rule takeWhile_host [OF assms(2)], simp add: host_char_def)+
  then show ?thesis
    using assms(1,4) takeWhile_port [OF assms(3,4)] by (simp add: parse_authority_def Let_def)
qed

lemma parse_authority_plain:
  assumes "host \<noteq> []" "\<forall>c \<in> set host. host_char c" "path_text path"
  shows "parse_authority (host @ path) = Some (host, [], path)"
proof -
  note w = takeWhile_host [OF assms(2) path_no_host [OF assms(3)]]
  have "path = [] \<or> hd path \<noteq> CHR '':''" using assms(3) by (auto simp: path_text_def)
  then show ?thesis
    using assms(1,3) w takeWhile_port [of "[]" path] by (auto simp: parse_authority_def Let_def)
qed

text \<open>Every match is found, with a host that may take more.\<close>

lemma parse_authority_match:
  assumes "host \<noteq> []" "\<forall>c \<in> set host. host_char c" "colon \<in> {[], '':''}" "\<forall>c \<in> set port. port_char c" "path_text path"
  obtains x port' where "parse_authority (host @ colon @ port @ path) = Some (host @ x, port', path)"
    "x \<noteq> [] \<or> port' = port \<or> length port' < length port"
proof (cases "colon = []")
  case False
  then show thesis using assms parse_authority_colon [OF assms(1,2,4,5)] that [of "[]" port] by auto
next
  case True
  define x y where "x = takeWhile host_char port" and "y = dropWhile host_char port"
  then have port: "port = x @ y" by simp
  have hx: "host @ x \<noteq> []" "\<forall>c \<in> set (host @ x). host_char c"
    using assms(1,2) by (auto simp: x_def dest: set_takeWhileD)
  show thesis
  proof (cases y)
    case Nil
    then show thesis
      using True port parse_authority_plain [OF hx assms(5)] that [of x "[]"] by auto
  next
    case (Cons c z)
    then have "\<not> host_char c" using y_def hd_dropWhile [of host_char port] by auto
    moreover have "port_char c" using assms(4) port Cons by auto
    ultimately have c: "c = CHR '':''" by (auto simp: host_char_def port_char_def)
    have "\<forall>c \<in> set z. port_char c" using assms(4) port Cons by auto
    from parse_authority_colon [OF hx this assms(5)] show thesis
      using True port Cons c that [of x z] by auto
  qed
qed

lemma parse_url_match:
  assumes "url_match url protocol host port path"
  obtains x port' where "parse_url url = Some (protocol, host @ x, port', path)"
    "x \<noteq> [] \<or> port' = port \<or> length port' < length port"
proof -
  obtain colon where url: "url = protocol @ ''://'' @ host @ colon @ port @ path" "protocol \<in> {''http'', ''https''}"
    "host \<noteq> []" "\<forall>c \<in> set host. host_char c" "colon \<in> {[], '':''}" "\<forall>c \<in> set port. port_char c" "path_text path"
    using assms unfolding url_match_def by blast
  obtain x port' where "parse_authority (host @ colon @ port @ path) = Some (host @ x, port', path)"
    "x \<noteq> [] \<or> port' = port \<or> length port' < length port"
    using parse_authority_match [OF url(3-7)] by blast
  then show thesis using url(1,2) that [of x port'] by (auto simp: parse_url_def strip_prefix_def)
qed

lemma parse_authority_sound:
  assumes "parse_authority s = Some (host, port, path)"
  shows "\<exists>colon \<in> {[], '':''}. s = host @ colon @ port @ path"
    and "host \<noteq> []" "\<forall>c \<in> set host. host_char c" "\<forall>c \<in> set port. port_char c" "path_text path"
proof -
  define t where "t = dropWhile host_char s"
  define colon where "colon = (if t \<noteq> [] \<and> hd t = CHR '':'' then '':'' else [])"
  define u where "u = (if t \<noteq> [] \<and> hd t = CHR '':'' then tl t else t)"
  have p: "host = takeWhile host_char s" "port = takeWhile port_char u" "path = dropWhile port_char u"
    "host \<noteq> []" "path_text path"
    using assms by (auto simp: parse_authority_def Let_def t_def u_def split: if_splits)
  have "t = colon @ u" by (cases t) (auto simp: colon_def u_def)
  moreover have "s = host @ t" by (simp add: p(1) t_def)
  moreover have "u = port @ path" by (simp add: p(2,3))
  ultimately show "\<exists>colon \<in> {[], '':''}. s = host @ colon @ port @ path"
    by (intro bexI [of _ colon]) (simp_all only: append_assoc, simp add: colon_def)
  show "host \<noteq> []" "path_text path" by (fact p(4), fact p(5))
  show "\<forall>c \<in> set host. host_char c" "\<forall>c \<in> set port. port_char c" by (auto simp: p(1,2) dest: set_takeWhileD)
qed

lemma parse_url_sound:
  assumes "parse_url url = Some (protocol, host, port, path)"
  shows "url_match url protocol host port path"
proof -
  obtain s where s: "protocol \<in> {''http'', ''https''}" "url = protocol @ ''://'' @ s"
    "parse_authority s = Some (host, port, path)"
  proof (cases "strip_prefix ''http://'' url")
    case (Some s)
    then have "url = ''http'' @ ''://'' @ s" by (simp add: strip_prefix_Some)
    with Some assms that [of s] show thesis by (auto simp: parse_url_def)
  next
    case None
    then obtain s where s: "strip_prefix ''https://'' url = Some s" "protocol = ''https''"
      "parse_authority s = Some (host, port, path)"
      using assms by (auto simp: parse_url_def split: option.splits)
    then have "url = ''https'' @ ''://'' @ s" by (simp add: strip_prefix_Some)
    with s that [of s] show thesis by auto
  qed
  with parse_authority_sound [OF s(3)] show ?thesis unfolding url_match_def by blast
qed

text \<open>
  C29. The address is taken apart as the regular expression does it: the function finds no parts
  exactly when there is no match, and otherwise the parts of the greedy match.
\<close>

theorem parse_url_is_greedy_match:
  "(parse_url url = None \<longleftrightarrow> (\<nexists>protocol host port path. url_match url protocol host port path))
    \<and> (parse_url url = Some parts \<longleftrightarrow> greedy_match url parts)"
proof
  show "parse_url url = None \<longleftrightarrow> (\<nexists>protocol host port path. url_match url protocol host port path)"
    using parse_url_sound parse_url_match by (metis (no_types, opaque_lifting) option.distinct(1) not_None_eq surj_pair)
  obtain protocol host port path where parts: "parts = (protocol, host, port, path)" by (cases parts) auto
  show "parse_url url = Some parts \<longleftrightarrow> greedy_match url parts"
  proof
    assume run: "parse_url url = Some parts"
    have "length host' < length host \<or> length host' = length host \<and> length port \<le> length port'"
      if m: "url_match url protocol' host' port' path'" for protocol' host' port' path'
    proof -
      obtain x port'' where "parse_url url = Some (protocol', host' @ x, port'', path')"
        "x \<noteq> [] \<or> port'' = port' \<or> length port'' < length port'" using parse_url_match [OF m] by blast
      with run parts show ?thesis by (cases x) auto
    qed
    with parse_url_sound [OF run [unfolded parts]] show "greedy_match url parts"
      unfolding greedy_match_def parts prod.case by blast
  next
    assume g: "greedy_match url parts"
    then have "url_match url protocol host port path" by (simp add: greedy_match_def parts)
    then obtain x port' where x: "parse_url url = Some (protocol, host @ x, port', path)"
      "x \<noteq> [] \<or> port' = port \<or> length port' < length port" using parse_url_match by blast
    from g parse_url_sound [OF x(1)]
    have "length (host @ x) < length host \<or> length (host @ x) = length host \<and> length port \<le> length port'"
      unfolding greedy_match_def parts prod.case by blast
    then have "x = []" "length port \<le> length port'" by auto
    with x have "port' = port" by auto
    with x(1) \<open>x = []\<close> show "parse_url url = Some parts" by (simp add: parts)
  qed
qed

section \<open>The order of the operations\<close>

datatype http_event = Resolve string string | Verify_path string | Host_name string | Connect bool
  | Verify_peer string | Handshake | Write bool http_request | Read bool | Shutdown bool

definition record_event :: "http_event \<Rightarrow> (http_event list, unit) prog" where
  "record_event e = modify (\<lambda>es. es @ [e])"

text \<open>A network on which everything succeeds and the answer is \<open>body\<close>.\<close>

definition recording :: "string \<Rightarrow> (http_event list, unit) http_env" where
  "recording body = \<lparr>he_resolve = (\<lambda>h p. record_event (Resolve h p)), he_default_verify_paths = ret (),
     he_add_verify_path = (\<lambda>d. record_event (Verify_path d)),
     he_set_host_name = (\<lambda>h. andthen (record_event (Host_name h)) (ret True)),
     he_connect = (\<lambda>s e. record_event (Connect s)), he_verify_peer = (\<lambda>h. record_event (Verify_peer h)),
     he_handshake = record_event Handshake, he_write = (\<lambda>s r. record_event (Write s r)),
     he_read = (\<lambda>s. andthen (record_event (Read s)) (ret body)), he_shutdown = (\<lambda>s. record_event (Shutdown s))\<rparr>"

text \<open>A request over TLS is written after a handshake that checks the host asked for.\<close>

lemma sync_req_events:
  assumes "parse_url url = Some (protocol, host, port, path)"
  shows "sync_req (recording body) url post es = (Inr body, es @ [Resolve host (if port = [] then protocol else port)] @
    (if protocol = ''https''
     then map Verify_path CERT_DIRS @ [Host_name host, Connect True, Verify_peer host, Handshake] else [Connect False])
    @ [Write (protocol = ''https'') (build_request host path post), Read (protocol = ''https''),
       Shutdown (protocol = ''https'')])"
  using assms
  by (simp add: sync_req_def recording_def record_event_def secure_connect_def CERT_DIRS_def Let_def sbind_apply
      andthen_apply)

end
