(* ===== verification/Hex_Text.thy ===== *)
theory Hex_Text
  imports Messages
begin

text \<open>
  Hexadecimal text as the standard library and Boost read and write it: \<open>strtoul\<close> with base 16,
  \<open>boost::algorithm::hex\<close> and \<open>unhex\<close>, and \<open>std::hex\<close> with a fill.  A character is its code below
  256.
\<close>

section \<open>Digits\<close>

text \<open>\<open>hex_char up d\<close>: the digit \<open>d\<close>, in upper or lower case.\<close>

definition hex_char :: "bool \<Rightarrow> nat \<Rightarrow> char" where
  "hex_char up d = char_of (if d < 10 then 48 + d else (if up then 55 else 87) + d)"

definition hex_digit :: "char \<Rightarrow> nat option" where
  "hex_digit c = (let n = of_char c :: nat in
     if 48 \<le> n \<and> n \<le> 57 then Some (n - 48)
     else if 65 \<le> n \<and> n \<le> 70 then Some (n - 55)
     else if 97 \<le> n \<and> n \<le> 102 then Some (n - 87) else None)"

lemma of_char_hex_char: "d < 16 \<Longrightarrow> (of_char (hex_char up d) :: nat) =
    (if d < 10 then 48 + d else (if up then 55 else 87) + d)"
  by (auto simp: hex_char_def of_char_of)

lemma hex_digit_char [simp]: "d < 16 \<Longrightarrow> hex_digit (hex_char up d) = Some d"
  by (simp add: hex_digit_def of_char_hex_char)

lemma hex_char_0: "hex_char up 0 = CHR ''0''"
  using char_of_char [of "CHR ''0''", where ?'a = nat] by (simp add: hex_char_def)

lemma hex_char_not_sign:
  assumes "d < 16"
  shows "hex_char up d \<noteq> CHR ''+''" "hex_char up d \<noteq> CHR ''-''" "hex_char up d \<noteq> CHR ''x''"
    "hex_char up d \<noteq> CHR ''X''" "\<not> is_space (hex_char up d)"
  using of_char_hex_char [OF assms, of up] assms
  by (auto simp: is_space_def Let_def split: if_splits)

section \<open>Numbers\<close>

fun hex_of_nat :: "bool \<Rightarrow> nat \<Rightarrow> string" where
  "hex_of_nat up n = (if n < 16 then [hex_char up n] else hex_of_nat up (n div 16) @ [hex_char up (n mod 16)])"

declare hex_of_nat.simps [simp del]

fun hex_value :: "nat \<Rightarrow> string \<Rightarrow> nat" where
  "hex_value v [] = v"
| "hex_value v (c # cs) = hex_value (16 * v + the (hex_digit c)) cs"

lemma hex_value_append: "hex_value v (s @ t) = hex_value (hex_value v s) t"
  by (induction s arbitrary: v) auto

lemma hex_value_zeros: "hex_value 0 (replicate k CHR ''0'' @ s) = hex_value 0 s"
  using hex_digit_char [of 0 False] by (induction k) (simp_all add: hex_char_0)

lemma hex_of_nat_digits: "c \<in> set (hex_of_nat up n) \<Longrightarrow> \<exists>d < 16. c = hex_char up d"
proof (induction up n rule: hex_of_nat.induct)
  case (1 up n)
  show ?case
  proof (cases "n < 16")
    case True
    with 1(2) show ?thesis by (subst (asm) hex_of_nat.simps) auto
  next
    case False
    have "\<exists>d < 16. hex_char up (n mod 16) = hex_char up d" by (intro exI [of _ "n mod 16"]) simp
    moreover have "c \<in> set (hex_of_nat up (n div 16)) \<or> c = hex_char up (n mod 16)"
      using 1(2) False by (subst (asm) hex_of_nat.simps) auto
    ultimately show ?thesis using 1(1) [OF False] by blast
  qed
qed

lemma hex_value_hex_of_nat: "hex_value 0 (hex_of_nat up n) = n"
proof (induction up n rule: hex_of_nat.induct)
  case (1 up n)
  then show ?case by (subst hex_of_nat.simps) (simp add: hex_value_append)
qed

lemma hex_of_nat_length: "n < 16 ^ Suc k \<Longrightarrow> length (hex_of_nat up n) \<le> Suc k"
proof (induction k arbitrary: n)
  case 0
  then show ?case by (subst hex_of_nat.simps) simp
next
  case (Suc k)
  then have "n div 16 < 16 ^ Suc k" by (simp add: div_less_iff_less_mult mult.commute)
  with Suc.IH [of "n div 16"] show ?case by (subst hex_of_nat.simps) auto
qed

lemma hex_of_nat_not_Nil [simp]: "hex_of_nat up n \<noteq> []"
  by (subst hex_of_nat.simps) simp

text \<open>\<open>strtoul(line, nullptr, 16)\<close> on a line without a null character.\<close>

definition strip_sign :: "string \<Rightarrow> bool \<times> string" where
  "strip_sign s = (case s of
     c # t \<Rightarrow> (if c = CHR ''-'' then (True, t) else if c = CHR ''+'' then (False, t) else (False, s))
   | [] \<Rightarrow> (False, s))"

definition strip_0x :: "string \<Rightarrow> string" where
  "strip_0x s = (case s of
     a # b # c # t \<Rightarrow>
       (if a = CHR ''0'' \<and> b \<in> {CHR ''x'', CHR ''X''} \<and> hex_digit c \<noteq> None then c # t else s)
   | _ \<Rightarrow> s)"

definition strtoul16 :: "string \<Rightarrow> u64" where
  "strtoul16 line =
     (let (neg, t) = strip_sign (dropWhile is_space line);
          v = hex_value 0 (takeWhile (\<lambda>c. hex_digit c \<noteq> None) (strip_0x t))
      in if 2 ^ 64 \<le> v then - 1 else if neg then - of_nat v else of_nat v)"

lemma strtoul16_digits:
  assumes "s \<noteq> []" "\<And>c. c \<in> set s \<Longrightarrow> \<exists>d < 16. c = hex_char up d"
  shows "strtoul16 s = (if 2 ^ 64 \<le> hex_value 0 s then - 1 else of_nat (hex_value 0 s))"
proof -
  obtain c t where s: "s = c # t" using assms(1) by (cases s) auto
  obtain d where d: "d < 16" "c = hex_char up d" using assms(2) s by auto
  have "dropWhile is_space s = s" using s d hex_char_not_sign(5) by simp
  moreover have "strip_sign s = (False, s)" using s d hex_char_not_sign(1,2) by (simp add: strip_sign_def)
  moreover have "strip_0x s = s"
  proof (cases t)
    case (Cons b u)
    then obtain e where "e < 16" "b = hex_char up e" using assms(2) s by auto
    with s Cons hex_char_not_sign(3,4) [of e up] show ?thesis by (simp add: strip_0x_def split: list.split)
  qed (simp add: s strip_0x_def)
  moreover have "takeWhile (\<lambda>c. hex_digit c \<noteq> None) s = s"
    unfolding takeWhile_eq_all_conv using assms(2) by (metis hex_digit_char option.distinct(1))
  ultimately show ?thesis unfolding strtoul16_def by (simp only: Let_def prod.case if_False)
qed

section \<open>Bytes\<close>

text \<open>\<open>boost::algorithm::hex\<close>\<close>

definition string_to_hex :: "string \<Rightarrow> string" where
  "string_to_hex s = concat (map (\<lambda>c. [hex_char True (of_char c div 16), hex_char True (of_char c mod 16)]) s)"

text \<open>\<open>boost::algorithm::unhex\<close>, which throws on a character that is no digit and on odd length.\<close>

fun hex_to_char_string :: "string \<Rightarrow> string cxx" where
  "hex_to_char_string [] = Inr []"
| "hex_to_char_string [c] =
     (if hex_digit c = None then Inl (Throws ''non_hex_input'') else Inl (Throws ''not_enough_input''))"
| "hex_to_char_string (c # d # s) =
     (case (hex_digit c, hex_digit d) of
        (Some a, Some b) \<Rightarrow> cbind (hex_to_char_string s) (\<lambda>t. Inr (char_of (16 * a + b) # t))
      | _ \<Rightarrow> Inl (Throws ''non_hex_input''))"

lemma string_to_hex_simps [simp]:
  "string_to_hex [] = []"
  "string_to_hex (c # s) = hex_char True (of_char c div 16) # hex_char True (of_char c mod 16) # string_to_hex s"
  "string_to_hex (s @ t) = string_to_hex s @ string_to_hex t"
  by (simp_all add: string_to_hex_def)

lemma length_string_to_hex [simp]: "length (string_to_hex s) = 2 * length s"
  by (induction s) auto

lemma of_char_bound: "(of_char c :: nat) < 256"
  by (metis of_char_mod_256 mod_less_divisor zero_less_numeral)

lemma hex_to_char_string_hex:
  "hex_to_char_string (string_to_hex s @ t) = cbind (hex_to_char_string t) (\<lambda>u. Inr (s @ u))"
proof (induction s)
  case Nil
  show ?case by (cases "hex_to_char_string t") simp_all
next
  case (Cons c s)
  have "(of_char c :: nat) div 16 < 16" using of_char_bound [of c] by (simp add: div_less_iff_less_mult)
  then show ?case by (cases "hex_to_char_string t") (simp_all add: Cons char_of_char)
qed

lemma hex_to_char_string_zeros:
  "hex_to_char_string (replicate (2 * k) CHR ''0'') = Inr (replicate k (char_of (0 :: nat)))"
  using hex_digit_char [of 0 False] by (induction k) (simp_all add: hex_char_0)

end
