(* ===== verification/Esr_Peer_Info.thy ===== *)
theory Esr_Peer_Info
  imports Hex_Text Effects
begin

text \<open>
  \<open>utils/esr_peer_info.cpp\<close>: the requests to the contract that lists swarms and peers, and the two
  state machines that read its answers, line by line of 64 hexadecimal digits.

  The HTTP request (\<open>utils/http_req.cpp\<close>) and jsoncpp are parameters.
\<close>

section \<open>Requests\<close>

definition ESR_RESPONSE_LINE_LENGTH :: nat where "ESR_RESPONSE_LINE_LENGTH = 64"
definition REQUIRED_SIZE_MULTIPLE :: nat where "REQUIRED_SIZE_MULTIPLE = 64"
definition PARAMETER_OFFSET :: nat where "PARAMETER_OFFSET = 64"
definition GET_SWARMS_ADDRESS :: string where "GET_SWARMS_ADDRESS = ''0043d7e7''"
definition GET_PEERS_ADDRESS :: string where "GET_PEERS_ADDRESS = ''46e76d8b''"
definition GET_PEER_INFO_SIGNATURE :: string where "GET_PEER_INFO_SIGNATURE = ''0xcc8575cb''"

lemmas esr_constants = ESR_RESPONSE_LINE_LENGTH_def REQUIRED_SIZE_MULTIPLE_def PARAMETER_OFFSET_def
  GET_SWARMS_ADDRESS_def GET_PEERS_ADDRESS_def GET_PEER_INFO_SIGNATURE_def

definition pad_str_to_mod_64 :: "string \<Rightarrow> string" where
  "pad_str_to_mod_64 parameter =
     (let remainder = length parameter mod REQUIRED_SIZE_MULTIPLE
      in if remainder \<noteq> 0 then parameter @ replicate (REQUIRED_SIZE_MULTIPLE - remainder) CHR ''0''
         else parameter)"

text \<open>The size is cast to a 32-bit \<open>int\<close>, which \<open>std::hex\<close> prints as an unsigned number.\<close>

definition size_type_to_hex :: "nat \<Rightarrow> nat \<Rightarrow> string" where
  "size_type_to_hex i width =
     (let digits = hex_of_nat False (unat (of_nat i :: u32))
      in replicate (width - length digits) CHR ''0'' @ digits)"

definition data_string_for_get_swarms :: string where
  "data_string_for_get_swarms = ''0x'' @ pad_str_to_mod_64 GET_SWARMS_ADDRESS"

definition data_string_for_get_peers :: "string \<Rightarrow> string" where
  "data_string_for_get_peers swarm_id =
     ''0x'' @ pad_str_to_mod_64 GET_PEERS_ADDRESS @ pad_str_to_mod_64 ''00000020''
     @ size_type_to_hex (length swarm_id) 8 @ pad_str_to_mod_64 (string_to_hex swarm_id)"

definition data_string_for_get_peer_info :: "string \<Rightarrow> string \<Rightarrow> string" where
  "data_string_for_get_peer_info swarm_id peer_id =
     (let swarm_id_parameter = size_type_to_hex (length swarm_id) 64 @ pad_str_to_mod_64 (string_to_hex swarm_id);
          peer_id_parameter = size_type_to_hex (length peer_id) 64 @ pad_str_to_mod_64 (string_to_hex peer_id);
          preamble = GET_PEER_INFO_SIGNATURE @ size_type_to_hex PARAMETER_OFFSET 64
            @ size_type_to_hex (PARAMETER_OFFSET + length swarm_id_parameter div 2) 64
      in preamble @ swarm_id_parameter @ peer_id_parameter)"

definition make_params :: "string \<Rightarrow> string \<Rightarrow> json" where
  "make_params to_hex data_hex =
     jappend (JString ''latest'')
       (jappend (jset ''data'' (JString data_hex) (jset ''to'' (JString (''0x'' @ to_hex)) JNull)) JNull)"

text \<open>\<open>write\<close> is \<open>Json::writeString\<close> without indentation.\<close>

definition make_request :: "(json \<Rightarrow> string) \<Rightarrow> string \<Rightarrow> string \<Rightarrow> string" where
  "make_request write to_hex data_hex =
     write (jset ''id'' (JInt 1) (jset ''params'' (make_params to_hex data_hex)
       (jset ''method'' (JString ''eth_call'') (jset ''jsonrpc'' (JString ''2.0'') JNull))))"

section \<open>Reading a list of names\<close>

definition trim_right_nulls :: "string \<Rightarrow> string" where
  "trim_right_nulls s = rev (dropWhile (\<lambda>c. c = CHR 0x00) (rev s))"

text \<open>A C string ends at its first null character.\<close>

definition c_str :: "string \<Rightarrow> string" where
  "c_str s = takeWhile (\<lambda>c. c \<noteq> CHR 0x00) s"

datatype peers_phase = HEADER | HEADER_SWARM_SIZE | HEADER_INFO | PEER_ID_SIZE | PEER_ID

record peers_scan =
  ps_results :: "string list"
  ps_node_count :: u64
  ps_state :: peers_phase
  ps_index :: u64
  ps_peer_id :: string
  ps_peer_id_length :: u64

definition peers_start :: peers_scan where
  "peers_start = \<lparr>ps_results = [], ps_node_count = 0, ps_state = HEADER, ps_index = 0,
     ps_peer_id = [], ps_peer_id_length = 0\<rparr>"

text \<open>One pass of the loop: it goes on, or the function returns (\<open>None\<close>) with what was read.\<close>

definition peers_step :: "peers_scan \<Rightarrow> string \<Rightarrow> peers_scan option cxx" where
  "peers_step ps line =
     (case ps_state ps of
        HEADER \<Rightarrow> Inr (Some (ps\<lparr>ps_state := HEADER_SWARM_SIZE\<rparr>))
      | HEADER_SWARM_SIZE \<Rightarrow>
          let n = strtoul16 line in
          if n = 0 then Inr None else Inr (Some (ps\<lparr>ps_state := HEADER_INFO, ps_node_count := n\<rparr>))
      | HEADER_INFO \<Rightarrow>
          Inr (Some (if ps_index ps = ps_node_count ps + 1 then ps\<lparr>ps_state := PEER_ID_SIZE\<rparr> else ps))
      | PEER_ID_SIZE \<Rightarrow>
          let l = strtoul16 line in
          Inr (Some (if l \<noteq> 0 then ps\<lparr>ps_peer_id_length := l, ps_state := PEER_ID\<rparr>
                     else ps\<lparr>ps_peer_id_length := l, ps_node_count := ps_node_count ps - 1\<rparr>))
      | PEER_ID \<Rightarrow>
          cbind (hex_to_char_string (c_str line)) (\<lambda>bytes.
          let peer_id = ps_peer_id ps @ bytes in
          Inr (Some (if unat (ps_peer_id_length ps) \<le> length peer_id
            then ps\<lparr>ps_results := ps_results ps @ [trim_right_nulls peer_id], ps_peer_id := [],
                    ps_state := PEER_ID_SIZE\<rparr>
            else ps\<lparr>ps_peer_id := peer_id\<rparr>))))"

function peers_loop :: "peers_scan \<Rightarrow> string \<Rightarrow> string list cxx" where
  "peers_loop ps stm =
     (if length stm < ESR_RESPONSE_LINE_LENGTH then Inr (ps_results ps)
      else case peers_step ps (take ESR_RESPONSE_LINE_LENGTH stm) of
        Inl f \<Rightarrow> Inl f
      | Inr None \<Rightarrow> Inr (ps_results ps)
      | Inr (Some ps') \<Rightarrow>
          peers_loop (ps'\<lparr>ps_index := ps_index ps' + 1\<rparr>) (drop ESR_RESPONSE_LINE_LENGTH stm))"
  by pat_completeness auto
termination by (relation "measure (length \<circ> snd)") (auto simp: ESR_RESPONSE_LINE_LENGTH_def)

declare peers_loop.simps [simp del]

definition parse_get_peers_result_to_vector :: "string \<Rightarrow> string list cxx" where
  "parse_get_peers_result_to_vector result = peers_loop peers_start (c_str result)"

section \<open>Reading the address of a peer\<close>

datatype info_phase =
  NODE_COUNT | NA_0 | NA_1 | NODE_PORT | NODE_HOST_SIZE | NODE_HOST | NODE_NAME_SIZE | NODE_NAME | FINISHED

record info_scan =
  is_text_size :: u64
  is_port :: u16
  is_host :: string
  is_name :: string
  is_state :: info_phase

definition info_start :: info_scan where
  "info_start = \<lparr>is_text_size = 0, is_port = 0, is_host = [], is_name = [], is_state = NODE_COUNT\<rparr>"

definition info_step :: "info_scan \<Rightarrow> string \<Rightarrow> info_scan cxx" where
  "info_step is line =
     (case is_state is of
        NODE_COUNT \<Rightarrow> Inr (is\<lparr>is_state := NA_0\<rparr>)
      | NA_0 \<Rightarrow> Inr (is\<lparr>is_state := NA_1\<rparr>)
      | NA_1 \<Rightarrow> Inr (is\<lparr>is_state := NODE_PORT\<rparr>)
      | NODE_PORT \<Rightarrow> Inr (is\<lparr>is_port := ucast (strtoul16 line), is_state := NODE_HOST_SIZE\<rparr>)
      | NODE_HOST_SIZE \<Rightarrow> Inr (is\<lparr>is_text_size := strtoul16 line, is_state := NODE_HOST\<rparr>)
      | NODE_HOST \<Rightarrow>
          cbind (hex_to_char_string (c_str line)) (\<lambda>bytes.
            Inr (is\<lparr>is_host := trim_right_nulls bytes, is_state := NODE_NAME_SIZE\<rparr>))
      | NODE_NAME_SIZE \<Rightarrow>
          Inr (is\<lparr>is_text_size := strtoul16 line, is_state := NODE_NAME, is_name := []\<rparr>)
      | NODE_NAME \<Rightarrow>
          cbind (hex_to_char_string (c_str line)) (\<lambda>bytes.
          let name = trim_right_nulls (is_name is @ bytes) in
          Inr (is\<lparr>is_name := name,
                  is_state := (if unat (is_text_size is) = length name then FINISHED else NODE_NAME)\<rparr>))
      | FINISHED \<Rightarrow> Inr is)"

function info_loop :: "string \<Rightarrow> info_scan \<Rightarrow> string \<Rightarrow> peer_address cxx" where
  "info_loop peer_id is stm =
     (if length stm < ESR_RESPONSE_LINE_LENGTH
      then Inr \<lparr>pa_host = is_host is, pa_port = is_port is, pa_http_port = 0, pa_name = is_name is,
                pa_uuid = peer_id\<rparr>
      else case info_step is (take ESR_RESPONSE_LINE_LENGTH stm) of
        Inl f \<Rightarrow> Inl f
      | Inr is' \<Rightarrow> info_loop peer_id is' (drop ESR_RESPONSE_LINE_LENGTH stm))"
  by pat_completeness auto
termination by (relation "measure (\<lambda>(peer_id, is, stm). length stm)") (auto simp: ESR_RESPONSE_LINE_LENGTH_def)

declare info_loop.simps [simp del]

definition parse_get_peer_info_result_to_peer_address :: "string \<Rightarrow> string \<Rightarrow> peer_address cxx" where
  "parse_get_peer_info_result_to_peer_address peer_id result = info_loop peer_id info_start (c_str result)"

section \<open>Asking the contract\<close>

text \<open>
  \<open>ej_parse\<close> is the reader, \<open>ej_result\<close> is \<open>value["result"].asCString()\<close>; the HTTP request acts on
  a world \<open>'w\<close>.
\<close>

record 'w esr_env =
  ee_http :: "string \<Rightarrow> string \<Rightarrow> ('w, string) prog"
  ee_write :: "json \<Rightarrow> string"
  ee_parse :: "string \<Rightarrow> json option"
  ee_result :: "json \<Rightarrow> string cxx"

definition str_to_json :: "'w esr_env \<Rightarrow> string \<Rightarrow> json cxx" where
  "str_to_json ee json_str =
     (case ee_parse ee json_str of
        None \<Rightarrow> Inl (Throws ''Unable to parse JSON response: '')
      | Some j \<Rightarrow> Inr j)"

text \<open>\<open>+ 2\<close> on a C string is defined as long as the string has two characters.\<close>

definition skip_0x :: "string \<Rightarrow> string cxx" where
  "skip_0x s = (if 2 \<le> length (c_str s) then Inr (drop 2 (c_str s)) else Inl Undefined)"

definition esr_call :: "'w esr_env \<Rightarrow> string \<Rightarrow> string \<Rightarrow> string \<Rightarrow> ('w, string) prog" where
  "esr_call ee esr_address url data =
     sbind (ee_http ee url (make_request (ee_write ee) esr_address data)) (\<lambda>response.
     lift_cxx (cbind (str_to_json ee response) (\<lambda>j. cbind (ee_result ee j) skip_0x)))"

definition get_swarm_ids :: "'w esr_env \<Rightarrow> string \<Rightarrow> string \<Rightarrow> ('w, string list) prog" where
  "get_swarm_ids ee esr_address url =
     sbind (esr_call ee esr_address url data_string_for_get_swarms) (\<lambda>result.
       lift_cxx (parse_get_peers_result_to_vector result))"

definition get_peer_ids :: "'w esr_env \<Rightarrow> string \<Rightarrow> string \<Rightarrow> string \<Rightarrow> ('w, string list) prog" where
  "get_peer_ids ee swarm_id esr_address url =
     sbind (esr_call ee esr_address url (data_string_for_get_peers swarm_id)) (\<lambda>result.
       lift_cxx (parse_get_peers_result_to_vector result))"

definition get_peer_info ::
  "'w esr_env \<Rightarrow> string \<Rightarrow> string \<Rightarrow> string \<Rightarrow> string \<Rightarrow> ('w, peer_address) prog" where
  "get_peer_info ee swarm_id peer_id esr_address url =
     sbind (esr_call ee esr_address url (data_string_for_get_peer_info swarm_id peer_id)) (\<lambda>result.
       lift_cxx (parse_get_peer_info_result_to_peer_address peer_id result))"

end
