(* ===== verification/Esr_Roundtrip.thy ===== *)
theory Esr_Roundtrip
  imports Esr_Peer_Info
begin

text \<open>
  The contract ABI as a specification: words of 64 digits, texts with their length and padding.
  The requests are its encodings, and the readers of the answers invert it, with the limits that
  the code has.
\<close>

section \<open>The ABI\<close>

definition abi_word :: "nat \<Rightarrow> string" where
  "abi_word n = replicate (64 - length (hex_of_nat False n)) CHR ''0'' @ hex_of_nat False n"

definition abi_text :: "string \<Rightarrow> string" where
  "abi_text s = abi_word (length s) @ pad_str_to_mod_64 (string_to_hex s)"

text \<open>A list of texts: the place of the list, its length, the places of the texts, the texts.\<close>

definition abi_list :: "nat list \<Rightarrow> string list \<Rightarrow> string" where
  "abi_list places ss =
     abi_word 32 @ abi_word (length ss) @ concat (map abi_word places) @ concat (map abi_text ss)"

definition hex_text :: "string \<Rightarrow> bool" where
  "hex_text s \<longleftrightarrow> (\<forall>c \<in> set s. \<exists>up. \<exists>d < 16. c = hex_char up d)"

lemma hex_text_simps [simp]:
  "hex_text []" "hex_text (s @ t) \<longleftrightarrow> hex_text s \<and> hex_text t"
  "hex_text (concat ss) \<longleftrightarrow> (\<forall>s \<in> set ss. hex_text s)"
  by (auto simp: hex_text_def)

lemma zeros_digits: "c \<in> set (replicate k CHR ''0'') \<Longrightarrow> \<exists>d < 16. c = hex_char up d"
  using hex_char_0 [of up] by (auto intro!: exI [of _ "0 :: nat"])

lemma abi_word_digits: "c \<in> set (abi_word n) \<Longrightarrow> \<exists>d < 16. c = hex_char False d"
  unfolding abi_word_def using zeros_digits hex_of_nat_digits by (metis Un_iff set_append)

lemma length_abi_word: "n < 16 ^ 64 \<Longrightarrow> length (abi_word n) = 64"
  using hex_of_nat_length [of n 63 False] by (simp add: abi_word_def)

lemma word_bound:
  assumes "n < (2 :: nat) ^ 64"
  shows "n < (16 :: nat) ^ 64"
proof -
  have "(2 :: nat) ^ 64 \<le> 16 ^ 64" by (rule power_mono) simp_all
  with assms show ?thesis by (rule less_le_trans)
qed

lemma strtoul16_abi_word: "n < 2 ^ 64 \<Longrightarrow> strtoul16 (abi_word n) = of_nat n"
  using strtoul16_digits [of "abi_word n" False] abi_word_digits [of _ n]
  by (simp add: abi_word_def hex_value_zeros hex_value_hex_of_nat)

lemma hex_text_word [simp]: "hex_text (abi_word n)"
  using abi_word_digits by (fastforce simp: hex_text_def)

lemma hex_text_Cons [simp]: "d < 16 \<Longrightarrow> hex_text (hex_char up d # s) \<longleftrightarrow> hex_text s"
  by (auto simp: hex_text_def)

lemma hex_text_bytes [simp]: "hex_text (string_to_hex s)"
proof (induction s)
  case (Cons c s)
  have "(of_char c :: nat) div 16 < 16" "(of_char c :: nat) mod 16 < 16"
    using of_char_bound [of c] by (simp_all add: div_less_iff_less_mult)
  with Cons show ?case by (simp del: mod_less)
qed simp

lemma hex_text_zeros [simp]: "hex_text (replicate k CHR ''0'')"
  using zeros_digits by (fastforce simp: hex_text_def)

lemma hex_text_padded [simp]: "hex_text (pad_str_to_mod_64 (string_to_hex s))"
  by (simp add: pad_str_to_mod_64_def Let_def)

lemma hex_text_abi_text [simp]: "hex_text (abi_text s)"
  by (simp add: abi_text_def)

lemma null_no_digit: "hex_digit (CHR 0x00) = None"
  by (simp add: hex_digit_def)

lemma c_str_hex: "hex_text s \<Longrightarrow> c_str s = s"
  unfolding c_str_def takeWhile_eq_all_conv hex_text_def
  by (metis hex_digit_char option.distinct(1) null_no_digit)

section \<open>Reading a list\<close>

lemma unat_of_nat_u64: "n < 2 ^ 64 \<Longrightarrow> unat (of_nat n :: u64) = n"
  by (simp add: unsigned_of_nat take_bit_nat_eq_self)

lemma of_nat_u64_eq: "a < 2 ^ 64 \<Longrightarrow> b < 2 ^ 64 \<Longrightarrow> (of_nat a :: u64) = of_nat b \<longleftrightarrow> a = b"
  by (metis unat_of_nat_u64)

lemma peers_loop_line:
  assumes "length l = 64"
  shows "peers_loop ps (l @ rest) =
    (case peers_step ps l of
        Inl f \<Rightarrow> Inl f
      | Inr None \<Rightarrow> Inr (ps_results ps)
      | Inr (Some ps') \<Rightarrow> peers_loop (ps'\<lparr>ps_index := ps_index ps' + 1\<rparr>) rest)"
proof -
  have eqs: "take 64 (l @ rest) = l" "drop 64 (l @ rest) = rest" "\<not> length (l @ rest) < 64"
    using assms by simp_all
  show ?thesis by (subst peers_loop.simps) (simp only: ESR_RESPONSE_LINE_LENGTH_def eqs if_False)
qed

lemma peers_loop_end: "peers_loop ps [] = Inr (ps_results ps)"
  by (subst peers_loop.simps) (simp add: ESR_RESPONSE_LINE_LENGTH_def)

text \<open>The offsets are skipped, one line each.\<close>

lemma peers_loop_places:
  assumes "places \<noteq> []" "\<forall>p \<in> set places. p < 16 ^ 64" "n < 2 ^ 64 - 2" "length places \<le> n"
    and "ps_state ps = HEADER_INFO" "ps_node_count ps = of_nat n"
    and "ps_index ps = of_nat (n + 2 - length places)"
  shows "peers_loop ps (concat (map abi_word places) @ rest) =
    peers_loop (ps\<lparr>ps_state := PEER_ID_SIZE, ps_index := of_nat (n + 2)\<rparr>) rest"
  using assms
proof (induction places arbitrary: ps)
  case (Cons p places)
  have len: "length (abi_word p) = 64" using Cons.prems(2) by (simp add: length_abi_word)
  let ?i = "n + 2 - length (p # places)"
  have idx: "ps_index ps = of_nat ?i" by (rule Cons.prems(7))
  have i: "?i < 2 ^ 64" "n + 1 < 2 ^ 64" using Cons.prems(3) by auto
  have eq: "(of_nat ?i :: u64) = of_nat n + 1 \<longleftrightarrow> ?i = n + 1"
    using of_nat_u64_eq [OF i] by (simp add: add.commute)
  show ?case
  proof (cases "places = []")
    case True
    then show ?thesis
      using Cons.prems len by (simp add: peers_loop_line [OF len] peers_step_def)
  next
    case False
    then have "?i \<noteq> n + 1" using Cons.prems(4) by (cases places) auto
    then have go: "peers_step ps (abi_word p) = Inr (Some ps)"
      using eq Cons.prems(5,6) idx by (simp add: peers_step_def)
    let ?ps = "ps\<lparr>ps_index := ps_index ps + 1\<rparr>"
    have "ps_index ?ps = of_nat (n + 2 - length places)"
      using idx Cons.prems(4) by (simp add: Suc_diff_le add.commute)
    from Cons.IH [OF False _ Cons.prems(3) _ _ _ this] Cons.prems
    have "peers_loop ?ps (concat (map abi_word places) @ rest) =
        peers_loop (ps\<lparr>ps_state := PEER_ID_SIZE, ps_index := of_nat (n + 2)\<rparr>) rest" by simp
    then show ?thesis by (simp add: peers_loop_line [OF len] go)
  qed
qed simp

text \<open>A text, padded to whole lines of 32 bytes.\<close>

lemma next_line:
  fixes n :: nat
  shows "n + (if n mod 32 = 0 then 0 else 32 - n mod 32) = 32 * (n div 32 + (if n mod 32 = 0 then 0 else 1))"
proof -
  have "n + (if r = 0 then 0 else 32 - r) = 32 * (q + (if r = 0 then 0 else 1))"
    if "n = 32 * q + r" "r < 32" for q r :: nat
    using that by simp
  from this [of "n div 32" "n mod 32"] show ?thesis by simp
qed

lemma padded_bytes:
  obtains k m where "pad_str_to_mod_64 (string_to_hex s) = string_to_hex (s @ replicate k CHR 0x00)"
    "length s + k = 32 * m" "k < 32"
proof -
  let ?r = "length s mod 32"
  define k where "k = (if ?r = 0 then 0 else 32 - ?r)"
  have r: "(2 * length s) mod 64 = 2 * ?r" by (simp add: mult_mod_right)
  have zeros: "string_to_hex (replicate i CHR 0x00) = replicate (2 * i) CHR ''0''" for i
    by (induction i) (simp_all add: hex_char_0)
  have "pad_str_to_mod_64 (string_to_hex s) = string_to_hex (s @ replicate k CHR 0x00)"
    by (simp add: pad_str_to_mod_64_def REQUIRED_SIZE_MULTIPLE_def Let_def r zeros k_def right_diff_distrib')
  moreover have "?r < 32" by simp
  then have "length s + k = 32 * (length s div 32 + (if ?r = 0 then 0 else 1))" "k < 32"
    unfolding k_def using next_line [of "length s"] by simp_all
  ultimately show thesis using that \<open>k < 32\<close> by blast
qed

lemma trim_padding: "s \<noteq> [] \<Longrightarrow> last s \<noteq> CHR 0x00 \<Longrightarrow> trim_right_nulls (s @ replicate k CHR 0x00) = s"
  by (cases s rule: rev_cases) (simp_all add: trim_right_nulls_def dropWhile_append)

lemma peers_step_id:
  assumes "ps_state ps = PEER_ID"
  shows "peers_step ps (string_to_hex b) = Inr (Some
    (if unat (ps_peer_id_length ps) \<le> length (ps_peer_id ps @ b)
     then ps\<lparr>ps_results := ps_results ps @ [trim_right_nulls (ps_peer_id ps @ b)], ps_peer_id := [],
             ps_state := PEER_ID_SIZE\<rparr>
     else ps\<lparr>ps_peer_id := ps_peer_id ps @ b\<rparr>))"
  using assms hex_to_char_string_hex [of b "[]"] by (simp add: peers_step_def c_str_hex Let_def)

lemma peers_loop_id:
  assumes "ps_state ps = PEER_ID" "length b = 32 * m" "length (ps_peer_id ps) + 32 * m < unat (ps_peer_id_length ps) + 32"
    "unat (ps_peer_id_length ps) \<le> length (ps_peer_id ps) + 32 * m" "m \<noteq> 0"
  shows "\<exists>ps'. peers_loop ps (string_to_hex b @ rest) = peers_loop ps' rest
    \<and> ps_results ps' = ps_results ps @ [trim_right_nulls (ps_peer_id ps @ b)]
    \<and> ps_state ps' = PEER_ID_SIZE \<and> ps_peer_id ps' = []"
  using assms
proof (induction m arbitrary: ps b)
  case (Suc m)
  obtain c d where b: "b = c @ d" "length c = 32" "length d = 32 * m"
    using Suc.prems(2) that [of "take 32 b" "drop 32 b"] by auto
  have len: "length (string_to_hex c) = 64" using b by simp
  note line = peers_loop_line [OF len, of ps]
  note step = peers_step_id [OF Suc.prems(1), of c]
  show ?case
  proof (cases "m = 0")
    case True
    then show ?thesis
      using Suc.prems b by (simp add: line step) (intro exI conjI, rule refl, simp_all)
  next
    case False
    let ?ps = "ps\<lparr>ps_peer_id := ps_peer_id ps @ c, ps_index := ps_index ps + 1\<rparr>"
    have "peers_loop ps (string_to_hex b @ rest) = peers_loop ?ps (string_to_hex d @ rest)"
      using Suc.prems b False by (simp add: line step)
    moreover have "\<exists>ps'. peers_loop ?ps (string_to_hex d @ rest) = peers_loop ps' rest
      \<and> ps_results ps' = ps_results ?ps @ [trim_right_nulls (ps_peer_id ?ps @ d)]
      \<and> ps_state ps' = PEER_ID_SIZE \<and> ps_peer_id ps' = []"
      by (rule Suc.IH) (use Suc.prems b False in simp_all)
    ultimately show ?thesis by (simp add: b(1))
  qed
qed simp

definition readable :: "string \<Rightarrow> bool" where
  "readable s \<longleftrightarrow> s \<noteq> [] \<and> last s \<noteq> CHR 0x00 \<and> length s < 2 ^ 64"

lemma peers_loop_text:
  assumes "readable s" "ps_state ps = PEER_ID_SIZE" "ps_peer_id ps = []"
  shows "\<exists>ps'. peers_loop ps (abi_text s @ rest) = peers_loop ps' rest
    \<and> ps_results ps' = ps_results ps @ [s] \<and> ps_state ps' = PEER_ID_SIZE \<and> ps_peer_id ps' = []"
proof -
  have s: "s \<noteq> []" "last s \<noteq> CHR 0x00" "length s < 2 ^ 64" using assms(1) by (auto simp: readable_def)
  have l: "length (abi_word (length s)) = 64" using s(3) by (simp only: length_abi_word word_bound)
  have "(of_nat (length s) :: u64) \<noteq> 0" using of_nat_u64_eq [OF s(3), of 0] s(1) by simp
  obtain k m where pad: "pad_str_to_mod_64 (string_to_hex s) = string_to_hex (s @ replicate k CHR 0x00)"
    "length s + k = 32 * m" "k < 32" by (rule padded_bytes)
  have "m \<noteq> 0" using pad(2) s(1) by (cases m) auto
  let ?ps = "ps\<lparr>ps_peer_id_length := of_nat (length s), ps_state := PEER_ID, ps_index := ps_index ps + 1\<rparr>"
  have "peers_loop ps (abi_text s @ rest) = peers_loop ?ps (string_to_hex (s @ replicate k CHR 0x00) @ rest)"
    using assms(2) \<open>of_nat (length s) \<noteq> 0\<close>
    by (simp add: abi_text_def pad(1) peers_loop_line [OF l] peers_step_def strtoul16_abi_word [OF s(3)])
  moreover have "\<exists>ps'. peers_loop ?ps (string_to_hex (s @ replicate k CHR 0x00) @ rest) = peers_loop ps' rest
      \<and> ps_results ps' = ps_results ?ps @ [trim_right_nulls (ps_peer_id ?ps @ (s @ replicate k CHR 0x00))]
      \<and> ps_state ps' = PEER_ID_SIZE \<and> ps_peer_id ps' = []"
    by (rule peers_loop_id [where m = m])
      (use pad(2,3) \<open>m \<noteq> 0\<close> assms(3) in \<open>auto simp: unat_of_nat_u64 [OF s(3)]\<close>)
  ultimately show ?thesis using trim_padding [OF s(1,2)] assms(3) by simp
qed

lemma peers_loop_texts:
  assumes "\<forall>s \<in> set ss. readable s" "ps_state ps = PEER_ID_SIZE" "ps_peer_id ps = []"
  shows "peers_loop ps (concat (map abi_text ss)) = Inr (ps_results ps @ ss)"
  using assms
proof (induction ss arbitrary: ps)
  case Nil
  then show ?case by (simp add: peers_loop_end)
next
  case (Cons s ss)
  then have "readable s" by simp
  from peers_loop_text [OF this Cons.prems(2,3), of "concat (map abi_text ss)"]
  obtain ps' where "peers_loop ps (abi_text s @ concat (map abi_text ss)) = peers_loop ps' (concat (map abi_text ss))"
    "ps_results ps' = ps_results ps @ [s]" "ps_state ps' = PEER_ID_SIZE" "ps_peer_id ps' = []" by blast
  with Cons.IH [of ps'] Cons.prems(1) show ?case by simp
qed

lemma peers_of_list:
  assumes "ids \<noteq> []" "\<forall>s \<in> set ids. readable s" "length places = length ids"
    "\<forall>p \<in> set places. p < 16 ^ 64" "length ids < 2 ^ 64 - 2"
  shows "parse_get_peers_result_to_vector (abi_list places ids) = Inr ids"
proof -
  let ?n = "length ids"
  have n: "?n < 2 ^ 64" "(32 :: nat) < 2 ^ 64" using assms(5) by simp_all
  have l: "length (abi_word 32) = 64" "length (abi_word ?n) = 64" using n by (simp_all only: length_abi_word word_bound)
  have "(of_nat ?n :: u64) \<noteq> 0" using of_nat_u64_eq [OF n(1), of 0] assms(1) by simp
  let ?ps = "peers_start\<lparr>ps_state := HEADER_INFO, ps_node_count := of_nat ?n, ps_index := 2\<rparr>"
  let ?rest = "concat (map abi_text ids)"
  have "parse_get_peers_result_to_vector (abi_list places ids) =
      peers_loop ?ps (concat (map abi_word places) @ ?rest)"
    using \<open>of_nat ?n \<noteq> 0\<close>
    by (simp add: parse_get_peers_result_to_vector_def c_str_hex abi_list_def peers_loop_line [OF l(1)]
      peers_loop_line [OF l(2)] peers_step_def strtoul16_abi_word [OF n(1)] peers_start_def)
  also have "\<dots> = peers_loop (?ps\<lparr>ps_state := PEER_ID_SIZE, ps_index := of_nat (?n + 2)\<rparr>) ?rest"
    by (rule peers_loop_places) (use assms in \<open>auto simp: peers_start_def\<close>)
  also have "\<dots> = Inr ids"
    using peers_loop_texts [OF assms(2)] by (simp add: peers_start_def)
  finally show ?thesis .
qed

section \<open>Reading the address of a peer\<close>

lemma info_loop_line:
  assumes "length l = 64"
  shows "info_loop peer_id is (l @ rest) = cbind (info_step is l) (\<lambda>is'. info_loop peer_id is' rest)"
proof -
  have eqs: "take 64 (l @ rest) = l" "drop 64 (l @ rest) = rest" "\<not> length (l @ rest) < 64"
    using assms by simp_all
  show ?thesis
    by (subst info_loop.simps)
      (simp only: ESR_RESPONSE_LINE_LENGTH_def eqs if_False, cases "info_step is l"; simp)
qed

lemma info_loop_end: "info_loop peer_id is [] = Inr \<lparr>pa_host = is_host is, pa_port = is_port is,
    pa_http_port = 0, pa_name = is_name is, pa_uuid = peer_id\<rparr>"
  by (subst info_loop.simps) (simp add: ESR_RESPONSE_LINE_LENGTH_def)

text \<open>Once the host is read it stays, and so does the port.\<close>

lemma info_step_past_host:
  assumes "is_state is \<in> {NODE_NAME_SIZE, NODE_NAME, FINISHED}" "info_step is l = Inr is'"
  shows "is_state is' \<in> {NODE_NAME_SIZE, NODE_NAME, FINISHED} \<and> is_host is' = is_host is \<and> is_port is' = is_port is"
proof (cases "hex_to_char_string (c_str l)")
  case (Inr bytes)
  with assms show ?thesis by (cases "is_state is") (auto simp: info_step_def Let_def)
qed (use assms in \<open>cases "is_state is", auto simp: info_step_def Let_def\<close>)

lemma info_loop_past_host:
  assumes "is_state is \<in> {NODE_NAME_SIZE, NODE_NAME, FINISHED}" "info_loop peer_id is stm = Inr pa"
  shows "pa_host pa = is_host is \<and> pa_port pa = is_port is \<and> pa_uuid pa = peer_id"
  using assms
proof (induction peer_id "is" stm rule: info_loop.induct)
  case (1 peer_id "is" stm)
  show ?case
  proof (cases "length stm < ESR_RESPONSE_LINE_LENGTH")
    case True
    with 1(3) show ?thesis by (subst (asm) info_loop.simps) auto
  next
    case False
    with 1(3) obtain is' where is': "info_step is (take ESR_RESPONSE_LINE_LENGTH stm) = Inr is'"
      "info_loop peer_id is' (drop ESR_RESPONSE_LINE_LENGTH stm) = Inr pa"
      by (subst (asm) info_loop.simps) (auto split: sum.splits)
    with 1(1) [OF False is'(1)] info_step_past_host [OF 1(2) is'(1)] show ?thesis by simp
  qed
qed

lemma info_loop_past_port:
  assumes "is_state is \<notin> {NODE_COUNT, NA_0, NA_1, NODE_PORT}" "info_loop peer_id is stm = Inr pa"
  shows "pa_port pa = is_port is"
  using assms
proof (induction peer_id "is" stm rule: info_loop.induct)
  case (1 peer_id "is" stm)
  show ?case
  proof (cases "length stm < ESR_RESPONSE_LINE_LENGTH")
    case True
    with 1(3) show ?thesis by (subst (asm) info_loop.simps) auto
  next
    case False
    with 1(3) obtain is' where is': "info_step is (take ESR_RESPONSE_LINE_LENGTH stm) = Inr is'"
      "info_loop peer_id is' (drop ESR_RESPONSE_LINE_LENGTH stm) = Inr pa"
      by (subst (asm) info_loop.simps) (auto split: sum.splits)
    have "is_state is' \<notin> {NODE_COUNT, NA_0, NA_1, NODE_PORT} \<and> is_port is' = is_port is"
      using is'(1) 1(2) by (cases "hex_to_char_string (c_str (take ESR_RESPONSE_LINE_LENGTH stm))")
        (auto simp: info_step_def Let_def split: info_phase.splits if_splits)
    with 1(1) [OF False is'(1)] is'(2) show ?thesis by simp
  qed
qed

text \<open>Nothing but hexadecimal digits: both readers return.\<close>

lemma hex_text_bytes_read: "hex_text s \<Longrightarrow> even (length s) \<Longrightarrow> \<exists>t. hex_to_char_string s = Inr t"
proof (induction s rule: hex_to_char_string.induct)
  case (3 c d s)
  then have "hex_text s" "\<exists>up. \<exists>a < 16. c = hex_char up a" "\<exists>up. \<exists>a < 16. d = hex_char up a"
    by (auto simp: hex_text_def)
  with 3 show ?case by fastforce
qed (auto simp: hex_text_def)

lemma hex_text_take_drop: "hex_text s \<Longrightarrow> hex_text (take k s) \<and> hex_text (drop k s)"
  using append_take_drop_id [of k s] hex_text_simps(2) by metis

lemma info_step_hex: "hex_text l \<Longrightarrow> even (length l) \<Longrightarrow> \<exists>is'. info_step is l = Inr is'"
  using hex_text_bytes_read [of l] by (auto simp: info_step_def c_str_hex Let_def split: info_phase.split)

lemma peers_step_hex: "hex_text l \<Longrightarrow> even (length l) \<Longrightarrow> \<exists>r. peers_step ps l = Inr r"
  using hex_text_bytes_read [of l] by (auto simp: peers_step_def c_str_hex Let_def split: peers_phase.split)

lemma info_loop_hex: "hex_text stm \<Longrightarrow> \<exists>pa. info_loop peer_id is stm = Inr pa \<and> pa_uuid pa = peer_id"
proof (induction peer_id "is" stm rule: info_loop.induct)
  case (1 peer_id "is" stm)
  show ?case
  proof (cases "length stm < ESR_RESPONSE_LINE_LENGTH")
    case False
    have "hex_text (take ESR_RESPONSE_LINE_LENGTH stm)" "hex_text (drop ESR_RESPONSE_LINE_LENGTH stm)"
      using 1(2) hex_text_take_drop by auto
    moreover from this(1) False obtain is' where "info_step is (take ESR_RESPONSE_LINE_LENGTH stm) = Inr is'"
      using info_step_hex [of "take ESR_RESPONSE_LINE_LENGTH stm"] by (auto simp: ESR_RESPONSE_LINE_LENGTH_def)
    ultimately show ?thesis using 1(1) [OF False] False by (subst info_loop.simps) simp
  qed (subst info_loop.simps, simp)
qed

lemma peers_loop_hex: "hex_text stm \<Longrightarrow> \<exists>ids. peers_loop ps stm = Inr ids"
proof (induction ps stm rule: peers_loop.induct)
  case (1 ps stm)
  show ?case
  proof (cases "length stm < ESR_RESPONSE_LINE_LENGTH")
    case False
    have hex: "hex_text (take ESR_RESPONSE_LINE_LENGTH stm)" "hex_text (drop ESR_RESPONSE_LINE_LENGTH stm)"
      using 1(2) hex_text_take_drop by auto
    with False obtain r where r: "peers_step ps (take ESR_RESPONSE_LINE_LENGTH stm) = Inr r"
      using peers_step_hex [of "take ESR_RESPONSE_LINE_LENGTH stm"] by (auto simp: ESR_RESPONSE_LINE_LENGTH_def)
    show ?thesis
    proof (cases r)
      case (Some ps')
      with 1(1) [OF False r] hex(2) False r show ?thesis by (subst peers_loop.simps) simp
    qed (use False r in \<open>subst peers_loop.simps, simp\<close>)
  qed (subst peers_loop.simps, simp)
qed

text \<open>A name is read over several lines; each is trimmed, so that a name must not hold null characters.\<close>

lemma trim_clean: "CHR 0x00 \<notin> set s \<Longrightarrow> trim_right_nulls (s @ replicate k CHR 0x00) = s"
  by (cases s rule: rev_cases) (auto simp: trim_right_nulls_def dropWhile_append)

lemma info_step_name:
  assumes "is_state is = NODE_NAME"
  shows "info_step is (string_to_hex b) = Inr (is\<lparr>is_name := trim_right_nulls (is_name is @ b),
    is_state := (if unat (is_text_size is) = length (trim_right_nulls (is_name is @ b)) then FINISHED else NODE_NAME)\<rparr>)"
  using assms hex_to_char_string_hex [of b "[]"] by (simp add: info_step_def c_str_hex Let_def)

lemma info_loop_name:
  assumes "is_state is = NODE_NAME" "CHR 0x00 \<notin> set (is_name is)" "CHR 0x00 \<notin> set t" "k < 32"
    "length t + k = 32 * m" "m \<noteq> 0" "unat (is_text_size is) = length (is_name is) + length t"
  shows "info_loop peer_id is (string_to_hex (t @ replicate k CHR 0x00)) =
    Inr \<lparr>pa_host = is_host is, pa_port = is_port is, pa_http_port = 0, pa_name = is_name is @ t, pa_uuid = peer_id\<rparr>"
  using assms
proof (induction m arbitrary: "is" t)
  case (Suc m)
  show ?case
  proof (cases "m = 0")
    case True
    then have "length (string_to_hex (t @ replicate k CHR 0x00)) = 64" using Suc.prems(5) by simp
    note line = info_loop_line [OF this, where rest = "[]", unfolded append_Nil2]
    have "trim_right_nulls (is_name is @ t @ replicate k CHR 0x00) = is_name is @ t"
      using trim_clean [of "is_name is @ t" k] Suc.prems(2,3) by simp
    then show ?thesis
      using Suc.prems(7) by (simp only: line info_step_name [OF Suc.prems(1)]) (simp add: info_loop_end)
  next
    case False
    then have "32 \<le> length t" using Suc.prems(4,5) by (cases m) simp_all
    then obtain c d where t: "t = c @ d" "length c = 32" using that [of "take 32 t" "drop 32 t"] by simp
    then have clean: "CHR 0x00 \<notin> set c" "CHR 0x00 \<notin> set d" "length d + k = 32 * m" "d \<noteq> []"
      using Suc.prems(3,4,5) False by (auto; cases m; simp)+
    have trim: "trim_right_nulls (is_name is @ c) = is_name is @ c"
      using trim_clean [of "is_name is @ c" 0] Suc.prems(2) clean(1) by simp
    let ?is = "is\<lparr>is_name := is_name is @ c\<rparr>"
    have "unat (is_text_size is) \<noteq> length (is_name is @ c)" using Suc.prems(7) t clean(4) by simp
    then have step: "info_step is (string_to_hex c) = Inr ?is"
      using Suc.prems(1) by (simp only: info_step_name [OF Suc.prems(1)] trim) simp
    have "length (string_to_hex c) = 64" using t by simp
    note line = info_loop_line [OF this, of _ "is" "string_to_hex (d @ replicate k CHR 0x00)"]
    have "info_loop peer_id ?is (string_to_hex (d @ replicate k CHR 0x00)) =
      Inr \<lparr>pa_host = is_host ?is, pa_port = is_port ?is, pa_http_port = 0, pa_name = is_name ?is @ d, pa_uuid = peer_id\<rparr>"
      by (rule Suc.IH) (use Suc.prems clean t False in simp_all)
    then show ?thesis using line by (simp add: t(1) step)
  qed
qed simp

text \<open>The four words before the texts, and the first line of the host.\<close>

lemma info_step_host:
  assumes "is_state is = NODE_HOST"
  shows "info_step is (string_to_hex b) = Inr (is\<lparr>is_host := trim_right_nulls b, is_state := NODE_NAME_SIZE\<rparr>)"
  using assms hex_to_char_string_hex [of b "[]"] by (simp add: info_step_def c_str_hex Let_def)

lemma hex_bytes: "hex_to_char_string (string_to_hex b) = Inr b"
  using hex_to_char_string_hex [of b "[]"] by simp

lemma port_cast: "(ucast (of_nat n :: u64) :: u16) = of_nat n"
  by transfer (simp add: take_bit_of_nat min_def)

lemma abi_text_line:
  assumes "readable s"
  obtains rest' where "abi_text s = abi_word (length s) @ string_to_hex (take 32 s @ replicate (32 - length s) CHR 0x00) @ rest'"
    "length s \<le> 32 \<Longrightarrow> rest' = []"
proof -
  have s: "s \<noteq> []" using assms by (simp add: readable_def)
  obtain k m where pad: "pad_str_to_mod_64 (string_to_hex s) = string_to_hex (s @ replicate k CHR 0x00)"
    "length s + k = 32 * m" "k < 32" by (rule padded_bytes)
  show thesis
  proof (cases "length s \<le> 32")
    case True
    with pad(2,3) s have "m = 1" by (cases m; cases "m - 1"; simp)
    with pad(2) True have "k = 32 - length s" by simp
    with True pad(1) show ?thesis by (intro that [of "[]"]) (simp_all add: abi_text_def)
  next
    case False
    have "string_to_hex (s @ replicate k CHR 0x00) =
        string_to_hex (take 32 s) @ string_to_hex (drop 32 s @ replicate k CHR 0x00)"
      by (simp flip: string_to_hex_simps(3) append_assoc)
    with False pad(1) show ?thesis
      by (intro that [of "string_to_hex (drop 32 s @ replicate k CHR 0x00)"]) (simp_all add: abi_text_def)
  qed
qed

lemma info_to_host:
  assumes "w0 < 16 ^ 64" "w1 < 16 ^ 64" "w2 < 16 ^ 64" "port < 2 ^ 64" "readable host"
  obtains sc rest' where
    "info_loop peer_id info_start (concat (map abi_word [w0, w1, w2, port]) @ abi_text host @ rest) =
       info_loop peer_id sc (rest' @ rest)"
    "is_state sc = NODE_NAME_SIZE" "is_host sc = trim_right_nulls (take 32 host @ replicate (32 - length host) CHR 0x00)"
    "is_port sc = of_nat port" "length host \<le> 32 \<Longrightarrow> rest' = []"
proof -
  obtain rest' where host: "abi_text host =
      abi_word (length host) @ string_to_hex (take 32 host @ replicate (32 - length host) CHR 0x00) @ rest'"
    "length host \<le> 32 \<Longrightarrow> rest' = []" using abi_text_line [OF assms(5)] by blast
  have n: "length host < 2 ^ 64" using assms(5) by (simp add: readable_def)
  have l: "length (abi_word w0) = 64" "length (abi_word w1) = 64" "length (abi_word w2) = 64"
    "length (abi_word port) = 64" "length (abi_word (length host)) = 64"
    using assms(1-3) by (simp_all only: length_abi_word word_bound n assms(4))
  have "length (string_to_hex (take 32 host @ replicate (32 - length host) CHR 0x00)) = 64" by simp
  note lines = this [THEN info_loop_line] l [THEN info_loop_line]
  let ?sc = "\<lparr>is_text_size = of_nat (length host), is_port = of_nat port,
    is_host = trim_right_nulls (take 32 host @ replicate (32 - length host) CHR 0x00), is_name = [],
    is_state = NODE_NAME_SIZE\<rparr>"
  have "info_loop peer_id info_start (concat (map abi_word [w0, w1, w2, port]) @ abi_text host @ rest) =
      info_loop peer_id ?sc (rest' @ rest)"
    unfolding host(1) append_assoc list.map concat.simps append_Nil2
    by (simp only: lines info_step_host info_start_def)
      (simp add: info_step_def info_start_def strtoul16_abi_word [OF n] strtoul16_abi_word [OF assms(4)]
        port_cast lines hex_bytes c_str_hex Let_def del: string_to_hex_simps)
  then show thesis by (rule that) (simp_all add: host(2))
qed

lemma length_padded: "readable s \<Longrightarrow>
    \<exists>k m. pad_str_to_mod_64 (string_to_hex s) = string_to_hex (s @ replicate k CHR 0x00)
      \<and> length s + k = 32 * m \<and> k < 32 \<and> m \<noteq> 0"
  by (rule padded_bytes [of s]) (metis readable_def add_is_0 length_0_conv mult_0_right)

section \<open>The readers invert the encoding\<close>

text \<open>C26. Reading a list of identifiers: what the contract encodes as a list of texts - whatever the
  offsets are - is read back, every identifier in its place, at any length.  An identifier must not
  be empty (the code skips it) nor end in a null character.\<close>

theorem get_peers_roundtrip:
  assumes "ids \<noteq> []" "\<forall>s \<in> set ids. readable s" "length ids < 2 ^ 64 - 2"
    "length places = length ids" "\<forall>p \<in> set places. p < 16 ^ 64"
  shows "parse_get_peers_result_to_vector (abi_list places ids) = Inr ids"
  using peers_of_list [OF assms(1,2,4,5,3)] .

text \<open>Two identifiers, one of them of more than a line.\<close>

theorem get_peers_roundtrip_witness:
  "parse_get_peers_result_to_vector (abi_list [64, 128] [''node-1'', replicate 40 CHR ''b'']) =
     Inr [''node-1'', replicate 40 CHR ''b'']"
  by (rule get_peers_roundtrip) (simp_all add: readable_def)

text \<open>C27. Reading the address of a peer: three words that are skipped, the port, the host and the name
  are read back, the identifier is the one asked for and the port of HTTP is 0.  The host must fit
  in one line of 32 bytes, the name may have any length.\<close>

theorem get_peer_info_roundtrip:
  assumes "w0 < 16 ^ 64" "w1 < 16 ^ 64" "w2 < 16 ^ 64" "port < 2 ^ 64"
    and "readable host" "length host \<le> 32"
    and "name \<noteq> []" "CHR 0x00 \<notin> set name" "length name < 2 ^ 64"
  shows "parse_get_peer_info_result_to_peer_address peer_id
      (concat (map abi_word [w0, w1, w2, port]) @ abi_text host @ abi_text name) =
    Inr \<lparr>pa_host = host, pa_port = of_nat port, pa_http_port = 0, pa_name = name, pa_uuid = peer_id\<rparr>"
proof -
  obtain sc where sc: "info_loop peer_id info_start
      (concat (map abi_word [w0, w1, w2, port]) @ abi_text host @ abi_text name) = info_loop peer_id sc (abi_text name)"
    "is_state sc = NODE_NAME_SIZE" "is_host sc = trim_right_nulls (take 32 host @ replicate (32 - length host) CHR 0x00)"
    "is_port sc = of_nat port"
    using info_to_host [OF assms(1-5)] assms(6) by (metis append_Nil)
  have host: "is_host sc = host" using assms(5,6) trim_padding by (simp add: sc(3) readable_def)
  have "readable name" using assms(7-9) last_in_set by (metis readable_def)
  then obtain k m where pad: "pad_str_to_mod_64 (string_to_hex name) = string_to_hex (name @ replicate k CHR 0x00)"
    "length name + k = 32 * m" "k < 32" "m \<noteq> 0" using length_padded by blast
  have l: "length (abi_word (length name)) = 64" using assms(9) by (simp only: length_abi_word word_bound)
  let ?sc = "sc\<lparr>is_text_size := of_nat (length name), is_state := NODE_NAME, is_name := []\<rparr>"
  have "info_loop peer_id sc (abi_text name) = info_loop peer_id ?sc (string_to_hex (name @ replicate k CHR 0x00))"
    by (simp add: abi_text_def info_loop_line [OF l] pad(1) info_step_def sc(2) strtoul16_abi_word [OF assms(9)]
        del: string_to_hex_simps)
  also have "\<dots> = Inr \<lparr>pa_host = is_host ?sc, pa_port = is_port ?sc, pa_http_port = 0, pa_name = is_name ?sc @ name,
      pa_uuid = peer_id\<rparr>"
    by (rule info_loop_name) (use assms(8) pad in \<open>simp_all add: unat_of_nat_u64 [OF assms(9)]\<close>)
  finally show ?thesis
    by (simp add: parse_get_peer_info_result_to_peer_address_def c_str_hex host sc(4)
        flip: sc(1)[simplified])
qed

theorem get_peer_info_roundtrip_witness:
  "parse_get_peer_info_result_to_peer_address ''u''
      (concat (map abi_word [1, 128, 192, 50000]) @ abi_text ''127.0.0.1'' @ abi_text (replicate 40 CHR ''n'')) =
    Inr \<lparr>pa_host = ''127.0.0.1'', pa_port = of_nat 50000, pa_http_port = 0, pa_name = replicate 40 CHR ''n'',
         pa_uuid = ''u''\<rparr>"
  by (rule get_peer_info_roundtrip) (simp_all add: readable_def)

text \<open>A host of more than 32 characters is cut, and what is read as the name is not the name.\<close>

lemma get_peer_info_long_host:
  assumes "w0 < 16 ^ 64" "w1 < 16 ^ 64" "w2 < 16 ^ 64" "port < 2 ^ 64"
    and "readable host" "32 < length host"
  shows "\<exists>pa. parse_get_peer_info_result_to_peer_address peer_id
      (concat (map abi_word [w0, w1, w2, port]) @ abi_text host @ abi_text name) = Inr pa
    \<and> pa_host pa = trim_right_nulls (take 32 host)"
proof -
  obtain sc rest where sc: "info_loop peer_id info_start
      (concat (map abi_word [w0, w1, w2, port]) @ abi_text host @ abi_text name) =
        info_loop peer_id sc (rest @ abi_text name)"
    "is_state sc = NODE_NAME_SIZE" "is_host sc = trim_right_nulls (take 32 host @ replicate (32 - length host) CHR 0x00)"
    using info_to_host [OF assms(1-5)] by metis
  have "hex_text (concat (map abi_word [w0, w1, w2, port]) @ abi_text host @ abi_text name)" by simp
  then obtain pa where pa: "info_loop peer_id info_start
      (concat (map abi_word [w0, w1, w2, port]) @ abi_text host @ abi_text name) = Inr pa"
    using info_loop_hex by blast
  with sc(1) have "info_loop peer_id sc (rest @ abi_text name) = Inr pa" by simp
  from info_loop_past_host [OF _ this] sc(2,3) assms(6) have "pa_host pa = trim_right_nulls (take 32 host)" by simp
  moreover have "parse_get_peer_info_result_to_peer_address peer_id
      (concat (map abi_word [w0, w1, w2, port]) @ abi_text host @ abi_text name) = Inr pa"
    using pa by (simp add: parse_get_peer_info_result_to_peer_address_def c_str_hex)
  ultimately show ?thesis by blast
qed

text \<open>
  \<open>GET_PEER_INFO_ABI\<close> declares five outputs - the count, the host, the port of HTTP, the name, the
  port.  In its encoding the fourth word is the offset of the name, and it is what is read as the port.
\<close>

lemma declared_abi_port:
  assumes "count' < 16 ^ 64" "host_place < 16 ^ 64" "http_port < 16 ^ 64" "name_place < 2 ^ 64"
  shows "\<exists>pa. parse_get_peer_info_result_to_peer_address peer_id
      (concat (map abi_word [count', host_place, http_port, name_place]) @ abi_word port @ abi_text host
        @ abi_text name) = Inr pa
    \<and> pa_port pa = of_nat name_place"
proof -
  let ?rest = "abi_word port @ abi_text host @ abi_text name"
  let ?stm = "concat (map abi_word [count', host_place, http_port, name_place]) @ ?rest"
  have l: "length (abi_word count') = 64" "length (abi_word host_place) = 64" "length (abi_word http_port) = 64"
    "length (abi_word name_place) = 64"
    using assms by (simp_all only: length_abi_word word_bound)
  let ?sc = "info_start\<lparr>is_port := of_nat name_place, is_state := NODE_HOST_SIZE\<rparr>"
  have hex: "hex_text ?stm" by simp
  then obtain pa where pa: "info_loop peer_id info_start ?stm = Inr pa" using info_loop_hex by blast
  moreover have "info_loop peer_id info_start ?stm = info_loop peer_id ?sc ?rest"
    by (simp add: l [THEN info_loop_line] info_step_def info_start_def strtoul16_abi_word [OF assms(4)] port_cast)
  ultimately have "info_loop peer_id ?sc ?rest = Inr pa" by simp
  from info_loop_past_port [OF _ this] have "pa_port pa = of_nat name_place" by simp
  with pa hex show ?thesis by (simp add: parse_get_peer_info_result_to_peer_address_def c_str_hex)
qed

text \<open>Nothing but hexadecimal digits: however the answer of the contract is laid out and wherever it
  ends, both readers return - no exception, no undefined behaviour.\<close>

theorem esr_readers_total:
  assumes "hex_text result"
  shows "(\<exists>ids. parse_get_peers_result_to_vector result = Inr ids)
    \<and> (\<exists>pa. parse_get_peer_info_result_to_peer_address peer_id result = Inr pa \<and> pa_uuid pa = peer_id)"
  using peers_loop_hex [OF assms] info_loop_hex [OF assms] assms
  by (simp add: parse_get_peers_result_to_vector_def parse_get_peer_info_result_to_peer_address_def c_str_hex)

theorem esr_readers_total_witness:
  "hex_text (replicate 64 CHR ''0'' @ ''fF'')
    \<and> (\<exists>ids. parse_get_peers_result_to_vector (replicate 64 CHR ''0'' @ ''fF'') = Inr ids)
    \<and> (\<exists>pa. parse_get_peer_info_result_to_peer_address ''u'' (replicate 64 CHR ''0'' @ ''fF'') = Inr pa
        \<and> pa_uuid pa = ''u'')"
proof -
  have "''fF'' = [hex_char False 15, hex_char True 15]" by code_simp
  then have "hex_text ''fF''" by (simp only: hex_text_Cons) (simp del: hex_text_Cons add: hex_text_def, blast?)
  then have h: "hex_text (replicate 64 CHR ''0'' @ ''fF'')" by (simp only: hex_text_simps hex_text_zeros)
  show ?thesis using esr_readers_total [OF h] h by blast
qed

section \<open>The requests are encodings\<close>

lemma size_type_to_hex_word: "n < 2 ^ 32 \<Longrightarrow> size_type_to_hex n 64 = abi_word n"
  by (simp add: size_type_to_hex_def abi_word_def unsigned_of_nat take_bit_nat_eq_self Let_def)

lemma size_type_to_hex_8:
  assumes "n < 2 ^ 32"
  shows "replicate 56 CHR ''0'' @ size_type_to_hex n 8 = abi_word n"
proof -
  have "length (hex_of_nat False n) \<le> 8" using hex_of_nat_length [of n 7 False] assms by simp
  then have "replicate (64 - length (hex_of_nat False n)) CHR ''0'' =
      replicate 56 CHR ''0'' @ replicate (8 - length (hex_of_nat False n)) CHR ''0''"
    by (simp flip: replicate_add)
  with assms show ?thesis
    by (simp add: size_type_to_hex_def abi_word_def unsigned_of_nat take_bit_nat_eq_self Let_def)
qed

text \<open>The requests are ABI encodings of the calls: the selector, then the offsets of the parameters
  and the parameters, each with its length and padded to whole words.  The lengths are those that
  the cast to \<open>int\<close> keeps.\<close>

lemma requests_are_abi_encodings:
  assumes "length swarm_id < 2 ^ 31" "length peer_id < 2 ^ 31"
  shows "data_string_for_get_swarms = ''0x0043d7e7'' @ replicate 56 CHR ''0''
    \<and> data_string_for_get_peers swarm_id = ''0x46e76d8b'' @ abi_word 32 @ abi_text swarm_id
    \<and> data_string_for_get_peer_info swarm_id peer_id = ''0xcc8575cb'' @ abi_word 64
        @ abi_word (64 + length (abi_text swarm_id) div 2) @ abi_text swarm_id @ abi_text peer_id"
proof -
  have n: "length swarm_id < 2 ^ 32" "length peer_id < 2 ^ 32" using assms by simp_all
  have size: "size_type_to_hex (length swarm_id) 64 = abi_word (length swarm_id)"
    "size_type_to_hex (length peer_id) 64 = abi_word (length peer_id)"
    using n by (simp_all only: size_type_to_hex_word)
  have "length (abi_word (length swarm_id)) = 64" using assms(1) by (simp add: length_abi_word)
  moreover have "length (pad_str_to_mod_64 (string_to_hex swarm_id)) \<le> 2 * length swarm_id + 64"
    by (simp add: pad_str_to_mod_64_def REQUIRED_SIZE_MULTIPLE_def Let_def)
  ultimately have "64 + length (abi_text swarm_id) div 2 < 2 ^ 32" using assms(1) by (simp add: abi_text_def)
  then have place: "size_type_to_hex (64 + length (abi_text swarm_id) div 2) 64 =
      abi_word (64 + length (abi_text swarm_id) div 2)"
    by (rule size_type_to_hex_word)
  have w: "size_type_to_hex 64 64 = abi_word 64" "pad_str_to_mod_64 ''00000020'' = ''00000020'' @ replicate 56 CHR ''0''"
    "replicate 56 CHR ''0'' @ ''00000020'' = abi_word 32"
    by (simp add: size_type_to_hex_word, code_simp, code_simp)
  have "data_string_for_get_peers swarm_id = ''0x46e76d8b'' @ (replicate 56 CHR ''0'' @ ''00000020'')
      @ (replicate 56 CHR ''0'' @ size_type_to_hex (length swarm_id) 8) @ pad_str_to_mod_64 (string_to_hex swarm_id)"
    unfolding data_string_for_get_peers_def w(2)
    by (simp add: pad_str_to_mod_64_def GET_PEERS_ADDRESS_def REQUIRED_SIZE_MULTIPLE_def)
  then have "data_string_for_get_peers swarm_id = ''0x46e76d8b'' @ abi_word 32 @ abi_text swarm_id"
    unfolding w(3) size_type_to_hex_8 [OF n(1)] abi_text_def .
  moreover have "data_string_for_get_swarms = ''0x0043d7e7'' @ replicate 56 CHR ''0''"
    by code_simp
  moreover have "data_string_for_get_peer_info swarm_id peer_id = ''0xcc8575cb'' @ abi_word 64
        @ abi_word (64 + length (abi_text swarm_id) div 2) @ abi_text swarm_id @ abi_text peer_id"
    unfolding data_string_for_get_peer_info_def Let_def size PARAMETER_OFFSET_def w(1) GET_PEER_INFO_SIGNATURE_def
    unfolding abi_text_def [symmetric] place append_assoc ..
  ultimately show ?thesis by blast
qed

end
