(* ===== verification/Esr_Abi.thy ===== *)
theory Esr_Abi
  imports Esr_Roundtrip
begin

text \<open>
  The three functions of the contract as \<open>utils/esr_peer_info.cpp\<close> declares them in its constants
  \<open>GET_SWARM_LIST_ABI\<close>, \<open>GET_NODE_LIST_ABI\<close> and \<open>GET_PEER_INFO_ABI\<close>, which no code reads, and what they
  say of the requests and of the answers.
\<close>

section \<open>The declarations\<close>

text \<open>The texts of the constants as the JSON values that they denote, with the members in the order of their names.\<close>

definition abi_parameter :: "string \<Rightarrow> string \<Rightarrow> json" where
  "abi_parameter name ty = JObject [(''name'', JString name), (''type'', JString ty)]"

definition abi_function :: "string \<Rightarrow> json list \<Rightarrow> json list \<Rightarrow> string \<Rightarrow> json" where
  "abi_function name inputs outputs signature =
     JObject [(''constant'', JBool True), (''inputs'', JArray inputs), (''name'', JString name),
       (''outputs'', JArray outputs), (''payable'', JBool False), (''signature'', JString signature),
       (''stateMutability'', JString ''view''), (''type'', JString ''function'')]"

definition GET_SWARM_LIST_ABI :: json where
  "GET_SWARM_LIST_ABI = abi_function ''getSwarmList'' [] [abi_parameter [] ''string[]''] ''0x0043d7e7''"

definition GET_NODE_LIST_ABI :: json where
  "GET_NODE_LIST_ABI = abi_function ''getNodeList'' [abi_parameter ''swarmID'' ''string'']
     [abi_parameter [] ''string[]''] ''0x46e76d8b''"

definition GET_PEER_INFO_ABI :: json where
  "GET_PEER_INFO_ABI = abi_function ''getNodeInfo''
     [abi_parameter ''swarmID'' ''string'', abi_parameter ''nodeUUID'' ''string'']
     [abi_parameter ''nodeCount'' ''uint256'', abi_parameter ''nodeHost'' ''string'',
      abi_parameter ''nodeHttpPort'' ''uint256'', abi_parameter ''nodeName'' ''string'',
      abi_parameter ''nodePort'' ''uint256''] ''0xcc8575cb''"

section \<open>Calls by a declaration\<close>

definition abi_types :: "string \<Rightarrow> json \<Rightarrow> string list" where
  "abi_types k abi = (case jfield k abi of
     Some (JArray ps) \<Rightarrow> map (\<lambda>p. case jfield ''type'' p of Some (JString t) \<Rightarrow> t | _ \<Rightarrow> []) ps | _ \<Rightarrow> [])"

text \<open>
  The ABI encoding of texts: the head holds the place in bytes of every text, counted from the
  start of the head, and the tail the texts.
\<close>

fun text_places :: "nat \<Rightarrow> string list \<Rightarrow> nat list" where
  "text_places at [] = []"
| "text_places at (s # ss) = at # text_places (at + length (abi_text s) div 2) ss"

definition abi_texts :: "string list \<Rightarrow> string" where
  "abi_texts ss = concat (map abi_word (text_places (32 * length ss) ss)) @ concat (map abi_text ss)"

text \<open>A call of a declared function whose inputs are texts.\<close>

definition abi_call :: "json \<Rightarrow> string list \<Rightarrow> string option" where
  "abi_call abi args =
     (case jfield ''signature'' abi of
        Some (JString signature) \<Rightarrow>
          if abi_types ''inputs'' abi = replicate (length args) ''string'' then Some (signature @ abi_texts args) else None
      | _ \<Rightarrow> None)"

lemmas abi_declarations = GET_SWARM_LIST_ABI_def GET_NODE_LIST_ABI_def GET_PEER_INFO_ABI_def abi_function_def
  abi_parameter_def

lemma declared_calls:
  "abi_call GET_SWARM_LIST_ABI [] = Some ''0x0043d7e7''"
  "abi_call GET_NODE_LIST_ABI [s] = Some (''0x46e76d8b'' @ abi_word 32 @ abi_text s)"
  "abi_call GET_PEER_INFO_ABI [s, p] = Some (''0xcc8575cb'' @ abi_word 64
     @ abi_word (64 + length (abi_text s) div 2) @ abi_text s @ abi_text p)"
  by (simp_all add: abi_call_def abi_types_def abi_declarations abi_texts_def)

text \<open>
  C28. The requests are the ABI encodings of calls of the functions as they are declared, with the
  declared selectors and inputs; the one for the list of swarms is followed by a padding of zeros.
  The lengths are those that the cast to \<open>int\<close> keeps.
\<close>

theorem requests_are_declared_calls:
  assumes "length swarm_id < 2 ^ 31" "length peer_id < 2 ^ 31"
  shows "map_option (\<lambda>call. call @ replicate 56 CHR ''0'') (abi_call GET_SWARM_LIST_ABI []) = Some data_string_for_get_swarms
    \<and> abi_call GET_NODE_LIST_ABI [swarm_id] = Some (data_string_for_get_peers swarm_id)
    \<and> abi_call GET_PEER_INFO_ABI [swarm_id, peer_id] = Some (data_string_for_get_peer_info swarm_id peer_id)"
  using requests_are_abi_encodings [OF assms] by (simp add: declared_calls)

lemma requests_are_declared_calls_witness:
  "abi_call GET_NODE_LIST_ABI [''swarm''] = Some (data_string_for_get_peers ''swarm'')
    \<and> abi_call GET_PEER_INFO_ABI [''swarm'', ''peer''] = Some (data_string_for_get_peer_info ''swarm'' ''peer'')"
  using requests_are_declared_calls [of "''swarm''" "''peer''"] by simp

end
