(* ===== verification/Swarm_Factory.thy ===== *)
theory Swarm_Factory
  imports Dispatch_Runs
begin

text \<open>
  \<open>swarm/swarm_factory.cpp\<close>: the registry of known swarms, which of them holds a database, and
  the protocols that look for a database in every swarm and create one in some swarm.

  A state is the dispatcher beside the swarms \<open>'s\<close>, the factory and the rest \<open>'x\<close> of the library.
  The closures given to the dispatcher and to \<open>has_db\<close> are the values of \<open>factory_closure\<close> and
  \<open>factory_callback\<close>; \<open>'cb\<close> stands for the callbacks of the library.  A factory lives as long as
  the io context runs, so the weak pointers to it lock.
\<close>

section \<open>The registry\<close>

text \<open>\<open>swarm_info\<close>: the weak pointer is \<open>None\<close> until a swarm object was made.\<close>

record 'sw swarm_info =
  si_nodes :: "(node_id \<times> peer_address) list"
  si_swarm :: "'sw option"

type_synonym 'sw registry = "(swarm_id \<times> 'sw swarm_info) list"

definition empty_swarm_info :: "'sw swarm_info" where
  "empty_swarm_info = \<lparr>si_nodes = [], si_swarm = None\<rparr>"

text \<open>\<open>emplace\<close> keeps an entry that is there.\<close>

definition om_emplace :: "'k::linorder \<Rightarrow> 'v \<Rightarrow> ('k \<times> 'v) list \<Rightarrow> ('k \<times> 'v) list" where
  "om_emplace k v m = (if map_of m k = None then om_put k v m else m)"

definition reg_add_node ::
  "swarm_id \<Rightarrow> node_id \<Rightarrow> peer_address \<Rightarrow> 'sw registry \<Rightarrow> 'sw registry" where
  "reg_add_node sid nid ep reg =
     (let info = (case map_of reg sid of Some i \<Rightarrow> i | None \<Rightarrow> empty_swarm_info)
      in om_put sid (info\<lparr>si_nodes := om_emplace nid ep (si_nodes info)\<rparr>) reg)"

definition reg_get_swarms :: "'sw registry \<Rightarrow> swarm_id list" where
  "reg_get_swarms reg = map fst reg"

definition reg_get_nodes :: "swarm_id \<Rightarrow> 'sw registry \<Rightarrow> (node_id \<times> peer_address) list" where
  "reg_get_nodes sid reg = (case map_of reg sid of Some i \<Rightarrow> si_nodes i | None \<Rightarrow> [])"

definition reg_get_swarm :: "swarm_id \<Rightarrow> 'sw registry \<Rightarrow> 'sw option" where
  "reg_get_swarm sid reg = (case map_of reg sid of Some i \<Rightarrow> si_swarm i | None \<Rightarrow> None)"

definition reg_set_swarm :: "swarm_id \<Rightarrow> 'sw \<Rightarrow> 'sw registry \<Rightarrow> 'sw registry cxx" where
  "reg_set_swarm sid sw reg =
     (case map_of reg sid of
        None \<Rightarrow> Inl Assert_fails
      | Some i \<Rightarrow> Inr (om_put sid (i\<lparr>si_swarm := Some sw\<rparr>) reg))"

section \<open>The factory\<close>

definition MAX_RETRY :: u64 where "MAX_RETRY = 5"

text \<open>\<open>fa_counters\<close> holds the shared counters that \<open>has_db\<close> makes, numbered as they are made.\<close>

record 'sw swarm_factory =
  fa_my_uuid :: uuid
  fa_esr_address :: string
  fa_esr_url :: string
  fa_initialized :: bool
  fa_swarm_reg :: "'sw registry option"
  fa_swarm_dbs :: "(uuid \<times> swarm_id) list"
  fa_counters :: "u64 list"

definition new_factory :: "uuid \<Rightarrow> 'sw swarm_factory" where
  "new_factory u = \<lparr>fa_my_uuid = u, fa_esr_address = [], fa_esr_url = [], fa_initialized = False,
     fa_swarm_reg = None, fa_swarm_dbs = [], fa_counters = []\<rparr>"

datatype 'cb factory_callback = Library_callback 'cb | Create_unless_found uuid u64 bool 'cb

datatype ('sw, 'cb) factory_closure =
    Found_in uuid swarm_id nat "'cb factory_callback" 'sw
  | Created_in uuid swarm_id u64 bool u64 'cb 'sw

type_synonym ('sw, 'h, 's, 'x, 'a) factory_prog =
  "(('sw, 'h) db_dispatch \<times> ('s \<times> ('sw swarm_factory \<times> 'x)), 'a) prog"

text \<open>
  What the factory uses: the codec, the swarms and the timeout of the dispatcher; whether a weak
  pointer to a swarm still locks; the constructor of a swarm; the three functions of
  \<open>swarm/esr_base.hpp\<close>; the dispatcher's handler for a closure; and calling a library callback.
\<close>

record ('sw, 'h, 's, 'x, 'cb) factory_env =
  fe_codec :: codec
  fe_swarms :: "('s, 'sw) swarm_ops"
  fe_timeout :: u64
  fe_lock :: "'sw \<Rightarrow> ('s, bool) prog"
  fe_make_swarm :: "swarm_id \<Rightarrow> uuid \<Rightarrow> (node_id \<times> peer_address) list \<Rightarrow> ('s, 'sw) prog"
  fe_swarm_ids :: "string \<Rightarrow> string \<Rightarrow> ('s, string list) prog"
  fe_peer_ids :: "string \<Rightarrow> string \<Rightarrow> string \<Rightarrow> ('s, string list) prog"
  fe_peer_info :: "string \<Rightarrow> string \<Rightarrow> string \<Rightarrow> string \<Rightarrow> ('s, peer_address) prog"
  fe_closure :: "('sw, 'cb) factory_closure uuid_handler \<Rightarrow> 'h"
  fe_callback :: "'cb \<Rightarrow> db_error \<Rightarrow> 'sw option \<Rightarrow> ('sw, 'h, 's, 'x, unit) factory_prog"

definition at_factory :: "('sw swarm_factory, 'a) prog \<Rightarrow> ('sw, 'h, 's, 'x, 'a) factory_prog" where
  "at_factory m = on_snd (on_snd (on_fst m))"

definition at_world :: "('s, 'a) prog \<Rightarrow> ('sw, 'h, 's, 'x, 'a) factory_prog" where
  "at_world m = on_snd (on_fst m)"

text \<open>Dereferencing the pointer to the registry.\<close>

definition the_registry :: "('sw swarm_factory, 'sw registry) prog" where
  "the_registry = sbind (gets fa_swarm_reg) (\<lambda>r. case r of None \<Rightarrow> raise Undefined | Some reg \<Rightarrow> ret reg)"

text \<open>The branch of \<open>get_or_create_swarm\<close> that makes a swarm.\<close>

definition make_and_register ::
  "('sw, 'h, 's, 'x, 'cb) factory_env \<Rightarrow> swarm_id \<Rightarrow> 'sw registry \<Rightarrow> ('sw, 'h, 's, 'x, 'sw) factory_prog" where
  "make_and_register fe sid reg =
     (if reg_get_nodes sid reg = [] then raise Assert_fails
      else
        sbind (at_factory (gets fa_my_uuid)) (\<lambda>me.
        sbind (at_world (fe_make_swarm fe sid me (reg_get_nodes sid reg))) (\<lambda>swm.
        sbind (lift_cxx (reg_set_swarm sid swm reg)) (\<lambda>reg'.
        andthen (at_factory (modify (\<lambda>f. f\<lparr>fa_swarm_reg := Some reg'\<rparr>))) (ret swm)))))"

definition get_or_create_swarm ::
  "('sw, 'h, 's, 'x, 'cb) factory_env \<Rightarrow> swarm_id \<Rightarrow> ('sw, 'h, 's, 'x, 'sw) factory_prog" where
  "get_or_create_swarm fe sid =
     sbind (at_factory the_registry) (\<lambda>reg.
       case reg_get_swarm sid reg of
         None \<Rightarrow> make_and_register fe sid reg
       | Some sw \<Rightarrow> sbind (at_world (fe_lock fe sw)) (\<lambda>alive.
           if alive then ret sw else make_and_register fe sid reg))"

section \<open>Initialization\<close>

definition initialize_nodes ::
  "swarm_id \<Rightarrow> (node_id \<times> peer_address) list \<Rightarrow> ('sw swarm_factory, unit) prog" where
  "initialize_nodes default_swarm nodes =
     modify (\<lambda>f. f\<lparr>fa_swarm_reg := Some (fold (\<lambda>(nid, ep). reg_add_node default_swarm nid ep) nodes []),
                   fa_initialized := True\<rparr>)"

text \<open>The loops of \<open>update_swarm_registry\<close>, over the registry that is being built.\<close>

fun add_peers ::
  "('sw, 'h, 's, 'x, 'cb) factory_env \<Rightarrow> string \<Rightarrow> string \<Rightarrow> swarm_id \<Rightarrow> node_id list \<Rightarrow> 'sw registry
     \<Rightarrow> ('sw, 'h, 's, 'x, 'sw registry) factory_prog" where
  "add_peers fe addr url sid [] sw_reg = ret sw_reg"
| "add_peers fe addr url sid (node # ns) sw_reg =
     sbind (at_world (fe_peer_info fe sid node addr url)) (\<lambda>ep.
     sbind (at_factory the_registry) (\<lambda>old.
     sbind (case reg_get_swarm sid old of
              None \<Rightarrow> ret None
            | Some sw \<Rightarrow> sbind (at_world (fe_lock fe sw)) (\<lambda>alive. ret (if alive then Some sw else None)))
       (\<lambda>locked.
        sbind (lift_cxx (case locked of
                 None \<Rightarrow> Inr (reg_add_node sid node ep sw_reg)
               | Some sw \<Rightarrow> reg_set_swarm sid sw (reg_add_node sid node ep sw_reg))) (\<lambda>reg'.
        add_peers fe addr url sid ns reg'))))"

fun add_swarms ::
  "('sw, 'h, 's, 'x, 'cb) factory_env \<Rightarrow> string \<Rightarrow> string \<Rightarrow> swarm_id list \<Rightarrow> 'sw registry
     \<Rightarrow> ('sw, 'h, 's, 'x, 'sw registry) factory_prog" where
  "add_swarms fe addr url [] sw_reg = ret sw_reg"
| "add_swarms fe addr url (sid # sids) sw_reg =
     sbind (at_world (fe_peer_ids fe sid addr url)) (\<lambda>node_list.
     sbind (add_peers fe addr url sid node_list sw_reg) (\<lambda>reg'.
     add_swarms fe addr url sids reg'))"

definition update_swarm_registry ::
  "('sw, 'h, 's, 'x, 'cb) factory_env \<Rightarrow> ('sw, 'h, 's, 'x, unit) factory_prog" where
  "update_swarm_registry fe =
     sbind (at_factory (gets fa_esr_address)) (\<lambda>addr.
     sbind (at_factory (gets fa_esr_url)) (\<lambda>url.
     if addr \<noteq> [] \<and> url \<noteq> []
     then sbind (at_world (fe_swarm_ids fe addr url)) (\<lambda>swarm_list.
          sbind (add_swarms fe addr url swarm_list []) (\<lambda>sw_reg.
          at_factory (modify (\<lambda>f. f\<lparr>fa_swarm_reg := Some sw_reg\<rparr>))))
     else ret ()))"

definition initialize_esr ::
  "('sw, 'h, 's, 'x, 'cb) factory_env \<Rightarrow> string \<Rightarrow> string \<Rightarrow> ('sw, 'h, 's, 'x, unit) factory_prog" where
  "initialize_esr fe esr_addr url =
     andthen (at_factory (modify (\<lambda>f. f\<lparr>fa_esr_address := esr_addr, fa_esr_url := url,
                fa_swarm_reg := Some []\<rparr>)))
     (andthen (update_swarm_registry fe)
      (at_factory (modify (\<lambda>f. f\<lparr>fa_initialized := True\<rparr>))))"

section \<open>Creating a database\<close>

definition select_swarm_for_size :: "u64 \<Rightarrow> ('sw swarm_factory, swarm_id) prog" where
  "select_swarm_for_size hint =
     sbind the_registry (\<lambda>reg.
       if unat hint < length (reg_get_swarms reg) then ret (reg_get_swarms reg ! unat hint)
       else raise Assert_fails)"

definition do_create_db ::
  "('sw, 'h, 's, 'x, 'cb) factory_env \<Rightarrow> uuid \<Rightarrow> u64 \<Rightarrow> bool \<Rightarrow> u64 \<Rightarrow> 'cb
     \<Rightarrow> ('sw, 'h, 's, 'x, unit) factory_prog" where
  "do_create_db fe db_uuid max_size random_evict retry cb =
     sbind (at_factory (select_swarm_for_size retry)) (\<lambda>sw_id.
     if sw_id = [] then fe_callback fe cb No_space None
     else sbind (get_or_create_swarm fe sw_id) (\<lambda>sw.
       create_uuid (fe_codec fe) (log_ops (fe_swarms fe)) (fe_timeout fe) (fe_closure fe) sw db_uuid
         max_size random_evict (Created_in db_uuid sw_id max_size random_evict retry cb sw)))"

definition first_retry :: "u64 \<Rightarrow> u64" where
  "first_retry num_swarms = min MAX_RETRY (num_swarms - 1)"

text \<open>The callback that \<open>has_db\<close> was given: the library's, or the one of \<open>create_db\<close>.\<close>

fun run_callback ::
  "('sw, 'h, 's, 'x, 'cb) factory_env \<Rightarrow> 'cb factory_callback \<Rightarrow> db_error \<Rightarrow> 'sw option
     \<Rightarrow> ('sw, 'h, 's, 'x, unit) factory_prog" where
  "run_callback fe (Library_callback cb) err sw = fe_callback fe cb err sw"
| "run_callback fe (Create_unless_found db_uuid max_size random_evict cb) err sw =
     (if sw \<noteq> None then fe_callback fe cb Already_exists None
      else sbind (at_factory the_registry) (\<lambda>reg.
        do_create_db fe db_uuid max_size random_evict
          (first_retry (of_nat (length (reg_get_swarms reg)))) cb))"

section \<open>Looking for a database\<close>

definition ask_swarm ::
  "('sw, 'h, 's, 'x, 'cb) factory_env \<Rightarrow> uuid \<Rightarrow> nat \<Rightarrow> 'cb factory_callback \<Rightarrow> swarm_id
     \<Rightarrow> ('sw, 'h, 's, 'x, unit) factory_prog" where
  "ask_swarm fe uuid counter callback elem =
     sbind (get_or_create_swarm fe elem) (\<lambda>sw.
       has_uuid (fe_codec fe) (log_ops (fe_swarms fe)) (fe_timeout fe) (fe_closure fe) sw uuid
         (Found_in uuid elem counter callback sw))"

definition factory_has_db ::
  "('sw, 'h, 's, 'x, 'cb) factory_env \<Rightarrow> uuid \<Rightarrow> 'cb factory_callback \<Rightarrow> ('sw, 'h, 's, 'x, unit) factory_prog" where
  "factory_has_db fe uuid callback =
     sbind (at_factory (gets id)) (\<lambda>f.
     if \<not> fa_initialized f then raise Assert_fails
     else case map_of (fa_swarm_dbs f) uuid of
       Some sid \<Rightarrow> sbind (get_or_create_swarm fe sid) (\<lambda>sw. run_callback fe callback Success (Some sw))
     | None \<Rightarrow>
         sbind (at_factory the_registry) (\<lambda>reg.
         andthen (at_factory (modify (\<lambda>f. f\<lparr>fa_counters :=
             fa_counters f @ [of_nat (length (reg_get_swarms reg))]\<rparr>)))
         (for_each (reg_get_swarms reg) (ask_swarm fe uuid (length (fa_counters f)) callback))))"

definition factory_create_db ::
  "('sw, 'h, 's, 'x, 'cb) factory_env \<Rightarrow> uuid \<Rightarrow> u64 \<Rightarrow> bool \<Rightarrow> 'cb \<Rightarrow> ('sw, 'h, 's, 'x, unit) factory_prog" where
  "factory_create_db fe db_uuid max_size random_evict cb =
     sbind (at_factory (gets fa_initialized)) (\<lambda>initialized.
     if \<not> initialized then raise Assert_fails
     else factory_has_db fe db_uuid (Create_unless_found db_uuid max_size random_evict cb))"

text \<open>The closures that the dispatcher's reply handlers call with their verdict.\<close>

definition remember_db :: "uuid \<Rightarrow> swarm_id \<Rightarrow> 'sw swarm_factory \<Rightarrow> 'sw swarm_factory" where
  "remember_db uuid sid f = f\<lparr>fa_swarm_dbs := om_put uuid sid (fa_swarm_dbs f)\<rparr>"

definition count_down :: "nat \<Rightarrow> ('sw swarm_factory, u64) prog" where
  "count_down counter = (\<lambda>f. if counter < length (fa_counters f)
     then (let c = fa_counters f ! counter - 1 in (Inr c, f\<lparr>fa_counters := (fa_counters f)[counter := c]\<rparr>))
     else (Inl Undefined, f))"

fun factory_reply ::
  "('sw, 'h, 's, 'x, 'cb) factory_env \<Rightarrow> ('sw, 'cb) factory_closure \<Rightarrow> db_error
     \<Rightarrow> ('sw, 'h, 's, 'x, unit) factory_prog" where
  "factory_reply fe (Found_in uuid sw_id counter callback sw) err =
     sbind (at_factory (count_down counter)) (\<lambda>left.
     if err = Success
     then andthen (at_factory (modify (remember_db uuid sw_id))) (run_callback fe callback Success (Some sw))
     else if left = 0 then run_callback fe callback No_database None
     else ret ())"
| "factory_reply fe (Created_in db_uuid sw_id max_size random_evict retry cb sw) err =
     (if err = Success
      then andthen (at_factory (modify (remember_db db_uuid sw_id))) (fe_callback fe cb err (Some sw))
      else if 0 < retry then do_create_db fe db_uuid max_size random_evict (retry - 1) cb
      else fe_callback fe cb err None)"

text \<open>The dispatcher's handler for such a closure: what \<open>has_uuid\<close> and \<open>create_uuid\<close> register.\<close>

definition run_uuid_handler ::
  "('sw, 'h, 's, 'x, 'cb) factory_env \<Rightarrow> ('sw, 'cb) factory_closure uuid_handler
     \<Rightarrow> database_response \<Rightarrow> error_code \<Rightarrow> ('sw, 'h, 's, 'x, unit) factory_prog" where
  "run_uuid_handler fe h r ec = factory_reply fe (uuid_callback h) (uuid_verdict h r ec)"

end
