(* ===== verification/Factory_Safety.thy ===== *)
theory Factory_Safety
  imports Swarm_Factory Handler_Effects
begin

text \<open>
  The invariant of the swarm factory, its retries, the answers of \<open>has_db\<close> and the contents of the
  registry.  The operations of other objects are assumed to throw at most (\<open>throws_only\<close>): no
  assertion of the factory itself fails then, and no pointer it uses is null.
\<close>

section \<open>Calls that throw at most\<close>

definition throws_only :: "('s, 'a) prog \<Rightarrow> bool" where
  "throws_only m \<longleftrightarrow> (\<forall>s f s'. m s = (Inl f, s') \<longrightarrow> (\<exists>e. f = Throws e))"

lemma throws_onlyD: "throws_only m \<Longrightarrow> m s = (Inl f, s') \<Longrightarrow> \<exists>e. f = Throws e"
  unfolding throws_only_def by blast

lemma throws_only_basic [intro]:
  "throws_only (ret a)" "throws_only (gets g)" "throws_only (modify h)"
  by (simp_all add: throws_only_def)

lemma throws_only_sbind [intro]:
  assumes "throws_only m" "\<And>a. throws_only (k a)" shows "throws_only (sbind m k)"
  unfolding throws_only_def
proof (intro allI impI)
  fix s f s' assume "sbind m k s = (Inl f, s')"
  then show "\<exists>e. f = Throws e"
    by (cases rule: sbind_cases) (auto dest: throws_onlyD [OF assms(1)] throws_onlyD [OF assms(2)])
qed

lemma throws_only_andthen [intro]: "throws_only m \<Longrightarrow> throws_only k \<Longrightarrow> throws_only (andthen m k)"
  unfolding andthen_def by (rule throws_only_sbind)

lemma throws_only_lift [intro]:
  "throws_only m \<Longrightarrow> throws_only (on_fst m)" "throws_only n \<Longrightarrow> throws_only (on_snd n)"
  unfolding throws_only_def by (auto simp: on_fst_def on_snd_def split: prod.splits)

lemma throws_only_if [intro]:
  "throws_only m \<Longrightarrow> throws_only n \<Longrightarrow> throws_only (if b then m else n)"
  by simp

text \<open>The functions of swarms that the dispatcher calls.\<close>

definition ops_throw_only :: "('s, 'sw) swarm_ops \<Rightarrow> bool" where
  "ops_throw_only ops \<longleftrightarrow>
     (\<forall>sw e p. throws_only (so_sign_and_date_request ops sw e p) \<and> throws_only (so_send_request ops sw e p))
   \<and> (\<forall>sw t h. throws_only (so_register_response_handler ops sw t h))
   \<and> (\<forall>sw. throws_only (so_honest_majority_size ops sw))"

lemma throws_only_send:
  assumes "ops_throw_only ops"
  shows "throws_only (send_message_to_swarm cd (log_ops ops) t sw u msg policy h)"
  using assms
  unfolding send_message_to_swarm_def setup_request_policy_def register_swarm_handler_def
    ops_throw_only_def log_ops_sel
  by (intro throws_only_sbind throws_only_andthen throws_only_lift throws_only_basic throws_only_if) auto

lemma throws_only_register:
  "ops_throw_only ops \<Longrightarrow> throws_only (register_swarm_handler (log_ops ops) sw)"
  unfolding register_swarm_handler_def ops_throw_only_def log_ops_sel
  by (intro throws_only_sbind throws_only_lift throws_only_basic; auto)

lemma throws_only_uuid:
  assumes "ops_throw_only ops"
  shows "throws_only (has_uuid cd (log_ops ops) t closure sw u cb)"
    and "throws_only (create_uuid cd (log_ops ops) t closure sw u ms ev cb)"
  unfolding has_uuid_def create_uuid_def
  by (intro throws_only_andthen throws_only_lift throws_only_register throws_only_send assms)+

text \<open>They leave the factory and the library alone.\<close>

lemma same_uuid:
  "same_beside (has_uuid cd (log_ops ops) t closure sw u cb) (has_uuid cd (log_ops ops) t closure sw u cb)"
  "same_beside (create_uuid cd (log_ops ops) t closure sw u ms ev cb) (create_uuid cd (log_ops ops) t closure sw u ms ev cb)"
  unfolding has_uuid_def create_uuid_def register_swarm_handler_def log_ops_sel
  by (intro same_intros)+

lemma wp_beside:
  assumes "same_beside m m" "throws_only m"
    and "\<And>a d' w'. Q a (d', (w', l))" "\<And>e d' w'. F (Throws e) (d', (w', l))"
  shows "wp m Q F (d, (w, l))"
proof -
  obtain x d' w' where run: "m (d, (w, l)) = (x, (d', (w', l)))"
    using assms(1) unfolding same_beside_def by blast
  then show ?thesis
    using assms(3,4) throws_onlyD [OF assms(2), of "(d, (w, l))"] by (cases x) (fastforce simp: wp_def)+
qed

lemma wp_at_world:
  assumes "throws_only m" "\<And>a w'. Q a (d, (w', l))" "\<And>e w'. F (Throws e) (d, (w', l))"
  shows "wp (at_world m) Q F (d, (w, l))"
proof -
  obtain x w' where "m w = (x, w')" by fastforce
  then show ?thesis
    using assms(2,3) throws_onlyD [OF assms(1), of w] by (cases x) (fastforce simp: wp_def at_world_def)+
qed

lemma wp_at_factory [simp]:
  "wp (at_factory m) Q F (d, (w, (f, x))) \<longleftrightarrow>
     wp m (\<lambda>a f'. Q a (d, (w, (f', x)))) (\<lambda>e f'. F e (d, (w, (f', x)))) f"
  by (auto simp: wp_def at_factory_def split: prod.splits sum.splits)

section \<open>The invariant\<close>

definition registry_wf :: "'sw registry \<Rightarrow> bool" where
  "registry_wf reg \<longleftrightarrow> om_wf reg \<and> (\<forall>sid i. map_of reg sid = Some i \<longrightarrow> om_wf (si_nodes i) \<and> si_nodes i \<noteq> [])"

definition known_swarms :: "'sw swarm_factory \<Rightarrow> swarm_id set" where
  "known_swarms f = (case fa_swarm_reg f of None \<Rightarrow> {} | Some reg \<Rightarrow> dom (map_of reg))"

definition factory_wf :: "'sw swarm_factory \<Rightarrow> bool" where
  "factory_wf f \<longleftrightarrow> (\<exists>reg. fa_swarm_reg f = Some reg \<and> registry_wf reg \<and> length reg < 2 ^ 64)
     \<and> fa_initialized f \<and> (\<forall>u sid. map_of (fa_swarm_dbs f) u = Some sid \<longrightarrow> sid \<in> known_swarms f)"

text \<open>What the factory may go on with: the same swarms are known, no counter has gone.\<close>

definition factory_next :: "'sw swarm_factory \<Rightarrow> 'sw swarm_factory \<Rightarrow> bool" where
  "factory_next f f' \<longleftrightarrow> factory_wf f' \<and> known_swarms f' = known_swarms f
     \<and> length (fa_counters f) \<le> length (fa_counters f')"

fun closure_wf :: "'sw swarm_factory \<Rightarrow> ('sw, 'cb) factory_closure \<Rightarrow> bool" where
  "closure_wf f (Found_in u sid counter cb sw) \<longleftrightarrow>
     sid \<in> known_swarms f \<and> counter < length (fa_counters f)"
| "closure_wf f (Created_in u sid ms ev retry cb sw) \<longleftrightarrow>
     sid \<in> known_swarms f \<and> unat retry < card (known_swarms f)"

lemma factory_next_refl: "factory_wf f \<Longrightarrow> factory_next f f"
  by (simp add: factory_next_def)

lemma factory_next_trans: "factory_next f g \<Longrightarrow> factory_next g h \<Longrightarrow> factory_next f h"
  by (auto simp: factory_next_def)

lemma factory_wf_reg:
  assumes "factory_wf f"
  obtains reg where "fa_swarm_reg f = Some reg" "registry_wf reg" "length reg = card (known_swarms f)"
    "known_swarms f = dom (map_of reg)" "length reg < 2 ^ 64"
proof -
  from assms obtain reg where reg: "fa_swarm_reg f = Some reg" "registry_wf reg" "length reg < 2 ^ 64"
    by (auto simp: factory_wf_def)
  then have "known_swarms f = dom (map_of reg)" by (simp add: known_swarms_def)
  moreover from this have "length reg = card (known_swarms f)"
    using om.size_eq_card [of reg] reg(2) by (simp add: registry_wf_def)
  ultimately show thesis using that reg by blast
qed

lemma length_om_put_known: "om_wf m \<Longrightarrow> k \<in> dom (map_of m) \<Longrightarrow> length (om_put k v m) = length m"
  using om.size_put [of m k v] by auto

lemma factory_next_set_swarm:
  assumes "factory_wf f" "fa_swarm_reg f = Some reg" "map_of reg sid = Some i"
  shows "factory_next f (f\<lparr>fa_swarm_reg := Some (om_put sid (i\<lparr>si_swarm := sw\<rparr>) reg)\<rparr>)"
proof -
  have "registry_wf reg" "length reg < 2 ^ 64" using assms(1,2) by (auto simp: factory_wf_def)
  moreover have "length (om_put sid (i\<lparr>si_swarm := sw\<rparr>) reg) = length reg"
    using assms(3) \<open>registry_wf reg\<close> by (intro length_om_put_known) (auto simp: registry_wf_def)
  ultimately show ?thesis
    using assms
    by (auto simp: factory_next_def factory_wf_def known_swarms_def registry_wf_def om_wf_put split: if_splits)
qed

lemma factory_next_counters:
  "factory_wf f \<Longrightarrow> length (fa_counters f) \<le> length cs \<Longrightarrow> factory_next f (f\<lparr>fa_counters := cs\<rparr>)"
  by (simp add: factory_next_def factory_wf_def known_swarms_def)

lemma factory_next_remember:
  "factory_wf f \<Longrightarrow> sid \<in> known_swarms f \<Longrightarrow> factory_next f (remember_db u sid f)"
  by (auto simp: factory_next_def factory_wf_def known_swarms_def remember_db_def)

text \<open>The environment of the factory: its functions throw at most, callbacks keep the invariant.\<close>

definition calls_throw_only :: "('sw, 'h, 's, 'x, 'cb) factory_env \<Rightarrow> bool" where
  "calls_throw_only fe \<longleftrightarrow> ops_throw_only (fe_swarms fe)
     \<and> (\<forall>sw. throws_only (fe_lock fe sw)) \<and> (\<forall>sid u ns. throws_only (fe_make_swarm fe sid u ns))"

definition factory_kept ::
  "'sw swarm_factory \<Rightarrow> ('sw, 'h) db_dispatch \<times> ('s \<times> ('sw swarm_factory \<times> 'x)) \<Rightarrow> bool" where
  "factory_kept f = (\<lambda>(d, (w, (f', x))). factory_next f f')"

definition sound_call :: "'sw swarm_factory \<Rightarrow> ('sw, 'h, 's, 'x, 'a) factory_prog \<Rightarrow> bool" where
  "sound_call f m \<longleftrightarrow> (\<forall>d w x. wp m (\<lambda>_. factory_kept f) (\<lambda>e s. (\<exists>t. e = Throws t) \<and> factory_kept f s) (d, (w, (f, x))))"

definition callbacks_sound :: "('sw, 'h, 's, 'x, 'cb) factory_env \<Rightarrow> bool" where
  "callbacks_sound fe \<longleftrightarrow> (\<forall>f cb err sw. factory_wf f \<longrightarrow> sound_call f (fe_callback fe cb err sw))"

lemma wp_the_registry:
  "fa_swarm_reg f = Some reg \<Longrightarrow> wp the_registry Q F f \<longleftrightarrow> Q reg f"
  by (simp add: the_registry_def wp_sbind wp_gets wp_ret)

lemma factory_kept_iff [simp]: "factory_kept f (d, (w, (f', x))) \<longleftrightarrow> factory_next f f'"
  by (simp add: factory_kept_def)

lemma sound_callD:
  assumes "sound_call g m" "factory_next f g"
    and "\<And>a s. factory_kept f s \<Longrightarrow> Q a s" "\<And>e s. factory_kept f s \<Longrightarrow> F (Throws e) s"
  shows "wp m Q F (d, (w, (g, x)))"
proof -
  have kept: "factory_kept f s" if "factory_kept g s" for s
    using that assms(2) by (cases s) (auto intro: factory_next_trans)
  have "wp m (\<lambda>_. factory_kept g) (\<lambda>e s. (\<exists>t. e = Throws t) \<and> factory_kept g s) (d, (w, (g, x)))"
    using assms(1) unfolding sound_call_def by blast
  then show ?thesis by (rule wp_mono) (auto intro: assms(3,4) kept)
qed

lemma sound_callI:
  assumes "\<And>d w x. wp m (\<lambda>_. factory_kept f) (\<lambda>e s. (\<exists>t. e = Throws t) \<and> factory_kept f s) (d, (w, (f, x)))"
  shows "sound_call f m"
  using assms unfolding sound_call_def by blast

lemma wp_get_or_create:
  assumes fe: "calls_throw_only fe" and f: "factory_wf f" "sid \<in> known_swarms f"
    and Q: "\<And>sw d' w' f'. factory_next f f' \<Longrightarrow> Q sw (d', (w', (f', x)))"
    and F: "\<And>e d' w' f'. factory_next f f' \<Longrightarrow> F (Throws e) (d', (w', (f', x)))"
  shows "wp (get_or_create_swarm fe sid) Q F (d, (w, (f, x)))"
proof -
  obtain reg where reg: "fa_swarm_reg f = Some reg" "registry_wf reg" "known_swarms f = dom (map_of reg)"
    using f(1) by (rule factory_wf_reg)
  then obtain i where i: "map_of reg sid = Some i" "si_nodes i \<noteq> []"
    using f(2) by (auto simp: registry_wf_def)
  have lock: "throws_only (fe_lock fe sw)" and make: "throws_only (fe_make_swarm fe sid u ns)" for sw u ns
    using fe by (simp_all add: calls_throw_only_def)
  have same: "factory_next f f" by (rule factory_next_refl [OF f(1)])
  have create: "wp (make_and_register fe sid reg) Q F (d, (w1, (f, x)))" for w1
    using i
    by (simp add: make_and_register_def reg_get_nodes_def wp_simps)
      (rule wp_at_world [OF make],
       auto simp: wp_simps reg_set_swarm_def intro: Q F factory_next_set_swarm [OF f(1) reg(1)] same)
  show ?thesis
  proof (cases "si_swarm i")
    case None
    with i reg create show ?thesis
      by (simp add: get_or_create_swarm_def wp_sbind wp_the_registry reg_get_swarm_def)
  next
    case (Some sw)
    have "wp (at_world (fe_lock fe sw))
        (\<lambda>alive. wp (if alive then ret sw else make_and_register fe sid reg) Q F) F (d, (w, (f, x)))"
      by (rule wp_at_world [OF lock]) (use create in \<open>auto simp: wp_ret wp_if intro: Q F same\<close>)
    then show ?thesis
      using Some i reg by (simp add: get_or_create_swarm_def wp_sbind wp_the_registry reg_get_swarm_def)
  qed
qed

lemma sound_do_create_db:
  assumes fe: "calls_throw_only fe" "callbacks_sound fe" and f: "factory_wf f"
    and retry: "unat retry < card (known_swarms f)"
  shows "sound_call f (do_create_db fe u ms ev retry cb)"
proof (rule sound_callI)
  fix d w x
  obtain reg where reg: "fa_swarm_reg f = Some reg" "length reg = card (known_swarms f)"
    "known_swarms f = dom (map_of reg)"
    using f by (rule factory_wf_reg)
  let ?sid = "fst (reg ! unat retry)"
  have len: "unat retry < length reg" using retry reg by simp
  then have sid: "?sid \<in> known_swarms f" using reg(3) by (force simp: dom_map_of_conv_image_fst)
  have ops: "ops_throw_only (fe_swarms fe)" using fe by (simp add: calls_throw_only_def)
  have "wp (sbind (get_or_create_swarm fe ?sid) (\<lambda>sw.
       create_uuid (fe_codec fe) (log_ops (fe_swarms fe)) (fe_timeout fe) (fe_closure fe) sw u
         ms ev (Created_in u ?sid ms ev retry cb sw)))
     (\<lambda>_. factory_kept f) (\<lambda>e s. (\<exists>t. e = Throws t) \<and> factory_kept f s) (d, (w, (f, x)))"
    unfolding wp_sbind
    by (rule wp_get_or_create [OF fe(1) f sid])
      (auto intro!: wp_beside [OF same_uuid(2) throws_only_uuid(2)] ops)
  moreover have "sound_call f (fe_callback fe cb No_space None)"
    using fe(2) f by (simp add: callbacks_sound_def)
  ultimately show "wp (do_create_db fe u ms ev retry cb) (\<lambda>_. factory_kept f)
      (\<lambda>e s. (\<exists>t. e = Throws t) \<and> factory_kept f s) (d, (w, (f, x)))"
    using len reg(1)
    by (auto simp: do_create_db_def wp_sbind select_swarm_for_size_def wp_the_registry reg_get_swarms_def
        wp_ret wp_if sound_call_def)
qed

lemma unat_first_retry:
  assumes "0 < n" "n < 2 ^ 64"
  shows "unat (first_retry (of_nat n)) = min 5 (n - 1)"
proof -
  have n: "unat (of_nat n :: u64) = n" using assms(2) by (simp add: unat_of_nat take_bit_nat_eq_self)
  then have "(of_nat n :: u64) \<noteq> 0" using assms(1) by (auto simp: unat_eq_0)
  then have "unat (of_nat n - 1 :: u64) = n - 1" using n by (simp add: unat_minus_one)
  then show ?thesis by (auto simp: first_retry_def MAX_RETRY_def min_def word_le_nat_alt)
qed

lemma sound_run_callback:
  assumes fe: "calls_throw_only fe" "callbacks_sound fe" and f: "factory_wf f" "known_swarms f \<noteq> {}"
  shows "sound_call f (run_callback fe cb err sw)"
proof (cases cb)
  case (Library_callback c)
  then show ?thesis using fe(2) f(1) by (simp add: callbacks_sound_def)
next
  case (Create_unless_found u ms ev c)
  show ?thesis
  proof (cases "sw = None")
    case False
    then show ?thesis using Create_unless_found fe(2) f(1) by (simp add: callbacks_sound_def)
  next
    case True
    obtain reg where reg: "fa_swarm_reg f = Some reg" "length reg = card (known_swarms f)"
      "length reg < 2 ^ 64" "known_swarms f = dom (map_of reg)"
      using f(1) by (rule factory_wf_reg)
    have "0 < length reg" using f(2) reg(4) by auto
    then have "unat (first_retry (of_nat (length reg))) < card (known_swarms f)"
      using unat_first_retry [of "length reg"] reg(2,3) by simp
    from sound_do_create_db [OF fe f(1) this]
    have "sound_call f (do_create_db fe u ms ev (first_retry (of_nat (length reg))) c)" .
    then show ?thesis
      using Create_unless_found True reg(1)
      by (simp add: sound_call_def wp_sbind wp_the_registry reg_get_swarms_def)
  qed
qed

lemma sound_has_db:
  assumes fe: "calls_throw_only fe" "callbacks_sound fe" and f: "factory_wf f"
  shows "sound_call f (factory_has_db fe u cb)"
proof (rule sound_callI)
  fix d w x
  let ?Q = "\<lambda>_. factory_kept f"
  let ?F = "\<lambda>e s. (\<exists>t. e = Throws t) \<and> factory_kept f s"
  obtain reg where reg: "fa_swarm_reg f = Some reg" "known_swarms f = dom (map_of reg)"
    using f by (rule factory_wf_reg)
  have ops: "ops_throw_only (fe_swarms fe)" using fe by (simp add: calls_throw_only_def)
  show "wp (factory_has_db fe u cb) ?Q ?F (d, (w, (f, x)))"
  proof (cases "map_of (fa_swarm_dbs f) u")
    case (Some sid)
    then have sid: "sid \<in> known_swarms f" using f by (auto simp: factory_wf_def)
    have "wp (get_or_create_swarm fe sid) (\<lambda>sw. wp (run_callback fe cb Success (Some sw)) ?Q ?F) ?F
        (d, (w, (f, x)))"
    proof (rule wp_get_or_create [OF fe(1) f sid])
      fix sw d' w' f'
      assume nxt: "factory_next f f'"
      then have "factory_wf f'" "known_swarms f' \<noteq> {}" using sid by (auto simp: factory_next_def)
      from sound_run_callback [OF fe this]
      show "wp (run_callback fe cb Success (Some sw)) ?Q ?F (d', (w', (f', x)))"
        by (rule sound_callD [OF _ nxt]) auto
    qed auto
    then show ?thesis
      using Some f by (simp add: factory_has_db_def wp_sbind wp_gets factory_wf_def)
  next
    case None
    let ?n = "length (fa_counters f)"
    let ?f = "f\<lparr>fa_counters := fa_counters f @ [of_nat (length reg)]\<rparr>"
    have "factory_next f ?f" using f by (intro factory_next_counters) auto
    then have "factory_kept f (d, (w, (?f, x)))" by simp
    then have "wp (for_each (reg_get_swarms reg) (ask_swarm fe u ?n cb)) ?Q ?F (d, (w, (?f, x)))"
    proof (rule wp_for_each)
      fix sid and s :: "('a, 'b) db_dispatch \<times> 'c \<times> 'a swarm_factory \<times> 'd"
      assume sid: "sid \<in> set (reg_get_swarms reg)" and kept: "factory_kept f s"
      obtain d1 w1 f1 x1 where s: "s = (d1, (w1, (f1, x1)))" by (metis prod.collapse)
      with kept have nxt: "factory_next f f1" by simp
      then have f1: "factory_wf f1" "sid \<in> known_swarms f1"
        using sid reg(2) by (auto simp: factory_next_def reg_get_swarms_def dom_map_of_conv_image_fst)
      show "wp (ask_swarm fe u ?n cb sid) ?Q ?F s"
        unfolding s ask_swarm_def wp_sbind
        by (rule wp_get_or_create [OF fe(1) f1])
          (auto intro!: wp_beside [OF same_uuid(1) throws_only_uuid(1)] ops factory_next_trans [OF nxt])
    qed
    then show ?thesis
      using None f reg(1)
      by (simp add: factory_has_db_def wp_sbind wp_gets wp_andthen wp_modify wp_the_registry
          factory_wf_def reg_get_swarms_def)
  qed
qed

lemma wp_count_down:
  "wp (count_down n) Q F f \<longleftrightarrow>
     (if n < length (fa_counters f)
      then Q (fa_counters f ! n - 1) (f\<lparr>fa_counters := (fa_counters f)[n := fa_counters f ! n - 1]\<rparr>)
      else F Undefined f)"
  by (simp add: wp_def count_down_def Let_def)

lemma sound_factory_reply:
  assumes fe: "calls_throw_only fe" "callbacks_sound fe" and f: "factory_wf f" "closure_wf f c"
  shows "sound_call f (factory_reply fe c err)"
proof (cases c)
  case (Found_in u sid n cb sw)
  with f(2) have sid: "sid \<in> known_swarms f" "n < length (fa_counters f)" by auto
  show ?thesis
  proof (rule sound_callI)
    fix d w x
    let ?left = "fa_counters f ! n - 1"
    let ?f = "f\<lparr>fa_counters := (fa_counters f)[n := ?left]\<rparr>"
    have f1: "factory_next f ?f" using f(1) by (intro factory_next_counters) auto
    then have wf1: "factory_wf ?f" "sid \<in> known_swarms ?f" using sid by (auto simp: factory_next_def)
    have f2: "factory_next ?f (remember_db u sid ?f)" by (rule factory_next_remember [OF wf1])
    have found: "sound_call (remember_db u sid ?f) (run_callback fe cb Success (Some sw))"
      using f2 wf1 by (intro sound_run_callback [OF fe]) (auto simp: factory_next_def)
    have none: "sound_call ?f (run_callback fe cb No_database None)"
      using wf1 by (intro sound_run_callback [OF fe]) auto
    show "wp (factory_reply fe c err) (\<lambda>_. factory_kept f)
        (\<lambda>e s. (\<exists>t. e = Throws t) \<and> factory_kept f s) (d, (w, (f, x)))"
      using Found_in sid(2) f1 sound_callD [OF found factory_next_trans [OF f1 f2]] sound_callD [OF none f1]
      by (auto simp: wp_sbind wp_andthen wp_count_down wp_modify wp_if wp_ret)
  qed
next
  case (Created_in u sid ms ev retry cb sw)
  with f(2) have sid: "sid \<in> known_swarms f" "unat retry < card (known_swarms f)" by auto
  have f1: "factory_next f (remember_db u sid f)" by (rule factory_next_remember [OF f(1) sid(1)])
  have found: "sound_call (remember_db u sid f) (fe_callback fe cb Success (Some sw))"
    using fe(2) f1 by (simp add: callbacks_sound_def factory_next_def)
  have failed: "sound_call f (fe_callback fe cb err None)"
    using fe(2) f(1) by (simp add: callbacks_sound_def)
  have again: "sound_call f (do_create_db fe u ms ev (retry - 1) cb)" if "0 < retry"
    using that sid(2) by (intro sound_do_create_db [OF fe f(1)]) (simp add: unat_minus_one word_gt_0)
  show ?thesis
  proof (rule sound_callI)
    fix d w x
    show "wp (factory_reply fe c err) (\<lambda>_. factory_kept f)
        (\<lambda>e s. (\<exists>t. e = Throws t) \<and> factory_kept f s) (d, (w, (f, x)))"
      using Created_in sound_callD [OF found f1] failed again
      by (auto simp: wp_andthen wp_modify wp_if sound_call_def)
  qed
qed

end
