(* ===== verification/Factory_Answers.thy ===== *)
theory Factory_Answers
  imports Factory_Safety
begin

text \<open>
  What the callers of the swarm factory are told: the answers of \<open>has_db\<close>, and the registry that
  initialization builds.
\<close>

section \<open>The answers of \<open>has_db\<close>\<close>

text \<open>A library whose callbacks are recorded.\<close>

type_synonym ('sw, 'cb) answers = "('cb \<times> db_error \<times> 'sw option) list"

definition record_answer ::
  "'cb \<Rightarrow> db_error \<Rightarrow> 'sw option \<Rightarrow> ('sw, 'h, 's, ('sw, 'cb) answers, unit) factory_prog" where
  "record_answer cb err sw = on_snd (on_snd (on_snd (modify (\<lambda>l. l @ [(cb, err, sw)]))))"

text \<open>
  What a caller hears after the replies \<open>rs\<close> of all swarms, in the order in which they come: every
  swarm that has the database is reported, and the last reply, if negative, is reported as well.
\<close>

definition db_answers :: "'cb \<Rightarrow> (swarm_id \<times> 'sw \<times> db_error) list \<Rightarrow> ('sw, 'cb) answers" where
  "db_answers cb rs =
     map (\<lambda>(sid, sw, err). (cb, Success, Some sw)) (filter (\<lambda>(sid, sw, err). err = Success) rs)
     @ (if rs \<noteq> [] \<and> snd (snd (last rs)) \<noteq> Success then [(cb, No_database, None)] else [])"

lemma db_answers_simps [simp]:
  "db_answers cb [] = []"
  "db_answers cb ((sid, sw, err) # rs) =
     (if err = Success then (cb, Success, Some sw) # db_answers cb rs
      else if rs = [] then [(cb, No_database, None)] else db_answers cb rs)"
  by (auto simp: db_answers_def)

lemma found_reply:
  assumes "fe_callback fe = record_answer" "n < length (fa_counters f)"
    and "fa_counters f ! n = of_nat (Suc k)" "Suc k < 2 ^ 64"
  shows "\<exists>f'. factory_reply fe (Found_in u sid n (Library_callback cb) sw) err (d, (w, (f, l))) =
      (Inr (), (d, (w, (f', l @ (if err = Success then [(cb, Success, Some sw)]
         else if k = 0 then [(cb, No_database, None)] else [])))))
    \<and> length (fa_counters f') = length (fa_counters f) \<and> fa_counters f' ! n = of_nat k"
proof -
  have left: "fa_counters f ! n - 1 = of_nat k" using assms(3) by simp
  have "(of_nat k :: u64) = 0 \<longleftrightarrow> k = 0"
    using assms(4) nat_dvd_not_less [of k "2 ^ 64"] by (auto simp: word_of_nat_eq_0_iff)
  then show ?thesis
    using assms(1,2) left
    by (auto simp: at_factory_def count_down_def Let_def sbind_apply andthen_apply record_answer_def remember_db_def)
qed

text \<open>
  C21. What \<open>has_db\<close> answers: when all of the swarms it asked have replied, in any order, the
  callback was called once for every swarm that has the database, and once more with \<open>No_database\<close>
  if the last of the replies was negative, whether or not the database was found before.
\<close>

theorem has_db_answers:
  fixes fe :: "('sw, 'h, 's, ('sw, 'cb) answers, 'cb) factory_env"
  assumes "fe_callback fe = record_answer" "n < length (fa_counters f)"
    and "fa_counters f ! n = of_nat (length rs)" "length rs < 2 ^ 64"
  shows "\<exists>f'. for_each rs (\<lambda>(sid, sw, err). factory_reply fe (Found_in u sid n (Library_callback cb) sw) err)
      (d, (w, (f, l))) = (Inr (), (d, (w, (f', l @ db_answers cb rs))))"
  using assms(2-)
proof (induction rs arbitrary: f l)
  case (Cons r rs)
  obtain sid sw err where r: "r = (sid, sw, err)" by (cases r)
  obtain f' where f': "factory_reply fe (Found_in u sid n (Library_callback cb) sw) err (d, (w, (f, l))) =
      (Inr (), (d, (w, (f', l @ (if err = Success then [(cb, Success, Some sw)]
         else if length rs = 0 then [(cb, No_database, None)] else [])))))"
    "length (fa_counters f') = length (fa_counters f)" "fa_counters f' ! n = of_nat (length rs)"
    using found_reply [OF assms(1) Cons.prems(1), of "length rs" u sid cb sw err d w l] Cons.prems(2,3) by auto
  let ?a = "if err = Success then [(cb, Success, Some sw)] else if rs = [] then [(cb, No_database, None)] else []"
  let ?body = "\<lambda>(sid, sw, err). factory_reply fe (Found_in u sid n (Library_callback cb) sw) err"
  obtain f'' where "for_each rs ?body (d, (w, (f', l @ ?a))) = (Inr (), (d, (w, (f'', (l @ ?a) @ db_answers cb rs))))"
    using Cons.IH [of f' "l @ ?a"] f'(2,3) Cons.prems by auto
  then have "for_each (r # rs) ?body (d, (w, (f, l))) = (Inr (), (d, (w, (f'', (l @ ?a) @ db_answers cb rs))))"
    using f'(1) by (cases "err = Success"; cases "rs = []") (simp_all add: r andthen_apply del: factory_reply.simps)
  moreover have "(l @ ?a) @ db_answers cb rs = l @ db_answers cb (r # rs)" by (simp add: r)
  ultimately show ?case by (intro exI [of _ f'']) simp
qed simp

text \<open>
  A late denial undoes nothing and adds an answer: when of two swarms the first has the
  database and the second does not, \<open>create_db\<close> reports that the database exists already and then,
  on the second reply, creates it in another swarm all the same.
\<close>

lemma late_denial_creates_database:
  fixes fe :: "('sw, 'h, 's, ('sw, 'cb) answers, 'cb) factory_env" and f :: "'sw swarm_factory"
    and u :: uuid and sid :: swarm_id and ms :: u64 and ev :: bool and lcb :: 'cb and n :: nat
  assumes "fe_callback fe = record_answer" "n < length (fa_counters f)" "fa_counters f ! n = 2"
    and "err \<noteq> Success" "fa_swarm_reg f = Some reg"
  defines "cb \<equiv> Create_unless_found u ms ev lcb"
    and "f' \<equiv> (remember_db u sid f)\<lparr>fa_counters := (fa_counters f)[n := 0]\<rparr>"
  shows "andthen (factory_reply fe (Found_in u sid n cb sw) Success)
      (factory_reply fe (Found_in u sid2 n cb sw2) err) (d, (w, (f, l)))
    = do_create_db fe u ms ev (first_retry (of_nat (length reg))) lcb
        (d, (w, (f', l @ [(lcb, Already_exists, None)])))"
proof -
  have 1: "factory_reply fe (Found_in u sid n cb sw) Success (d, (w, (f, l)))
      = (Inr (), (d, (w, ((remember_db u sid f)\<lparr>fa_counters := (fa_counters f)[n := 1]\<rparr>, l @ [(lcb, Already_exists, None)]))))"
    using assms(1-3)
    by (simp add: cb_def at_factory_def count_down_def Let_def sbind_apply andthen_apply record_answer_def remember_db_def)
  have 2: "factory_reply fe (Found_in u sid2 n cb sw2) err (d, (w, ((remember_db u sid f)\<lparr>fa_counters := (fa_counters f)[n := 1]\<rparr>, l')))
      = do_create_db fe u ms ev (first_retry (of_nat (length reg))) lcb (d, (w, (f', l')))" for l'
    using assms(2,4,5)
    by (simp add: cb_def f'_def at_factory_def count_down_def Let_def sbind_apply andthen_apply the_registry_def
        remember_db_def reg_get_swarms_def)
  show ?thesis by (simp only: andthen_apply 1 2 prod.case sum.case)
qed

text \<open>
  Without swarms nobody is ever answered: \<open>has_db\<close> and \<open>create_db\<close> on an empty registry
  return without a request and without a call of the callback, so the response of the caller
  stays pending for ever.
\<close>

theorem no_swarms_no_answer:
  assumes "fa_initialized f" "fa_swarm_reg f = Some []" "map_of (fa_swarm_dbs f) u = None"
    and "m \<in> {factory_has_db fe u cb, factory_create_db fe u ms ev lcb}"
  shows "m (d, (w, (f, x))) = (Inr (), (d, (w, (f\<lparr>fa_counters := fa_counters f @ [0]\<rparr>, x))))"
proof -
  have "factory_has_db fe u c (d, (w, (f, x))) = (Inr (), (d, (w, (f\<lparr>fa_counters := fa_counters f @ [0]\<rparr>, x))))" for c
    using assms(1-3)
    by (simp add: factory_has_db_def sbind_apply andthen_apply at_factory_def the_registry_def reg_get_swarms_def)
  with assms(1,4) show ?thesis
    by (auto simp: factory_create_db_def sbind_apply at_factory_def)
qed

section \<open>What the registry holds\<close>

definition reg_node :: "'sw registry \<Rightarrow> swarm_id \<Rightarrow> node_id \<Rightarrow> peer_address option" where
  "reg_node reg sid nid = map_of (reg_get_nodes sid reg) nid"

lemma reg_node_add [simp]:
  "reg_node (reg_add_node sid nid ep reg) s n =
     (if s = sid \<and> n = nid \<and> reg_node reg s n = None then Some ep else reg_node reg s n)"
  by (auto simp: reg_node_def reg_get_nodes_def reg_add_node_def Let_def om_emplace_def empty_swarm_info_def
      split: option.splits)

lemma registry_wf_add [wf_intros]:
  assumes "registry_wf reg" shows "registry_wf (reg_add_node sid nid ep reg)"
proof -
  have old: "om_wf (si_nodes (case map_of reg sid of Some i \<Rightarrow> i | None \<Rightarrow> empty_swarm_info))"
    using assms by (auto simp: registry_wf_def empty_swarm_info_def split: option.split)
  have "om_wf (om_emplace nid ep m) \<and> om_emplace nid ep m \<noteq> []" if "om_wf m" for m
    using that om.put_not_empty [of nid ep m] by (auto simp: om_emplace_def om_wf_put)
  from this [OF old] show ?thesis
    using assms by (auto simp: reg_add_node_def Let_def registry_wf_def om_wf_put split: if_splits)
qed

lemma reg_node_fold:
  "reg_node (fold (\<lambda>(nid, ep). reg_add_node sid nid ep) nodes reg) s n =
     (if s = sid \<and> reg_node reg s n = None then map_of nodes n else reg_node reg s n)"
  by (induction nodes arbitrary: reg) auto

lemma registry_wf_fold:
  "registry_wf reg \<Longrightarrow> registry_wf (fold (\<lambda>(nid, ep). reg_add_node sid nid ep) nodes reg)"
  by (induction nodes arbitrary: reg) (auto intro: wf_intros)

lemma registry_wf_Nil [simp]: "registry_wf []"
  by (simp add: registry_wf_def)

lemma reg_node_Nil [simp]: "reg_node [] s n = None"
  by (simp add: reg_node_def reg_get_nodes_def)

text \<open>An ESR whose contract answers always the same.\<close>

definition esr_answers ::
  "('sw, 'h, 's, 'x, 'cb) factory_env \<Rightarrow> swarm_id list \<Rightarrow> (swarm_id \<Rightarrow> node_id list)
     \<Rightarrow> (swarm_id \<Rightarrow> node_id \<Rightarrow> peer_address) \<Rightarrow> bool" where
  "esr_answers fe ids peers info \<longleftrightarrow> (\<forall>addr url. fe_swarm_ids fe addr url = ret ids
     \<and> (\<forall>sid. fe_peer_ids fe sid addr url = ret (peers sid))
     \<and> (\<forall>sid n. fe_peer_info fe sid n addr url = ret (info sid n)))"

definition listed :: "(swarm_id \<Rightarrow> node_id \<Rightarrow> peer_address) \<Rightarrow> swarm_id \<Rightarrow> node_id list \<Rightarrow> (node_id \<times> peer_address) list" where
  "listed info sid ns = map (\<lambda>n. (n, info sid n)) ns"

lemma map_of_listed: "map_of (listed info sid ns) n = (if n \<in> set ns then Some (info sid n) else None)"
  by (simp add: listed_def map_of_map_restrict restrict_map_def)

lemma at_world_ret [simp]: "at_world (ret a) = ret a"
  by (simp add: at_world_def fun_eq_iff on_fst_def on_snd_def)

lemma add_peers_run:
  assumes "esr_answers fe ids peers info" "fa_swarm_reg f = Some []"
  shows "add_peers fe addr url sid ns reg (d, (w, (f, x))) =
    (Inr (fold (\<lambda>(nid, ep). reg_add_node sid nid ep) (listed info sid ns) reg), (d, (w, (f, x))))"
  using assms
  by (induction ns arbitrary: reg)
    (simp_all add: listed_def esr_answers_def sbind_apply at_factory_def the_registry_def reg_get_swarm_def)

lemma add_swarms_run:
  assumes "esr_answers fe ids peers info" "fa_swarm_reg f = Some []"
  shows "add_swarms fe addr url sids reg (d, (w, (f, x))) =
    (Inr (fold (\<lambda>sid. fold (\<lambda>(nid, ep). reg_add_node sid nid ep) (listed info sid (peers sid))) sids reg),
     (d, (w, (f, x))))"
proof (induction sids arbitrary: reg)
  case (Cons sid sids)
  have "fe_peer_ids fe sid addr url = ret (peers sid)" using assms(1) by (simp add: esr_answers_def)
  with Cons add_peers_run [OF assms] show ?case by (simp add: sbind_apply)
qed simp

lemma reg_node_swarms:
  "reg_node (fold (\<lambda>sid. fold (\<lambda>(nid, ep). reg_add_node sid nid ep) (listed info sid (peers sid))) sids reg) s n =
     (if reg_node reg s n = None \<and> s \<in> set sids then map_of (listed info s (peers s)) n else reg_node reg s n)"
  by (induction sids arbitrary: reg) (auto simp: reg_node_fold split: option.splits if_splits)

lemma registry_wf_swarms:
  "registry_wf reg \<Longrightarrow>
   registry_wf (fold (\<lambda>sid. fold (\<lambda>(nid, ep). reg_add_node sid nid ep) (listed info sid (peers sid))) sids reg)"
  by (induction sids arbitrary: reg) (auto intro: registry_wf_fold)

text \<open>
  C23. Initialization from the ESR contract registers exactly the peers that the contract lists for
  its swarms, each with its address, in a well-formed registry; with an empty address or url the
  factory counts as initialized with an empty registry.
\<close>

theorem esr_registry_is_complete:
  assumes "esr_answers fe ids peers info"
  shows "\<exists>f' reg. initialize_esr fe addr url (d, (w, (f, x))) = (Inr (), (d, (w, (f', x))))
    \<and> fa_initialized f' \<and> fa_swarm_reg f' = Some reg \<and> registry_wf reg
    \<and> (\<forall>s n. reg_node reg s n =
         (if addr \<noteq> [] \<and> url \<noteq> [] \<and> s \<in> set ids \<and> n \<in> set (peers s) then Some (info s n) else None))"
proof (cases "addr \<noteq> [] \<and> url \<noteq> []")
  case True
  let ?f = "f\<lparr>fa_esr_address := addr, fa_esr_url := url, fa_swarm_reg := Some []\<rparr>"
  let ?reg = "fold (\<lambda>sid. fold (\<lambda>(nid, ep). reg_add_node sid nid ep) (listed info sid (peers sid))) ids []"
  have "initialize_esr fe addr url (d, (w, (f, x))) =
      (Inr (), (d, (w, (?f\<lparr>fa_swarm_reg := Some ?reg, fa_initialized := True\<rparr>, x))))"
    using True assms add_swarms_run [OF assms, of ?f]
    by (simp add: initialize_esr_def update_swarm_registry_def andthen_apply sbind_apply at_factory_def
        esr_answers_def)
  then show ?thesis
    using True
    by (intro exI [of _ "?f\<lparr>fa_swarm_reg := Some ?reg, fa_initialized := True\<rparr>"] exI [of _ ?reg])
      (auto simp: registry_wf_swarms reg_node_swarms map_of_listed)
next
  case False
  let ?f = "f\<lparr>fa_esr_address := addr, fa_esr_url := url, fa_swarm_reg := Some [], fa_initialized := True\<rparr>"
  have "initialize_esr fe addr url (d, (w, (f, x))) = (Inr (), (d, (w, (?f, x))))"
    using False by (auto simp: initialize_esr_def update_swarm_registry_def andthen_apply sbind_apply at_factory_def)
  then show ?thesis using False by (intro exI [of _ ?f] exI [of _ "[]"]) auto
qed

section \<open>A sample factory\<close>

text \<open>Swarms whose functions return at once; the handlers of the dispatcher are the closures.\<close>

definition idle_ops :: "(unit, nat) swarm_ops" where
  "idle_ops = \<lparr>so_sign_and_date_request = (\<lambda>sw e p. ret e), so_send_request = (\<lambda>sw e p. ret ()),
     so_register_response_handler = (\<lambda>sw t h. ret True), so_honest_majority_size = (\<lambda>sw. ret 1)\<rparr>"

definition sample_address :: peer_address where
  "sample_address = \<lparr>pa_host = ''h'', pa_port = 1, pa_http_port = 0, pa_name = [], pa_uuid = []\<rparr>"

definition sample_fe ::
  "(nat, (nat, nat) factory_closure uuid_handler, unit, (nat, nat) answers, nat) factory_env" where
  "sample_fe = \<lparr>fe_codec = sample_cd, fe_swarms = idle_ops, fe_timeout = 10, fe_lock = (\<lambda>sw. ret False),
     fe_make_swarm = (\<lambda>sid u ns. ret 7), fe_swarm_ids = (\<lambda>a u. ret [''s1'', ''s2'']),
     fe_peer_ids = (\<lambda>sid a u. ret [''n'']), fe_peer_info = (\<lambda>sid n a u. ret sample_address),
     fe_closure = id, fe_callback = record_answer\<rparr>"

definition sample_factory :: "nat swarm_factory" where
  "sample_factory = (new_factory ''me'')\<lparr>fa_initialized := True,
     fa_swarm_reg := Some [(''s1'', \<lparr>si_nodes = [(''n'', sample_address)], si_swarm = None\<rparr>),
                           (''s2'', \<lparr>si_nodes = [(''n'', sample_address)], si_swarm = None\<rparr>)],
     fa_counters := [2]\<rparr>"

lemma sample_fe_sel [simp]:
  "fe_swarms sample_fe = idle_ops" "fe_lock sample_fe sw = ret False" "fe_make_swarm sample_fe sid u ns = ret 7"
  "fe_callback sample_fe = record_answer" "fe_closure sample_fe = id"
  by (simp_all add: sample_fe_def)

lemma sample_fe_sound: "calls_throw_only sample_fe" "callbacks_sound sample_fe"
  by (auto simp: calls_throw_only_def ops_throw_only_def idle_ops_def callbacks_sound_def sound_call_def
      record_answer_def wp_def factory_next_refl)

lemma sample_factory_wf: "factory_wf sample_factory"
  by (simp add: sample_factory_def new_factory_def factory_wf_def registry_wf_def om_wf_def)

lemma sample_factory_sel [simp]:
  "fa_counters sample_factory = [2]" "known_swarms sample_factory = {''s1'', ''s2''}"
  "fa_swarm_dbs sample_factory = []" "fa_initialized sample_factory"
  by (auto simp: sample_factory_def new_factory_def known_swarms_def)

lemma has_db_answers_witness:
  "\<exists>f'. for_each [(''s1'', 7, Success), (''s2'', 7, No_database)]
      (\<lambda>(sid, sw, err). factory_reply sample_fe (Found_in ''u'' sid 0 (Library_callback 3) sw) err)
      (new_dispatch, ((), (sample_factory, []))) =
    (Inr (), (new_dispatch, ((), (f', [(3, Success, Some 7), (3, No_database, None)]))))"
  using has_db_answers [of sample_fe 0 sample_factory "[(''s1'', 7, Success), (''s2'', 7, No_database)]"
      "''u''" 3 new_dispatch "()" "[]"]
  by simp

lemma late_denial_creates_database_witness:
  "\<exists>f'. andthen (factory_reply sample_fe (Found_in ''u'' ''s1'' 0 (Create_unless_found ''u'' 9 False 3) 7) Success)
      (factory_reply sample_fe (Found_in ''u'' ''s2'' 0 (Create_unless_found ''u'' 9 False 3) 7) No_database)
      (new_dispatch, ((), (sample_factory, [])))
    = do_create_db sample_fe ''u'' 9 False (first_retry 2) 3
        (new_dispatch, ((), (f', [(3, Already_exists, None)])))"
proof -
  let ?reg = "[(''s1'', \<lparr>si_nodes = [(''n'', sample_address)], si_swarm = None\<rparr>),
                           (''s2'', \<lparr>si_nodes = [(''n'', sample_address)], si_swarm = None\<rparr>)]"
  have reg: "fa_swarm_reg sample_factory = Some ?reg" by (simp add: sample_factory_def)
  show ?thesis
    using late_denial_creates_database [of sample_fe 0 sample_factory No_database ?reg "''u''" "''s1''" 9 False 3] reg
    by (intro exI) simp
qed

lemma no_swarms_no_answer_witness:
  "factory_has_db sample_fe ''u'' (Library_callback 3) (new_dispatch, ((), (sample_factory\<lparr>fa_swarm_reg := Some []\<rparr>, [])))
    = (Inr (), (new_dispatch, ((), (sample_factory\<lparr>fa_swarm_reg := Some [], fa_counters := [2, 0]\<rparr>, []))))"
proof -
  have m: "factory_has_db sample_fe ''u'' (Library_callback 3) \<in>
      {factory_has_db sample_fe ''u'' (Library_callback 3), factory_create_db sample_fe ''u'' 0 False 0}" by simp
  show ?thesis using no_swarms_no_answer [OF _ _ _ m, of "sample_factory\<lparr>fa_swarm_reg := Some []\<rparr>"] by simp
qed

lemma esr_registry_is_complete_witness:
  "\<exists>f' reg. initialize_esr sample_fe ''0x1'' ''http'' (new_dispatch, ((), (new_factory ''me'', [])))
      = (Inr (), (new_dispatch, ((), (f', [])))) \<and> fa_swarm_reg f' = Some reg
    \<and> reg_node reg ''s2'' ''n'' = Some sample_address"
proof -
  have "esr_answers sample_fe [''s1'', ''s2''] (\<lambda>sid. [''n'']) (\<lambda>sid n. sample_address)"
    by (simp add: esr_answers_def sample_fe_def)
  from esr_registry_is_complete [OF this, of "''0x1''" "''http''" new_dispatch "()" "new_factory ''me''" "[]"]
  show ?thesis by force
qed

section \<open>No assertion fails\<close>

text \<open>
  C20. The factory never fails one of its assertions and never uses a null registry or a missing
  counter: started in a well-formed state, \<open>has_db\<close>, \<open>create_db\<close> and every reply to a closure it
  made return or end in an exception of another object, and leave the factory well-formed, with
  the same swarms known.
\<close>

theorem factory_never_asserts:
  fixes f :: "'sw swarm_factory" and fe :: "('sw, 'h, 's, 'x, 'cb) factory_env"
  assumes "calls_throw_only fe" "callbacks_sound fe" "factory_wf f" "closure_wf f c"
    and "m \<in> {factory_has_db fe u cb, factory_create_db fe u ms ev lcb, factory_reply fe c err}"
    and "m (d, (w, (f, x))) = (r, (d', (w', (f', x'))))"
  shows "factory_next f f' \<and> (\<forall>e. r = Inl e \<longrightarrow> (\<exists>t. e = Throws t))"
proof -
  have "sound_call f (factory_create_db fe u ms ev lcb)"
    using sound_has_db [OF assms(1-3)] assms(3)
    by (simp add: sound_call_def factory_create_db_def wp_sbind wp_gets factory_wf_def)
  with assms(5) have "sound_call f m"
    using sound_has_db [OF assms(1-3)] sound_factory_reply [OF assms(1-4)] by auto
  then have "wp m (\<lambda>_. factory_kept f) (\<lambda>e s. (\<exists>t. e = Throws t) \<and> factory_kept f s) (d, (w, (f, x)))"
    unfolding sound_call_def by blast
  from wpD [OF this assms(6)] show ?thesis by (cases r) auto
qed

lemma factory_never_asserts_witness:
  "\<exists>r d' f' x'. factory_create_db sample_fe ''u'' 9 False 3 (new_dispatch, ((), (sample_factory, [])))
      = (r, (d', ((), (f', x')))) \<and> factory_next sample_factory f' \<and> (\<forall>e. r = Inl e \<longrightarrow> (\<exists>t. e = Throws t))"
proof -
  let ?m = "factory_create_db sample_fe ''u'' 9 False 3"
  obtain r s where rs: "?m (new_dispatch, ((), (sample_factory, []))) = (r, s)"
    by (rule that, rule surjective_pairing)
  obtain d' w' f' x' where s: "s = (d', (w', (f', x')))" by (cases s) auto
  have run: "?m (new_dispatch, ((), (sample_factory, []))) = (r, (d', ((), (f', x'))))"
    using rs unfolding s by simp
  have m: "?m \<in> {factory_has_db sample_fe ''u'' (Library_callback 3), ?m,
      factory_reply sample_fe (Created_in ''u'' ''s1'' 9 False 0 3 7) Success}" by (intro insertI2 insertI1)
  have c: "closure_wf sample_factory (Created_in ''u'' ''s1'' 9 False 0 (3 :: nat) (7 :: nat))" by simp
  show ?thesis using factory_never_asserts [OF sample_fe_sound sample_factory_wf c m run] run by blast
qed

end
