(* ===== verification/Create_Attempts.thy ===== *)
theory Create_Attempts
  imports Factory_Answers
begin

text \<open>
  How many requests the creation of a database makes.  A reply to a create request may make the next
  one, in the next swarm of the list; each closure that is outstanding at the dispatcher
  therefore stands for the requests that may still follow from it, its budget.  The nonces are counted up with
  every request, so the nonce and the budgets of the table together never increase while replies, errors
  and timers are handled.
\<close>

section \<open>Budgets\<close>

fun callback_budget :: "'cb factory_callback \<Rightarrow> nat" where
  "callback_budget (Library_callback cb) = 0"
| "callback_budget (Create_unless_found u ms ev cb) = 6"

fun closure_budget :: "('sw, 'cb) factory_closure \<Rightarrow> nat" where
  "closure_budget (Found_in u sid counter cb sw) = callback_budget cb"
| "closure_budget (Created_in u sid ms ev retry cb sw) = unat retry"

definition budget :: "('sw, 'cb) factory_closure uuid_handler \<Rightarrow> nat" where
  "budget h = closure_budget (uuid_callback h)"

type_synonym ('sw, 'cb) creating = "('sw, ('sw, 'cb) factory_closure uuid_handler) db_dispatch"

definition entry_budget :: "('sw, ('sw, 'cb) factory_closure uuid_handler) msg_info option \<Rightarrow> nat" where
  "entry_budget i = (case i of None \<Rightarrow> 0 | Some info \<Rightarrow> budget (mi_handler info))"

lemma entry_budget_simps [simp]:
  "entry_budget None = 0" "entry_budget (Some info) = budget (mi_handler info)"
  by (simp_all add: entry_budget_def)

definition table_budget :: "('sw, 'cb) creating \<Rightarrow> nat" where
  "table_budget d = (\<Sum>k \<in> UNIV. entry_budget (find_message d k))"

text \<open>The requests made so far, and those that may still be made.\<close>

definition requests_bound :: "('sw, 'cb) creating \<Rightarrow> nat" where
  "requests_bound d = unat (next_nonce d) + table_budget d"

definition fresh_nonces :: "('sw, 'cb) creating \<Rightarrow> bool" where
  "fresh_nonces d \<longleftrightarrow> (\<forall>k. find_message d k \<noteq> None \<longrightarrow> unat k < unat (next_nonce d))"

lemma fresh_nonces_next: "fresh_nonces d \<Longrightarrow> find_message d (next_nonce d) = None"
  unfolding fresh_nonces_def by blast

lemma sum_at:
  fixes f g :: "u64 \<Rightarrow> nat"
  assumes "\<And>k. k \<noteq> n \<Longrightarrow> g k = f k"
  shows "(\<Sum>k \<in> UNIV. g k) + f n = (\<Sum>k \<in> UNIV. f k) + g n"
proof -
  have "(\<Sum>k \<in> UNIV - {n}. g k) = (\<Sum>k \<in> UNIV - {n}. f k)" by (rule sum.cong) (auto simp: assms)
  then show ?thesis by (simp add: sum.remove [of UNIV n f] sum.remove [of UNIV n g])
qed

lemma table_budget_set:
  "table_budget (set_message n info d) + entry_budget (find_message d n) = table_budget d + budget (mi_handler info)"
  using sum_at [of n "\<lambda>k. entry_budget (find_message (set_message n info d) k)" "\<lambda>k. entry_budget (find_message d k)"]
  by (simp add: table_budget_def)

lemma table_budget_erase:
  "table_budget (erase_message n d) + entry_budget (find_message d n) = table_budget d"
  using sum_at [of n "\<lambda>k. entry_budget (find_message (erase_message n d) k)" "\<lambda>k. entry_budget (find_message d k)"]
  by (simp add: table_budget_def)

lemma table_budget_next [simp]: "table_budget (d\<lparr>next_nonce := k\<rparr>) = table_budget d"
  by (simp add: table_budget_def)

lemma table_budget_same_handler:
  "find_message d n = Some info \<Longrightarrow> mi_handler info' = mi_handler info
    \<Longrightarrow> table_budget (set_message n info' d) = table_budget d"
  using table_budget_set [of n info' d] by simp

lemma entry_le_table: "find_message d n = Some info \<Longrightarrow> budget (mi_handler info) \<le> table_budget d"
  using table_budget_erase [of n d] by simp

lemma fresh_nonces_set:
  "fresh_nonces d \<Longrightarrow> find_message d n \<noteq> None \<Longrightarrow> fresh_nonces (set_message n info d)"
  by (auto simp: fresh_nonces_def)

lemma fresh_nonces_erase: "fresh_nonces d \<Longrightarrow> fresh_nonces (erase_message n d)"
  by (auto simp: fresh_nonces_def split: if_splits)

section \<open>What a program spends\<close>

text \<open>
  A program that returns spends at most \<open>b\<close>: the bound on requests grows by no more than \<open>b\<close>, as
  long as the nonces do not wrap around, and the entries of the table stay.
\<close>

definition spends :: "nat \<Rightarrow> (('sw, 'cb) creating \<times> 's, 'a) prog \<Rightarrow> bool" where
  "spends b m \<longleftrightarrow> (\<forall>d s r d' s'. fresh_nonces d \<longrightarrow> unat (next_nonce d) + b < 2 ^ 64 \<longrightarrow> m (d, s) = (Inr r, (d', s'))
     \<longrightarrow> fresh_nonces d' \<and> unat (next_nonce d') \<le> unat (next_nonce d) + b \<and> requests_bound d' \<le> requests_bound d + b
       \<and> (\<forall>k info. find_message d k = Some info \<longrightarrow> find_message d' k = Some info))"

lemma spendsD:
  assumes "spends b m" "fresh_nonces d" "unat (next_nonce d) + b < 2 ^ 64" "m (d, s) = (Inr r, (d', s'))"
  shows "fresh_nonces d'" "unat (next_nonce d') \<le> unat (next_nonce d) + b"
    and "requests_bound d' \<le> requests_bound d + b" "find_message d k = Some info \<Longrightarrow> find_message d' k = Some info"
  using assms unfolding spends_def by blast+

lemma spends_mono: "spends b m \<Longrightarrow> b \<le> b' \<Longrightarrow> spends b' m"
  unfolding spends_def by (meson add_left_mono le_trans order_le_less_trans)

lemma spends_nothing:
  assumes "\<And>d s r d' s'. m (d, s) = (Inr r, (d', s')) \<Longrightarrow> d' = d"
  shows "spends b m"
  unfolding spends_def by (auto dest!: assms)

lemma spends_basic [intro]:
  "spends b (ret a)" "spends b (raise f)" "spends b (lift_cxx c)"
  "spends b (on_snd m)" "spends b (at_factory m1)" "spends b (at_world m2)"
  by (auto intro!: spends_nothing simp: at_factory_def at_world_def on_snd_def split: prod.splits)

lemma spends_sbind_add:
  assumes "spends a m" "\<And>x. spends b (k x)"
  shows "spends (a + b) (sbind m k)"
  unfolding spends_def
proof (intro allI impI)
  fix d s r d' s'
  assume d: "fresh_nonces d" "unat (next_nonce d) + (a + b) < 2 ^ 64" and run: "sbind m k (d, s) = (Inr r, (d', s'))"
  then obtain x d1 s1 where m: "m (d, s) = (Inr x, (d1, s1))" and k: "k x (d1, s1) = (Inr r, (d', s'))"
    by (auto elim!: sbind_cases)
  have "unat (next_nonce d) + a < 2 ^ 64" using d(2) by simp
  note 1 = spendsD [OF assms(1) d(1) this m]
  have "unat (next_nonce d1) + b < 2 ^ 64" using 1(2) d(2) by simp
  note 2 = spendsD [OF assms(2) 1(1) this k]
  show "fresh_nonces d' \<and> unat (next_nonce d') \<le> unat (next_nonce d) + (a + b)
      \<and> requests_bound d' \<le> requests_bound d + (a + b)
      \<and> (\<forall>k info. find_message d k = Some info \<longrightarrow> find_message d' k = Some info)"
    using 1 2 by auto
qed

lemma spends_sbind [intro]: "spends 0 m \<Longrightarrow> (\<And>x. spends b (k x)) \<Longrightarrow> spends b (sbind m k)"
  using spends_sbind_add [of 0 m b k] by simp

lemma spends_andthen [intro]: "spends 0 m \<Longrightarrow> spends b k \<Longrightarrow> spends b (andthen m k)"
  unfolding andthen_def by (rule spends_sbind)

lemma spends_if [intro]: "spends b m \<Longrightarrow> spends b n \<Longrightarrow> spends b (if c then m else n)"
  by simp

lemma spends_option [intro]:
  "spends b m \<Longrightarrow> (\<And>a. spends b (n a)) \<Longrightarrow> spends b (case y of None \<Rightarrow> m | Some a \<Rightarrow> n a)"
  by (cases y) simp_all

text \<open>A request costs one, and what may follow from its closure.\<close>

lemma spends_send: "spends (Suc (budget h)) (send_message_to_swarm cd ops t sw u msg policy h)"
  unfolding spends_def
proof (intro allI impI)
  fix d s r d' s'
  assume d: "fresh_nonces d" "unat (next_nonce d) + Suc (budget h) < 2 ^ 64"
    and run: "send_message_to_swarm cd ops t sw u msg policy h (d, s) = (Inr r, (d', s'))"
  have next_word: "unat (next_nonce d + 1) = Suc (unat (next_nonce d))"
    using d(2) by (simp add: unat_word_ariths)
  from run show "fresh_nonces d' \<and> unat (next_nonce d') \<le> unat (next_nonce d) + Suc (budget h)
      \<and> requests_bound d' \<le> requests_bound d + Suc (budget h)
      \<and> (\<forall>k info. find_message d k = Some info \<longrightarrow> find_message d' k = Some info)"
  proof (cases rule: send_message_cases)
    case (tracked env w1 w2 info)
    have "mi_handler info = h" using arg_cong [OF tracked(4), of mi_handler] by simp
    moreover have "table_budget d' = table_budget d + budget (mi_handler info)"
      using table_budget_set [of "next_nonce d" info "d\<lparr>next_nonce := next_nonce d + 1\<rparr>"] fresh_nonces_next [OF d(1)]
      by (simp add: tracked(5))
    ultimately show ?thesis
      using d(1) next_word fresh_nonces_next [OF d(1)]
      by (auto simp: tracked(5) fresh_nonces_def requests_bound_def less_Suc_eq)
  qed simp_all
qed

lemma spends_get_or_create: "spends 0 (get_or_create_swarm fe sid)"
  unfolding get_or_create_swarm_def make_and_register_def
  by (intro spends_sbind spends_basic spends_if spends_option spends_andthen)

section \<open>What the factory spends\<close>

text \<open>Callbacks of the library that make no requests.\<close>

definition callbacks_quiet ::
  "('sw, ('sw, 'cb) factory_closure uuid_handler, 's, 'x, 'cb) factory_env \<Rightarrow> bool" where
  "callbacks_quiet fe \<longleftrightarrow> (\<forall>cb err sw d s r d' s'. fe_callback fe cb err sw (d, s) = (r, (d', s')) \<longrightarrow> d' = d)"

lemma spends_callback: "callbacks_quiet fe \<Longrightarrow> spends b (fe_callback fe cb err sw)"
  unfolding callbacks_quiet_def by (rule spends_nothing) blast

lemma spends_do_create_db:
  assumes "fe_closure fe = id" "callbacks_quiet fe"
  shows "spends (Suc (unat retry)) (do_create_db fe u ms ev retry cb)"
proof -
  have "spends (Suc (unat retry)) (create_uuid (fe_codec fe) (log_ops (fe_swarms fe)) (fe_timeout fe) (fe_closure fe) sw u
      ms ev (Created_in u sid ms ev retry cb sw))" for sw sid
    unfolding create_uuid_def
    using spends_send [of "Create_uuid_reply u (Created_in u sid ms ev retry cb sw)"] assms(1)
    by (intro spends_andthen spends_basic) (simp add: budget_def split del: if_split)
  then show ?thesis
    unfolding do_create_db_def
    by (intro spends_sbind spends_if spends_callback assms(2) spends_get_or_create spends_basic)
qed

lemma first_retry_le: "unat (first_retry m) \<le> 5"
  by (simp add: first_retry_def MAX_RETRY_def min_def word_le_nat_alt)

lemma spends_run_callback:
  assumes "fe_closure fe = id" "callbacks_quiet fe"
  shows "spends (callback_budget cb) (run_callback fe cb err sw)"
proof (cases cb)
  case (Create_unless_found u ms ev lcb)
  have "spends 6 (do_create_db fe u ms ev (first_retry m) lcb)" for m
    by (rule spends_mono [OF spends_do_create_db [OF assms]]) (use first_retry_le [of m] in simp)
  then show ?thesis
    using spends_callback [OF assms(2)] Create_unless_found by (auto intro!: spends_sbind)
qed (use spends_callback [OF assms(2)] in simp)

lemma spends_reply:
  assumes "fe_closure fe = id" "callbacks_quiet fe"
  shows "spends (closure_budget c) (factory_reply fe c err)"
proof (cases c)
  case (Found_in u sid counter cb sw)
  then show ?thesis
    using spends_run_callback [OF assms] by (auto intro!: spends_sbind spends_andthen)
next
  case (Created_in u sid ms ev retry cb sw)
  have "spends (unat retry) (do_create_db fe u ms ev (retry - 1) cb)" if "0 < retry"
  proof -
    have "Suc (unat (retry - 1)) = unat retry"
      using that by (simp add: unat_minus_one word_gt_0 unat_gt_0)
    with spends_do_create_db [OF assms, of "retry - 1"] show ?thesis by metis
  qed
  with Created_in spends_callback [OF assms(2)] show ?thesis by (auto intro!: spends_andthen)
qed

lemma spends_handler:
  "fe_closure fe = id \<Longrightarrow> callbacks_quiet fe \<Longrightarrow> spends (budget h) (run_uuid_handler fe h r ec)"
  unfolding run_uuid_handler_def budget_def by (rule spends_reply)

section \<open>What an event leaves\<close>

definition stays_in_budget :: "('sw, 'cb) creating \<Rightarrow> ('sw, 'cb) creating \<Rightarrow> bool" where
  "stays_in_budget d d' \<longleftrightarrow> fresh_nonces d' \<and> requests_bound d' \<le> requests_bound d"

lemma stays_refl: "fresh_nonces d \<Longrightarrow> stays_in_budget d d"
  by (simp add: stays_in_budget_def)

lemma stays_set:
  "fresh_nonces d \<Longrightarrow> find_message d n = Some info \<Longrightarrow> mi_handler info' = mi_handler info
    \<Longrightarrow> stays_in_budget d (set_message n info' d)"
  by (auto simp: stays_in_budget_def fresh_nonces_set requests_bound_def table_budget_same_handler)

lemma stays_erase: "fresh_nonces d \<Longrightarrow> stays_in_budget d (erase_message n d)"
  using table_budget_erase [of n d] by (simp add: stays_in_budget_def fresh_nonces_erase requests_bound_def)

text \<open>The handler of a request is called and the request is erased: it has paid for what followed.\<close>

lemma stays_handled:
  assumes "spends (budget (mi_handler info)) m" "fresh_nonces d" "requests_bound d < 2 ^ 64"
    and "find_message d n = Some info" "m (d, s) = (Inr r, (d', s'))"
  shows "stays_in_budget d (erase_message n d')"
proof -
  have "unat (next_nonce d) + budget (mi_handler info) < 2 ^ 64"
    using entry_le_table [OF assms(4)] assms(3) by (simp add: requests_bound_def)
  note spent = spendsD [OF assms(1,2) this assms(5)]
  have "table_budget (erase_message n d') + budget (mi_handler info) = table_budget d'"
    using table_budget_erase [of n d'] spent(4) [OF assms(4)] by simp
  with spent(1,3) show ?thesis by (simp add: stays_in_budget_def fresh_nonces_erase requests_bound_def)
qed

lemma stays_trans: "stays_in_budget d d' \<Longrightarrow> stays_in_budget d' d'' \<Longrightarrow> stays_in_budget d d''"
  by (auto simp: stays_in_budget_def)

fun is_send :: "('sw, 'h) dispatch_event \<Rightarrow> bool" where
  "is_send (Send sw u msg policy h) = True"
| "is_send _ = False"

lemma step_stays_in_budget:
  assumes "fe_closure fe = id" "callbacks_quiet fe" "\<not> is_send ev" "fresh_nonces d" "requests_bound d < 2 ^ 64"
    and "dispatch_step cd ops (run_uuid_handler fe) t ev (d, s) = (Inr (), (d', s'))"
  shows "stays_in_budget d d'"
proof (cases ev)
  case (Response env)
  with assms(6) obtain b where "handle_swarm_response cd (run_uuid_handler fe) env (d, s) = (Inr b, (d', s'))"
    by (auto elim!: sbind_cases)
  then show ?thesis
  proof (cases rule: handle_swarm_response_cases)
    case (collected r info)
    let ?n = "hd_nonce (dr_header r)" and ?info = "add_response (env_sender env) r info"
    have handler: "mi_handler ?info = mi_handler info" by (simp add: add_response_def)
    have set: "stays_in_budget d (set_message ?n ?info d)"
      by (rule stays_set [OF assms(4) collected(2) handler])
    from collected(4) show ?thesis
    proof (cases rule: collect_cases)
      case (accepted d1 w1)
      have "stays_in_budget (set_message ?n ?info d) (erase_message ?n d1)"
        using set assms(5)
        by (intro stays_handled [where m = "run_uuid_handler fe (mi_handler info) r No_error" and info = ?info, OF _ _ _ _ accepted(2)])
          (simp_all add: handler spends_handler [OF assms(1,2)] stays_in_budget_def)
      with stays_trans [OF set] accepted(4) show ?thesis by simp
    qed (use set in auto)
  qed (use stays_refl [OF assms(4)] in auto)
next
  case (Error_response env)
  with assms(6) obtain b where "handle_swarm_error cd env (d, s) = (Inr b, (d', s'))"
    by (auto elim!: sbind_cases)
  then show ?thesis
    by (cases rule: handle_swarm_error_cases)
      (use stays_refl [OF assms(4)] stays_erase [OF assms(4)] stays_set [OF assms(4)] in auto)
next
  case (Retry_timer ec n)
  with assms(6) have "handle_request_timeout ops ec n (d, s) = (Inr (), (d', s'))" by simp
  then show ?thesis
    by (cases rule: handle_request_timeout_cases) (use stays_refl [OF assms(4)] stays_set [OF assms(4)] in auto)
next
  case (Client_timer ec n)
  with assms(6) have "handle_client_timeout (run_uuid_handler fe) ec n (d, s) = (Inr (), (d', s'))" by simp
  then show ?thesis
  proof (cases rule: handle_client_timeout_cases)
    case (expired info)
    then obtain d1 s1 where "run_uuid_handler fe (mi_handler info) timeout_response No_error (d, s) = (Inr (), (d1, s1))"
        "d' = erase_message n d1"
      by (auto elim!: andthen_cases)
    with stays_handled [OF spends_handler [OF assms(1,2)] assms(4,5) expired(1)] show ?thesis by blast
  qed (use stays_refl [OF assms(4)] in simp)
qed (use assms(3) in simp)

lemma run_stays_in_budget:
  assumes "fe_closure fe = id" "callbacks_quiet fe" "\<forall>ev \<in> set es. \<not> is_send ev" "fresh_nonces d"
    and "requests_bound d < 2 ^ 64"
    and "for_each es (dispatch_step cd ops (run_uuid_handler fe) t) (d, s) = (Inr (), (d', s'))"
  shows "stays_in_budget d d'"
  using assms(3-)
proof (induction es arbitrary: d s)
  case Nil
  then show ?case by (simp add: stays_in_budget_def)
next
  case (Cons ev es)
  from Cons.prems(4) obtain d1 s1 where step: "dispatch_step cd ops (run_uuid_handler fe) t ev (d, s) = (Inr (), (d1, s1))"
    and rest: "for_each es (dispatch_step cd ops (run_uuid_handler fe) t) (d1, s1) = (Inr (), (d', s'))"
    by (auto elim!: andthen_cases)
  have 1: "stays_in_budget d d1" by (rule step_stays_in_budget [OF assms(1,2) _ Cons.prems(2,3) step]) (use Cons.prems(1) in simp)
  have "stays_in_budget d1 d'"
    using Cons.IH [OF _ _ _ rest] Cons.prems(1,3) 1 by (simp add: stays_in_budget_def)
  with 1 show ?case by (rule stays_trans)
qed

section \<open>Creating a database ends\<close>



end
