(* ===== verification/Logging.thy ===== *)
theory Logging
  imports Effects
begin

text \<open>
  \<open>library/log.cpp\<close>, \<open>include/logger.hpp\<close> and the macro \<open>LOG\<close> of \<open>include/bluzelle.hpp\<close>: log
  records go through the core of Boost.Log to every sink that the library has registered, and each
  sink hands them to the logger of the client.

  The state \<open>logging\<close> holds the pointer to the logger and the sinks of the core; the logger itself,
  the standard output and the core of Boost.Log are the parameter \<open>log_env\<close> over a world \<open>'w\<close>.
\<close>

section \<open>State\<close>

text \<open>A sink is the number of the \<open>log_pusher\<close> behind it.\<close>

record logging =
  lo_logger :: "nat option"
  lo_sinks :: "nat list"
  lo_pusher :: "nat option"

definition no_logging :: logging where
  "no_logging = \<lparr>lo_logger = None, lo_sinks = [], lo_pusher = None\<rparr>"

datatype severity = Trace | Debug | Info | Warning | Error | Fatal

fun severity_text :: "severity \<Rightarrow> string" where
  "severity_text Trace = ''trace''"
| "severity_text Debug = ''debug''"
| "severity_text Info = ''info''"
| "severity_text Warning = ''warning''"
| "severity_text Error = ''error''"
| "severity_text Fatal = ''fatal''"

type_synonym ('w, 'a) log_prog = "(logging \<times> 'w, 'a) prog"

text \<open>
  What the records reach: \<open>logger::log\<close> of a client's object, \<open>std::cout\<close>, and the core, which is given
  the registered sinks, what each of them does with the record, and the record.
\<close>

record 'w log_env =
  ve_log :: "nat \<Rightarrow> string \<Rightarrow> string \<Rightarrow> ('w, unit) prog"
  ve_print :: "string \<Rightarrow> ('w, unit) prog"
  ve_core :: "nat list \<Rightarrow> (nat \<Rightarrow> ('w, unit) log_prog) \<Rightarrow> severity \<Rightarrow> string \<Rightarrow> ('w, unit) log_prog"

text \<open>
  As documented, the core feeds a record to its sinks in turn; with no sink registered it goes to a
  default sink of its own, which returns.
\<close>

definition feeds_sinks :: "'w log_env \<Rightarrow> bool" where
  "feeds_sinks ve \<longleftrightarrow> (\<forall>sinks sink sev msg. sinks \<noteq> [] \<longrightarrow> ve_core ve sinks sink sev msg = for_each sinks sink)
     \<and> (\<forall>sink sev msg l w. \<exists>w'. ve_core ve [] sink sev msg (l, w) = (Inr (), (l, w')))"

section \<open>Operations\<close>

definition fresh_pusher :: "logging \<Rightarrow> nat" where
  "fresh_pusher l = (case lo_pusher l of None \<Rightarrow> 0 | Some p \<Rightarrow> Suc p)"

definition add_sink :: "logging \<Rightarrow> logging" where
  "add_sink l = l\<lparr>lo_pusher := Some (fresh_pusher l), lo_sinks := lo_sinks l @ [fresh_pusher l]\<rparr>"

definition init_logging :: "(logging, unit) prog" where
  "init_logging = modify add_sink"

definition end_logging :: "(logging, unit) prog" where
  "end_logging = modify (\<lambda>l. l\<lparr>lo_sinks := []\<rparr>)"

definition set_logger :: "nat option \<Rightarrow> (logging, unit) prog" where
  "set_logger logger = modify (\<lambda>l. l\<lparr>lo_logger := logger\<rparr>)"

text \<open>\<open>log_pusher::consume\<close>: an exception of the logger is printed and goes no further.\<close>

definition consume :: "'w log_env \<Rightarrow> severity \<Rightarrow> string \<Rightarrow> ('w, unit) log_prog" where
  "consume ve sev message = sbind (on_fst (gets lo_logger)) (\<lambda>the_logger.
     case the_logger of
       None \<Rightarrow> ret ()
     | Some l \<Rightarrow> (\<lambda>s. case on_snd (ve_log ve l (severity_text sev) message) s of
           (Inl (Throws e), s') \<Rightarrow>
             on_snd (ve_print ve (''Exception caught trying to log message: '' @ e)) s'
         | r \<Rightarrow> r))"

text \<open>A record goes to the core, and from there to the \<open>log_pusher\<close>s.\<close>

definition push_record :: "'w log_env \<Rightarrow> severity \<Rightarrow> string \<Rightarrow> ('w, unit) log_prog" where
  "push_record ve sev message = sbind (on_fst (gets lo_sinks)) (\<lambda>sinks.
     ve_core ve sinks (\<lambda>sink. consume ve sev message) sev message)"

text \<open>\<open>utils::basename\<close>: what follows the last slash.\<close>

definition basename :: "string \<Rightarrow> string" where
  "basename path = rev (takeWhile (\<lambda>c. c \<noteq> CHR ''/'') (rev path))"

text \<open>\<open>LOG(sev) << text\<close> in a line of a source file.\<close>

definition LOG :: "'w log_env \<Rightarrow> severity \<Rightarrow> string \<Rightarrow> nat \<Rightarrow> string \<Rightarrow> ('w, unit) log_prog" where
  "LOG ve sev file line message =
     push_record ve sev (''('' @ basename file @ '':'' @ to_string line @ '') - '' @ message)"

section \<open>Where records go\<close>

lemma basename_plain: "CHR ''/'' \<notin> set name \<Longrightarrow> basename name = name"
  unfolding basename_def by (subst takeWhile_eq_all_conv [THEN iffD2]) auto

lemma basename_append: "CHR ''/'' \<notin> set name \<Longrightarrow> basename (dir @ CHR ''/'' # name) = name"
  by (simp add: basename_def) (subst takeWhile_append2, auto)

text \<open>A logger that may throw, and printing that does not.\<close>

definition quiet_env :: "'w log_env \<Rightarrow> bool" where
  "quiet_env ve \<longleftrightarrow> (\<forall>l sev msg w. case fst (ve_log ve l sev msg w) of Inl f \<Rightarrow> \<exists>e. f = Throws e | Inr _ \<Rightarrow> True)
     \<and> (\<forall>t w. fst (ve_print ve t w) = Inr ()) \<and> feeds_sinks ve"

lemma quiet_prints: "quiet_env ve \<Longrightarrow> \<exists>w'. ve_print ve t w = (Inr (), w')"
  unfolding quiet_env_def by (metis prod.collapse)

lemma consume_returns:
  assumes "quiet_env ve"
  shows "\<exists>w'. consume ve sev msg (l, w) = (Inr (), (l, w'))"
proof (cases "lo_logger l")
  case None
  then show ?thesis by (simp add: consume_def)
next
  case (Some k)
  obtain r w1 where r: "ve_log ve k (severity_text sev) msg w = (r, w1)" by fastforce
  have "case fst (ve_log ve k (severity_text sev) msg w) of Inl f \<Rightarrow> \<exists>e. f = Throws e | Inr _ \<Rightarrow> True"
    using assms by (simp add: quiet_env_def)
  with r have "case r of Inl f \<Rightarrow> \<exists>e. f = Throws e | Inr _ \<Rightarrow> True" by simp
  then consider (returns) "r = Inr ()" | (throws) e where "r = Inl (Throws e)" by (auto split: sum.splits)
  then show ?thesis
  proof cases
    case returns
    with Some r show ?thesis by (simp add: consume_def)
  next
    case (throws e)
    obtain w2 where "ve_print ve (''Exception caught trying to log message: '' @ e) w1 = (Inr (), w2)"
      using quiet_prints [OF assms] by blast
    with Some r throws show ?thesis by (simp add: consume_def)
  qed
qed

lemma push_record_returns:
  assumes "quiet_env ve"
  shows "\<exists>w'. push_record ve sev msg (l, w) = (Inr (), (l, w'))"
proof -
  have "\<exists>w'. for_each sinks (\<lambda>sink. consume ve sev msg) (l, w) = (Inr (), (l, w'))" for sinks w
  proof (induction sinks arbitrary: w)
    case (Cons s sinks)
    obtain w1 where w1: "consume ve sev msg (l, w) = (Inr (), (l, w1))" using consume_returns [OF assms] by blast
    with Cons.IH [of w1] show ?case by (simp add: andthen_apply)
  qed simp
  moreover have "feeds_sinks ve" using assms by (simp add: quiet_env_def)
  ultimately show ?thesis by (cases "lo_sinks l = []") (simp_all add: push_record_def feeds_sinks_def)
qed

text \<open>With a logger that does not throw, a record reaches it once per sink.\<close>

definition calls_of :: "'w log_env \<Rightarrow> nat \<Rightarrow> severity \<Rightarrow> string \<Rightarrow> nat \<Rightarrow> ('w, unit) prog" where
  "calls_of ve k sev msg n = for_each (replicate n ()) (\<lambda>_. ve_log ve k (severity_text sev) msg)"

lemma push_record_calls:
  assumes "feeds_sinks ve" "lo_logger l = Some k" "lo_sinks l \<noteq> []" "\<And>w. \<exists>w'. ve_log ve k (severity_text sev) msg w = (Inr (), w')"
  shows "push_record ve sev msg (l, w) =
    (case calls_of ve k sev msg (length (lo_sinks l)) w of (x, w') \<Rightarrow> (x, (l, w')))"
proof -
  have "for_each sinks (\<lambda>sink. consume ve sev msg) (l, w) =
      (case calls_of ve k sev msg (length sinks) w of (x, w') \<Rightarrow> (x, (l, w')))" for sinks w
  proof (induction sinks arbitrary: w)
    case (Cons s sinks)
    obtain w1 where "ve_log ve k (severity_text sev) msg w = (Inr (), w1)" using assms(4) by blast
    then show ?case
      using Cons.IH [of w1] assms(2) by (simp add: andthen_apply consume_def calls_of_def)
  qed (simp add: calls_of_def)
  with assms(1,3) show ?thesis by (simp add: push_record_def feeds_sinks_def)
qed

end
