(* ===== verification/Client_Library.thy ===== *)
theory Client_Library
  imports Client_Calls Swarm_Factory Esr_Peer_Info Logging
begin

text \<open>
  \<open>library/library.cpp\<close> and \<open>async_database_impl::open\<close>: the global state of the library, its
  initialization, and the search, creation and opening of databases, over the swarm factory, real
  swarms, the contract client and response objects.

  A state is the dispatcher, the swarms with the outside world and the database and response
  objects, the factory, and the globals, among them the state of the logging.  The records that the
  code logs on its way are left out; \<open>Logging\<close> says where they go.
\<close>

section \<open>Closures and state\<close>

text \<open>
  The lambdas of the file: the callbacks given to the factory, and the completion handlers given
  to \<open>open\<close>; \<open>Open_done\<close> is the lambda of \<open>async_database_impl::open\<close> around one of the latter,
  with the database it belongs to.
\<close>

datatype 'r library_callback = Has_db_done 'r uuid | Create_db_done 'r uuid | Open_db_done 'r uuid

datatype 'r open_client = Created_opened 'r uuid | Found_opened 'r

datatype 'r open_handler = Open_done nat "'r open_client"

text \<open>
  \<open>Io_running\<close> is a joinable thread object.  Replacing it destroys it, and the destructor of a
  joinable thread calls \<open>std::terminate\<close>: the process aborts, as for a failed assertion.
\<close>

datatype io_thread = Io_none | Io_running | Io_joined

record library_globals =
  lg_initialized :: bool
  lg_error_str :: string
  lg_error_val :: int
  lg_api_timeout :: u64
  lg_io_thread :: io_thread
  lg_crypto :: "crypto_ops option"
  lg_has_factory :: bool
  lg_log :: logging

definition DEFAULT_TIMEOUT :: u64 where "DEFAULT_TIMEOUT = 30"

definition initial_globals :: library_globals where
  "initial_globals = \<lparr>lg_initialized = False, lg_error_str = ''Not Initialized'', lg_error_val = -1,
     lg_api_timeout = DEFAULT_TIMEOUT, lg_io_thread = Io_none, lg_crypto = None, lg_has_factory = False,
     lg_log = no_logging\<rparr>"

text \<open>Databases are numbered as they are made; a response may hold the number of one.\<close>

type_synonym ('sw, 'm) client_store = "'sw async_database list \<times> 'm"

type_synonym ('sw, 'n, 't, 'r, 'w, 'm) network =
  "('sw, 'n, 't, 'r open_handler) swarm_heap \<times> ('w \<times> ('sw, 'm) client_store)"

type_synonym ('sw, 'n, 't, 'r, 'w, 'm, 'h, 'a) library_prog =
  "('sw, 'h, ('sw, 'n, 't, 'r, 'w, 'm) network, library_globals, 'a) factory_prog"

text \<open>The key objects of OpenSSL are numbers; a null pointer is \<open>None\<close>.\<close>

record ('sw, 'n, 't, 'r, 'w, 'm, 'h) library_env =
  le_codec :: codec
  le_json :: jsoncpp
  le_ossl :: "(nat, nat) openssl"
  le_platform :: "('w, 'n, 't) platform"
  le_esr :: "'w esr_env"
  le_api :: "('m, 'r, nat) response_api"
  le_get_result :: "'r \<Rightarrow> ('m, string option) prog"
  le_get_error :: "'r \<Rightarrow> ('m, int) prog"
  le_get_db :: "'r \<Rightarrow> ('m, nat option) prog"
  le_fresh :: "('sw, 'n, 't, 'r open_handler) swarm_heap \<Rightarrow> 'sw"
  le_lock :: "'sw \<Rightarrow> (('sw, 'n, 't, 'r, 'w, 'm) network, bool) prog"
  le_port :: "string \<Rightarrow> u16 option"
  le_closure :: "('sw, 'r library_callback) factory_closure uuid_handler \<Rightarrow> 'h"

definition at_store ::
  "(('sw, 'm) client_store, 'a) prog \<Rightarrow> (('sw, 'n, 't, 'r, 'w, 'm) network, 'a) prog" where
  "at_store m = on_snd (on_snd m)"

definition at_responses :: "('m, 'a) prog \<Rightarrow> ('sw, 'n, 't, 'r, 'w, 'm, 'h, 'a) library_prog" where
  "at_responses m = at_world (at_store (on_snd m))"

text \<open>
  The operations on databases act on the dispatcher, the swarms and the responses: a part of the
  state of the library.
\<close>

definition at_client ::
  "('sw, 'h, ('sw, 'n, 't, 'r open_handler) swarm_heap \<times> 'w, 'm, 'a) client_prog
     \<Rightarrow> ('sw, 'n, 't, 'r, 'w, 'm, 'h, 'a) library_prog" where
  "at_client m = (\<lambda>(d, ((H, (w, (dbs, q))), (f, g))). case m (d, ((H, w), q)) of
     (x, (d', ((H', w'), q'))) \<Rightarrow> (x, (d', ((H', (w', (dbs, q'))), (f, g)))))"

definition at_globals :: "(library_globals, 'a) prog \<Rightarrow> ('sw, 'n, 't, 'r, 'w, 'm, 'h, 'a) library_prog" where
  "at_globals m = on_snd (on_snd (on_snd m))"

definition on_log :: "(logging, 'a) prog \<Rightarrow> (library_globals, 'a) prog" where
  "on_log m = (\<lambda>g. case m (lg_log g) of (x, l) \<Rightarrow> (x, g\<lparr>lg_log := l\<rparr>))"

text \<open>The platform of the swarms beside the objects of the client.\<close>

definition beside :: "('w, 'n, 't) platform \<Rightarrow> ('w \<times> 'v, 'n, 't) platform" where
  "beside pf = \<lparr>pf_create_node = (\<lambda>h p. on_fst (pf_create_node pf h p)),
     pf_register_message_handler = (\<lambda>n u. on_fst (pf_register_message_handler pf n u)),
     pf_send_message = (\<lambda>n m c. on_fst (pf_send_message pf n m c)),
     pf_back_off = (\<lambda>n b. on_fst (pf_back_off pf n b)), pf_make_timer = on_fst (pf_make_timer pf),
     pf_start_timer = (\<lambda>t s u. on_fst (pf_start_timer pf t s u)),
     pf_steady_now = on_fst (pf_steady_now pf), pf_system_now = on_fst (pf_system_now pf),
     pf_uniform = (\<lambda>k. on_fst (pf_uniform pf k)), pf_ctime = pf_ctime pf\<rparr>"

section \<open>Errors and settings\<close>

fun error_string :: "db_error \<Rightarrow> string" where
  "error_string Success = ''Success''"
| "error_string Uninitialized = ''bzapi uninitialized''"
| "error_string Connection_error = ''Connection error''"
| "error_string Database_error = ''Database error''"
| "error_string Timeout_error = ''Timeout error''"
| "error_string Already_exists = ''Database already exists''"
| "error_string No_space = ''No space''"
| "error_string No_database = ''No database''"

definition library_error :: "(library_globals, int) prog" where
  "library_error = gets lg_error_val"

definition library_error_str :: "(library_globals, string) prog" where
  "library_error_str = gets lg_error_str"

definition set_timeout :: "u64 \<Rightarrow> (library_globals, unit) prog" where
  "set_timeout seconds = modify (\<lambda>g. g\<lparr>lg_api_timeout := seconds\<rparr>)"

definition get_timeout :: "(library_globals, u64) prog" where
  "get_timeout = gets lg_api_timeout"

section \<open>Opening a database\<close>

definition the_database :: "nat \<Rightarrow> ('sw async_database list, 'sw async_database) prog" where
  "the_database db = (\<lambda>dbs. (if db < length dbs then Inr (dbs ! db) else Inl Undefined, dbs))"

definition set_init_state :: "nat \<Rightarrow> init_state \<Rightarrow> ('sw async_database list, unit) prog" where
  "set_init_state db st = modify (\<lambda>dbs. dbs[db := (dbs ! db)\<lparr>ad_state := st\<rparr>])"

definition make_database :: "'sw \<Rightarrow> uuid \<Rightarrow> ('sw async_database list, nat) prog" where
  "make_database sw u = (\<lambda>dbs. (Inr (length dbs), dbs @ [new_async_database sw u]))"

definition result_json :: "int \<Rightarrow> uuid \<Rightarrow> json" where
  "result_json n u = jset ''uuid'' (JString u) (jset ''result'' (JInt n) JNull)"

text \<open>The completion handlers of \<open>async_create_db\<close> and \<open>async_open_db\<close>.\<close>

definition open_client_json :: "'r open_client \<Rightarrow> json" where
  "open_client_json c = (case c of Created_opened r u \<Rightarrow> result_json 1 u | Found_opened r \<Rightarrow> ok_json)"

definition open_client_response :: "'r open_client \<Rightarrow> 'r" where
  "open_client_response c = (case c of Created_opened r u \<Rightarrow> r | Found_opened r \<Rightarrow> r)"

definition run_open_client ::
  "('m, 'r, nat) response_api \<Rightarrow> 'r open_client \<Rightarrow> nat \<Rightarrow> error_code \<Rightarrow> ('m, unit) prog" where
  "run_open_client ra client db ec =
     (let r = open_client_response client in
      if is_err ec
      then complete (ra_responses ra) r (ra_styled ra (error_json (ra_message ra ec))) (db_error_int Connection_error)
      else andthen (mr_set_result (ra_responses ra) r (ra_styled ra (open_client_json client)))
        (andthen (mr_set_db (ra_responses ra) r db) (mr_set_ready (ra_responses ra) r)))"

text \<open>The lambda of \<open>open\<close>; the database lives as long as its handler, so the weak pointer locks.\<close>

fun database_opened ::
  "('m, 'r, nat) response_api \<Rightarrow> 'r open_handler \<Rightarrow> error_code \<Rightarrow> (('sw, 'm) client_store, unit) prog" where
  "database_opened ra (Open_done db client) ec =
     andthen (if is_err ec then ret () else on_fst (set_init_state db Initialized))
       (on_snd (run_open_client ra client db ec))"

definition database_open ::
  "('sw, 'n, 't, 'r, 'w, 'm, 'h) library_env \<Rightarrow> crypto_ops \<Rightarrow> nat \<Rightarrow> 'r open_client
     \<Rightarrow> (('sw, 'n, 't, 'r, 'w, 'm) network, unit) prog" where
  "database_open le cr db client =
     sbind (at_store (on_fst (the_database db))) (\<lambda>d.
     if ad_state d \<noteq> Init_none then ret ()
     else andthen (at_store (on_fst (set_init_state db Initializing)))
       (on_swarm (ad_swarm d) (Swarm.initialize (le_codec le) cr (beside (le_platform le))
          (\<lambda>h ec. on_snd (on_snd (database_opened (le_api le) h ec))) (Open_done db client))))"

text \<open>The callbacks given to the factory.\<close>

fun run_library_callback ::
  "('sw, 'n, 't, 'r, 'w, 'm, 'h) library_env \<Rightarrow> crypto_ops \<Rightarrow> 'r library_callback \<Rightarrow> db_error \<Rightarrow> 'sw option
     \<Rightarrow> ('sw, 'n, 't, 'r, 'w, 'm, 'h, unit) library_prog" where
  "run_library_callback le cr (Has_db_done r u) err sw =
     at_responses (reply_with (le_api le) r (result_json (if sw \<noteq> None then 1 else 0) u))"
| "run_library_callback le cr (Create_db_done r u) err (Some sw) =
     at_world (sbind (at_store (on_fst (make_database sw u))) (\<lambda>db.
       database_open le cr db (Created_opened r u)))"
| "run_library_callback le cr (Create_db_done r u) err None =
     at_responses (complete (ra_responses (le_api le)) r
       (ra_styled (le_api le) (jset ''uuid'' (JString u) (error_json (error_string err)))) (db_error_int err))"
| "run_library_callback le cr (Open_db_done r u) err (Some sw) =
     at_world (sbind (at_store (on_fst (make_database sw u))) (\<lambda>db.
       database_open le cr db (Found_opened r)))"
| "run_library_callback le cr (Open_db_done r u) err None =
     at_responses (complete (ra_responses (le_api le)) r
       (ra_styled (le_api le) (error_json (error_string err))) (db_error_int err))"

section \<open>The factory of the library\<close>

text \<open>The constructor of a swarm, at a reference that is not in use.\<close>

definition make_swarm ::
  "('sw, 'n, 't, 'r, 'w, 'm, 'h) library_env \<Rightarrow> swarm_id \<Rightarrow> uuid \<Rightarrow> (node_id \<times> peer_address) list
     \<Rightarrow> (('sw, 'n, 't, 'r, 'w, 'm) network, 'sw) prog" where
  "make_swarm le sid me nodes = (\<lambda>(H, w). (Inr (le_fresh le H), (H(le_fresh le H \<mapsto> new_swarm sid me nodes), w)))"

definition library_fe ::
  "('sw, 'n, 't, 'r, 'w, 'm, 'h) library_env \<Rightarrow> crypto_ops \<Rightarrow> u64
     \<Rightarrow> ('sw, 'h, ('sw, 'n, 't, 'r, 'w, 'm) network, library_globals, 'r library_callback) factory_env" where
  "library_fe le cr timeout = \<lparr>fe_codec = le_codec le,
     fe_swarms = real_ops (le_codec le) cr (beside (le_platform le)), fe_timeout = timeout,
     fe_lock = le_lock le, fe_make_swarm = make_swarm le,
     fe_swarm_ids = (\<lambda>addr url. on_snd (on_fst (get_swarm_ids (le_esr le) addr url))),
     fe_peer_ids = (\<lambda>sid addr url. on_snd (on_fst (get_peer_ids (le_esr le) sid addr url))),
     fe_peer_info = (\<lambda>sid node addr url. on_snd (on_fst (get_peer_info (le_esr le) sid node addr url))),
     fe_closure = le_closure le, fe_callback = run_library_callback le cr\<rparr>"

text \<open>Calling the factory through its pointer, with the cryptography object and the timeout set now.\<close>

definition with_factory ::
  "('sw, 'n, 't, 'r, 'w, 'm, 'h) library_env
     \<Rightarrow> (('sw, 'h, ('sw, 'n, 't, 'r, 'w, 'm) network, library_globals, 'r library_callback) factory_env
         \<Rightarrow> ('sw, 'n, 't, 'r, 'w, 'm, 'h, 'a) library_prog)
     \<Rightarrow> ('sw, 'n, 't, 'r, 'w, 'm, 'h, 'a) library_prog" where
  "with_factory le body =
     sbind (at_globals (gets id)) (\<lambda>g.
       case lg_crypto g of
         None \<Rightarrow> raise Undefined
       | Some cr \<Rightarrow> if lg_has_factory g then body (library_fe le cr (lg_api_timeout g)) else raise Undefined)"

section \<open>Initialization\<close>

definition start_io :: "(library_globals, unit) prog" where
  "start_io = sbind (gets lg_io_thread) (\<lambda>t.
     if t = Io_running then raise Assert_fails else modify (\<lambda>g. g\<lparr>lg_io_thread := Io_running\<rparr>))"

text \<open>\<open>io_context->stop(); io_thread->join();\<close>\<close>

definition stop_io :: "(library_globals, unit) prog" where
  "stop_io = sbind (gets lg_io_thread) (\<lambda>t.
     if t = Io_running then modify (\<lambda>g. g\<lparr>lg_io_thread := Io_joined\<rparr>)
     else if t = Io_joined then raise (Throws ''std::system_error'') else ret ())"

text \<open>
  The constructor of \<open>crypto\<close>: whether the key could be loaded is not looked at, so a bad key leaves
  a null pointer behind.
\<close>

definition new_crypto :: "('pk, 'sk) openssl \<Rightarrow> string \<Rightarrow> crypto_ops" where
  "new_crypto ossl private_key = real_crypto ossl (load_private_key ossl private_key)"

definition common_init ::
  "('sw, 'n, 't, 'r, 'w, 'm, 'h) library_env \<Rightarrow> string \<Rightarrow> string
     \<Rightarrow> ('sw, 'n, 't, 'r, 'w, 'm, 'h, unit) library_prog" where
  "common_init le public_key private_key =
     andthen (at_globals (on_log init_logging))
     (andthen (at_globals start_io)
     (andthen (on_fst (modify (\<lambda>_. new_dispatch)))
     (andthen (at_globals (modify (\<lambda>g. g\<lparr>lg_crypto := Some (new_crypto (le_ossl le) private_key)\<rparr>)))
     (andthen (at_factory (modify (\<lambda>_. new_factory public_key)))
      (at_globals (modify (\<lambda>g. g\<lparr>lg_has_factory := True, lg_error_val := 0, lg_error_str := []\<rparr>)))))))"

definition do_bad_endpoint :: "string \<Rightarrow> (library_globals, 'a) prog" where
  "do_bad_endpoint endpoint =
     andthen (modify (\<lambda>g. g\<lparr>lg_error_str := ''Bad Endpoint'', lg_error_val := -1\<rparr>))
       (raise (Throws (''bad node endpoint: '' @ endpoint)))"

text \<open>\<open>s.find(c, from)\<close>\<close>

fun find_char :: "char \<Rightarrow> string \<Rightarrow> nat option" where
  "find_char c [] = None"
| "find_char c (d # s) = (if c = d then Some 0 else map_option Suc (find_char c s))"

definition find_from :: "char \<Rightarrow> nat \<Rightarrow> string \<Rightarrow> nat option" where
  "find_from c from s = map_option (\<lambda>i. from + i) (find_char c (drop from s))"

definition parse_endpoint ::
  "('sw, 'n, 't, 'r, 'w, 'm, 'h) library_env \<Rightarrow> string \<Rightarrow> (library_globals, string \<times> u16) prog" where
  "parse_endpoint le endpoint =
     (case find_from CHR '':'' 5 endpoint of
        None \<Rightarrow> do_bad_endpoint endpoint
      | Some offset \<Rightarrow>
          if take 5 endpoint \<noteq> ''ws://'' then do_bad_endpoint endpoint
          else case le_port le (c_str (drop (offset + 1) endpoint)) of
            None \<Rightarrow> do_bad_endpoint endpoint
          | Some port \<Rightarrow> ret (take (offset - 5) (drop 5 endpoint), port))"

definition initialize_local ::
  "('sw, 'n, 't, 'r, 'w, 'm, 'h) library_env \<Rightarrow> string \<Rightarrow> string \<Rightarrow> string \<Rightarrow> node_id \<Rightarrow> swarm_id
     \<Rightarrow> ('sw, 'n, 't, 'r, 'w, 'm, 'h, bool) library_prog" where
  "initialize_local le public_key private_key endpoint node_id swarm_id =
     sbind (at_globals (gets lg_initialized)) (\<lambda>initialized.
     if initialized then ret False
     else catch_all
       (andthen (common_init le public_key private_key)
        (sbind (at_globals (parse_endpoint le endpoint)) (\<lambda>(addr, port).
         andthen (at_factory (initialize_nodes swarm_id
           [(node_id, \<lparr>pa_host = addr, pa_port = port, pa_http_port = 0, pa_name = [], pa_uuid = []\<rparr>)]))
         (andthen (at_globals (modify (\<lambda>g. g\<lparr>lg_initialized := True\<rparr>))) (ret True)))))
       (andthen (at_globals stop_io) (ret False)))"

definition initialize_contract ::
  "('sw, 'n, 't, 'r, 'w, 'm, 'h) library_env \<Rightarrow> string \<Rightarrow> string \<Rightarrow> string \<Rightarrow> string
     \<Rightarrow> ('sw, 'n, 't, 'r, 'w, 'm, 'h, bool) library_prog" where
  "initialize_contract le public_key private_key esr_address url =
     sbind (at_globals (gets lg_initialized)) (\<lambda>initialized.
     if initialized then ret False
     else catch_all
       (andthen (common_init le public_key private_key)
        (andthen (with_factory le (\<lambda>fe. initialize_esr fe esr_address url))
         (andthen (at_globals (modify (\<lambda>g. g\<lparr>lg_initialized := True\<rparr>))) (ret True))))
       (ret False))"

definition terminate :: "('sw, 'n, 't, 'r, 'w, 'm, 'h, unit) library_prog" where
  "terminate = at_globals (catch_all
     (sbind (gets lg_initialized) (\<lambda>initialized.
      if initialized
      then andthen stop_io
        (andthen (modify (\<lambda>g. g\<lparr>lg_initialized := False, lg_error_str := ''Not Initialized'', lg_error_val := -1\<rparr>))
        (andthen (on_log end_logging) (modify (\<lambda>g. g\<lparr>lg_has_factory := False\<rparr>))))
      else ret ()))
     (ret ()))"

section \<open>Asynchronous calls\<close>

text \<open>Make a response, hand it to the factory, return it; \<open>nullptr\<close> otherwise.\<close>

definition library_response ::
  "('sw, 'n, 't, 'r, 'w, 'm, 'h) library_env
     \<Rightarrow> ('r \<Rightarrow> ('sw, 'h, ('sw, 'n, 't, 'r, 'w, 'm) network, library_globals, 'r library_callback) factory_env
         \<Rightarrow> ('sw, 'n, 't, 'r, 'w, 'm, 'h, unit) library_prog)
     \<Rightarrow> ('sw, 'n, 't, 'r, 'w, 'm, 'h, 'r option) library_prog" where
  "library_response le body =
     catch_all (sbind (at_globals (gets lg_initialized)) (\<lambda>initialized.
       if initialized
       then sbind (at_responses (ra_make (le_api le))) (\<lambda>r.
            andthen (with_factory le (body r)) (ret (Some r)))
       else ret None)) (ret None)"

definition async_has_db ::
  "('sw, 'n, 't, 'r, 'w, 'm, 'h) library_env \<Rightarrow> uuid \<Rightarrow> ('sw, 'n, 't, 'r, 'w, 'm, 'h, 'r option) library_prog" where
  "async_has_db le u =
     library_response le (\<lambda>r fe. factory_has_db fe u (Library_callback (Has_db_done r u)))"

definition async_create_db ::
  "('sw, 'n, 't, 'r, 'w, 'm, 'h) library_env \<Rightarrow> uuid \<Rightarrow> u64 \<Rightarrow> bool
     \<Rightarrow> ('sw, 'n, 't, 'r, 'w, 'm, 'h, 'r option) library_prog" where
  "async_create_db le u max_size random_evict =
     library_response le (\<lambda>r fe. factory_create_db fe u max_size random_evict (Create_db_done r u))"

definition async_open_db ::
  "('sw, 'n, 't, 'r, 'w, 'm, 'h) library_env \<Rightarrow> uuid \<Rightarrow> ('sw, 'n, 't, 'r, 'w, 'm, 'h, 'r option) library_prog" where
  "async_open_db le u =
     library_response le (\<lambda>r fe. factory_has_db fe u (Library_callback (Open_db_done r u)))"

section \<open>Synchronous calls\<close>

text \<open>
  \<open>wait\<close> is what the io thread does while the caller is blocked in \<open>get_result\<close>; a result \<open>None\<close>
  after it is a call that does not return.  \<open>finish\<close> makes the value returned from the response
  and \<open>json["result"].asInt()\<close>.
\<close>

definition sync_call ::
  "('sw, 'n, 't, 'r, 'w, 'm, 'h) library_env \<Rightarrow> ('r \<Rightarrow> ('sw, 'n, 't, 'r, 'w, 'm, 'h, unit) library_prog)
     \<Rightarrow> ('sw, 'n, 't, 'r, 'w, 'm, 'h, 'r option) library_prog
     \<Rightarrow> ('r \<Rightarrow> int \<Rightarrow> ('m, 'a) prog) \<Rightarrow> 'a \<Rightarrow> ('sw, 'n, 't, 'r, 'w, 'm, 'h, 'a option) library_prog" where
  "sync_call le wait start finish failed =
     catch_all (sbind (at_globals (gets lg_initialized)) (\<lambda>initialized.
       if \<not> initialized then ret (Some failed)
       else sbind start (\<lambda>resp. case resp of
         None \<Rightarrow> raise Undefined
       | Some r \<Rightarrow> andthen (wait r) (sbind (at_responses (le_get_result le r)) (\<lambda>result. case result of
           None \<Rightarrow> ret None
         | Some t \<Rightarrow>
             sbind (lift_cxx (case js_parse (le_json le) t of
                None \<Rightarrow> Inl (Throws ''Json::Exception'') | Some j \<Rightarrow> Inr j)) (\<lambda>j.
             sbind (at_responses (le_get_error le r)) (\<lambda>e.
             andthen (at_globals (modify (\<lambda>g. g\<lparr>lg_error_val := e\<rparr>)))
             (sbind (lift_cxx (member_string (le_json le) j ''error'')) (\<lambda>m.
             andthen (at_globals (modify (\<lambda>g. g\<lparr>lg_error_str := m\<rparr>)))
             (sbind (lift_cxx (cbind (js_member (le_json le) j ''result'') (js_as_int (le_json le)))) (\<lambda>n.
              sbind (at_responses (finish r n)) (\<lambda>a. ret (Some a)))))))))))))
     (ret (Some failed))"

definition has_db ::
  "('sw, 'n, 't, 'r, 'w, 'm, 'h) library_env \<Rightarrow> ('r \<Rightarrow> ('sw, 'n, 't, 'r, 'w, 'm, 'h, unit) library_prog)
     \<Rightarrow> uuid \<Rightarrow> ('sw, 'n, 't, 'r, 'w, 'm, 'h, bool option) library_prog" where
  "has_db le wait u = sync_call le wait (async_has_db le u) (\<lambda>r n. ret (n \<noteq> 0)) False"

text \<open>A \<open>database_impl\<close> around the database of the response, or \<open>nullptr\<close>.\<close>

definition wrap_database :: "('sw, 'n, 't, 'r, 'w, 'm, 'h) library_env \<Rightarrow> 'r \<Rightarrow> int \<Rightarrow> ('m, nat option option) prog" where
  "wrap_database le r n = (if n \<noteq> 0 then sbind (le_get_db le r) (\<lambda>db. ret (Some db)) else ret None)"

definition create_db ::
  "('sw, 'n, 't, 'r, 'w, 'm, 'h) library_env \<Rightarrow> ('r \<Rightarrow> ('sw, 'n, 't, 'r, 'w, 'm, 'h, unit) library_prog)
     \<Rightarrow> uuid \<Rightarrow> u64 \<Rightarrow> bool \<Rightarrow> ('sw, 'n, 't, 'r, 'w, 'm, 'h, nat option option option) library_prog" where
  "create_db le wait u max_size random_evict =
     sync_call le wait (async_create_db le u max_size random_evict) (wrap_database le) None"

definition open_db ::
  "('sw, 'n, 't, 'r, 'w, 'm, 'h) library_env \<Rightarrow> ('r \<Rightarrow> ('sw, 'n, 't, 'r, 'w, 'm, 'h, unit) library_prog)
     \<Rightarrow> uuid \<Rightarrow> ('sw, 'n, 't, 'r, 'w, 'm, 'h, nat option option option) library_prog" where
  "open_db le wait u = sync_call le wait (async_open_db le u) (wrap_database le) None"

end
