(* ===== verification/Library_Behaviour.thy ===== *)
theory Library_Behaviour
  imports Client_Library Factory_Answers
begin

text \<open>
  How the library behaves: initialization and its failures, endpoints, and what the callbacks of
  \<open>has_db\<close>, \<open>create_db\<close> and \<open>open_db\<close> do to the response of the caller.
\<close>

section \<open>Running on the parts of the state\<close>

lemma at_parts [simp]:
  "at_globals m (d, (n, (f, g))) = (case m g of (x, g') \<Rightarrow> (x, (d, (n, (f, g')))))"
  "at_factory mf (d, (n, (f, g))) = (case mf f of (x, f') \<Rightarrow> (x, (d, (n, (f', g)))))"
  "at_world mn (d, (n, (f, g))) = (case mn n of (x, n') \<Rightarrow> (x, (d, (n', (f, g)))))"
  "at_store ms (H, (w, st)) = (case ms st of (x, st') \<Rightarrow> (x, (H, (w, st'))))"
  by (auto simp: at_globals_def at_factory_def at_world_def at_store_def split: prod.splits)

lemma at_responses_apply [simp]:
  "at_responses m (d, ((H, (w, (dbs, q))), (f, g))) = (case m q of (x, q') \<Rightarrow> (x, (d, ((H, (w, (dbs, q'))), (f, g)))))"
  by (auto simp: at_responses_def split: prod.splits)

section \<open>Endpoints\<close>

lemma find_char_Some: "find_char c s = Some i \<longleftrightarrow> (\<exists>t. s = take i s @ c # t \<and> c \<notin> set (take i s) \<and> i < length s)"
proof (induction s arbitrary: i)
  case (Cons d s)
  show ?case
  proof (cases i)
    case (Suc j)
    have "find_char c (d # s) = Some i \<longleftrightarrow> c \<noteq> d \<and> find_char c s = Some j" using Suc by auto
    then show ?thesis using Cons.IH [of j] Suc by auto
  qed auto
qed simp

lemma find_char_None: "find_char c s = None \<longleftrightarrow> c \<notin> set s"
  by (induction s) auto

text \<open>The shape of an endpoint that is accepted.\<close>

definition endpoint_of :: "(string \<Rightarrow> u16 option) \<Rightarrow> string \<Rightarrow> string \<Rightarrow> u16 \<Rightarrow> bool" where
  "endpoint_of cast endpoint host port \<longleftrightarrow>
     (\<exists>t. endpoint = ''ws://'' @ host @ CHR '':'' # t \<and> CHR '':'' \<notin> set host \<and> cast (c_str t) = Some port)"

lemma find_from_endpoint:
  assumes "CHR '':'' \<notin> set host"
  shows "find_from CHR '':'' 5 (''ws://'' @ host @ CHR '':'' # t) = Some (5 + length host)"
proof -
  have "find_char CHR '':'' (host @ CHR '':'' # t) = Some (length host)"
    using assms by (subst find_char_Some) auto
  then show ?thesis by (simp add: find_from_def)
qed

lemma parse_endpoint_accepts:
  assumes "endpoint_of (le_port le) endpoint host port"
  shows "parse_endpoint le endpoint g = (Inr (host, port), g)"
proof -
  obtain t where t: "endpoint = ''ws://'' @ host @ CHR '':'' # t" "CHR '':'' \<notin> set host" "le_port le (c_str t) = Some port"
    using assms by (auto simp: endpoint_of_def)
  have cut: "take 5 endpoint = ''ws://''" "drop 5 endpoint = host @ CHR '':'' # t"
    using t(1) by (simp_all add: eval_nat_numeral)
  have "drop (Suc (5 + length host)) endpoint = drop (Suc (length host)) (drop 5 endpoint)" by simp
  then have "drop (5 + length host + 1) endpoint = t" unfolding cut by simp
  moreover have "find_from CHR '':'' 5 endpoint = Some (5 + length host)"
    unfolding t(1) by (rule find_from_endpoint [OF t(2)])
  ultimately show ?thesis
    using t(3) by (simp add: parse_endpoint_def cut del: drop_drop)
qed

lemma parse_endpoint_rejects:
  assumes "\<nexists>host port. endpoint_of (le_port le) endpoint host port"
  shows "parse_endpoint le endpoint g = (Inl (Throws (''bad node endpoint: '' @ endpoint)),
    g\<lparr>lg_error_str := ''Bad Endpoint'', lg_error_val := -1\<rparr>)"
proof -
  have bad: "do_bad_endpoint endpoint g = (Inl (Throws (''bad node endpoint: '' @ endpoint)),
    g\<lparr>lg_error_str := ''Bad Endpoint'', lg_error_val := -1\<rparr>)"
    by (simp add: do_bad_endpoint_def)
  show ?thesis
  proof (cases "find_from CHR '':'' 5 endpoint")
    case (Some offset)
    then obtain i where i: "offset = 5 + i" "find_char CHR '':'' (drop 5 endpoint) = Some i"
      by (auto simp: find_from_def)
    show ?thesis
    proof (cases "take 5 endpoint = ''ws://''")
      case True
      obtain t where t: "drop 5 endpoint = take i (drop 5 endpoint) @ CHR '':'' # t"
        "CHR '':'' \<notin> set (take i (drop 5 endpoint))" "i < length (drop 5 endpoint)"
        using i(2) find_char_Some by blast
      have "drop (Suc i) (drop 5 endpoint) = t"
        using t(1,3) by (metis (no_types, lifting) Cons_nth_drop_Suc append_take_drop_id list.inject same_append_eq)
      then have port: "drop (offset + 1) endpoint = t" by (simp add: i(1) add.commute)
      have "endpoint = ''ws://'' @ take i (drop 5 endpoint) @ CHR '':'' # t"
        using True t(1) by (metis append_take_drop_id)
      then have "endpoint_of (le_port le) endpoint (take i (drop 5 endpoint)) p" if "le_port le (c_str t) = Some p" for p
        unfolding endpoint_of_def using t(2) that by blast
      then have "le_port le (c_str t) = None" using assms by (cases "le_port le (c_str t)") blast+
      then show ?thesis using Some True port bad by (simp add: parse_endpoint_def)
    qed (use Some bad in \<open>simp add: parse_endpoint_def\<close>)
  qed (use bad in \<open>simp add: parse_endpoint_def\<close>)
qed

text \<open>An endpoint is accepted exactly when it is \<open>ws://host:port\<close> with no further colon in the host
  and a port that converts; then host and port are returned, and otherwise the call throws and
  leaves the error ``Bad Endpoint''.\<close>

theorem parse_endpoint_exact:
  "(parse_endpoint le endpoint g = (Inr (host, port), g) \<longleftrightarrow> endpoint_of (le_port le) endpoint host port)
    \<and> (parse_endpoint le endpoint g = (Inl (Throws (''bad node endpoint: '' @ endpoint)),
         g\<lparr>lg_error_str := ''Bad Endpoint'', lg_error_val := -1\<rparr>)
       \<longleftrightarrow> (\<nexists>host port. endpoint_of (le_port le) endpoint host port))"
proof (cases "\<exists>host port. endpoint_of (le_port le) endpoint host port")
  case True
  then obtain h p where hp: "endpoint_of (le_port le) endpoint h p" by blast
  then have "endpoint_of (le_port le) endpoint host port" if "(h, p) = (host, port)" using that by simp
  then show ?thesis using parse_endpoint_accepts [of le endpoint, where g = g] hp by fastforce
next
  case False
  then show ?thesis using parse_endpoint_rejects [OF False, of g] by auto
qed

section \<open>Initialization\<close>

lemma common_init_run:
  assumes "lg_io_thread g \<noteq> Io_running"
  shows "common_init le pub priv (d, (n, (f, g))) = (Inr (), (new_dispatch, (n, (new_factory pub, g\<lparr>lg_log := add_sink (lg_log g),
      lg_io_thread := Io_running, lg_crypto := Some (new_crypto (le_ossl le) priv), lg_has_factory := True,
      lg_error_val := 0, lg_error_str := []\<rparr>))))"
  using assms by (simp add: common_init_def on_log_def init_logging_def start_io_def andthen_apply)

lemma common_init_aborts:
  "lg_io_thread g = Io_running \<Longrightarrow>
     common_init le pub priv (d, (n, (f, g))) = (Inl Assert_fails, (d, (n, (f, g\<lparr>lg_log := add_sink (lg_log g)\<rparr>))))"
  by (simp add: common_init_def on_log_def init_logging_def start_io_def andthen_apply)

text \<open>Programs of the factory that leave the globals alone.\<close>

lemma keeps_at:
  "keeps (\<lambda>(d, (n, (f, g))). g = g0) (at_factory m)" "keeps (\<lambda>(d, (n, (f, g))). g = g0) (at_world mn)"
  by (auto simp: keeps_def at_factory_def at_world_def on_snd_def on_fst_def split: prod.splits)

lemma keeps_add_peers: "keeps (\<lambda>(d, (n, (f, g))). g = g0) (add_peers fe addr url sid ns reg)"
  by (induction ns arbitrary: reg) (auto intro!: keeps_intros keeps_at)

lemma keeps_add_swarms: "keeps (\<lambda>(d, (n, (f, g))). g = g0) (add_swarms fe addr url sids reg)"
  by (induction sids arbitrary: reg) (auto intro!: keeps_intros keeps_at keeps_add_peers)

lemma keeps_initialize_esr: "keeps (\<lambda>(d, (n, (f, g))). g = g0) (initialize_esr fe addr url)"
  unfolding initialize_esr_def update_swarm_registry_def
  by (intro keeps_intros keeps_at keeps_add_swarms)

text \<open>
  C30. The initialization for a local swarm: when neither the library is initialized nor an io thread
  is running, it succeeds exactly if the endpoint is well formed, whatever the keys are; then the
  registry holds the one node and no error is set.  Otherwise it returns false with the error of a bad
  endpoint set and the io thread joined, so that it can be tried again.  The private key is not checked:
  one that OpenSSL cannot read leaves a \<open>crypto\<close> object without a key behind.
\<close>

theorem initialize_local_answers:
  assumes "\<not> lg_initialized g" "lg_io_thread g \<noteq> Io_running"
  shows "initialize_local le pub priv endpoint nid sid (d, (n, (f, g))) =
    (case fst (parse_endpoint le endpoint g) of
       Inl e \<Rightarrow> (Inr False, (new_dispatch, (n, (new_factory pub, g\<lparr>lg_log := add_sink (lg_log g), lg_io_thread := Io_joined,
         lg_crypto := Some (real_crypto (le_ossl le) (load_private_key (le_ossl le) priv)), lg_has_factory := True,
         lg_error_val := -1, lg_error_str := ''Bad Endpoint''\<rparr>))))
     | Inr (h, p) \<Rightarrow> (Inr True, (new_dispatch, (n, ((new_factory pub)\<lparr>fa_initialized := True,
         fa_swarm_reg := Some [(sid, \<lparr>si_nodes = [(nid, \<lparr>pa_host = h, pa_port = p, pa_http_port = 0,
           pa_name = [], pa_uuid = []\<rparr>)], si_swarm = None\<rparr>)]\<rparr>,
         g\<lparr>lg_log := add_sink (lg_log g), lg_io_thread := Io_running, lg_initialized := True,
           lg_crypto := Some (real_crypto (le_ossl le) (load_private_key (le_ossl le) priv)), lg_has_factory := True,
           lg_error_val := 0, lg_error_str := []\<rparr>)))))
    \<and> ((\<exists>ep. fst (parse_endpoint le endpoint g) = Inr ep) \<longleftrightarrow> (\<exists>h p. endpoint_of (le_port le) endpoint h p))"
proof (cases "\<exists>h p. endpoint_of (le_port le) endpoint h p")
  case True
  then obtain h p where hp: "endpoint_of (le_port le) endpoint h p" by blast
  show ?thesis using assms(1) True
    by (simp add: initialize_local_def catch_all_def andthen_apply sbind_apply common_init_run [OF assms(2)] new_crypto_def
        parse_endpoint_accepts [OF hp] initialize_nodes_def reg_add_node_def om_emplace_def empty_swarm_info_def
        new_factory_def)
next
  case False
  show ?thesis using assms(1) False
    by (simp add: initialize_local_def catch_all_def andthen_apply sbind_apply common_init_run [OF assms(2)] new_crypto_def
        parse_endpoint_rejects [OF False] stop_io_def)
qed

text \<open>
  With a private key that OpenSSL cannot read, and if it signs nothing without one, no message is ever
  signed, although the initialization has succeeded.
\<close>

lemma bad_key_signs_nothing:
  assumes "ossl_read_privkey ossl (PRIV_KEY_PREFIX @ key @ PRIV_KEY_SUFFIX) = None" "\<And>t. ossl_sign ossl None t = None"
    and "co_sign (new_crypto ossl key) m = Inr (ok, m')"
  shows "\<not> ok \<and> m' = m"
  using assms by (auto simp: new_crypto_def real_crypto_def load_private_key_def crypto_sign_def elim!: cbind_InrE)

text \<open>Attempts to initialize the library for a local swarm, one after the other.\<close>

definition local_attempts ::
  "('sw, 'n, 't, 'r, 'w, 'm, 'h) library_env \<Rightarrow> (string \<times> string \<times> string \<times> node_id \<times> swarm_id) list
     \<Rightarrow> ('sw, 'n, 't, 'r, 'w, 'm, 'h, unit) library_prog" where
  "local_attempts le attempts = for_each attempts (\<lambda>(pub, priv, endpoint, nid, sid).
     sbind (initialize_local le pub priv endpoint nid sid) (\<lambda>_. ret ()))"

definition local_attempt_fails ::
  "('sw, 'n, 't, 'r, 'w, 'm, 'h) library_env \<Rightarrow> string \<times> string \<times> string \<times> node_id \<times> swarm_id \<Rightarrow> bool" where
  "local_attempt_fails le = (\<lambda>(pub, priv, endpoint, nid, sid). \<not> (\<exists>host port. endpoint_of (le_port le) endpoint host port))"

lemma local_attempt_failed:
  assumes "local_attempt_fails le (pub, priv, endpoint, nid, sid)" "\<not> lg_initialized g" "lg_io_thread g \<noteq> Io_running"
  obtains d' f' g' where "initialize_local le pub priv endpoint nid sid (d, (n, (f, g))) = (Inr False, (d', (n, (f', g'))))"
    "\<not> lg_initialized g'" "lg_io_thread g' \<noteq> Io_running" "lg_log g' = add_sink (lg_log g)"
proof -
  have "\<nexists>host port. endpoint_of (le_port le) endpoint host port" using assms(1) by (simp add: local_attempt_fails_def)
  note parse = parse_endpoint_rejects [OF this]
  from assms(2,3) have run: "initialize_local le pub priv endpoint nid sid (d, (n, (f, g))) =
      (Inr False, (new_dispatch, (n, (new_factory pub, g\<lparr>lg_log := add_sink (lg_log g), lg_io_thread := Io_joined,
        lg_crypto := Some (new_crypto (le_ossl le) priv), lg_has_factory := True, lg_error_val := -1,
        lg_error_str := ''Bad Endpoint''\<rparr>))))"
    by (simp add: initialize_local_def catch_all_def andthen_apply sbind_apply common_init_run parse stop_io_def)
  show thesis using assms(2) by (intro that [OF run]) simp_all
qed

lemma local_attempts_failed:
  assumes "\<forall>a \<in> set attempts. local_attempt_fails le a" "\<not> lg_initialized g" "lg_io_thread g \<noteq> Io_running"
  shows "\<exists>d' f' g'. local_attempts le attempts (d, (n, (f, g))) = (Inr (), (d', (n, (f', g')))) \<and> \<not> lg_initialized g'
    \<and> length (lo_sinks (lg_log g')) = length (lo_sinks (lg_log g)) + length attempts
    \<and> lo_logger (lg_log g') = lo_logger (lg_log g)"
  using assms
proof (induction attempts arbitrary: d f g)
  case Nil
  then show ?case by (simp add: local_attempts_def)
next
  case (Cons a attempts)
  obtain pub priv endpoint nid sid where a: "a = (pub, priv, endpoint, nid, sid)" by (cases a) auto
  have "local_attempt_fails le (pub, priv, endpoint, nid, sid)" using Cons.prems(1) a by simp
  from this Cons.prems(2,3) obtain d1 f1 g1 where step:
      "initialize_local le pub priv endpoint nid sid (d, (n, (f, g))) = (Inr False, (d1, (n, (f1, g1))))"
    "\<not> lg_initialized g1" "lg_io_thread g1 \<noteq> Io_running" "lg_log g1 = add_sink (lg_log g)"
    by (rule local_attempt_failed)
  have "\<forall>a \<in> set attempts. local_attempt_fails le a" using Cons.prems(1) by simp
  from Cons.IH [OF this step(2,3), of d1 f1] show ?case
    using a step(1,4) by (auto simp: local_attempts_def andthen_apply sbind_apply add_sink_def)
qed

text \<open>
  C38. A failed initialization for a local swarm leaves its log sink behind: after any number of
  attempts with a bad endpoint, started without an io thread, which return false, \<open>terminate\<close> does
  nothing, because the library is not initialized, and every record that is logged reaches the logger
  of the client once more for each attempt.
\<close>

theorem failed_initialization_keeps_its_sink:
  assumes "\<forall>a \<in> set attempts. local_attempt_fails le a" "\<not> lg_initialized g" "lg_io_thread g \<noteq> Io_running"
    and "attempts \<noteq> []" "lo_logger (lg_log g) = Some k" "feeds_sinks ve"
    and "\<And>w. \<exists>w'. ve_log ve k (severity_text sev) msg w = (Inr (), w')"
  shows "\<exists>d' f' g'. local_attempts le attempts (d, (n, (f, g))) = (Inr (), (d', (n, (f', g')))) \<and> \<not> lg_initialized g'
    \<and> terminate (d', (n, (f', g'))) = (Inr (), (d', (n, (f', g'))))
    \<and> push_record ve sev msg (lg_log g', w) =
        (case calls_of ve k sev msg (length (lo_sinks (lg_log g)) + length attempts) w of (x, w') \<Rightarrow> (x, (lg_log g', w')))"
proof -
  obtain d' f' g' where run: "local_attempts le attempts (d, (n, (f, g))) = (Inr (), (d', (n, (f', g'))))"
    "\<not> lg_initialized g'" "length (lo_sinks (lg_log g')) = length (lo_sinks (lg_log g)) + length attempts"
    "lo_logger (lg_log g') = Some k"
    using local_attempts_failed [OF assms(1-3)] assms(5) by metis
  have "lo_sinks (lg_log g') \<noteq> []" using run(3) assms(4) by (cases attempts) auto
  from push_record_calls [OF assms(6) run(4) this assms(7)] run(3)
  have "push_record ve sev msg (lg_log g', w) =
    (case calls_of ve k sev msg (length (lo_sinks (lg_log g)) + length attempts) w of (x, w') \<Rightarrow> (x, (lg_log g', w')))"
    by simp
  moreover have "terminate (d', (n, (f', g'))) = (Inr (), (d', (n, (f', g'))))"
    using run(2) by (simp add: terminate_def catch_all_def sbind_apply)
  ultimately show ?thesis using run(1,2) by blast
qed

lemma failed_contract_state:
  assumes "\<not> lg_initialized g" "initialize_contract le pub priv addr url (d, (n, (f, g))) = (Inr False, (d', (n', (f', g'))))"
  shows "\<not> lg_initialized g' \<and> lg_io_thread g' = Io_running \<and> lg_error_val g' = 0"
proof -
  have idle: "lg_io_thread g \<noteq> Io_running"
    using assms by (auto simp: initialize_contract_def common_init_aborts catch_all_def andthen_apply sbind_apply)
  let ?cr = "new_crypto (le_ossl le) priv"
  let ?g = "g\<lparr>lg_log := add_sink (lg_log g), lg_io_thread := Io_running, lg_crypto := Some ?cr, lg_has_factory := True,
    lg_error_val := 0, lg_error_str := []\<rparr>"
  let ?fe = "library_fe le ?cr (lg_api_timeout g)"
  obtain x d2 n2 f2 g2 where run: "initialize_esr ?fe addr url (new_dispatch, (n, (new_factory pub, ?g))) =
      (x, (d2, (n2, (f2, g2))))" by (metis prod.collapse)
  have "g2 = ?g" using keepsD [OF keeps_initialize_esr _ run, of ?g] by simp
  with run assms show ?thesis
    by (cases x) (auto simp: initialize_contract_def catch_all_def andthen_apply sbind_apply with_factory_def
        common_init_run [OF idle] split: cxx_fault.splits)
qed

text \<open>
  The initialization over the contract does not clean up: when it fails - the request to the contract
  or its answer threw - it returns false with the io thread still running and with no error set.  Every
  later initialization, of either kind, replaces the joinable thread object, and the process aborts.
\<close>

lemma failed_contract_initialization_aborts_next:
  assumes "\<not> lg_initialized g" "initialize_contract le pub priv addr url (d, (n, (f, g))) = (Inr False, (d', (n', (f', g'))))"
  shows "\<not> lg_initialized g' \<and> lg_io_thread g' = Io_running \<and> lg_error_val g' = 0
    \<and> initialize_contract le pub2 priv2 addr2 url2 (d', (n', (f', g'))) =
        (Inl Assert_fails, (d', (n', (f', g'\<lparr>lg_log := add_sink (lg_log g')\<rparr>))))
    \<and> initialize_local le pub2 priv2 endpoint nid sid (d', (n', (f', g'))) =
        (Inl Assert_fails, (d', (n', (f', g'\<lparr>lg_log := add_sink (lg_log g')\<rparr>))))"
  using failed_contract_state [OF assms]
  by (simp add: initialize_contract_def initialize_local_def catch_all_def andthen_apply sbind_apply common_init_aborts)

section \<open>Opening a database\<close>

text \<open>A library over UDP responses.\<close>

definition udp_library ::
  "('sw, 'n, 't, nat, 'w, nat response_heap, 'h) library_env \<Rightarrow> (json \<Rightarrow> string) \<Rightarrow> (error_code \<Rightarrow> string) \<Rightarrow> bool" where
  "udp_library le styled message \<longleftrightarrow> (\<exists>sys. le_api le = udp_api styled message sys)"

text \<open>
  C32. Only one database of a swarm can be opened: once a swarm object was initialized for a database,
  every later \<open>create_db\<close> and \<open>open_db\<close> that finds or creates its database there fails.  Its response
  completes at once with the text of \<open>operation_in_progress\<close> and a connection error, and without a
  database.
\<close>

theorem second_open_fails:
  assumes "udp_library le styled message" "H sw = Some s" "sw_init_called s" "sw_initial_nodes s = []"
    and "pending q r" "cb \<in> {Create_db_done r u, Open_db_done r u}"
  shows "\<exists>q'. run_library_callback le cr cb Success (Some sw) (d, ((H, (w, (dbs, q))), (f, g))) =
      (Inr (), (d, ((H, (w, (dbs @ [\<lparr>ad_swarm = sw, ad_uuid = u, ad_state = Initializing\<rparr>], q'))), (f, g))))
    \<and> outcome q' r = Some (styled (error_json (message Operation_in_progress)), db_error_int Connection_error)
    \<and> database_of q' r = database_of q r"
proof -
  obtain sys where api: "le_api le = udp_api styled message sys" using assms(1) by (auto simp: udp_library_def)
  obtain q' where q': "complete udp_ops r (styled (error_json (message Operation_in_progress)))
      (db_error_int Connection_error) q = (Inr (), q')"
    "outcome q' = (outcome q)(r := Some (styled (error_json (message Operation_in_progress)), db_error_int Connection_error))"
    "database_of q' = database_of q"
    using udp.complete_run [OF assms(5)] by blast
  have "database_open le cr (length dbs) client (H, (w, (dbs @ [new_async_database sw u], q))) =
      (Inr (), (H, (w, (dbs @ [\<lparr>ad_swarm = sw, ad_uuid = u, ad_state = Initializing\<rparr>], q'))))"
    if "open_client_response client = r" for client
    using that assms(2-4) q'(1)
    by (simp add: database_open_def sbind_apply andthen_apply the_database_def set_init_state_def
        new_async_database_def on_swarm_def Swarm.initialize_def init_nodes_def api run_open_client_def Let_def
        fun_upd_idem)
  then show ?thesis
    using assms(6) q'(2,3)
    by (auto simp: sbind_apply make_database_def open_client_response_def)
qed

section \<open>The answer of \<open>has_db\<close>\<close>

lemma reply_again:
  assumes "outcome q r = Some (t, e)" "ra_responses ra = udp_ops"
  shows "\<exists>q'. reply_with ra r v q = (Inl (Throws ''promise_already_satisfied''), q')
    \<and> outcome q' r = Some (ra_styled ra v, e)"
proof -
  have r: "r < length q" "prom (q ! r) = Some e" using assms(1) by (auto simp: outcome_def split: if_splits)
  then show ?thesis using assms(2)
    by (simp add: reply_with_def udp_ops_def on_response_def set_result_def mr_set_ready_def set_error_def
        set_value_def andthen_apply sbind_apply outcome_def)
qed

text \<open>
  A late denial overwrites the answer of \<open>has_db\<close>: when of two swarms the first has the database
  and the second does not, the response completes with \<open>result\<close> 1; the second reply then replaces
  its text by one with \<open>result\<close> 0 before the promise, which is already set, makes it throw.  A caller
  that reads the result only then is told that the database does not exist.
\<close>

lemma late_denial_overwrites_answer:
  assumes "udp_library le styled message" "k < length (fa_counters f)" "fa_counters f ! k = 2"
    and "pending q r" "err \<noteq> Success"
  shows "\<exists>f1 q1 f2 q2.
    factory_reply (library_fe le cr t) (Found_in u sid1 k (Library_callback (Has_db_done r u)) sw1) Success
        (d, ((H, (w, (dbs, q))), (f, g))) = (Inr (), (d, ((H, (w, (dbs, q1))), (f1, g))))
    \<and> outcome q1 r = Some (styled (result_json 1 u), 0)
    \<and> factory_reply (library_fe le cr t) (Found_in u sid2 k (Library_callback (Has_db_done r u)) sw2) err
        (d, ((H, (w, (dbs, q1))), (f1, g))) =
        (Inl (Throws ''promise_already_satisfied''), (d, ((H, (w, (dbs, q2))), (f2, g))))
    \<and> outcome q2 r = Some (styled (result_json 0 u), 0)"
proof -
  obtain sys where api: "le_api le = udp_api styled message sys" using assms(1) by (auto simp: udp_library_def)
  let ?f1 = "(remember_db u sid1 f)\<lparr>fa_counters := (fa_counters f)[k := 1]\<rparr>"
  obtain q1 where q1: "reply_with (le_api le) r (result_json 1 u) q = (Inr (), q1)"
    "outcome q1 r = Some (styled (result_json 1 u), 0)"
    using udp.complete_run [OF assms(4), of "styled (result_json 1 u)" 0] by (auto simp: reply_with_complete api)
  obtain q2 where q2: "reply_with (le_api le) r (result_json 0 u) q1 = (Inl (Throws ''promise_already_satisfied''), q2)"
    "outcome q2 r = Some (styled (result_json 0 u), 0)"
    using reply_again [OF q1(2), of "le_api le"] by (auto simp: api)
  have "factory_reply (library_fe le cr t) (Found_in u sid1 k (Library_callback (Has_db_done r u)) sw1) Success
        (d, ((H, (w, (dbs, q))), (f, g))) = (Inr (), (d, ((H, (w, (dbs, q1))), (?f1, g))))"
    using assms(2,3) q1(1)
    by (simp add: count_down_def Let_def sbind_apply andthen_apply remember_db_def library_fe_def)
  moreover have "\<exists>f2. factory_reply (library_fe le cr t) (Found_in u sid2 k (Library_callback (Has_db_done r u)) sw2) err
        (d, ((H, (w, (dbs, q1))), (?f1, g))) =
        (Inl (Throws ''promise_already_satisfied''), (d, ((H, (w, (dbs, q2))), (f2, g))))"
    using assms(2,5) q2(1)
    by (simp add: count_down_def Let_def sbind_apply andthen_apply remember_db_def library_fe_def)
  ultimately show ?thesis using q1(2) q2(2) by blast
qed

section \<open>A sample library\<close>

text \<open>
  OpenSSL reads the private key ``key'' only, and signs and verifies with it by repeating the text;
  every port converts to 80; the world of nodes is the sample platform.  The contract has no answer.
\<close>

definition key_ossl :: "(nat, nat) openssl" where
  "key_ossl = \<lparr>ossl_alloc = True, ossl_bio_write = (\<lambda>s. int (length s)), ossl_read_pubkey = (\<lambda>_. Some 1),
     ossl_verify = (\<lambda>_ t s. s = t),
     ossl_read_privkey = (\<lambda>t. if t = PRIV_KEY_PREFIX @ ''key'' @ PRIV_KEY_SUFFIX then Some 2 else None),
     ossl_sign = (\<lambda>k t. if k = None then None else Some t)\<rparr>"

definition sample_library ::
  "(nat, nat, nat, nat, nat, nat response_heap, (nat, nat library_callback) factory_closure uuid_handler) library_env" where
  "sample_library = \<lparr>le_codec = sample_cd, le_json = values_json (\<lambda>t. None) (\<lambda>j. ''json''),
     le_ossl = key_ossl,
     le_platform = sample_pf,
     le_esr = \<lparr>ee_http = (\<lambda>url req. raise (Throws ''no route'')), ee_write = (\<lambda>j. ''json''),
       ee_parse = (\<lambda>t. None), ee_result = (\<lambda>j. Inr [])\<rparr>,
     le_api = udp_api (\<lambda>j. if j = ok_json then ''ok'' else ''json'') (\<lambda>ec. ''message'') (3, 0, Some 4000),
     le_get_result = (\<lambda>r. on_response r get_result), le_get_error = (\<lambda>r. on_response r get_error),
     le_get_db = (\<lambda>r. on_response r get_db), le_fresh = (\<lambda>H. 7), le_lock = (\<lambda>sw. ret False),
     le_port = (\<lambda>t. Some 80), le_closure = id\<rparr>"

lemma sample_library_sel [simp]:
  "le_ossl sample_library = key_ossl"
  "le_port sample_library t = Some 80"
  by (simp_all add: sample_library_def)

lemma sample_udp_library:
  "udp_library sample_library (\<lambda>j. if j = ok_json then ''ok'' else ''json'') (\<lambda>ec. ''message'')"
  by (auto simp: udp_library_def sample_library_def)

type_synonym sample_network = "(nat, nat, nat, nat, nat, nat response_heap) network"

definition sample_network :: sample_network where
  "sample_network = (\<lambda>sw. if sw = 0 then Some ((new_swarm ''s'' ''me'' [])\<lparr>sw_init_called := True\<rparr>) else None,
     (7, ([], sample_responses)))"

lemma initialize_local_answers_witness:
  "\<exists>f' g'. initialize_local sample_library ''me'' ''bad'' ''ws://h:80'' ''n'' ''s''
      (new_dispatch, (sample_network, (new_factory [], initial_globals))) =
        (Inr True, (new_dispatch, (sample_network, (f', g'))))
    \<and> fa_initialized f' \<and> lg_error_val g' = 0 \<and> lg_crypto g' = Some (real_crypto key_ossl None)
    \<and> initialize_local sample_library ''me'' ''key'' ''h:80'' ''n'' ''s''
      (new_dispatch, (sample_network, (new_factory [], initial_globals))) =
        (Inr False, (new_dispatch, (sample_network, (new_factory ''me'', initial_globals\<lparr>lg_log := add_sink no_logging, lg_io_thread := Io_joined,
           lg_crypto := Some (real_crypto key_ossl (Some 2)), lg_has_factory := True, lg_error_val := -1, lg_error_str := ''Bad Endpoint''\<rparr>))))"
proof -
  have "endpoint_of (le_port sample_library) ''ws://h:80'' ''h'' 80" by (simp add: endpoint_of_def)
  note good = parse_endpoint_accepts [OF this, of initial_globals]
  have "\<nexists>host port. endpoint_of (le_port sample_library) ''h:80'' host port" by (simp add: endpoint_of_def)
  note bad = parse_endpoint_rejects [OF this, of initial_globals]
  have g: "\<not> lg_initialized initial_globals" "lg_io_thread initial_globals \<noteq> Io_running"
    by (simp_all add: initial_globals_def)
  have keys: "load_private_key key_ossl ''key'' = Some 2" "load_private_key key_ossl ''bad'' = None"
    by (simp_all add: load_private_key_def key_ossl_def)
  have log: "lg_log initial_globals = no_logging" by (simp add: initial_globals_def)
  show ?thesis by (simp add: initialize_local_answers [OF g, THEN conjunct1] good bad log keys)
qed

text \<open>A logger that keeps the records.\<close>

definition sample_logger :: "(string \<times> string) list log_env" where
  "sample_logger = \<lparr>ve_log = (\<lambda>k sev msg. modify (\<lambda>ls. ls @ [(sev, msg)])), ve_print = (\<lambda>t. ret ()),
     ve_core = (\<lambda>sinks sink sev msg. for_each sinks sink)\<rparr>"

lemma failed_initialization_keeps_its_sink_witness:
  "\<exists>d' f' g'. local_attempts sample_library [(''me'', ''key'', ''h:80'', ''n'', ''s''), (''me'', ''key'', ''ws:h'', ''n'', ''s'')]
      (new_dispatch, (sample_network, (new_factory [], initial_globals\<lparr>lg_log := no_logging\<lparr>lo_logger := Some 3\<rparr>\<rparr>))) =
        (Inr (), (d', (sample_network, (f', g'))))
    \<and> push_record sample_logger Warning ''text'' (lg_log g', []) =
        (Inr (), (lg_log g', [(''warning'', ''text''), (''warning'', ''text'')]))"
proof -
  let ?g = "initial_globals\<lparr>lg_log := no_logging\<lparr>lo_logger := Some 3\<rparr>\<rparr>"
  let ?attempts = "[(''me'', ''key'', ''h:80'', ''n'', ''s''), (''me'', ''key'', ''ws:h'', ''n'', ''s'')]"
  have "\<nexists>host port. endpoint_of (le_port sample_library) t host port" if "t \<in> {''h:80'', ''ws:h''}" for t
    using that by (auto simp: endpoint_of_def)
  then have fails: "\<forall>a \<in> set ?attempts. local_attempt_fails sample_library a" by (simp add: local_attempt_fails_def)
  have g: "\<not> lg_initialized ?g" "lg_io_thread ?g \<noteq> Io_running" by (simp_all add: initial_globals_def)
  have log: "lo_logger (lg_log ?g) = Some 3" "lo_sinks (lg_log ?g) = []" by (simp_all add: no_logging_def)
  have feeds: "feeds_sinks sample_logger" by (simp add: feeds_sinks_def sample_logger_def)
  have quiet: "\<exists>w'. ve_log sample_logger 3 (severity_text Warning) ''text'' w = (Inr (), w')" for w
    by (simp add: sample_logger_def)
  have "calls_of sample_logger 3 Warning ''text'' 2 [] = (Inr (), [(''warning'', ''text''), (''warning'', ''text'')])"
    by (simp add: calls_of_def sample_logger_def numeral_2_eq_2)
  then show ?thesis
    using failed_initialization_keeps_its_sink [OF fails g _ log(1) feeds quiet, of new_dispatch sample_network "new_factory []" "[]"] log(2)
    by (simp add: numeral_2_eq_2, blast)
qed

lemma failed_contract_initialization_aborts_next_witness:
  "\<exists>f' g'. initialize_contract sample_library ''me'' ''key'' ''addr'' ''url''
      (new_dispatch, (sample_network, (new_factory [], initial_globals))) =
        (Inr False, (new_dispatch, (sample_network, (f', g')))) \<and> lg_error_val g' = 0
    \<and> fst (initialize_local sample_library ''me'' ''key'' ''ws://h:80'' ''n'' ''s''
      (new_dispatch, (sample_network, (f', g')))) = Inl Assert_fails"
proof -
  have g: "\<not> lg_initialized initial_globals" by (simp add: initial_globals_def)
  have io: "lg_io_thread initial_globals \<noteq> Io_running" by (simp add: initial_globals_def)
  obtain f' g' where run: "initialize_contract sample_library ''me'' ''key'' ''addr'' ''url''
      (new_dispatch, (sample_network, (new_factory [], initial_globals))) =
        (Inr False, (new_dispatch, (sample_network, (f', g'))))"
    using g by (simp add: initialize_contract_def sbind_apply andthen_apply catch_all_def common_init_run [OF io]
        with_factory_def initialize_esr_def update_swarm_registry_def library_fe_def get_swarm_ids_def esr_call_def
        sample_network_def new_factory_def, simp add: sample_library_def)
  from failed_contract_initialization_aborts_next [OF g run] run show ?thesis by simp
qed

lemma second_open_fails_witness:
  "\<exists>q'. run_library_callback sample_library null_crypto (Open_db_done 0 ''u'') Success (Some 0)
      (new_dispatch, (sample_network, (sample_factory, initial_globals))) =
      (Inr (), (new_dispatch, ((fst sample_network, (7, ([\<lparr>ad_swarm = 0, ad_uuid = ''u'', ad_state = Initializing\<rparr>], q'))),
        (sample_factory, initial_globals))))
    \<and> outcome q' 0 = Some (''json'', 2) \<and> database_of q' 0 = None"
proof -
  have H: "fst sample_network 0 = Some ((new_swarm ''s'' ''me'' [])\<lparr>sw_init_called := True\<rparr>)"
    by (simp add: sample_network_def)
  have net: "sample_network = (fst sample_network, (7, ([], sample_responses)))"
    by (simp add: sample_network_def)
  have "database_of sample_responses 0 = None" by (simp add: database_of_def sample_responses_def)
  moreover have "error_json ''message'' \<noteq> ok_json" by (simp add: error_json_def ok_json_def)
  ultimately show ?thesis
    using second_open_fails [where H = "fst sample_network" and sw = 0 and q = sample_responses and r = 0
        and cb = "Open_db_done 0 ''u''" and u = "''u''" and cr = null_crypto and d = new_dispatch and w = 7
        and dbs = "[]" and f = sample_factory and g = initial_globals, OF sample_udp_library H]
    by (subst net) (simp add: new_swarm_def del: run_library_callback.simps)
qed

lemma late_denial_overwrites_answer_witness:
  "\<exists>f1 q1 f2 q2.
    factory_reply (library_fe sample_library null_crypto 30)
        (Found_in ''u'' ''s1'' 0 (Library_callback (Has_db_done 0 ''u'')) 7) Success
        (new_dispatch, (sample_network, (sample_factory, initial_globals))) =
        (Inr (), (new_dispatch, ((fst sample_network, (7, ([], q1))), (f1, initial_globals))))
    \<and> factory_reply (library_fe sample_library null_crypto 30)
        (Found_in ''u'' ''s2'' 0 (Library_callback (Has_db_done 0 ''u'')) 8) No_database
        (new_dispatch, ((fst sample_network, (7, ([], q1))), (f1, initial_globals))) =
        (Inl (Throws ''promise_already_satisfied''),
          (new_dispatch, ((fst sample_network, (7, ([], q2))), (f2, initial_globals))))
    \<and> outcome q2 0 = Some (''json'', 0)"
proof -
  have net: "sample_network = (fst sample_network, (7, ([], sample_responses)))"
    by (simp add: sample_network_def)
  have "result_json 0 ''u'' \<noteq> ok_json" by (simp add: result_json_def ok_json_def)
  then show ?thesis
    using late_denial_overwrites_answer [OF sample_udp_library, of 0 sample_factory sample_responses 0 No_database
        null_crypto 30 "''u''" "''s1''" 7 new_dispatch "fst sample_network" 7 "[]" initial_globals "''s2''" 8]
    by (subst net) (simp del: factory_reply.simps, blast)
qed

end
