(* ===== verification/Database_Calls.thy ===== *)
theory Database_Calls
  imports Client_Calls "HOL-Library.Countable"
begin

text \<open>
  The virtual functions of \<open>include/async_database.hpp\<close> as one type of calls, the synchronous
  wrappers of \<open>database/database_impl.cpp\<close> over them, and what a call sends.
\<close>

section \<open>The calls\<close>

datatype db_call =
    Call_create string string u64
  | Call_read string
  | Call_update string string
  | Call_remove string
  | Call_quick_read string
  | Call_has string
  | Call_keys
  | Call_size
  | Call_expire string u64
  | Call_persist string
  | Call_ttl string
  | Call_writers
  | Call_add_writer string
  | Call_remove_writer string

fun start_call ::
  "('s, 'sw, 'm, 'r, 'db, 'h) database_env \<Rightarrow> 'sw async_database \<Rightarrow> db_call
     \<Rightarrow> ('sw, 'h, 's, 'm, 'r option) client_prog" where
  "start_call de db (Call_create key val expiry) = async_create de db key val expiry"
| "start_call de db (Call_read key) = async_read de db key"
| "start_call de db (Call_update key val) = async_update de db key val"
| "start_call de db (Call_remove key) = async_remove de db key"
| "start_call de db (Call_quick_read key) = async_quick_read de db key"
| "start_call de db (Call_has key) = async_has de db key"
| "start_call de db Call_keys = async_keys de db"
| "start_call de db Call_size = async_size de db"
| "start_call de db (Call_expire key expiry) = async_expire de db key expiry"
| "start_call de db (Call_persist key) = async_persist de db key"
| "start_call de db (Call_ttl key) = async_ttl de db key"
| "start_call de db Call_writers = async_writers de db"
| "start_call de db (Call_add_writer writer) = async_add_writer de db writer"
| "start_call de db (Call_remove_writer writer) = async_remove_writer de db writer"

text \<open>
  \<open>db->op(...)->get_result()\<close>: a null response is dereferenced.  \<open>wait\<close> is what the io thread
  does while the caller is blocked; a result \<open>None\<close> after it is a call that does not return.
\<close>

definition database_call ::
  "('s, 'sw, 'm, 'r, 'db, 'h) database_env \<Rightarrow> ('r \<Rightarrow> ('m, string option) prog)
     \<Rightarrow> ('r \<Rightarrow> ('sw, 'h, 's, 'm, unit) client_prog) \<Rightarrow> 'sw async_database \<Rightarrow> db_call
     \<Rightarrow> ('sw, 'h, 's, 'm, string option) client_prog" where
  "database_call de result_of wait db c =
     sbind (start_call de db c) (\<lambda>r. case r of
         None \<Rightarrow> raise Undefined
       | Some resp \<Rightarrow> andthen (wait resp) (on_snd (on_snd (result_of resp))))"

section \<open>What a call sends\<close>

text \<open>The interface table: request, policy and closure of every call.\<close>

fun call_request :: "db_call \<Rightarrow> db_request" where
  "call_request (Call_create key val expiry) = Req_create key val expiry"
| "call_request (Call_read key) = Req_read key"
| "call_request (Call_update key val) = Req_update key val 0"
| "call_request (Call_remove key) = Req_delete key"
| "call_request (Call_quick_read key) = Req_quick_read key"
| "call_request (Call_has key) = Req_has key"
| "call_request Call_keys = Req_keys"
| "call_request Call_size = Req_size"
| "call_request (Call_expire key expiry) = Req_expire key expiry"
| "call_request (Call_persist key) = Req_persist key"
| "call_request (Call_ttl key) = Req_ttl key"
| "call_request Call_writers = Req_writers"
| "call_request (Call_add_writer writer) = Req_add_writers [writer]"
| "call_request (Call_remove_writer writer) = Req_remove_writers [writer]"

fun call_policy :: "db_call \<Rightarrow> send_policy" where
  "call_policy (Call_quick_read key) = Fastest"
| "call_policy c = Normal"

fun call_kind :: "db_call \<Rightarrow> reply_kind" where
  "call_kind (Call_read key) = Read_reply"
| "call_kind (Call_quick_read key) = Quick_read_reply"
| "call_kind (Call_has key) = Has_reply"
| "call_kind Call_keys = Keys_reply"
| "call_kind Call_size = Size_reply"
| "call_kind (Call_ttl key) = Ttl_reply"
| "call_kind Call_writers = Writers_reply"
| "call_kind c = Basic_reply"

lemmas async_defs = async_create_def async_read_def async_update_def async_remove_def
  async_quick_read_def async_has_def async_keys_def async_size_def async_expire_def
  async_persist_def async_ttl_def async_writers_def async_add_writer_def async_remove_writer_def

lemma start_call_eq:
  "start_call de db c = with_response de (\<lambda>resp.
     send_with de db (call_request c) (call_policy c) (Reply resp (call_kind c)))"
  by (cases c) (simp_all add: async_defs send_message_with_basic_response_def [abs_def])

lemma with_response_cases:
  assumes "with_response de body (d, (w, m)) = (Inr (Some resp), (d', (w', m')))"
  obtains m1 where "ra_make (de_api de) m = (Inr resp, m1)"
    "body resp (d, (w, m1)) = (Inr (), (d', (w', m')))"
  using assms unfolding with_response_def catch_all_def
  by (auto simp: on_snd_def split: prod.splits sum.splits cxx_fault.splits elim!: sbind_cases andthen_cases)

definition nth_request :: "codec \<Rightarrow> ('sw, 'h) msg_info \<Rightarrow> database_msg option" where
  "nth_request cd info = par_msg cd (get_database_msg (env_payload (mi_request info)))"

context swarm_contract
begin

lemma send_with_tracks:
  assumes codec: "msg_roundtrip cd" and de: "de_swarms de = ops" "de_codec de = cd"
    and run: "send_with de db req policy h (d, (w, m)) = (Inr (), (d', (w', m')))"
  shows "\<exists>info msg. d' = set_message (next_nonce d) info (d\<lparr>next_nonce := next_nonce d + 1\<rparr>)
    \<and> mi_handler info = de_closure de h \<and> mi_policy info = policy \<and> mi_swarm info = ad_swarm db
    \<and> nth_request cd info = Some msg \<and> dm_request msg = req
    \<and> hd_db_uuid (dm_header msg) = ad_uuid db \<and> hd_nonce (dm_header msg) = next_nonce d"
  using run unfolding send_with_def de
proof (cases rule: send_message_cases)
  case (tracked env w1 w2 info)
  from tracked(1) obtain v where sign: "so_sign_and_date_request ops (ad_swarm db)
      (empty_envelope\<lparr>env_payload := P_database_msg (ser_msg cd
         (request_msg (ad_uuid db) (next_nonce d) (database_msg_of req)))\<rparr>) policy w = (Inr env, v)"
    by (auto simp: on_fst_def split: prod.splits)
  obtain m' where m': "env_payload env = P_database_msg (ser_msg cd m')"
    "same_request (request_msg (ad_uuid db) (next_nonce d) (database_msg_of req)) m'"
    using sign_same_request [OF codec _ sign] by auto
  have "mi_handler info = de_closure de h" "mi_policy info = policy" "mi_swarm info = ad_swarm db"
    "mi_request info = env" 
    using arg_cong [OF tracked(4), of mi_handler] arg_cong [OF tracked(4), of mi_policy]
      arg_cong [OF tracked(4), of mi_swarm] arg_cong [OF tracked(4), of mi_request] by simp_all
  moreover have "dm_request m' = req" "hd_db_uuid (dm_header m') = ad_uuid db" "hd_nonce (dm_header m') = next_nonce d"
    using m'(2) same_request_uuid [OF m'(2)] same_request_nonce [OF m'(2)]
    by (simp_all add: same_request_def request_msg_def database_msg_of_def)
  ultimately show ?thesis
    using tracked(5) m'(1) codec by (intro exI [of _ info] exI [of _ m']) (simp add: nth_request_def)
qed simp_all

lemma call_tracks:
  assumes "msg_roundtrip cd" "de_swarms de = ops" "de_codec de = cd"
    and "start_call de db c (d, (w, m)) = (Inr (Some resp), (d', (w', m')))"
  shows "\<exists>info msg. d' = set_message (next_nonce d) info (d\<lparr>next_nonce := next_nonce d + 1\<rparr>)
    \<and> mi_handler info = de_closure de (Reply resp (call_kind c)) \<and> mi_policy info = call_policy c
    \<and> mi_swarm info = ad_swarm db \<and> nth_request cd info = Some msg \<and> dm_request msg = call_request c
    \<and> hd_db_uuid (dm_header msg) = ad_uuid db \<and> hd_nonce (dm_header msg) = next_nonce d"
  using assms(4) unfolding start_call_eq
  by (elim with_response_cases) (rule send_with_tracks [OF assms(1-3)])

end

section \<open>A codec with the round trip\<close>

instance eviction_policy :: countable by countable_datatype

instance db_request :: countable by countable_datatype

text \<open>A message as the tuple of its fields, and as a text of a length that tells which it is.\<close>

definition msg_fields :: "database_msg \<Rightarrow> uuid \<times> u64 \<times> string \<times> string \<times> db_request" where
  "msg_fields m = (hd_db_uuid (dm_header m), hd_nonce (dm_header m), hd_point_of_contact (dm_header m),
     hd_request_hash (dm_header m), dm_request m)"

fun msg_of_fields :: "uuid \<times> u64 \<times> string \<times> string \<times> db_request \<Rightarrow> database_msg" where
  "msg_of_fields (u, n, p, h, r) = \<lparr>dm_header = \<lparr>hd_db_uuid = u, hd_nonce = n, hd_point_of_contact = p,
     hd_request_hash = h\<rparr>, dm_request = r\<rparr>"

definition roundtrip_cd :: codec where
  "roundtrip_cd = sample_cd\<lparr>ser_msg := (\<lambda>m. replicate (to_nat (msg_fields m)) CHR ''m''),
     par_msg := (\<lambda>s. Some (msg_of_fields (from_nat (length s))))\<rparr>"

lemma roundtrip_cd: "msg_roundtrip roundtrip_cd"
  by (simp add: msg_roundtrip_def roundtrip_cd_def msg_fields_def)

definition sample_env ::
  "((nat, nat, nat, unit) swarm_heap \<times> nat, nat, nat response_heap, nat, nat, nat reply_handler) database_env" where
  "sample_env = \<lparr>de_codec = roundtrip_cd,
     de_swarms = real_ops roundtrip_cd (real_crypto echo_ossl None) sample_pf,
     de_api = udp_api (\<lambda>_. ''json'') (\<lambda>_. []) (3, 0, Some 4000), de_timeout = 10, de_closure = id\<rparr>"

lemma sample_call:
  "\<exists>d' W' m'. start_call sample_env (new_async_database 0 ''db'') (Call_read ''k'')
       (new_dispatch, (sample_heap, [])) = (Inr (Some 0), (d', (W', m')))"
  by (simp add: start_call_eq with_response_def send_with_def sample_env_def new_async_database_def
      make_response_def new_udp_response_def dispatch_run_simps swarm_run_simps sample_defs sample_heap_def
      new_dispatch_def msg_roundtripD [OF roundtrip_cd])

text \<open>
  C16. A call that returns a response has put exactly one request into the dispatcher, under a
  fresh nonce: the request of that operation with its arguments, for this database and its
  swarm, tracked with the closure that completes the returned response.
\<close>

theorem call_sends_its_request:
  fixes ossl :: "('pk, 'sk) openssl"
  assumes "msg_roundtrip cd" "de_swarms de = real_ops cd (real_crypto ossl k) pf" "de_codec de = cd"
    and "start_call de db c (d, (W, m)) = (Inr (Some resp), (d', (W', m')))"
  shows "\<exists>info msg. d' = set_message (next_nonce d) info (d\<lparr>next_nonce := next_nonce d + 1\<rparr>)
    \<and> mi_handler info = de_closure de (Reply resp (call_kind c)) \<and> mi_policy info = call_policy c
    \<and> mi_swarm info = ad_swarm db \<and> nth_request cd info = Some msg \<and> dm_request msg = call_request c
    \<and> hd_db_uuid (dm_header msg) = ad_uuid db \<and> hd_nonce (dm_header msg) = next_nonce d"
  by (rule net.call_tracks [OF assms])

lemma call_sends_its_request_witness:
  "\<exists>d' W' m' info msg. start_call sample_env (new_async_database 0 ''db'') (Call_read ''k'')
       (new_dispatch, (sample_heap, [])) = (Inr (Some 0), (d', (W', m')))
     \<and> find_message d' 1 = Some info \<and> mi_handler info = Reply 0 Read_reply
     \<and> nth_request roundtrip_cd info = Some msg \<and> dm_request msg = Req_read ''k''"
proof -
  obtain d' W' m' where run: "start_call sample_env (new_async_database 0 ''db'') (Call_read ''k'')
       (new_dispatch, (sample_heap, [])) = (Inr (Some 0), (d', (W', m')))"
    using sample_call by blast
  have env: "de_swarms sample_env = real_ops roundtrip_cd (real_crypto echo_ossl None) sample_pf"
    "de_codec sample_env = roundtrip_cd" "de_closure sample_env = id"
    by (simp_all add: sample_env_def)
  have "next_nonce (new_dispatch :: (nat, nat reply_handler) db_dispatch) = 1" by (simp add: new_dispatch_def)
  with call_sends_its_request [OF roundtrip_cd env(1,2) run] run env(3) show ?thesis by fastforce
qed

text \<open>
  The synchronous wrapper uses the response without looking: when the operation could not be
  started (it caught an exception and returned null) the null pointer is dereferenced; otherwise
  what the caller gets is the text of the outcome of the response, once it has one.
\<close>

theorem database_call_dereferences_null:
  assumes "start_call de db c (d, (W, m)) = (Inr r, (d', (W', m')))"
  shows "database_call de result_of wait db c (d, (W, m)) =
    (case r of None \<Rightarrow> (Inl Undefined, (d', (W', m')))
     | Some resp \<Rightarrow> andthen (wait resp) (on_snd (on_snd (result_of resp))) (d', (W', m')))"
  using assms by (cases r) (simp_all add: database_call_def sbind_apply)

lemma database_call_dereferences_null_witness:
  "database_call (sample_env\<lparr>de_api := udp_api (\<lambda>_. ''json'') (\<lambda>_. []) (3, -1, None)\<rparr>)
     (\<lambda>r. on_response r get_result) (\<lambda>_. ret ()) (new_async_database 0 ''db'') (Call_read ''k'')
     (new_dispatch, (sample_heap, [])) = (Inl Undefined, (new_dispatch, (sample_heap, [])))"
proof -
  have start: "start_call (sample_env\<lparr>de_api := udp_api (\<lambda>_. ''json'') (\<lambda>_. []) (3, -1, None)\<rparr>)
      (new_async_database 0 ''db'') (Call_read ''k'') (new_dispatch, (sample_heap, []))
      = (Inr None, (new_dispatch, (sample_heap, [])))"
    by (simp add: start_call_eq with_response_def sample_heap_def make_response_def new_udp_response_def
        catch_all_def sbind_apply)
  show ?thesis using database_call_dereferences_null [OF start] by simp
qed

end
