(* ===== verification/Library_Runs.thy ===== *)
theory Library_Runs
  imports Library_Behaviour Database_Calls
begin

text \<open>
  The whole library after its initialization: every sequence of calls of the client, messages from
  nodes and expiring timers acts on one state, in which the dispatcher, the swarms, the factory,
  the database and response objects and the globals work together.

  \<open>Library_Evidence\<close> has the theorem about it.
\<close>

section \<open>The machine\<close>

text \<open>The handlers that the dispatcher holds: those of the factory, and those of the databases.\<close>

datatype ('sw, 'r) library_handler =
    Uuid_request "('sw, 'r library_callback) factory_closure uuid_handler"
  | Database_request "'r reply_handler"

type_synonym ('sw, 'n, 't, 'r, 'w, 'm) full_env =
  "('sw, 'n, 't, 'r, 'w, 'm, ('sw, 'r) library_handler) library_env"

type_synonym ('sw, 'n, 't, 'r, 'w, 'm, 'a) full_prog =
  "('sw, 'n, 't, 'r, 'w, 'm, ('sw, 'r) library_handler, 'a) library_prog"

type_synonym ('sw, 'n, 't, 'r, 'w, 'm) full_state =
  "('sw, ('sw, 'r) library_handler) db_dispatch
     \<times> (('sw, 'n, 't, 'r, 'w, 'm) network \<times> ('sw swarm_factory \<times> library_globals))"

fun run_library_handler ::
  "('sw, 'n, 't, 'r, 'w, 'm) full_env \<Rightarrow> ('sw, 'r) library_handler \<Rightarrow> database_response \<Rightarrow> error_code
     \<Rightarrow> ('sw, 'n, 't, 'r, 'w, 'm, unit) full_prog" where
  "run_library_handler le (Uuid_request h) r ec = with_factory le (\<lambda>fe. run_uuid_handler fe h r ec)"
| "run_library_handler le (Database_request h) r ec = at_responses (run_reply (le_api le) h r ec)"

definition run_opened ::
  "('sw, 'n, 't, 'r, 'w, 'm) full_env \<Rightarrow> 'r open_handler \<Rightarrow> error_code
     \<Rightarrow> ('n, 't, 'r open_handler, 'w \<times> ('sw, 'm) client_store, unit) swarm_prog" where
  "run_opened le h ec = on_snd (on_snd (database_opened (le_api le) h ec))"

text \<open>The handlers registered with the swarms, by what a message carries.\<close>

definition library_relay ::
  "('sw, 'n, 't, 'r, 'w, 'm) full_env \<Rightarrow> crypto_ops \<Rightarrow> 'sw \<Rightarrow> response_handler \<Rightarrow> uuid \<Rightarrow> envelope
     \<Rightarrow> ('sw, 'n, 't, 'r, 'w, 'm, bool) full_prog" where
  "library_relay le cr sw h relay env = (case h of
       On_status_response \<Rightarrow> at_world (on_swarm sw (handle_status_response (le_codec le) (le_json le) cr
         (beside (le_platform le)) (run_opened le) relay env))
     | On_database_response \<Rightarrow> handle_swarm_response (le_codec le) (run_library_handler le) env
     | On_swarm_error \<Rightarrow> handle_swarm_error (le_codec le) env)"

text \<open>
  What can happen: a call of the client, a message that a swarm's node delivers, the end of a send
  or of a timer.
\<close>

datatype 'sw library_event =
    Api_has_db uuid
  | Api_create_db uuid u64 bool
  | Api_open_db uuid
  | Api_call nat db_call
  | Api_set_timeout u64
  | Node_message 'sw uuid string
  | Message_sent 'sw send_callback error_code
  | Status_timer 'sw uuid error_code
  | Retry_expired error_code u64
  | Client_expired error_code u64

definition with_crypto ::
  "(crypto_ops \<Rightarrow> ('sw, 'n, 't, 'r, 'w, 'm, 'a) full_prog) \<Rightarrow> ('sw, 'n, 't, 'r, 'w, 'm, 'a) full_prog" where
  "with_crypto body = sbind (at_globals (gets lg_crypto)) (\<lambda>c. case c of None \<Rightarrow> raise Undefined | Some cr \<Rightarrow> body cr)"

definition db_env ::
  "('sw, 'n, 't, 'r, 'w, 'm) full_env \<Rightarrow> crypto_ops \<Rightarrow> u64
     \<Rightarrow> (('sw, 'n, 't, 'r open_handler) swarm_heap \<times> 'w, 'sw, 'm, 'r, nat, ('sw, 'r) library_handler) database_env" where
  "db_env le cr timeout = \<lparr>de_codec = le_codec le, de_swarms = real_ops (le_codec le) cr (le_platform le),
     de_api = le_api le, de_timeout = timeout, de_closure = Database_request\<rparr>"

fun run_event ::
  "('sw, 'n, 't, 'r, 'w, 'm) full_env \<Rightarrow> 'sw library_event \<Rightarrow> ('sw, 'n, 't, 'r, 'w, 'm, unit) full_prog" where
  "run_event le (Api_has_db u) = sbind (async_has_db le u) (\<lambda>_. ret ())"
| "run_event le (Api_create_db u max_size random_evict) =
     sbind (async_create_db le u max_size random_evict) (\<lambda>_. ret ())"
| "run_event le (Api_open_db u) = sbind (async_open_db le u) (\<lambda>_. ret ())"
| "run_event le (Api_call db c) =
     with_crypto (\<lambda>cr. sbind (at_globals (gets lg_api_timeout)) (\<lambda>t.
       sbind (at_world (at_store (on_fst (the_database db)))) (\<lambda>adb.
       sbind (at_client (start_call (db_env le cr t) adb c)) (\<lambda>_. ret ()))))"
| "run_event le (Api_set_timeout seconds) = at_globals (set_timeout seconds)"
| "run_event le (Node_message sw relay data) =
     with_crypto (\<lambda>cr. sbind (handle_node_message (le_codec le) cr (beside (le_platform le))
       (\<lambda>m. at_world (on_swarm sw m)) (library_relay le cr sw) relay data) (\<lambda>_. ret ()))"
| "run_event le (Message_sent sw callback ec) =
     at_world (on_swarm sw (handle_send_result (beside (le_platform le)) callback ec))"
| "run_event le (Status_timer sw u ec) =
     with_crypto (\<lambda>cr. at_world (on_swarm sw (handle_status_timer (le_codec le) cr (beside (le_platform le)) u ec)))"
| "run_event le (Retry_expired ec nonce) =
     with_crypto (\<lambda>cr. handle_request_timeout (log_ops (real_ops (le_codec le) cr (beside (le_platform le)))) ec nonce)"
| "run_event le (Client_expired ec nonce) = handle_client_timeout (run_library_handler le) ec nonce"

text \<open>
  Where an exception goes that a handler of the io thread lets out: the read handler of a node catches
  it (\<open>node::receive\<close>), and the functions of the library catch their own; the handlers of timers
  and of writes do not, so it leaves \<open>io_context::run\<close> and the function of the io thread, and
  \<open>std::terminate\<close> is called.
\<close>

fun event_caught :: "'sw library_event \<Rightarrow> bool" where
  "event_caught (Message_sent sw callback ec) = False"
| "event_caught (Status_timer sw u ec) = False"
| "event_caught (Retry_expired ec nonce) = False"
| "event_caught (Client_expired ec nonce) = False"
| "event_caught e = True"

definition library_step ::
  "('sw, 'n, 't, 'r, 'w, 'm) full_env \<Rightarrow> 'sw library_event \<Rightarrow> ('sw, 'n, 't, 'r, 'w, 'm, unit) full_prog" where
  "library_step le e = catch_all (run_event le e) (if event_caught e then ret () else raise Assert_fails)"

text \<open>
  Sessions: \<open>library_session le n es S S'\<close> says that the events \<open>es\<close> lead from \<open>S\<close> to \<open>S'\<close>, and that
  at each of them all outstanding requests needed at least \<open>n\<close> equal responses.
\<close>

definition quorums_at_least :: "nat \<Rightarrow> ('sw, 'h) db_dispatch \<Rightarrow> bool" where
  "quorums_at_least n d \<longleftrightarrow> (\<forall>k info. find_message d k = Some info \<longrightarrow> n \<le> unat (mi_responses_required info))"

inductive library_session ::
  "('sw, 'n, 't, 'r, 'w, 'm) full_env \<Rightarrow> nat \<Rightarrow> 'sw library_event list
     \<Rightarrow> ('sw, 'n, 't, 'r, 'w, 'm) full_state \<Rightarrow> ('sw, 'n, 't, 'r, 'w, 'm) full_state \<Rightarrow> bool"
  for le :: "('sw, 'n, 't, 'r, 'w, 'm) full_env" and n :: nat where
  Session_start: "library_session le n [] S S"
| Session_step: "library_session le n es S S1 \<Longrightarrow> quorums_at_least n (fst S1) \<Longrightarrow>
     library_step le e S1 = (x, S2) \<Longrightarrow> library_session le n (es @ [e]) S S2"

end
