(* ===== verification/Swarm_Keeps.thy ===== *)
theory Swarm_Keeps
  imports Swarm_Ops
begin

text \<open>
  What every operation of \<open>swarm/swarm.cpp\<close> keeps, also when it throws: a property of the world
  that the functions of the platform keep, and one of the completion handler that waits in a swarm.
\<close>

section \<open>One swarm\<close>

text \<open>
  \<open>P\<close> is what is asked of a completion handler that waits in a swarm, \<open>Q\<close> what is kept of the world
  beside the swarm.
\<close>

definition init_ok :: "('i \<Rightarrow> bool) \<Rightarrow> ('n, 't, 'i) swarm \<Rightarrow> bool" where
  "init_ok P s \<longleftrightarrow> (\<forall>h. sw_init_handler s = Some h \<longrightarrow> P h)"

definition swarm_ok :: "('i \<Rightarrow> bool) \<Rightarrow> ('w \<Rightarrow> bool) \<Rightarrow> ('n, 't, 'i) swarm \<times> 'w \<Rightarrow> bool" where
  "swarm_ok P Q = (\<lambda>(s, w). init_ok P s \<and> Q w)"

lemma init_ok_mono: "init_ok P s \<Longrightarrow> (\<And>h. P h \<Longrightarrow> P' h) \<Longrightarrow> init_ok P' s"
  by (simp add: init_ok_def)

lemma init_ok_same [simp]:
  "init_ok P (set_info u i s) = init_ok P s" "init_ok P (install_nodes m s) = init_ok P s"
  "init_ok P (s\<lparr>sw_primary_node := p, sw_fastest_node := q\<rparr>) = init_ok P s"
  "init_ok P (s\<lparr>sw_primary_node := p, sw_fastest_node := q, sw_last_status := st\<rparr>) = init_ok P s"
  "init_ok P (s\<lparr>sw_initial_nodes := ns\<rparr>) = init_ok P s"
  "init_ok P (s\<lparr>sw_response_handlers := hs\<rparr>) = init_ok P s"
  "init_ok P (s\<lparr>sw_init_handler := None\<rparr>)"
  by (simp_all add: init_ok_def set_info_def install_nodes_def)

lemma swarm_ok_world: "keeps Q m \<Longrightarrow> keeps (swarm_ok P Q) (on_snd m)"
  by (rule keeps_on_snd) (auto simp: swarm_ok_def keeps_def)

lemma swarm_ok_object:
  "(\<And>s. init_ok P s \<Longrightarrow> init_ok P (f s)) \<Longrightarrow> keeps (swarm_ok P Q) (on_fst (modify f))"
  "keeps (swarm_ok P Q) (on_fst (gets g))"
  by (auto simp: keeps_def swarm_ok_def)

lemma swarm_ok_nodes: "keeps I the_nodes" "keeps I (deref p)"
  by (auto simp: keeps_def the_nodes_def deref_def split: option.splits prod.splits)

lemma keeps_prod [keeps_intros]: "(\<And>a b. x = (a, b) \<Longrightarrow> keeps I (m a b)) \<Longrightarrow> keeps I (case x of (a, b) \<Rightarrow> m a b)"
  by (cases x) simp

lemma keeps_Let [keeps_intros]: "(\<And>a. keeps I (m a)) \<Longrightarrow> keeps I (let a = x in m a)"
  by (simp add: Let_def)

locale kept_platform =
  fixes pf :: "('w, 'n, 't) platform" and Q :: "'w \<Rightarrow> bool"
  assumes kept_platform:
    "keeps Q (pf_create_node pf h p)" "keeps Q (pf_register_message_handler pf n u)"
    "keeps Q (pf_send_message pf n m c)" "keeps Q (pf_back_off pf n b)" "keeps Q (pf_make_timer pf)"
    "keeps Q (pf_start_timer pf t k u)" "keeps Q (pf_steady_now pf)" "keeps Q (pf_system_now pf)"
    "keeps Q (pf_uniform pf k)"
begin

lemmas kept_rules = keeps_intros swarm_ok_world [OF kept_platform(1)] swarm_ok_world [OF kept_platform(2)]
  swarm_ok_world [OF kept_platform(3)] swarm_ok_world [OF kept_platform(4)] swarm_ok_world [OF kept_platform(5)]
  swarm_ok_world [OF kept_platform(6)] swarm_ok_world [OF kept_platform(7)] swarm_ok_world [OF kept_platform(8)]
  swarm_ok_object swarm_ok_nodes

lemma kept_init_nodes: "keeps (swarm_ok P Q) (init_nodes pf)"
  unfolding init_nodes_def add_nodes_def add_listed_node_def add_node_def
  by (intro kept_rules; auto split: list.split intro!: kept_rules)

lemma kept_sign: "keeps (swarm_ok P Q) (sign_and_date_request cd cr pf e policy)"
  unfolding sign_and_date_request_def by (intro kept_rules)

lemma kept_send: "keeps (swarm_ok P Q) (send_request cd pf e policy)"
  unfolding send_request_def send_node_request_def
  by (intro kept_rules kept_init_nodes; cases policy; auto intro!: kept_rules)

lemma kept_register: "keeps (swarm_ok P Q) (register_response_handler k h)"
  unfolding register_response_handler_def by (intro kept_rules) simp

lemma kept_majority: "keeps (swarm_ok P Q) (honest_majority_size pf)"
  unfolding honest_majority_size_def by (intro kept_rules kept_init_nodes)

lemma kept_schedule: "keeps (swarm_ok P Q) (schedule_status_request pf u t)"
proof -
  have "keeps Q (random_avg_time pf k)" for k
    unfolding random_avg_time_def by (intro keeps_intros kept_platform)
  then show ?thesis
    unfolding schedule_status_request_def by (intro kept_rules swarm_ok_world)
qed

lemma kept_status_request: "keeps (swarm_ok P Q) (send_status_request cd cr pf u)"
  unfolding send_status_request_def by (intro kept_rules kept_sign) simp

lemma kept_send_result: "keeps (swarm_ok P Q) (handle_send_result pf c ec)"
  unfolding handle_send_result_def
  by (cases c; simp only: send_callback.case) (intro kept_rules kept_schedule; simp)+

lemma kept_status_timer: "keeps (swarm_ok P Q) (handle_status_timer cd cr pf u ec)"
  unfolding handle_status_timer_def by (intro kept_rules kept_status_request)

lemma kept_info_at: "keeps (swarm_ok P Q) (info_at u)"
  unfolding info_at_def by (intro kept_rules) simp

lemma kept_scan_peers: "keeps (swarm_ok P Q) (scan_peers js pf u dur nodes ss)"
proof (induction nodes arbitrary: ss)
  case (Cons node nodes)
  have "keeps (swarm_ok P Q) (scan_peer js pf u dur node ss)"
    unfolding scan_peer_def add_node_def by (intro kept_rules kept_info_at kept_schedule)
  then show ?case using Cons.IH by (auto intro: keeps_intros)
qed (auto intro: keeps_intros)

lemma kept_apply_status: "keeps (swarm_ok P Q) (apply_status cd js cr pf u dur status)"
  unfolding apply_status_def by (intro kept_rules kept_scan_peers kept_status_request; simp)

lemma kept_screen: "keeps (swarm_ok P Q) (screen_node_message cd cr pf u data)"
  unfolding screen_node_message_def by (intro kept_rules; simp)

lemma kept_initialize:
  assumes "keeps (swarm_ok P Q) (run_init h Operation_in_progress)" "P h"
  shows "keeps (swarm_ok P Q) (Swarm.initialize cd cr pf run_init h)"
  unfolding Swarm.initialize_def
  using assms(2)
  by (intro kept_rules kept_init_nodes assms(1) kept_register kept_status_request) (auto simp: init_ok_def)

lemma kept_status_response:
  assumes "\<And>h. P h \<Longrightarrow> keeps (swarm_ok P Q) (run_init h No_error)"
  shows "keeps (swarm_ok P Q) (handle_status_response cd js cr pf run_init u env)"
proof -
  have "keeps (swarm_ok P Q) (finish_init run_init)"
  proof (rule keepsI)
    fix S x S'
    assume S: "swarm_ok P Q S" and run: "finish_init run_init S = (x, S')"
    obtain s w where sw: "S = (s, w)" by fastforce
    show "swarm_ok P Q S'"
    proof (cases "sw_init_handler s")
      case None
      with run S sw show ?thesis by (simp add: finish_init_def)
    next
      case (Some h)
      with S sw have "P h" by (auto simp: swarm_ok_def init_ok_def)
      then have "keeps (swarm_ok P Q) (andthen (run_init h No_error) (on_fst (modify (\<lambda>s. s\<lparr>sw_init_handler := None\<rparr>))))"
        by (intro kept_rules assms) simp_all
      then show ?thesis using run S sw Some by (auto simp: finish_init_def dest: keepsD)
    qed
  qed
  then show ?thesis
    unfolding handle_status_response_def by (intro kept_rules kept_info_at kept_apply_status)
qed

end

section \<open>Heaps of swarms\<close>

definition heap_ok :: "('i \<Rightarrow> bool) \<Rightarrow> ('w \<Rightarrow> bool) \<Rightarrow> ('sw, 'n, 't, 'i) swarm_heap \<times> 'w \<Rightarrow> bool" where
  "heap_ok P Q = (\<lambda>(H, w). (\<forall>sw s. H sw = Some s \<longrightarrow> init_ok P s) \<and> Q w)"

lemma keeps_on_swarm:
  assumes "keeps (swarm_ok P Q) m"
  shows "keeps (heap_ok P Q) (on_swarm sw m)"
proof (rule keepsI)
  fix S x S'
  assume S: "heap_ok P Q S" and run: "on_swarm sw m S = (x, S')"
  obtain H w where Hw: "S = (H, w)" by fastforce
  show "heap_ok P Q S'"
    using run unfolding Hw
  proof (cases rule: on_swarm_cases)
    case dangling
    with S Hw show ?thesis by simp
  next
    case (runs s s' w')
    have "swarm_ok P Q (s, w)" using S Hw runs(1) by (auto simp: heap_ok_def swarm_ok_def)
    from keepsD [OF assms this runs(2)] S Hw runs(3) show ?thesis
      by (auto simp: heap_ok_def swarm_ok_def)
  qed
qed

text \<open>Swarm operations that keep a property of the world.\<close>

definition ops_keep :: "('w \<Rightarrow> bool) \<Rightarrow> ('w, 'sw) swarm_ops \<Rightarrow> bool" where
  "ops_keep W ops \<longleftrightarrow>
     (\<forall>sw e p. keeps W (so_sign_and_date_request ops sw e p) \<and> keeps W (so_send_request ops sw e p))
   \<and> (\<forall>sw k h. keeps W (so_register_response_handler ops sw k h))
   \<and> (\<forall>sw. keeps W (so_honest_majority_size ops sw))"

lemma keeps_beside: "keeps W m \<Longrightarrow> keeps (\<lambda>(w, x). W w \<and> X x) (on_fst m)"
  by (fastforce simp: keeps_def on_fst_def split: prod.splits)

lemma ops_keep_log: "ops_keep W ops \<Longrightarrow> ops_keep (\<lambda>(w, x). W w \<and> X x) (log_ops ops)"
  by (simp add: ops_keep_def keeps_beside)

context kept_platform
begin

lemma kept_ops: "ops_keep (heap_ok P Q) (real_ops cd cr pf)"
  by (simp add: ops_keep_def kept_sign kept_send kept_register kept_majority keeps_on_swarm)

end

text \<open>Any platform keeps nothing.\<close>

interpretation alone: kept_platform pf "\<lambda>_. True" for pf
  by unfold_locales (simp_all add: keeps_def)

end
