(* ===== verification/Library_Evidence.thy ===== *)
theory Library_Evidence
  imports Library_Runs Swarm_Keeps
begin

text \<open>
  End to end: a text that confirms a database is followed back, through the response object, the
  callbacks of the library, the closures of the factory, the dispatcher and the screening of the
  swarm, to the signed messages of the nodes.

  The proof is an invariant of the whole state that every event keeps; \<open>ev u\<close> stands for what has to
  be known of a database \<open>u\<close> before a text may confirm it.
\<close>

section \<open>Texts of responses\<close>

text \<open>
  \<open>tells styled ev t\<close>: if the text \<open>t\<close> is the one that confirms a database, then \<open>ev\<close> holds of the
  database.  jsoncpp writes texts that are not empty and from which the members can be read back.
\<close>

definition readable :: "(json \<Rightarrow> string) \<Rightarrow> bool" where
  "readable styled \<longleftrightarrow> (\<forall>j. styled j \<noteq> [])
     \<and> (\<forall>j u. styled j = styled (result_json 1 u) \<longrightarrow>
          jfield ''uuid'' j = Some (JString u) \<and> jfield ''result'' j \<in> {Some (JInt 1), Some (JUInt 1)})"

definition tells :: "(json \<Rightarrow> string) \<Rightarrow> (uuid \<Rightarrow> bool) \<Rightarrow> string \<Rightarrow> bool" where
  "tells styled ev t \<longleftrightarrow> (\<forall>u. t = styled (result_json 1 u) \<longrightarrow> ev u)"

definition texts_ok :: "(string \<Rightarrow> bool) \<Rightarrow> 'db response_heap \<Rightarrow> bool" where
  "texts_ok P q \<longleftrightarrow> (\<forall>r. P (content q r))"

lemma jfield_value_json: "jfield ''uuid'' (value_json k r) = None"
  by (cases k) (simp_all add: ok_json_def read_json_def quick_read_json_def has_json_def keys_json_def size_json_def
      ttl_json_def writers_json_def split: prod.split)

lemma jfield_simple_json [simp]:
  "jfield k (error_json m) = (if k = ''error'' then Some (JString m) else None)"
  "jfield k ok_json = (if k = ''result'' then Some (JInt 1) else None)"
  "jfield ''uuid'' (result_json i u) = Some (JString u)" "jfield ''result'' (result_json i u) = Some (JInt i)"
  by (simp_all add: error_json_def ok_json_def result_json_def)

lemma tells_other:
  "readable styled \<Longrightarrow> jfield ''uuid'' j = None \<or> jfield ''result'' j = None \<or> jfield ''result'' j = Some (JInt 0) \<Longrightarrow>
     tells styled ev (styled j)"
  by (fastforce simp: readable_def tells_def)

lemma tells_result: "readable styled \<Longrightarrow> ev u \<Longrightarrow> tells styled ev (styled (result_json i u))"
  by (fastforce simp: readable_def tells_def)

lemma tells_empty: "readable styled \<Longrightarrow> tells styled ev []"
  unfolding readable_def tells_def by metis

lemma keeps_on_response:
  assumes "\<And>obj. P (result_str obj) \<Longrightarrow> P (result_str (snd (m obj)))"
  shows "keeps (texts_ok P) (on_response r m)"
proof (rule keepsI)
  fix q x q'
  assume "texts_ok P q" and run: "on_response r m q = (x, q')"
  then have q: "P (content q i)" for i by (simp add: texts_ok_def)
  show "texts_ok P q'"
  proof (cases "r < length q")
    case True
    then have "P (result_str (snd (m (q ! r))))" using q [of r] assms by (simp add: content_def)
    moreover have "content q' i = (if i = r then result_str (snd (m (q ! r))) else content q i)" for i
      using True run by (auto simp: on_response_def content_def nth_list_update split: prod.splits)
    ultimately show ?thesis using q by (simp add: texts_ok_def)
  next
    case False
    with run q show ?thesis by (auto simp: texts_ok_def on_response_def)
  qed
qed

lemma texts_set_error: "keeps (texts_ok P) (mr_set_error udp_ops r e)"
  by (simp add: udp_ops_def)
    (rule keeps_on_response, simp add: set_error_def set_value_def signal_def send_signal_def andthen_apply sbind_apply)

lemma texts_set_result: "P t \<Longrightarrow> keeps (texts_ok P) (mr_set_result udp_ops r t)"
  by (simp add: udp_ops_def) (rule keeps_on_response, simp add: set_result_def)

lemma texts_set_db: "keeps (texts_ok P) (mr_set_db udp_ops r db)"
  by (simp add: udp_ops_def) (rule keeps_on_response, simp add: set_db_def)

lemmas texts_intros = keeps_intros texts_set_error texts_set_result texts_set_db

lemma texts_complete: "P t \<Longrightarrow> keeps (texts_ok P) (complete udp_ops r t e)"
  unfolding complete_def by (intro texts_intros)

lemma texts_make:
  assumes "P []"
  shows "keeps (texts_ok P) (make_response sys :: ('db response_heap, nat) prog)"
proof (rule keepsI)
  fix q x and q' :: "'db response_heap"
  assume q: "texts_ok P q" and run: "make_response sys q = (x, q')"
  have "content (q @ [obj]) i = (if i = length q then result_str obj else content q i)" for i and obj :: "'db udp_response"
    by (auto simp: content_def nth_append)
  then show "texts_ok P q'"
    using q run assms
    by (auto simp: texts_ok_def make_response_def new_udp_response_def split: prod.splits if_splits option.splits)
qed

section \<open>The store of the client\<close>

text \<open>A completion handler that will confirm a database waits in a swarm only with evidence for it.\<close>

definition opens_ok :: "(uuid \<Rightarrow> bool) \<Rightarrow> 'r open_handler \<Rightarrow> bool" where
  "opens_ok ev h \<longleftrightarrow> (\<forall>db r u. h = Open_done db (Created_opened r u) \<longrightarrow> ev u)"

definition store_ok :: "(string \<Rightarrow> bool) \<Rightarrow> 'w \<times> ('sw, nat response_heap) client_store \<Rightarrow> bool" where
  "store_ok P = (\<lambda>(w, (dbs, q)). texts_ok P q)"

lemma store_ok_beside: "keeps (store_ok P) (on_fst m)"
  by (auto simp: keeps_def store_ok_def on_fst_def split: prod.splits)

interpretation client_store: kept_platform "beside pf" "store_ok P" for pf P
  by unfold_locales (simp_all add: beside_def store_ok_beside)

section \<open>The dispatcher\<close>

text \<open>
  What is kept of the table of requests: a request and its handler are \<open>good\<close> for its nonce, and
  every stored response is a message in \<open>R\<close>.
\<close>

definition waiting_ok ::
  "codec \<Rightarrow> envelope set \<Rightarrow> (u64 \<Rightarrow> envelope \<Rightarrow> 'h \<Rightarrow> bool) \<Rightarrow> ('sw, 'h) db_dispatch \<Rightarrow> bool" where
  "waiting_ok cd R good d \<longleftrightarrow> (\<forall>k info. find_message d k = Some info \<longrightarrow> good k (mi_request info) (mi_handler info)
     \<and> om_wf (mi_responses info) \<and> (\<forall>s r. map_of (mi_responses info) s = Some r \<longrightarrow> heard cd R s r))"

definition dispatch_ok ::
  "codec \<Rightarrow> envelope set \<Rightarrow> (u64 \<Rightarrow> envelope \<Rightarrow> 'h \<Rightarrow> bool) \<Rightarrow> ('w \<Rightarrow> bool) \<Rightarrow> ('sw, 'h) db_dispatch \<times> 'w \<Rightarrow> bool" where
  "dispatch_ok cd R good W = (\<lambda>(d, w). waiting_ok cd R good d \<and> W w)"

lemma waiting_ok_simps [simp]:
  "waiting_ok cd R good d \<Longrightarrow> waiting_ok cd R good (erase_message k d)"
  "waiting_ok cd R good (d\<lparr>next_nonce := m\<rparr>) = waiting_ok cd R good d"
  by (auto simp: waiting_ok_def split: if_splits)

lemma waiting_ok_set:
  assumes "waiting_ok cd R good d" "good k (mi_request i) (mi_handler i)" "om_wf (mi_responses i)"
    and "\<And>s r. map_of (mi_responses i) s = Some r \<Longrightarrow> heard cd R s r"
  shows "waiting_ok cd R good (set_message k i d)"
  using assms by (auto simp: waiting_ok_def split: if_splits)

lemma waiting_ok_timer:
  "waiting_ok cd R good d \<Longrightarrow> find_message d k = Some i \<Longrightarrow>
     waiting_ok cd R good (set_message k (i\<lparr>mi_retry_timer := t\<rparr>) d)"
  by (rule waiting_ok_set) (auto simp: waiting_ok_def)

lemma dispatch_ok_world: "keeps W m \<Longrightarrow> keeps (dispatch_ok cd R good W) (on_snd m)"
  by (rule keeps_on_snd) (auto simp: dispatch_ok_def keeps_def)

lemma dispatch_ok_erase: "keeps (dispatch_ok cd R good W) (on_fst (modify (erase_message k)))"
  by (auto simp: keeps_def dispatch_ok_def)

lemma keeps_register_both: "ops_keep W ops \<Longrightarrow> keeps W (register_swarm_handler ops sw)"
  unfolding register_swarm_handler_def by (intro keeps_intros) (simp_all add: ops_keep_def)

lemma keeps_send_message:
  assumes ops: "ops_keep W ops"
    and h: "\<And>k env w w'. so_sign_and_date_request ops sw (empty_envelope\<lparr>env_payload :=
        P_database_msg (ser_msg cd (request_msg u k msg))\<rparr>) policy w = (Inr env, w') \<Longrightarrow> good k env h"
  shows "keeps (dispatch_ok cd' R good W) (send_message_to_swarm cd ops t sw u msg policy h)"
proof (rule keepsI)
  fix S x S'
  assume S: "dispatch_ok cd' R good W S" and run: "send_message_to_swarm cd ops t sw u msg policy h S = (x, S')"
  obtain d w d' w' where parts: "S = (d, w)" "S' = (d', w')" by fastforce
  have ok: "waiting_ok cd' R good d" "W w" using S parts by (simp_all add: dispatch_ok_def)
  have sign: "so_sign_and_date_request ops sw' e p w = (y, w1) \<Longrightarrow> W w \<Longrightarrow> W w1"
    and send: "so_send_request ops sw' e p w = (z, w1) \<Longrightarrow> W w \<Longrightarrow> W w1"
    and query: "so_honest_majority_size ops sw' w = (q, w1) \<Longrightarrow> W w \<Longrightarrow> W w1"
    for sw' e p y z q w w1
    using ops unfolding ops_keep_def by (meson keepsD)+
  have "dispatch_ok cd' R good W (d', w')"
    using run unfolding parts
  proof (cases rule: send_message_cases)
    case (not_signed f)
    then show ?thesis using ok sign by (auto simp: dispatch_ok_def)
  next
    case (no_majority env w1 f)
    then show ?thesis using ok sign query by (auto simp: dispatch_ok_def)
  next
    case (tracked env w1 w2 info)
    have "W w1" using tracked(1) ok(2) sign by blast
    then have "W w2" using tracked(2,3) query by (cases "policy = Fastest") auto
    moreover have "keeps W (andthen (register_swarm_handler ops sw) (so_send_request ops sw env policy))"
      using ops by (intro keeps_intros keeps_register_both) (simp_all add: ops_keep_def)
    ultimately have "W w'" using tracked(6) by (blast intro: keepsD)
    moreover have "mi_handler info = h" "mi_responses info = []" "mi_request info = env"
      using arg_cong [OF tracked(4), of mi_handler] arg_cong [OF tracked(4), of mi_responses]
        arg_cong [OF tracked(4), of mi_request] by simp_all
    ultimately show ?thesis using tracked(5) ok(1) h [OF tracked(1)] by (auto simp: dispatch_ok_def om_wf_def intro!: waiting_ok_set)
  qed
  then show "dispatch_ok cd' R good W S'" by (simp add: parts)
qed

lemma qualified_quorum:
  assumes "om_wf (mi_responses info)" "qualify_response cd (add_response s r info) s = Inr True"
  shows "unat (mi_responses_required info) \<le> card (agreeing cd (om_put s r (mi_responses info)) r)"
proof -
  let ?rs = "om_put s r (mi_responses info)" and ?q = "mi_responses_required info"
  have wf: "om_wf ?rs" using assms(1) by (rule om_wf_put)
  show ?thesis
  proof (cases "?q = 1")
    case True
    have "s \<in> agreeing cd ?rs r" by (simp add: agreeing_own)
    then have "0 < card (agreeing cd ?rs r)" by (auto simp: card_gt_0_iff)
    then show ?thesis using True by simp
  next
    case False
    with assms(2) have "1 < ?q" "matching_loop cd r ?q 0 ?rs"
      by (auto simp: qualify_response_def Let_def split: if_splits)
    moreover from this(1) have "0 < unat ?q" by (simp add: word_less_nat_alt)
    ultimately show ?thesis using matching_loop_iff [of 0 ?q cd r ?rs] by (simp add: card_agreeing [OF wf])
  qed
qed

text \<open>The handler of a request is called only with a response that is backed by its quorum.\<close>

lemma response_keeps:
  assumes ok: "dispatch_ok cd R good W (d, w)" and quorum: "quorums_at_least n d" and env: "env \<in> R"
    and handler: "\<And>k env h r. good k env h \<Longrightarrow> backed cd R n r \<Longrightarrow> keeps (dispatch_ok cd R good W) (run h r No_error)"
    and run: "handle_swarm_response cd run env (d, w) = (x, S')"
  shows "dispatch_ok cd R good W S'"
  using run
proof (cases rule: handle_swarm_response_cases)
  case (collected r info)
  let ?k = "hd_nonce (dr_header r)" and ?s = "env_sender env"
  have heard: "heard cd R ?s r" using collected(1,3) env by (auto simp: heard_def)
  have info: "good ?k (mi_request info) (mi_handler info)" "om_wf (mi_responses info)"
    "\<And>s r. map_of (mi_responses info) s = Some r \<Longrightarrow> heard cd R s r"
    using ok collected(2) by (auto simp: dispatch_ok_def waiting_ok_def)
  have stored: "map_of (om_put ?s r (mi_responses info)) s = Some r' \<Longrightarrow> heard cd R s r'" for s r'
    using heard info(3) by (auto split: if_splits)
  have ok1: "dispatch_ok cd R good W (set_message ?k (add_response ?s r info) d, w)"
    using ok info stored by (auto simp: dispatch_ok_def om_wf_put intro!: waiting_ok_set)
  have called: "keeps (dispatch_ok cd R good W) (run (mi_handler info) r No_error)"
    if "qualify_response cd (add_response ?s r info) ?s = Inr True"
  proof (rule handler [OF info(1)])
    have "n \<le> unat (mi_responses_required info)" using quorum collected(2) by (simp add: quorums_at_least_def)
    with qualified_quorum [OF info(2) that] have "n \<le> card (agreeing cd (om_put ?s r (mi_responses info)) r)" by simp
    then show "backed cd R n r" using stored by (intro backed_agreeing) blast+
  qed
  show ?thesis
    using collected(4)
  proof (cases rule: collect_cases)
    case (accepted d1 w1)
    from keepsD [OF called ok1 accepted(2)] accepted(1,4) show ?thesis by (simp add: dispatch_ok_def)
  next
    case (handler_fault f)
    from keepsD [OF called ok1 handler_fault(2)] handler_fault(1) show ?thesis by simp
  qed (use ok1 in simp_all)
qed (use ok in simp_all)

lemma error_keeps: "keeps (dispatch_ok cd R good W) (handle_swarm_error cd' env)"
proof (rule keepsI)
  fix S x S'
  assume ok: "dispatch_ok cd R good W S" and run: "handle_swarm_error cd' env S = (x, S')"
  obtain d w where S: "S = (d, w)" by fastforce
  show "dispatch_ok cd R good W S'"
    using run unfolding S
    by (cases rule: handle_swarm_error_cases) (use ok S in \<open>auto simp: dispatch_ok_def waiting_ok_timer\<close>)
qed

lemma retry_keeps:
  assumes "ops_keep W ops"
  shows "keeps (dispatch_ok cd R good W) (handle_request_timeout ops ec k)"
proof (rule keepsI)
  fix S x S'
  assume ok: "dispatch_ok cd R good W S" and run: "handle_request_timeout ops ec k S = (x, S')"
  obtain d w d' w' where S: "S = (d, w)" "S' = (d', w')" by fastforce
  have send: "keeps W (so_send_request ops sw e p)" for sw e p using assms by (simp add: ops_keep_def)
  have "dispatch_ok cd R good W (d', w')"
    using run unfolding S
    by (cases rule: handle_request_timeout_cases)
      (use ok S in \<open>auto simp: dispatch_ok_def waiting_ok_timer intro: keepsD [OF send]\<close>)
  then show "dispatch_ok cd R good W S'" by (simp add: S)
qed

lemma client_timeout_keeps:
  assumes "\<And>k env h. good k env h \<Longrightarrow> keeps (dispatch_ok cd R good W) (run h timeout_response No_error)"
  shows "keeps (dispatch_ok cd R good W) (handle_client_timeout run ec k)"
proof (rule keepsI)
  fix S x S'
  assume ok: "dispatch_ok cd R good W S" and run: "handle_client_timeout run ec k S = (x, S')"
  obtain d w where S: "S = (d, w)" by fastforce
  show "dispatch_ok cd R good W S'"
    using run unfolding S
  proof (cases rule: handle_client_timeout_cases)
    case (expired info)
    have "good k (mi_request info) (mi_handler info)" using ok S expired(1) by (auto simp: dispatch_ok_def waiting_ok_def)
    then have "keeps (dispatch_ok cd R good W) (andthen (run (mi_handler info) timeout_response No_error)
        (on_fst (modify (erase_message k))))"
      by (intro keeps_intros assms dispatch_ok_erase)
    then show ?thesis using ok S expired(2) by (blast intro: keepsD)
  qed (use ok S in simp)
qed

end
