(* ===== verification/Library_Confirms.thy ===== *)
theory Library_Confirms
  imports Library_Evidence
begin

text \<open>
  The invariant of \<open>Library_Evidence\<close> over the whole library: the callbacks, the closures of the
  factory and every event keep it, and so do sessions.
\<close>

section \<open>The invariant\<close>

fun callback_uuid :: "'r library_callback \<Rightarrow> uuid" where
  "callback_uuid (Has_db_done r u) = u"
| "callback_uuid (Create_db_done r u) = u"
| "callback_uuid (Open_db_done r u) = u"

text \<open>
  The callbacks and closures that the library makes are all for one database; \<open>C\<close> holds the
  databases that the client asked to create.
\<close>

fun callback_ok :: "uuid set \<Rightarrow> uuid \<Rightarrow> 'r library_callback factory_callback \<Rightarrow> bool" where
  "callback_ok C u (Library_callback cb) \<longleftrightarrow> callback_uuid cb = u"
| "callback_ok C u (Create_unless_found v ms e cb) \<longleftrightarrow> v = u \<and> callback_uuid cb = u \<and> u \<in> C"

fun closure_ok :: "uuid set \<Rightarrow> ('sw, 'r library_callback) factory_closure uuid_handler \<Rightarrow> bool" where
  "closure_ok C (Has_uuid_reply u c) \<longleftrightarrow> (\<exists>sid k cb sw. c = Found_in u sid k cb sw \<and> callback_ok C u cb)"
| "closure_ok C (Create_uuid_reply u c) \<longleftrightarrow>
     (\<exists>sid ms e k cb sw. c = Created_in u sid ms e k cb sw \<and> callback_uuid cb = u \<and> u \<in> C)"

fun handler_ok :: "uuid set \<Rightarrow> ('sw, 'r) library_handler \<Rightarrow> bool" where
  "handler_ok C (Database_request h) = True"
| "handler_ok C (Uuid_request h) = closure_ok C h"

definition world_ok ::
  "(json \<Rightarrow> string) \<Rightarrow> (uuid \<Rightarrow> bool) \<Rightarrow> crypto_ops
     \<Rightarrow> ('sw, 'n, 't, nat, 'w, nat response_heap) network \<times> ('sw swarm_factory \<times> library_globals) \<Rightarrow> bool" where
  "world_ok styled ev cr = (\<lambda>(N, (f, g)). heap_ok (opens_ok ev) (store_ok (tells styled ev)) N
     \<and> (\<forall>u sid. map_of (fa_swarm_dbs f) u = Some sid \<longrightarrow> ev u) \<and> lg_crypto g = Some cr)"

text \<open>
  Every outstanding request is answered by the handler for it: its message carries its nonce, and the
  handler is for that kind of request, its database and its parameters.
\<close>

fun answers_to :: "('sw, 'r) library_handler \<Rightarrow> uuid \<Rightarrow> db_request \<Rightarrow> bool" where
  "answers_to (Uuid_request (Has_uuid_reply v c)) u req \<longleftrightarrow> v = u \<and> req = Req_has_db
     \<and> (\<exists>sid k cb sw. c = Found_in u sid k cb sw)"
| "answers_to (Uuid_request (Create_uuid_reply v c)) u req \<longleftrightarrow> v = u
     \<and> (\<exists>sid ms e k cb sw. c = Created_in u sid ms e k cb sw
          \<and> req = Req_create_db ms (if e then Evict_random else Evict_none))"
| "answers_to (Database_request h) u req \<longleftrightarrow> (\<exists>c. req = call_request c \<and> reply_kind h = call_kind c)"

definition typed_request :: "codec \<Rightarrow> u64 \<Rightarrow> envelope \<Rightarrow> ('sw, 'r) library_handler \<Rightarrow> bool" where
  "typed_request cd k env h \<longleftrightarrow> (\<exists>m. env_payload env = P_database_msg (ser_msg cd m)
     \<and> hd_nonce (dm_header m) = k \<and> answers_to h (hd_db_uuid (dm_header m)) (dm_request m))"

text \<open>Serialization that can be undone, and signing that keeps what is signed.\<close>

definition lawful :: "codec \<Rightarrow> crypto_ops \<Rightarrow> bool" where
  "lawful cd cr \<longleftrightarrow> msg_roundtrip cd \<and> envelope_signer (co_sign cr)"

definition request_ok ::
  "codec \<Rightarrow> crypto_ops \<Rightarrow> uuid set \<Rightarrow> u64 \<Rightarrow> envelope \<Rightarrow> ('sw, 'r) library_handler \<Rightarrow> bool" where
  "request_ok cd cr C k env h \<longleftrightarrow> handler_ok C h \<and> (lawful cd cr \<longrightarrow> typed_request cd k env h)"

definition library_ok ::
  "codec \<Rightarrow> envelope set \<Rightarrow> uuid set \<Rightarrow> (json \<Rightarrow> string) \<Rightarrow> (uuid \<Rightarrow> bool) \<Rightarrow> crypto_ops
     \<Rightarrow> ('sw, 'n, 't, nat, 'w, nat response_heap) full_state \<Rightarrow> bool" where
  "library_ok cd R C styled ev cr = dispatch_ok cd R (request_ok cd cr C) (world_ok styled ev cr)"

text \<open>
  What the environment is taken to be: UDP responses, readable texts, the closures as they are, and
  \<open>weak_ptr::lock\<close> changes nothing.  \<open>ev\<close> holds of the databases in \<open>C\<close>.
\<close>

definition lock_is_pure :: "('sw, 'n, 't, 'r, 'w, 'm) full_env \<Rightarrow> bool" where
  "lock_is_pure le \<longleftrightarrow> (\<forall>sw S. snd (le_lock le sw S) = S)"

definition real_env ::
  "('sw, 'n, 't, nat, 'w, nat response_heap) full_env \<Rightarrow> (json \<Rightarrow> string) \<Rightarrow> (error_code \<Rightarrow> string) \<Rightarrow> bool" where
  "real_env le styled message \<longleftrightarrow> udp_library le styled message \<and> readable styled
     \<and> le_closure le = Uuid_request \<and> lock_is_pure le"

lemma real_envD:
  assumes "real_env le styled message"
  shows "readable styled" "le_closure le = Uuid_request" "snd (le_lock le sw S) = S"
    "\<exists>sys. le_api le = udp_api styled message sys"
  using assms unfolding real_env_def lock_is_pure_def udp_library_def by blast+

section \<open>Running on the parts\<close>

lemma library_ok_world:
  "keeps (world_ok styled ev cr) m \<Longrightarrow> keeps (library_ok cd R C styled ev cr) (on_snd m)"
  unfolding library_ok_def by (rule dispatch_ok_world)

lemma keeps_at_world:
  assumes "keeps (heap_ok (opens_ok ev) (store_ok (tells styled ev))) m"
  shows "keeps (library_ok cd R C styled ev cr) (at_world m)"
  unfolding library_ok_def at_world_def
  by (intro dispatch_ok_world keeps_on_fst)
    (use assms in \<open>auto simp: keeps_def world_ok_def\<close>)

lemma keeps_at_factory:
  assumes "keeps (\<lambda>f. \<forall>u sid. map_of (fa_swarm_dbs f) u = Some sid \<longrightarrow> ev u) m"
  shows "keeps (library_ok cd R C styled ev cr) (at_factory m)"
  unfolding library_ok_def at_factory_def
  by (intro dispatch_ok_world keeps_on_snd keeps_on_fst)
    (use assms in \<open>auto simp: keeps_def world_ok_def\<close>)

lemma keeps_at_globals:
  assumes "keeps (\<lambda>g. lg_crypto g = Some cr) m"
  shows "keeps (library_ok cd R C styled ev cr) (at_globals m)"
  unfolding library_ok_def at_globals_def
  by (intro dispatch_ok_world keeps_on_snd)
    (use assms in \<open>auto simp: keeps_def world_ok_def\<close>)

lemma keeps_at_responses:
  assumes "keeps (texts_ok (tells styled ev)) m"
  shows "keeps (library_ok cd R C styled ev cr) (at_responses m)"
proof -
  have "keeps (heap_ok (opens_ok ev) (store_ok (tells styled ev))) (at_store (on_snd m))"
    unfolding at_store_def
    by (intro keeps_on_snd) (use assms in \<open>auto simp: keeps_def heap_ok_def store_ok_def\<close>)
  then show ?thesis unfolding at_responses_def by (rule keeps_at_world)
qed

text \<open>Programs over the databases alone.\<close>

lemma keeps_at_databases:
  "keeps (heap_ok (opens_ok ev) (store_ok P)) (at_store (on_fst m))"
  "keeps (library_ok cd R C styled ev cr) (at_world (at_store (on_fst m)))"
proof -
  show "keeps (heap_ok (opens_ok ev) (store_ok P)) (at_store (on_fst m))" for P
    by (auto simp: keeps_def at_store_def heap_ok_def store_ok_def on_fst_def on_snd_def split: prod.splits)
  then show "keeps (library_ok cd R C styled ev cr) (at_world (at_store (on_fst m)))"
    by (rule keeps_at_world)
qed

section \<open>Callbacks\<close>

lemma keeps_open_client:
  assumes "real_env le styled message" "is_err ec \<or> (\<forall>r u. client = Created_opened r u \<longrightarrow> ev u)"
  shows "keeps (texts_ok (tells styled ev)) (run_open_client (le_api le) client db ec)"
proof -
  obtain sys where api: "le_api le = udp_api styled message sys" using real_envD(4) [OF assms(1)] by blast
  note styled = real_envD(1) [OF assms(1)]
  have "tells styled ev (styled (open_client_json client))" if "\<not> is_err ec"
    using that assms(2) by (cases client) (simp_all add: open_client_json_def tells_result [OF styled] tells_other [OF styled])
  moreover have "keeps (texts_ok (tells styled ev)) (complete udp_ops r (styled (error_json m)) e)" for r m e
    by (intro texts_complete tells_other [OF styled]) simp
  ultimately show ?thesis
    unfolding run_open_client_def mr_set_ready_def Let_def api udp_api_sel by (intro texts_intros)
qed

lemma keeps_run_opened:
  assumes "real_env le styled message" "is_err ec \<or> opens_ok ev h"
  shows "keeps (swarm_ok (opens_ok ev) (store_ok (tells styled ev))) (run_opened le h ec)"
proof (cases h)
  case (Open_done db client)
  have "keeps (texts_ok (tells styled ev)) (run_open_client (le_api le) client db ec)"
    using assms Open_done by (intro keeps_open_client) (auto simp: opens_ok_def)
  moreover have "keeps (\<lambda>(dbs, q). texts_ok (tells styled ev) q) (on_fst m)" for m
    by (auto simp: keeps_def on_fst_def split: prod.splits)
  ultimately have "keeps (\<lambda>(dbs, q). texts_ok (tells styled ev) q) (database_opened (le_api le) h ec)"
    unfolding Open_done database_opened.simps by (intro keeps_intros keeps_on_snd) simp_all
  then have "keeps (store_ok (tells styled ev)) (on_snd (database_opened (le_api le) h ec))"
    unfolding store_ok_def by (intro keeps_on_snd) simp
  then show ?thesis unfolding run_opened_def by (rule swarm_ok_world)
qed

lemma keeps_database_open:
  assumes "real_env le styled message" "\<forall>r u. client = Created_opened r u \<longrightarrow> ev u"
  shows "keeps (heap_ok (opens_ok ev) (store_ok (tells styled ev))) (database_open le cr db client)"
proof -
  have "keeps (swarm_ok (opens_ok ev) (store_ok (tells styled ev)))
      (Swarm.initialize cd cr (beside pf) (run_opened le) (Open_done db client))" for cd pf
    by (rule client_store.kept_initialize) (use assms in \<open>auto simp: opens_ok_def intro!: keeps_run_opened\<close>)
  then show ?thesis
    unfolding database_open_def run_opened_def [symmetric, abs_def]
    by (intro keeps_intros keeps_at_databases keeps_on_swarm)
qed

lemma keeps_library_callback:
  assumes "real_env le styled message" "sw \<noteq> None \<longrightarrow> ev (callback_uuid cb)"
  shows "keeps (library_ok cd R C styled ev cr) (run_library_callback le cr' cb err sw)"
proof -
  obtain sys where api: "le_api le = udp_api styled message sys" using real_envD(4) [OF assms(1)] by blast
  note styled = real_envD(1) [OF assms(1)]
  have has: "keeps (texts_ok (tells styled ev)) (reply_with (le_api le) r (result_json (if sw \<noteq> None then 1 else 0) u))"
    if "cb = Has_db_done r u" for r u
    using that assms(2)
    by (cases sw) (simp_all add: reply_with_complete api texts_complete tells_other [OF styled] tells_result [OF styled])
  have failed: "keeps (texts_ok (tells styled ev)) (complete udp_ops r (styled j) k)"
    if "jfield ''result'' j = None" for r j k
    using that by (intro texts_complete tells_other [OF styled]) simp
  have made: "keeps (library_ok cd R C styled ev cr) (at_world (sbind (at_store (on_fst (make_database sw' u)))
      (\<lambda>db. database_open le cr' db client)))" if "\<forall>r u. client = Created_opened r u \<longrightarrow> ev u" for sw' u client
    by (intro keeps_at_world keeps_intros keeps_at_databases keeps_database_open [OF assms(1)] that)
  show ?thesis
    using assms(2) has unfolding api
    by (cases cb; cases sw) (auto simp: api intro!: keeps_at_responses failed made)
qed

section \<open>The factory\<close>

text \<open>Looking at the state first: what follows may depend on it.\<close>

lemma keeps_gets_factory:
  assumes "\<And>d N f g. I (d, (N, (f, g))) \<Longrightarrow> keeps I (k (h f))"
  shows "keeps I (sbind (at_factory (gets h)) k)"
proof (rule keepsI)
  fix S x S'
  assume S: "I S" and run: "sbind (at_factory (gets h)) k S = (x, S')"
  obtain d N f g where parts: "S = (d, (N, (f, g)))" by (metis prod.collapse)
  from run have "k (h f) S = (x, S')" by (simp add: parts sbind_apply at_factory_def)
  moreover have "keeps I (k (h f))" using assms S parts by blast
  ultimately show "I S'" using S by (blast intro: keepsD)
qed

lemma library_ok_dbs:
  "library_ok cd R C styled ev cr (d, (N, (f, g))) \<Longrightarrow> map_of (fa_swarm_dbs f) u = Some sid \<Longrightarrow> ev u"
  by (auto simp: library_ok_def dispatch_ok_def world_ok_def)

lemma library_ok_crypto: "library_ok cd R C styled ev cr (d, (N, (f, g))) \<Longrightarrow> lg_crypto g = Some cr"
  by (auto simp: library_ok_def dispatch_ok_def world_ok_def)

lemma keeps_with_factory:
  assumes "\<And>t. keeps (library_ok cd R C styled ev cr) (body (library_fe le cr t))"
  shows "keeps (library_ok cd R C styled ev cr) (with_factory le body)"
proof (rule keepsI)
  fix S x S'
  assume S: "library_ok cd R C styled ev cr S" and run: "with_factory le body S = (x, S')"
  obtain d N f g where parts: "S = (d, (N, (f, g)))" by (metis prod.collapse)
  have "lg_crypto g = Some cr" using S parts by (simp add: library_ok_crypto)
  with run have "(if lg_has_factory g then body (library_fe le cr (lg_api_timeout g)) else raise Undefined) S = (x, S')"
    by (simp add: with_factory_def parts sbind_apply)
  with S assms show "library_ok cd R C styled ev cr S'" by (auto split: if_splits intro: keepsD)
qed

lemma keeps_registry: "keeps (library_ok cd R C styled ev cr) (at_factory the_registry)"
  unfolding the_registry_def by (intro keeps_at_factory keeps_intros)

lemma keeps_reg_update:
  "keeps (library_ok cd R C styled ev cr) (at_factory (modify (\<lambda>f. f\<lparr>fa_swarm_reg := reg\<rparr>)))"
  "keeps (library_ok cd R C styled ev cr) (at_factory (modify (\<lambda>f. f\<lparr>fa_counters := h f\<rparr>)))"
  "keeps (library_ok cd R C styled ev cr) (at_factory (count_down n))"
  by (intro keeps_at_factory; auto simp: keeps_def count_down_def Let_def)+

lemma keeps_remember:
  "ev u \<Longrightarrow> keeps (library_ok cd R C styled ev cr) (at_factory (modify (remember_db u sid)))"
  by (intro keeps_at_factory) (auto simp: keeps_def remember_db_def split: if_splits)

lemma keeps_make_swarm: "keeps (heap_ok (opens_ok ev) Q) (make_swarm le sid me nodes)"
  by (auto simp: keeps_def make_swarm_def heap_ok_def init_ok_def new_swarm_def)

lemma keeps_get_or_create:
  assumes "real_env le styled message"
  shows "keeps (library_ok cd R C styled ev cr) (get_or_create_swarm (library_fe le cr' t) sid)"
proof -
  have lock: "keeps I (le_lock le sw)" for I sw
    using real_envD(3) [OF assms] by (simp add: keeps_def)
  have make: "keeps (library_ok cd R C styled ev cr) (make_and_register (library_fe le cr' t) sid reg)" for reg
    unfolding make_and_register_def
    by (auto simp: library_fe_def intro!: keeps_intros keeps_at_world keeps_at_factory keeps_make_swarm keeps_reg_update)
  show ?thesis
    unfolding get_or_create_swarm_def
    by (auto simp: library_fe_def [of le] intro!: keeps_intros keeps_registry keeps_at_world lock make [unfolded library_fe_def])
qed

text \<open>The requests that the factory makes of the dispatcher.\<close>

lemma ops_keep_library:
  "ops_keep (world_ok styled ev cr) (log_ops (real_ops cd cr' (beside pf)))"
proof -
  have "ops_keep (\<lambda>(N, x). heap_ok (opens_ok ev) (store_ok (tells styled ev)) N
      \<and> (case x of (f, g) \<Rightarrow> (\<forall>u sid. map_of (fa_swarm_dbs f) u = Some sid \<longrightarrow> ev u) \<and> lg_crypto g = Some cr))
      (log_ops (real_ops cd cr' (beside pf)))"
    by (intro ops_keep_log client_store.kept_ops)
  then show ?thesis unfolding world_ok_def by (simp add: case_prod_unfold)
qed

text \<open>A request is signed as it is.\<close>

lemma signed_request:
  fixes h :: "('sw, 'r) library_handler"
  assumes "so_sign_and_date_request (log_ops (real_ops cd cr pf)) sw (empty_envelope\<lparr>env_payload :=
      P_database_msg (ser_msg cd (request_msg u k msg))\<rparr>) policy W = (Inr env, W')"
    and "lawful cd cr" "answers_to h u (dm_request msg)"
  shows "typed_request cd k env h"
proof -
  obtain H w x where W: "W = ((H, w), x)" by (metis prod.collapse)
  from assms(1) obtain S where "on_swarm sw (sign_and_date_request cd cr pf (empty_envelope\<lparr>env_payload :=
      P_database_msg (ser_msg cd (request_msg u k msg))\<rparr>) policy) (H, w) = (Inr env, S)"
    unfolding W by (auto simp: on_fst_def split: prod.splits)
  then obtain m where m: "env_payload env = P_database_msg (ser_msg cd m)" "same_request (request_msg u k msg) m"
    using sign_keeps_request assms(2) by (cases rule: on_swarm_cases) (force simp: lawful_def)+
  have "hd_nonce (dm_header m) = k" "hd_db_uuid (dm_header m) = u" "dm_request m = dm_request msg"
    using same_request_nonce [OF m(2)] same_request_uuid [OF m(2)] m(2)
    by (simp_all add: request_msg_def same_request_def)
  with m(1) assms(3) show ?thesis by (auto simp: typed_request_def)
qed

lemma request_signed:
  assumes "so_sign_and_date_request (log_ops (real_ops cd cr pf)) sw (empty_envelope\<lparr>env_payload :=
      P_database_msg (ser_msg cd (request_msg u k msg))\<rparr>) policy W = (Inr env, W')"
    and "handler_ok C h" "answers_to h u (dm_request msg)"
  shows "request_ok cd cr C k env h"
  using assms(2) signed_request [OF assms(1) _ assms(3)] by (simp add: request_ok_def)

lemma keeps_uuid_requests:
  assumes "real_env le styled message" "cd = le_codec le"
  shows "callback_ok C u cb \<Longrightarrow> keeps (library_ok cd R C styled ev cr)
      (has_uuid (fe_codec (library_fe le cr t)) (log_ops (fe_swarms (library_fe le cr t))) t' (fe_closure (library_fe le cr t))
         sw u (Found_in u sid k cb sw))"
    and "callback_uuid lc = u \<Longrightarrow> u \<in> C \<Longrightarrow> keeps (library_ok cd R C styled ev cr)
      (create_uuid (fe_codec (library_fe le cr t)) (log_ops (fe_swarms (library_fe le cr t))) t' (fe_closure (library_fe le cr t))
         sw u ms e (Created_in u sid ms e i lc sw))"
proof -
  have fe: "fe_codec (library_fe le cr t) = cd" "fe_swarms (library_fe le cr t) = real_ops cd cr (beside (le_platform le))"
    "fe_closure (library_fe le cr t) = Uuid_request"
    by (simp_all add: library_fe_def assms(2) real_envD(2) [OF assms(1)])
  have request: "keeps (library_ok cd R C styled ev cr) (send_message_to_swarm cd
      (log_ops (real_ops cd cr (beside (le_platform le)))) t' sw u msg Normal h)"
    if "handler_ok C h" "answers_to h u (dm_request msg)" for msg h
    unfolding library_ok_def
    by (rule keeps_send_message [OF ops_keep_library]) (rule request_signed [OF _ that])
  show "callback_ok C u cb \<Longrightarrow> keeps (library_ok cd R C styled ev cr)
      (has_uuid (fe_codec (library_fe le cr t)) (log_ops (fe_swarms (library_fe le cr t))) t' (fe_closure (library_fe le cr t))
         sw u (Found_in u sid k cb sw))"
    unfolding has_uuid_def fe
    by (intro keeps_intros request library_ok_world keeps_register_both ops_keep_library) simp_all
  show "callback_uuid lc = u \<Longrightarrow> u \<in> C \<Longrightarrow> keeps (library_ok cd R C styled ev cr)
      (create_uuid (fe_codec (library_fe le cr t)) (log_ops (fe_swarms (library_fe le cr t))) t' (fe_closure (library_fe le cr t))
         sw u ms e (Created_in u sid ms e i lc sw))"
    unfolding create_uuid_def fe
    by (intro keeps_intros request library_ok_world keeps_register_both ops_keep_library) simp_all
qed

lemma keeps_do_create_db:
  assumes "real_env le styled message" "cd = le_codec le" "callback_uuid cb = u" "u \<in> C"
  shows "keeps (library_ok cd R C styled ev cr) (do_create_db (library_fe le cr t) u ms e i cb)"
proof -
  have select: "keeps (library_ok cd R C styled ev cr) (at_factory (select_swarm_for_size i))"
    unfolding select_swarm_for_size_def the_registry_def by (intro keeps_at_factory keeps_intros)
  have callback: "keeps (library_ok cd R C styled ev cr) (fe_callback (library_fe le cr t) cb No_space None)"
    by (simp add: library_fe_def keeps_library_callback [OF assms(1)])
  show ?thesis
    unfolding do_create_db_def
    by (intro keeps_intros select callback keeps_get_or_create [OF assms(1)] keeps_uuid_requests(2) [OF assms])
qed

lemma keeps_run_callback:
  assumes "real_env le styled message" "cd = le_codec le" "callback_ok C u cb" "sw \<noteq> None \<longrightarrow> ev u"
  shows "keeps (library_ok cd R C styled ev cr) (run_callback (library_fe le cr t) cb err sw)"
proof (cases cb)
  case (Library_callback lc)
  with assms show ?thesis by (simp add: library_fe_def keeps_library_callback)
next
  case (Create_unless_found v ms e lc)
  with assms(3) have lc: "v = u" "callback_uuid lc = u" "u \<in> C" by simp_all
  have "keeps (library_ok cd R C styled ev cr) (fe_callback (library_fe le cr t) lc Already_exists None)"
    by (simp add: library_fe_def keeps_library_callback [OF assms(1)])
  with Create_unless_found lc show ?thesis
    by (auto intro!: keeps_intros keeps_registry keeps_do_create_db [OF assms(1,2)])
qed

text \<open>A response that confirms the database \<open>u\<close>.\<close>

definition confirms :: "database_response \<Rightarrow> uuid \<Rightarrow> bool" where
  "confirms r u \<longleftrightarrow> \<not> has_error (dr_reply r) \<and> get_has_db (dr_reply r) = (u, True)"

lemma keeps_uuid_handler:
  assumes "real_env le styled message" "cd = le_codec le" "closure_ok C h" "\<forall>u \<in> C. ev u" "\<And>u. confirms r u \<Longrightarrow> ev u"
  shows "keeps (library_ok cd R C styled ev cr) (run_uuid_handler (library_fe le cr t) h r No_error)"
proof (cases h)
  case (Has_uuid_reply u c)
  then obtain sid k cb sw where c: "c = Found_in u sid k cb sw" "callback_ok C u cb" using assms(3) by auto
  have found: "ev u" if "uuid_verdict (Has_uuid_reply u c) r No_error = Success"
    using that assms(5) [of u] by (auto simp: confirms_def prod_eq_iff split: if_splits)
  show ?thesis
    unfolding run_uuid_handler_def Has_uuid_reply c(1) uuid_callback.simps factory_reply.simps
    by (intro keeps_intros keeps_reg_update keeps_remember keeps_run_callback [OF assms(1,2) c(2)])
      (use found c(1) in simp_all)
next
  case (Create_uuid_reply u c)
  then obtain sid ms e i cb sw where c: "c = Created_in u sid ms e i cb sw" "callback_uuid cb = u" "u \<in> C"
    using assms(3) by auto
  then have u: "ev u" using assms(4) by blast
  have callback: "keeps (library_ok cd R C styled ev cr) (fe_callback (library_fe le cr t) cb err sw')" for err sw'
    by (simp add: library_fe_def) (rule keeps_library_callback [OF assms(1)], simp add: c(2) u)
  show ?thesis
    unfolding run_uuid_handler_def Create_uuid_reply c(1) uuid_callback.simps factory_reply.simps
    by (intro keeps_intros callback keeps_remember u keeps_do_create_db [OF assms(1,2) c(2,3)])
qed

lemma keeps_library_handler:
  assumes "real_env le styled message" "cd = le_codec le" "handler_ok C h" "\<forall>u \<in> C. ev u" "\<And>u. confirms r u \<Longrightarrow> ev u"
  shows "keeps (library_ok cd R C styled ev cr) (run_library_handler le h r No_error)"
proof (cases h)
  case (Uuid_request uh)
  with assms(3) have "closure_ok C uh" by simp
  then show ?thesis
    unfolding Uuid_request run_library_handler.simps
    by (intro keeps_with_factory keeps_uuid_handler [OF assms(1,2)] assms(4,5))
next
  case (Database_request rh)
  obtain sys where api: "le_api le = udp_api styled message sys" using real_envD(4) [OF assms(1)] by blast
  have "tells styled ev (styled (error_json m))" "tells styled ev (styled (value_json k v))" for m k v
    by (auto intro!: tells_other [OF real_envD(1) [OF assms(1)]] simp: jfield_value_json)
  then have "keeps (texts_ok (tells styled ev)) (run_reply (le_api le) rh r No_error)"
    by (auto simp: api run_reply_eq reply_outcome_def intro!: texts_complete split: option.split)
  with Database_request show ?thesis by (simp add: keeps_at_responses)
qed

lemma keeps_factory_has_db:
  assumes "real_env le styled message" "cd = le_codec le" "callback_ok C u cb"
  shows "keeps (library_ok cd R C styled ev cr) (factory_has_db (library_fe le cr t) u cb)"
  unfolding factory_has_db_def
proof (rule keeps_gets_factory, unfold id_apply)
  fix d N f and g :: library_globals
  assume ok: "library_ok cd R C styled ev cr (d, (N, (f, g)))"
  have ask: "keeps (library_ok cd R C styled ev cr) (ask_swarm (library_fe le cr t) u k cb sid)" for k sid
    unfolding ask_swarm_def
    by (intro keeps_intros keeps_get_or_create [OF assms(1)] keeps_uuid_requests(1) [OF assms])
  have found: "keeps (library_ok cd R C styled ev cr) (run_callback (library_fe le cr t) cb Success (Some sw))"
    if "map_of (fa_swarm_dbs f) u = Some sid" for sid sw
    by (intro keeps_run_callback [OF assms]) (use library_ok_dbs [OF ok that] in simp)
  show "keeps (library_ok cd R C styled ev cr) (if \<not> fa_initialized f then raise Assert_fails
     else case map_of (fa_swarm_dbs f) u of
       Some sid \<Rightarrow> sbind (get_or_create_swarm (library_fe le cr t) sid)
         (\<lambda>sw. run_callback (library_fe le cr t) cb Success (Some sw))
     | None \<Rightarrow> sbind (at_factory the_registry) (\<lambda>reg.
         andthen (at_factory (modify (\<lambda>f. f\<lparr>fa_counters := fa_counters f @ [of_nat (length (reg_get_swarms reg))]\<rparr>)))
         (for_each (reg_get_swarms reg) (ask_swarm (library_fe le cr t) u (length (fa_counters f)) cb))))"
    by (intro keeps_intros keeps_get_or_create [OF assms(1)] found keeps_registry keeps_reg_update ask)
qed

section \<open>Events\<close>

text \<open>The messages that a swarm hands to a handler: they parse, and are unsigned or verify.\<close>

definition accepted :: "codec \<Rightarrow> crypto_ops \<Rightarrow> string \<Rightarrow> envelope \<Rightarrow> bool" where
  "accepted cd cr data env \<longleftrightarrow> par_envelope cd data = Some env
     \<and> (env_signature env = [] \<or> co_verify cr env = Inr True)"

text \<open>Every value that a program returns has the property \<open>P\<close>.\<close>

definition returns_only :: "('a \<Rightarrow> bool) \<Rightarrow> ('s, 'a) prog \<Rightarrow> bool" where
  "returns_only P m \<longleftrightarrow> (\<forall>s a s'. m s = (Inr a, s') \<longrightarrow> P a)"

lemma returns_only_sbind: "(\<And>a. returns_only P (k a)) \<Longrightarrow> returns_only P (sbind m k)"
  unfolding returns_only_def by (auto elim!: sbind_cases)

lemma returns_only_intros:
  "P a \<Longrightarrow> returns_only P (ret a)"
  "returns_only P k \<Longrightarrow> returns_only P (andthen m k)"
  "(b \<Longrightarrow> returns_only P m1) \<Longrightarrow> (\<not> b \<Longrightarrow> returns_only P m2) \<Longrightarrow> returns_only P (if b then m1 else m2)"
  "(x = None \<Longrightarrow> returns_only P n) \<Longrightarrow> (\<And>y. x = Some y \<Longrightarrow> returns_only P (f y)) \<Longrightarrow>
     returns_only P (case x of None \<Rightarrow> n | Some y \<Rightarrow> f y)"
  unfolding andthen_def by (simp_all add: returns_only_sbind split: option.split) (simp add: returns_only_def)

lemma screen_accepts:
  "returns_only (\<lambda>r. \<forall>h env. r = Inr (h, env) \<longrightarrow> accepted cd cr data env) (screen_node_message cd cr pf u data)"
proof -
  let ?P = "\<lambda>r. \<forall>h env. r = Inr (h, env) \<longrightarrow> accepted cd cr data env"
  have verified: "returns_only ?P (sbind (if env_signature env = [] then ret True else lift_cxx (co_verify cr env))
      (\<lambda>authentic. if \<not> authentic then ret (Inl True) else k))"
    if "accepted cd cr data env \<Longrightarrow> returns_only ?P k" "par_envelope cd data = Some env" for env k
    using that unfolding returns_only_def
    by (cases "co_verify cr env") (auto simp: accepted_def sbind_apply split: if_splits)
  show ?thesis
    unfolding screen_node_message_def Let_def
    by (intro returns_only_sbind returns_only_intros verified) (auto split: option.splits)
qed

text \<open>What counts as evidence for a database: that it is in \<open>C\<close>, or a response of a quorum.\<close>

definition evidence_in :: "codec \<Rightarrow> envelope set \<Rightarrow> uuid set \<Rightarrow> nat \<Rightarrow> uuid \<Rightarrow> bool" where
  "evidence_in cd R C n u \<longleftrightarrow> u \<in> C \<or> (\<exists>r. backed cd R n r \<and> confirms r u)"

abbreviation library_inv ::
  "codec \<Rightarrow> envelope set \<Rightarrow> uuid set \<Rightarrow> nat \<Rightarrow> (json \<Rightarrow> string) \<Rightarrow> crypto_ops
     \<Rightarrow> ('sw, 'n, 't, nat, 'w, nat response_heap) full_state \<Rightarrow> bool" where
  "library_inv cd R C n styled cr \<equiv> library_ok cd R C styled (evidence_in cd R C n) cr"

lemma timeout_confirms_nothing [simp]: "\<not> confirms timeout_response u"
  by (simp add: confirms_def timeout_response_def)

lemma with_crypto_run:
  assumes "library_ok cd R C styled ev cr S" "with_crypto body S = (x, S')"
    and "body cr S = (x, S') \<Longrightarrow> library_ok cd R C styled ev cr S'"
  shows "library_ok cd R C styled ev cr S'"
proof -
  obtain d N f g where S: "S = (d, (N, (f, g)))" by (metis prod.collapse)
  have "lg_crypto g = Some cr" using assms(1) S by (simp add: library_ok_crypto)
  then have "with_crypto body S = body cr S" by (simp add: with_crypto_def S sbind_apply)
  with assms(2,3) show ?thesis by simp
qed

lemma keeps_library_response:
  assumes "real_env le styled message" "\<And>r t. keeps (library_ok cd R C styled ev cr) (body r (library_fe le cr t))"
  shows "keeps (library_ok cd R C styled ev cr) (library_response le body)"
proof -
  obtain sys where "le_api le = udp_api styled message sys" using real_envD(4) [OF assms(1)] by blast
  then have "keeps (texts_ok (tells styled ev)) (ra_make (le_api le))"
    by (simp add: texts_make tells_empty [OF real_envD(1) [OF assms(1)]])
  then show ?thesis
    unfolding library_response_def
    by (intro keeps_intros keeps_at_globals keeps_at_responses keeps_with_factory assms(2))
qed

lemma keeps_at_client:
  assumes "keeps (dispatch_ok cd R (request_ok cd cr C) (\<lambda>(Hw, q). heap_ok (opens_ok ev) (\<lambda>_. True) Hw \<and> texts_ok (tells styled ev) q)) m"
  shows "keeps (library_ok cd R C styled ev cr) (at_client m)"
proof (rule keepsI)
  fix S x S'
  assume S: "library_ok cd R C styled ev cr S" and run: "at_client m S = (x, S')"
  obtain d H w dbs q f g where parts: "S = (d, ((H, (w, (dbs, q))), (f, g)))" by (metis prod.collapse)
  obtain y d' H' w' q' where m: "m (d, ((H, w), q)) = (y, (d', ((H', w'), q')))" by (metis prod.collapse)
  with run parts have S': "S' = (d', ((H', (w', (dbs, q'))), (f, g)))" by (simp add: at_client_def)
  have "dispatch_ok cd R (request_ok cd cr C) (\<lambda>(Hw, q). heap_ok (opens_ok ev) (\<lambda>_. True) Hw \<and> texts_ok (tells styled ev) q) (d, ((H, w), q))"
    using S parts by (auto simp: library_ok_def dispatch_ok_def world_ok_def heap_ok_def store_ok_def)
  from keepsD [OF assms this m] show "library_ok cd R C styled ev cr S'"
    using S parts S' by (auto simp: library_ok_def dispatch_ok_def world_ok_def heap_ok_def store_ok_def)
qed

lemma keeps_database_call:
  assumes "real_env le styled message" "cd = le_codec le"
  shows "keeps (library_ok cd R C styled ev cr) (at_client (start_call (db_env le cr t) adb c))"
proof -
  obtain sys where api: "le_api le = udp_api styled message sys" using real_envD(4) [OF assms(1)] by blast
  let ?W = "\<lambda>(Hw, q). heap_ok (opens_ok ev) (\<lambda>_. True) Hw \<and> texts_ok (tells styled ev) q"
  have ops: "ops_keep ?W (log_ops (real_ops (le_codec le) cr (le_platform le)))"
    by (intro ops_keep_log alone.kept_ops)
  have send: "keeps (dispatch_ok cd R (request_ok cd cr C) ?W)
      (send_with (db_env le cr t) adb (call_request c) policy (Reply resp (call_kind c)))" for policy resp
    unfolding send_with_def db_env_def database_env.simps
    unfolding assms(2)
    by (rule keeps_send_message [OF ops], rule request_signed) (auto simp: database_msg_of_def)
  have "keeps (texts_ok (tells styled ev)) (ra_make (le_api le))"
    by (simp add: api texts_make tells_empty [OF real_envD(1) [OF assms(1)]])
  then have "keeps ?W (on_snd (ra_make (le_api le)))"
    by (intro keeps_on_snd) (auto simp: keeps_def)
  then have make: "keeps (dispatch_ok cd R (request_ok cd cr C) ?W) (on_snd (on_snd (ra_make (de_api (db_env le cr t)))))"
    by (intro dispatch_ok_world) (simp add: db_env_def)
  show ?thesis
    unfolding start_call_eq with_response_def by (intro keeps_at_client keeps_intros make send)
qed

lemma relay_keeps:
  assumes env: "real_env le styled message" and cd: "cd = le_codec le"
    and ok: "library_inv cd R C n styled cr (d, X)" and quorum: "quorums_at_least n d" and R: "env \<in> R"
    and run: "library_relay le cr' sw h relay env (d, X) = (x, S')"
  shows "library_inv cd R C n styled cr S'"
proof (cases h)
  case On_status_response
  let ?ev = "evidence_in cd R C n"
  have "keeps (swarm_ok (opens_ok ?ev) (store_ok (tells styled ?ev)))
      (handle_status_response (le_codec le) (le_json le) cr' (beside (le_platform le)) (run_opened le) relay env)"
    by (intro client_store.kept_status_response keeps_run_opened [OF env]) simp
  then have "keeps (library_inv cd R C n styled cr) (library_relay le cr' sw h relay env)"
    by (simp add: library_relay_def On_status_response keeps_at_world keeps_on_swarm)
  then show ?thesis using ok run by (rule keepsD)
next
  case On_database_response
  have handler: "keeps (dispatch_ok cd R (request_ok cd cr C) (world_ok styled (evidence_in cd R C n) cr))
      (run_library_handler le h r No_error)" if "request_ok cd cr C k env' h" "backed cd R n r" for k env' h r
    using keeps_library_handler [OF env cd, of C h "evidence_in cd R C n" r R cr] that
    by (auto simp: evidence_in_def library_ok_def request_ok_def)
  have response: "handle_swarm_response cd (run_library_handler le) env (d, X) = (x, S')"
    using run by (simp add: library_relay_def On_database_response cd)
  from ok show ?thesis
    unfolding library_ok_def by (rule response_keeps [OF _ quorum R handler response])
next
  case On_swarm_error
  with run have "handle_swarm_error (le_codec le) env (d, X) = (x, S')" by (simp add: library_relay_def)
  with error_keeps ok show ?thesis unfolding library_ok_def by (rule keepsD)
qed

text \<open>Every event but a message keeps the invariant from any state.\<close>

lemma other_event_keeps:
  assumes env: "real_env le styled message" and cd: "cd = le_codec le"
    and "\<And>u ms b. e = Api_create_db u ms b \<Longrightarrow> u \<in> C" "\<And>sw relay data. e \<noteq> Node_message sw relay data"
  shows "keeps (library_inv cd R C n styled cr) (run_event le e)"
proof -
  let ?I = "library_inv cd R C n styled cr"
  have crypto: "keeps ?I (with_crypto body)" if "keeps ?I (body cr)" for body
    by (rule keepsI) (metis with_crypto_run keepsD that)
  have has_db: "keeps ?I (library_response le (\<lambda>r fe. factory_has_db fe u (cb r)))" if "\<And>r. callback_ok C u (cb r)" for u cb
    by (intro keeps_library_response [OF env] keeps_factory_has_db [OF env cd that])
  have ops: "ops_keep (world_ok styled (evidence_in cd R C n) cr) (log_ops (real_ops (le_codec le) cr' (beside (le_platform le))))"
    for cr' by (rule ops_keep_library)
  show ?thesis
  proof (cases e)
    case (Api_create_db u ms b)
    then have "u \<in> C" using assms(3) by blast
    then show ?thesis
      unfolding Api_create_db run_event.simps async_create_db_def factory_create_db_def
      by (intro keeps_intros keeps_library_response [OF env] keeps_at_factory keeps_factory_has_db [OF env cd]) simp
  next
    case (Client_expired ec nonce)
    have "keeps ?I (run_library_handler le h timeout_response No_error)" if "handler_ok C h" for h
      by (rule keeps_library_handler [OF env cd that]) (simp_all add: evidence_in_def)
    then show ?thesis
      unfolding Client_expired run_event.simps library_ok_def
      by (intro client_timeout_keeps) (simp add: library_ok_def request_ok_def)
  next
    case (Retry_expired ec nonce)
    show ?thesis
      unfolding Retry_expired run_event.simps
      by (intro crypto) (simp add: library_ok_def retry_keeps ops)
  next
    case (Api_set_timeout seconds)
    show ?thesis
      unfolding Api_set_timeout run_event.simps set_timeout_def by (intro keeps_at_globals keeps_modify) simp
  qed (use assms(4) in \<open>auto simp: async_has_db_def async_open_db_def intro!: crypto keeps_intros has_db
      keeps_at_globals keeps_at_databases keeps_database_call [OF env cd] keeps_at_world keeps_on_swarm
      client_store.kept_send_result client_store.kept_status_timer\<close>)
qed

lemma event_keeps:
  assumes env: "real_env le styled message" and cd: "cd = le_codec le"
    and ok: "library_inv cd R C n styled cr (d, X)" and quorum: "quorums_at_least n d"
    and created: "\<And>u ms b. e = Api_create_db u ms b \<Longrightarrow> u \<in> C"
    and received: "\<And>sw relay data m. e = Node_message sw relay data \<Longrightarrow> accepted cd cr data m \<Longrightarrow> m \<in> R"
    and run: "run_event le e (d, X) = (x, S')"
  shows "library_inv cd R C n styled cr S'"
proof (cases e)
  case (Node_message sw relay data)
  let ?I = "library_inv cd R C n styled cr"
  let ?zoom = "\<lambda>m. at_world (on_swarm sw m) :: ('a, 'b, 'c, nat, 'd, nat response_heap, _) full_prog"
  have node: "?I S'"
    if handled: "sbind (handle_node_message (le_codec le) cr (beside (le_platform le)) ?zoom (library_relay le cr sw) relay data)
          (\<lambda>_. ret ()) (d, X) = (x, S')"
  proof -
    obtain r S1 where screen: "?zoom (screen_node_message cd cr (beside (le_platform le)) relay data) (d, X) = (r, S1)"
      by (metis surj_pair)
    have "keeps ?I (?zoom (screen_node_message cd cr (beside (le_platform le)) relay data))"
      by (intro keeps_at_world keeps_on_swarm client_store.kept_screen)
    from keepsD [OF this ok screen] have ok1: "?I S1" .
    obtain X1 where S1: "S1 = (d, X1)" using screen by (auto simp: at_world_def on_snd_def split: prod.splits)
    show ?thesis
    proof (cases r)
      case (Inr v)
      show ?thesis
      proof (cases v)
        case (Inr he)
        obtain h m where he: "he = (h, m)" by fastforce
        have "returns_only (\<lambda>r. \<forall>h m. r = Inr (h, m) \<longrightarrow> accepted cd cr data m)
            (?zoom (screen_node_message cd cr (beside (le_platform le)) relay data))"
          using screen_accepts [of cd cr data "beside (le_platform le)" relay]
          by (fastforce simp: returns_only_def at_world_def on_snd_def on_fst_def on_swarm_def split: prod.splits option.splits)
        with screen \<open>r = Inr v\<close> Inr he have "accepted cd cr data m" unfolding returns_only_def by blast
        then have "m \<in> R" using received Node_message by blast
        moreover obtain y where "library_relay le cr sw h relay m (d, X1) = (y, S')"
          using handled screen \<open>r = Inr v\<close> Inr he S1
          by (auto simp: handle_node_message_def sbind_apply cd [symmetric] split: prod.splits sum.splits)
        ultimately show ?thesis using relay_keeps [OF env cd _ quorum] ok1 S1 by blast
      qed (use handled screen \<open>r = Inr v\<close> ok1 in \<open>auto simp: handle_node_message_def sbind_apply cd [symmetric]\<close>)
    qed (use handled screen ok1 in \<open>auto simp: handle_node_message_def sbind_apply cd [symmetric]\<close>)
  qed
  show ?thesis
    using run unfolding Node_message run_event.simps by (rule with_crypto_run [OF ok _ node])
qed (use keepsD [OF other_event_keeps [OF env cd created] ok run] in auto)

section \<open>Sessions\<close>

text \<open>The invariant grows with the messages and the databases.\<close>

lemma library_inv_mono:
  assumes "library_inv cd R C n styled cr S" "R \<subseteq> R'" "C \<subseteq> C'"
  shows "library_inv cd R' C' n styled cr S"
proof -
  obtain d H w dbs q f g where S: "S = (d, ((H, (w, (dbs, q))), (f, g)))" by (metis prod.collapse)
  have ev: "evidence_in cd R C n u \<Longrightarrow> evidence_in cd R' C' n u" for u
    using assms(2,3) backed_mono by (auto simp: evidence_in_def)
  have callback: "callback_ok C u cb \<Longrightarrow> callback_ok C' u cb" for u cb
    using assms(3) by (cases cb) auto
  have handler: "handler_ok C h \<Longrightarrow> handler_ok C' h" for h
  proof (cases h)
    case (Uuid_request uh)
    then show "handler_ok C h \<Longrightarrow> handler_ok C' h" using callback assms(3) by (cases uh) auto
  qed simp
  have "request_ok cd cr C k env h \<Longrightarrow> request_ok cd cr C' k env h" for k env h
    by (auto simp: request_ok_def intro: handler)
  moreover have opens: "opens_ok (evidence_in cd R C n) h \<Longrightarrow> opens_ok (evidence_in cd R' C' n) h" for h
    by (auto simp: opens_ok_def ev)
  ultimately show ?thesis
    using assms(1) ev heard_mono [OF _ assms(2)] unfolding S
    by (auto simp: library_ok_def dispatch_ok_def waiting_ok_def world_ok_def heap_ok_def store_ok_def
        texts_ok_def tells_def elim!: init_ok_mono opens) blast+
qed

definition received :: "codec \<Rightarrow> crypto_ops \<Rightarrow> 'sw library_event list \<Rightarrow> envelope set" where
  "received cd cr es = {m. \<exists>sw relay data. Node_message sw relay data \<in> set es \<and> accepted cd cr data m}"

definition created :: "'sw library_event list \<Rightarrow> uuid set" where
  "created es = {u. \<exists>ms b. Api_create_db u ms b \<in> set es}"

text \<open>The state after the initialization, with the objects of the client yet to be made.\<close>

definition fresh_library :: "crypto_ops \<Rightarrow> ('sw, 'n, 't, nat, 'w, nat response_heap) full_state \<Rightarrow> bool" where
  "fresh_library cr S \<longleftrightarrow> (\<exists>w f g. S = (new_dispatch, (((\<lambda>_. None), (w, ([], []))), (f, g)))
     \<and> fa_swarm_dbs f = [] \<and> lg_crypto g = Some cr)"

lemma fresh_library_inv:
  assumes "readable styled" "fresh_library cr S"
  shows "library_inv cd R C n styled cr S"
  using assms(2) tells_empty [OF assms(1)]
  by (auto simp: fresh_library_def library_ok_def dispatch_ok_def waiting_ok_def world_ok_def heap_ok_def store_ok_def
      texts_ok_def content_def)

lemma initialize_local_fresh:
  assumes "initialize_local le pub priv endpoint nid sid (d, (((\<lambda>_. None), (w, ([], []))), (f, g))) = (Inr True, S)"
    and "\<not> lg_initialized g" "lg_io_thread g \<noteq> Io_running"
  shows "fresh_library (new_crypto (le_ossl le) priv) S"
proof (cases "\<exists>h p. endpoint_of (le_port le) endpoint h p")
  case True
  then obtain h p where "endpoint_of (le_port le) endpoint h p" by blast
  note parse = parse_endpoint_accepts [OF this]
  from assms show ?thesis
    by (auto simp: initialize_local_def catch_all_def andthen_apply sbind_apply common_init_run parse
        initialize_nodes_def fresh_library_def new_factory_def)
next
  case False
  note parse = parse_endpoint_rejects [OF False]
  from assms show ?thesis
    by (auto simp: initialize_local_def catch_all_def andthen_apply sbind_apply common_init_run parse stop_io_def)
qed

lemma session_inv:
  assumes "library_session le n es S S'" "real_env le styled message" "cd = le_codec le"
    and "library_inv cd {} {} n styled cr S"
  shows "library_inv cd (received cd cr es) (created es) n styled cr S'"
  using assms
proof (induction rule: library_session.induct)
  case (Session_start S)
  then show ?case by (simp add: received_def created_def)
next
  case (Session_step es S S1 e x S2)
  let ?R = "received cd cr (es @ [e])" and ?C = "created (es @ [e])"
  obtain d X where S1: "S1 = (d, X)" by (cases S1)
  have "received cd cr es \<subseteq> ?R" "created es \<subseteq> ?C" by (auto simp: received_def created_def)
  with Session_step have inv: "library_inv cd ?R ?C n styled cr (d, X)"
    using library_inv_mono S1 by blast
  obtain y S3 where ev: "run_event le e (d, X) = (y, S3)" by (metis surj_pair)
  have "S2 = S3"
    using Session_step(3) ev S1 by (auto simp: library_step_def catch_all_def split: sum.splits cxx_fault.splits if_splits)
  moreover have "library_inv cd ?R ?C n styled cr S3"
  proof (rule event_keeps [OF Session_step.prems(1,2) inv _ _ _ ev])
    show "quorums_at_least n d" using Session_step.hyps(2) S1 by simp
    show "u \<in> ?C" if "e = Api_create_db u ms b" for u ms b using that by (auto simp: created_def)
    show "m \<in> ?R" if "e = Node_message sw relay data" "accepted cd cr data m" for sw relay data m
      using that by (auto simp: received_def)
  qed
  ultimately show ?case by simp
qed

lemma confirms_is_has_db:
  assumes "confirms r u" "responses_are_equal cd r' r"
  shows "\<not> has_quick_read (dr_reply r')"
  using assms by (cases "dr_reply r"; cases "dr_reply r'") (auto simp: confirms_def responses_are_equal_def)

text \<open>
  C4. End to end: after any session of the whole library, when the text of a response confirms a
  database that the client did not ask to create in the session, then nodes of a quorum have said so: at least \<open>n\<close>
  distinct senders, where every request of the session needed \<open>n\<close> equal responses, sent equal
  responses that confirm the database, in messages whose signatures verified.  For a database
  that it asked to create this need not hold: the reply to a create request counts every answer
  that is not an error as a success, whatever it says.
\<close>

theorem confirmed_database_has_quorum:
  assumes "real_env le styled message" "fresh_library cr S"
    and "library_session le n es S (d, ((H, (w, (dbs, q))), (f, g)))"
    and "content q r = styled (result_json 1 u)" "u \<notin> created es"
  shows "\<exists>rsp senders. confirms rsp u \<and> finite senders \<and> n \<le> card senders
    \<and> (\<forall>s \<in> senders. \<exists>sw relay data m rsp'. Node_message sw relay data \<in> set es
         \<and> par_envelope (le_codec le) data = Some m \<and> env_sender m = s
         \<and> env_signature m \<noteq> [] \<and> co_verify cr m = Inr True
         \<and> par_response (le_codec le) (get_database_response (env_payload m)) = Some rsp'
         \<and> responses_are_equal (le_codec le) rsp' rsp)"
proof -
  let ?cd = "le_codec le"
  have "library_inv ?cd (received ?cd cr es) (created es) n styled cr (d, ((H, (w, (dbs, q))), (f, g)))"
    by (rule session_inv [OF assms(3,1)]) (simp_all add: fresh_library_inv [OF real_envD(1) [OF assms(1)] assms(2)])
  then have "tells styled (evidence_in ?cd (received ?cd cr es) (created es) n) (content q r)"
    by (auto simp: library_ok_def dispatch_ok_def world_ok_def heap_ok_def store_ok_def texts_ok_def)
  with assms(4,5) obtain rsp where rsp: "backed ?cd (received ?cd cr es) n rsp" "confirms rsp u"
    by (auto simp: tells_def evidence_in_def)
  then obtain senders where senders: "finite senders" "n \<le> card senders"
    "\<forall>s \<in> senders. \<exists>r'. heard ?cd (received ?cd cr es) s r' \<and> responses_are_equal ?cd r' rsp"
    by (auto simp: backed_def)
  have "\<forall>s \<in> senders. \<exists>sw relay data m rsp'. Node_message sw relay data \<in> set es
         \<and> par_envelope ?cd data = Some m \<and> env_sender m = s
         \<and> env_signature m \<noteq> [] \<and> co_verify cr m = Inr True
         \<and> par_response ?cd (get_database_response (env_payload m)) = Some rsp'
         \<and> responses_are_equal ?cd rsp' rsp"
    using senders(3) confirms_is_has_db [OF rsp(2)] by (fastforce simp: heard_def received_def accepted_def)
  with rsp(2) senders(1,2) show ?thesis by blast
qed

text \<open>
  C18. The callbacks fit the requests: after any session every outstanding request is a message with
  the nonce it is stored under, and its handler is the one for that kind of request, database and
  parameters; the closure in a handler of the factory, the factory's callback in it and the library's
  callback in that are all for the database of the request, and a request to create one was asked for
  by the client.
\<close>

theorem outstanding_requests_are_typed:
  assumes "real_env le styled message" "fresh_library cr S" "lawful (le_codec le) cr"
    and "library_session le n es S (d, X)" "find_message d k = Some info"
  shows "typed_request (le_codec le) k (mi_request info) (mi_handler info)
    \<and> handler_ok (created es) (mi_handler info)"
proof -
  let ?cd = "le_codec le"
  have "library_inv ?cd (received ?cd cr es) (created es) n styled cr (d, X)"
    by (rule session_inv [OF assms(4,1)]) (simp_all add: fresh_library_inv [OF real_envD(1) [OF assms(1)] assms(2)])
  with assms(3,5) show ?thesis by (auto simp: library_ok_def dispatch_ok_def waiting_ok_def request_ok_def)
qed

section \<open>A sample session\<close>

text \<open>
  Texts that show the two members, a codec in which every message is a signed confirmation of the
  database ``u'' in answer to request 1, and a library with one swarm of one node.
\<close>

definition confirm_text :: "json \<Rightarrow> string" where
  "confirm_text j = (case jfield ''uuid'' j of
       Some (JString u) \<Rightarrow> if jfield ''result'' j = Some (JInt 1) then CHR ''1'' # u else ''0''
     | _ \<Rightarrow> ''0'')"

lemma confirm_text_readable: "readable confirm_text"
  by (auto simp: readable_def confirm_text_def split: option.splits json.splits if_splits)

definition confirm_message :: envelope where
  "confirm_message = empty_envelope\<lparr>env_sender := ''a'', env_signature := ''x'', env_payload := P_database_response ''v''\<rparr>"

definition confirm_response :: database_response where
  "confirm_response = \<lparr>dr_header = empty_header\<lparr>hd_nonce := 1\<rparr>, dr_reply = Rsp_has_db ''u'' True\<rparr>"

definition confirm_cd :: codec where
  "confirm_cd = roundtrip_cd\<lparr>par_response := (\<lambda>t. Some confirm_response), par_envelope := (\<lambda>t. Some confirm_message)\<rparr>"

definition confirm_library :: "(nat, nat, nat, nat, nat, nat response_heap) full_env" where
  "confirm_library = \<lparr>le_codec = confirm_cd, le_json = values_json (\<lambda>t. None) (\<lambda>j. ''json''),
     le_ossl = key_ossl, le_platform = sample_pf,
     le_esr = \<lparr>ee_http = (\<lambda>url req. raise (Throws ''no route'')), ee_write = (\<lambda>j. ''json''),
       ee_parse = (\<lambda>t. None), ee_result = (\<lambda>j. Inr [])\<rparr>,
     le_api = udp_api confirm_text (\<lambda>ec. ''message'') (3, 0, Some 4000),
     le_get_result = (\<lambda>r. on_response r get_result), le_get_error = (\<lambda>r. on_response r get_error),
     le_get_db = (\<lambda>r. on_response r get_db), le_fresh = (\<lambda>H. 7), le_lock = (\<lambda>sw. ret False),
     le_port = (\<lambda>t. Some 80), le_closure = Uuid_request\<rparr>"

lemma confirm_library_real: "real_env confirm_library confirm_text (\<lambda>ec. ''message'')"
  by (simp add: real_env_def udp_library_def confirm_text_readable lock_is_pure_def)
    (auto simp: confirm_library_def)

definition confirm_factory :: "nat swarm_factory" where
  "confirm_factory = (new_factory ''me'')\<lparr>fa_initialized := True,
     fa_swarm_reg := Some [(''s'', \<lparr>si_nodes = [(''a'', sample_address)], si_swarm = None\<rparr>)]\<rparr>"

definition confirm_globals :: library_globals where
  "confirm_globals = initial_globals\<lparr>lg_initialized := True, lg_crypto := Some null_crypto, lg_has_factory := True\<rparr>"

definition confirm_start :: "(nat, nat, nat, nat, nat, nat response_heap) full_state" where
  "confirm_start = (new_dispatch, (((\<lambda>_. None), (7, ([], []))), (confirm_factory, confirm_globals)))"

text \<open>After the call of \<open>has_db\<close>: the request is out.\<close>

definition confirm_msg :: database_msg where
  "confirm_msg = \<lparr>dm_header = \<lparr>hd_db_uuid = ''u'', hd_nonce = 1, hd_point_of_contact = [], hd_request_hash = []\<rparr>,
     dm_request = Req_has_db\<rparr>"

definition confirm_request :: "(nat, (nat, nat) library_handler) msg_info" where
  "confirm_request = \<lparr>mi_swarm = 7, mi_request = empty_envelope\<lparr>env_swarm_id := ''s'', env_sender := ''me'',
       env_timestamp := 7, env_payload := P_database_msg (ser_msg roundtrip_cd confirm_msg)\<rparr>,
     mi_policy = Normal, mi_responses_required = 1, mi_retry_timer = Some (Armed REQUEST_RETRY_TIME),
     mi_timeout_timer = Some (Armed (1000 * DEFAULT_TIMEOUT)), mi_responses = [],
     mi_handler = Uuid_request (Has_uuid_reply ''u'' (Found_in ''u'' ''s'' 0 (Library_callback (Has_db_done 0 ''u'')) 7))\<rparr>"

definition confirm_swarm :: "(nat, nat, nat open_handler) swarm" where
  "confirm_swarm = (new_swarm ''s'' ''me'' [])\<lparr>sw_response_handlers := [(12, On_database_response), (20, On_swarm_error)],
     sw_nodes := Some [(''a'', empty_info\<lparr>ni_node := Some 7, ni_host := pa_host sample_address,
       ni_port := pa_port sample_address, ni_status_timer := Some 8\<rparr>)],
     sw_generation := 1, sw_fastest_node := ''a'', sw_primary_node := ''a''\<rparr>"

definition confirm_middle :: "(nat, nat, nat, nat, nat, nat response_heap) full_state" where
  "confirm_middle = (set_message 1 confirm_request \<lparr>next_nonce = 2, messages = []\<rparr>,
     (((\<lambda>_. None)(7 \<mapsto> confirm_swarm), (9, ([],
       [\<lparr>my_id = 4000, their_id = 0, result_str = [], resp_db = None, error_val = 0, deferred_signal = False,
          prom = None, future_taken = False, datagrams = []\<rparr>]))),
      (confirm_factory\<lparr>fa_swarm_reg := Some [(''s'', \<lparr>si_nodes = [(''a'', sample_address)], si_swarm = Some 7\<rparr>)],
         fa_counters := [1]\<rparr>, confirm_globals)))"

lemmas library_run_simps = library_step_def catch_all_def library_response_def with_factory_def library_fe_def
  make_response_def new_udp_response_def factory_has_db_def the_registry_def reg_get_swarms_def ask_swarm_def
  get_or_create_swarm_def reg_get_swarm_def make_and_register_def reg_get_nodes_def reg_set_swarm_def make_swarm_def
  has_uuid_def register_swarm_handler_def on_swarm_def beside_def send_message_to_swarm_def setup_request_policy_def
  setup_client_timeout_def majority_of_def new_dispatch_def new_factory_def initial_globals_def

lemma confirm_step1: "library_step confirm_library (Api_has_db ''u'') confirm_start = (Inr (), confirm_middle)"
  by (simp add: async_has_db_def library_run_simps confirm_start_def sbind_apply andthen_apply confirm_globals_def
      confirm_library_def confirm_factory_def register_response_handler_def,
    simp add: library_run_simps swarm_run_simps sample_defs confirm_cd_def confirm_middle_def confirm_request_def
      confirm_msg_def request_msg_def empty_header_def msg_roundtripD [OF roundtrip_cd]
      confirm_swarm_def confirm_factory_def confirm_globals_def)

lemma confirm_step2:
  "\<exists>d H w q f g. library_step confirm_library (Node_message 7 ''a'' ''d'') confirm_middle =
     (Inr (), (d, ((H, (w, ([], q))), (f, g)))) \<and> content q 0 = confirm_text (result_json 1 ''u'')"
  by (simp add: library_run_simps confirm_middle_def with_crypto_def confirm_globals_def handle_node_message_def
      sbind_apply confirm_swarm_def swarm_run_simps confirm_library_def confirm_cd_def confirm_message_def sample_defs,
    simp add: library_relay_def handle_swarm_response_def confirm_response_def confirm_cd_def confirm_library_def
      dispatch_run_simps confirm_request_def sbind_apply andthen_apply,
    simp add: library_run_simps run_uuid_handler_def count_down_def remember_db_def confirm_factory_def sbind_apply
      andthen_apply Let_def reply_with_def mr_set_ready_def udp_ops_def on_response_def set_result_def set_error_def
      set_value_def signal_def content_def)

lemma confirm_start_fresh: "fresh_library null_crypto confirm_start"
  by (simp add: fresh_library_def confirm_start_def confirm_factory_def confirm_globals_def new_factory_def)

lemma confirm_session1: "library_session confirm_library 1 [Api_has_db ''u''] confirm_start confirm_middle"
proof -
  have "quorums_at_least 1 (fst confirm_start)"
    by (simp add: quorums_at_least_def confirm_start_def find_message_def new_dispatch_def)
  from Session_step [OF Session_start this confirm_step1] show ?thesis by simp
qed

lemma confirmed_database_has_quorum_witness:
  "\<exists>S' d H w q f g. library_session confirm_library 1 [Api_has_db ''u'', Node_message 7 ''a'' ''d''] confirm_start S'
    \<and> S' = (d, ((H, (w, ([], q))), (f, g))) \<and> content q 0 = confirm_text (result_json 1 ''u'')
    \<and> (\<exists>rsp senders. confirms rsp ''u'' \<and> finite senders \<and> 1 \<le> card senders)"
proof -
  obtain d H w q f g where step2: "library_step confirm_library (Node_message 7 ''a'' ''d'') confirm_middle =
      (Inr (), (d, ((H, (w, ([], q))), (f, g))))" "content q 0 = confirm_text (result_json 1 ''u'')"
    using confirm_step2 by blast
  have "quorums_at_least 1 (fst confirm_middle)"
    by (simp add: quorums_at_least_def confirm_middle_def confirm_request_def set_message_def find_message_def)
  from Session_step [OF confirm_session1 this step2(1)]
  have session: "library_session confirm_library 1 [Api_has_db ''u'', Node_message 7 ''a'' ''d''] confirm_start
      (d, ((H, (w, ([], q))), (f, g)))" by simp
  from confirmed_database_has_quorum [OF confirm_library_real confirm_start_fresh session step2(2)]
  have "\<exists>rsp senders. confirms rsp ''u'' \<and> finite senders \<and> 1 \<le> card senders"
    by (auto simp: created_def)
  with session step2(2) show ?thesis by blast
qed

lemma outstanding_requests_are_typed_witness:
  "\<exists>d X info. library_session confirm_library 1 [Api_has_db ''u''] confirm_start (d, X)
    \<and> find_message d 1 = Some info \<and> typed_request (le_codec confirm_library) 1 (mi_request info) (mi_handler info)"
proof -
  obtain d X where mid: "confirm_middle = (d, X)" by (cases confirm_middle)
  then have info: "find_message d 1 = Some confirm_request" by (auto simp: confirm_middle_def)
  have session: "library_session confirm_library 1 [Api_has_db ''u''] confirm_start (d, X)"
    using confirm_session1 mid by simp
  have lawful: "lawful (le_codec confirm_library) null_crypto"
    using roundtrip_cd by (simp add: lawful_def confirm_library_def confirm_cd_def msg_roundtrip_def null_crypto_def
        null.envelope_signer_axioms)
  from outstanding_requests_are_typed [OF confirm_library_real confirm_start_fresh lawful session info] session info
  show ?thesis by blast
qed

end
