(* ===== verification/Library_Faults.thy ===== *)
theory Library_Faults
  imports Library_Confirms
begin

text \<open>
  How an answer of one swarm and the silence of another end the process: the callback of
  \<open>has_db\<close> throws when it is called a second time, and the timer of the client, from which it is called,
  lets the exception out of the io thread.
\<close>

section \<open>The second answer\<close>

text \<open>A handler for \<open>has_db\<close> whose swarm is the last to answer, with a response that is complete.\<close>

lemma last_denial_throws:
  assumes "udp_library le styled message" "c < length (fa_counters f)" "fa_counters f ! c = 1"
    and "outcome q r = Some (t, e)" "err \<noteq> Success"
  shows "\<exists>f' q'. factory_reply (library_fe le cr timeout) (Found_in u sid c (Library_callback (Has_db_done r u)) sw) err
      (d, ((H, (w, (dbs, q))), (f, g))) = (Inl (Throws ''promise_already_satisfied''), (d, ((H, (w, (dbs, q'))), (f', g))))
    \<and> outcome q' r = Some (styled (result_json 0 u), e)"
proof -
  obtain sys where api: "le_api le = udp_api styled message sys" using assms(1) by (auto simp: udp_library_def)
  obtain q' where q': "reply_with (le_api le) r (result_json 0 u) q = (Inl (Throws ''promise_already_satisfied''), q')"
    "outcome q' r = Some (styled (result_json 0 u), e)"
    using reply_again [OF assms(4), of "le_api le"] by (auto simp: api)
  show ?thesis
    using assms(2,3,5) q' by (simp add: count_down_def Let_def sbind_apply andthen_apply library_fe_def)
qed

text \<open>
  C36. When \<open>has_db\<close> was answered by one swarm and the last of the other swarms does not answer, the
  process is aborted: at the timeout of that request the callback replaces the text of the answer by a
  denial and throws, because the promise is set already, and nothing on the io thread catches the
  exception.
\<close>

theorem late_timeout_aborts_process:
  assumes "udp_library le styled message" "find_message d k = Some info"
    and "mi_handler info = Uuid_request (Has_uuid_reply u (Found_in u sid c (Library_callback (Has_db_done r u)) sw))"
    and "c < length (fa_counters f)" "fa_counters f ! c = 1" "outcome q r = Some (t, e)"
    and "lg_crypto g = Some cr" "lg_has_factory g"
  shows "\<exists>f' q'. library_step le (Client_expired No_error k) (d, ((H, (w, (dbs, q))), (f, g))) =
      (Inl Assert_fails, (d, ((H, (w, (dbs, q'))), (f', g))))
    \<and> outcome q' r = Some (styled (result_json 0 u), e)"
proof -
  have "(Database_error :: db_error) \<noteq> Success" by simp
  from last_denial_throws [OF assms(1,4-6) this, where cr = cr and timeout = "lg_api_timeout g" and d = d
      and H = H and w = w and dbs = dbs and g = g and u = u and sid = sid and sw = sw]
  obtain f' q' where reply: "factory_reply (library_fe le cr (lg_api_timeout g))
      (Found_in u sid c (Library_callback (Has_db_done r u)) sw) Database_error (d, ((H, (w, (dbs, q))), (f, g))) =
      (Inl (Throws ''promise_already_satisfied''), (d, ((H, (w, (dbs, q'))), (f', g))))"
    "outcome q' r = Some (styled (result_json 0 u), e)" by blast
  have "uuid_verdict (Has_uuid_reply u cb) timeout_response No_error = Database_error"
    for cb :: "('a, nat library_callback) factory_closure"
    by (simp add: timeout_response_def)
  then have "run_library_handler le (mi_handler info) timeout_response No_error (d, ((H, (w, (dbs, q))), (f, g))) =
      (Inl (Throws ''promise_already_satisfied''), (d, ((H, (w, (dbs, q'))), (f', g))))"
    using assms(3,7,8) reply(1)
    by (simp add: with_factory_def sbind_apply run_uuid_handler_def del: factory_reply.simps uuid_verdict.simps)
  with assms(2) reply(2) show ?thesis
    by (simp add: library_step_def catch_all_def handle_client_timeout_def sbind_apply andthen_apply)
qed

section \<open>A sample session\<close>

text \<open>
  The sample library with two swarms of one node: the first node confirms the database, the second
  is silent.
\<close>

definition two_library :: "(nat, nat, nat, nat, nat, nat response_heap) full_env" where
  "two_library = confirm_library\<lparr>le_fresh := (\<lambda>H. if H 7 = None then 7 else 8)\<rparr>"

definition two_factory :: "nat swarm_factory" where
  "two_factory = (new_factory ''me'')\<lparr>fa_initialized := True,
     fa_swarm_reg := Some [(''s'', \<lparr>si_nodes = [(''a'', sample_address)], si_swarm = None\<rparr>),
       (''t'', \<lparr>si_nodes = [(''b'', sample_address)], si_swarm = None\<rparr>)]\<rparr>"

definition two_start :: "(nat, nat, nat, nat, nat, nat response_heap) full_state" where
  "two_start = (new_dispatch, (((\<lambda>_. None), (7, ([], []))), (two_factory, confirm_globals)))"

lemmas two_defs = two_start_def two_library_def two_factory_def confirm_library_def confirm_globals_def

text \<open>After the call of \<open>has_db\<close>: two requests are out.\<close>

definition silent_msg :: database_msg where
  "silent_msg = \<lparr>dm_header = \<lparr>hd_db_uuid = ''u'', hd_nonce = 2, hd_point_of_contact = [], hd_request_hash = []\<rparr>,
     dm_request = Req_has_db\<rparr>"

definition silent_request :: "(nat, (nat, nat) library_handler) msg_info" where
  "silent_request = confirm_request\<lparr>mi_swarm := 8, mi_request := empty_envelope\<lparr>env_swarm_id := ''t'',
       env_sender := ''me'', env_timestamp := 9, env_payload := P_database_msg (ser_msg roundtrip_cd silent_msg)\<rparr>,
     mi_handler := Uuid_request (Has_uuid_reply ''u'' (Found_in ''u'' ''t'' 0 (Library_callback (Has_db_done 0 ''u'')) 8))\<rparr>"

definition silent_swarm :: "(nat, nat, nat open_handler) swarm" where
  "silent_swarm = (new_swarm ''t'' ''me'' [])\<lparr>sw_response_handlers := [(12, On_database_response), (20, On_swarm_error)],
     sw_nodes := Some [(''b'', empty_info\<lparr>ni_node := Some 9, ni_host := pa_host sample_address,
       ni_port := pa_port sample_address, ni_status_timer := Some 10\<rparr>)],
     sw_generation := 1, sw_fastest_node := ''b'', sw_primary_node := ''b''\<rparr>"

definition two_middle :: "(nat, nat, nat, nat, nat, nat response_heap) full_state" where
  "two_middle = (\<lparr>next_nonce = 3, messages = [(1, confirm_request), (2, silent_request)]\<rparr>,
     (((\<lambda>_. None)(7 \<mapsto> confirm_swarm, 8 \<mapsto> silent_swarm), (11, ([],
       [\<lparr>my_id = 4000, their_id = 0, result_str = [], resp_db = None, error_val = 0, deferred_signal = False,
          prom = None, future_taken = False, datagrams = []\<rparr>]))),
      (two_factory\<lparr>fa_swarm_reg := Some [(''s'', \<lparr>si_nodes = [(''a'', sample_address)], si_swarm = Some 7\<rparr>),
         (''t'', \<lparr>si_nodes = [(''b'', sample_address)], si_swarm = Some 8\<rparr>)], fa_counters := [2]\<rparr>, confirm_globals)))"

lemma two_step1: "library_step two_library (Api_has_db ''u'') two_start = (Inr (), two_middle)"
  by (simp add: async_has_db_def library_run_simps sbind_apply andthen_apply two_defs register_response_handler_def,
    simp add: library_run_simps swarm_run_simps sample_defs confirm_cd_def request_msg_def empty_header_def two_factory_def
      msg_roundtripD [OF roundtrip_cd] two_middle_def silent_request_def silent_swarm_def silent_msg_def
      confirm_request_def confirm_swarm_def confirm_msg_def confirm_globals_def set_message_def)

lemma two_step2:
  "\<exists>d H w q f g. library_step two_library (Node_message 7 ''a'' ''d'') two_middle =
       (Inr (), (d, ((H, (w, ([], q))), (f, g))))
    \<and> find_message d 2 = Some silent_request \<and> fa_counters f = [1]
    \<and> outcome q 0 = Some (confirm_text (result_json 1 ''u''), 0)
    \<and> lg_crypto g = Some null_crypto \<and> lg_has_factory g"
  by (simp add: library_run_simps two_middle_def with_crypto_def confirm_globals_def handle_node_message_def
      sbind_apply confirm_swarm_def swarm_run_simps two_library_def confirm_library_def confirm_cd_def confirm_message_def
      sample_defs,
    simp add: library_relay_def handle_swarm_response_def confirm_response_def confirm_cd_def confirm_library_def
      dispatch_run_simps confirm_request_def sbind_apply andthen_apply,
    simp add: library_run_simps run_uuid_handler_def count_down_def remember_db_def two_factory_def sbind_apply
      andthen_apply Let_def reply_with_def mr_set_ready_def udp_ops_def on_response_def set_result_def set_error_def
      set_value_def signal_def outcome_def,
    (simp add: find_message_def erase_message_def)?)

lemma late_timeout_aborts_process_witness:
  "\<exists>S S' d H w q f g. library_session two_library 1 [Api_has_db ''u'', Node_message 7 ''a'' ''d''] two_start S
    \<and> S = (d, ((H, (w, ([], q))), (f, g))) \<and> outcome q 0 = Some (confirm_text (result_json 1 ''u''), 0)
    \<and> library_step two_library (Client_expired No_error 2) S = (Inl Assert_fails, S')"
proof -
  obtain d H w q f g where S: "library_step two_library (Node_message 7 ''a'' ''d'') two_middle =
       (Inr (), (d, ((H, (w, ([], q))), (f, g))))" "find_message d 2 = Some silent_request" "fa_counters f = [1]"
    "outcome q 0 = Some (confirm_text (result_json 1 ''u''), 0)" "lg_crypto g = Some null_crypto" "lg_has_factory g"
    using two_step2 by blast
  have quorums: "quorums_at_least 1 (fst two_start)" "quorums_at_least 1 (fst two_middle)"
    by (auto simp: quorums_at_least_def two_start_def two_middle_def silent_request_def confirm_request_def
        find_message_def new_dispatch_def split: if_splits)
  have "library_session two_library 1 ([] @ [Api_has_db ''u'']) two_start two_middle"
    by (rule Session_step [OF Session_start quorums(1) two_step1])
  from Session_step [OF this quorums(2) S(1)]
  have session: "library_session two_library 1 [Api_has_db ''u'', Node_message 7 ''a'' ''d''] two_start
      (d, ((H, (w, ([], q))), (f, g)))" by simp
  have udp: "udp_library two_library confirm_text (\<lambda>ec. ''message'')"
    using confirm_library_real by (simp add: two_library_def real_env_def udp_library_def)
  have handler: "mi_handler silent_request =
      Uuid_request (Has_uuid_reply ''u'' (Found_in ''u'' ''t'' 0 (Library_callback (Has_db_done 0 ''u'')) 8))"
    by (simp add: silent_request_def)
  have "0 < length (fa_counters f)" "fa_counters f ! 0 = 1" using S(3) by simp_all
  from late_timeout_aborts_process [OF udp S(2) handler this S(4-6)] obtain S' where
    "library_step two_library (Client_expired No_error 2) (d, ((H, (w, ([], q))), (f, g))) = (Inl Assert_fails, S')"
    by blast
  with session S(4) show ?thesis by (intro exI conjI) (rule refl | assumption)+
qed

end
