(* ===== verification/Swarm_Ready.thy ===== *)
theory Swarm_Ready
  imports Swarm_Keeps Swarm_Safety
begin

text \<open>
  Swarms that are ready: every node of the map is there with its timer, and the swarm has nodes or
  will have them.  The operations of \<open>swarm/swarm.cpp\<close> that the rest of the library calls leave a
  ready swarm ready when they return, and have no undefined behaviour; also when they throw, the
  completion handler that waits in the swarm is still one of those in \<open>P\<close>, and the world beside it
  still has the property \<open>Q\<close>.
\<close>

section \<open>One swarm\<close>

definition ready :: "('n, 't, 'i) swarm \<Rightarrow> bool" where
  "ready s \<longleftrightarrow> swarm_wf s \<and> has_nodes s"

definition safe_on ::
  "('i \<Rightarrow> bool) \<Rightarrow> ('w \<Rightarrow> bool) \<Rightarrow> ('n, 't, 'i, 'w, 'a) swarm_prog \<Rightarrow> bool" where
  "safe_on P Q m \<longleftrightarrow> (\<forall>s w. ready s \<longrightarrow> swarm_ok P Q (s, w) \<longrightarrow>
     wp m (\<lambda>_ S'. ready (fst S') \<and> swarm_ok P Q S') (\<lambda>f S'. f \<noteq> Undefined \<and> swarm_ok P Q S') (s, w))"

lemma wp_keeps:
  assumes "wp m Q F s" "keeps I m" "I s"
  shows "wp m (\<lambda>a s'. Q a s' \<and> I s') (\<lambda>f s'. F f s' \<and> I s') s"
proof -
  obtain x s' where run: "m s = (x, s')" by fastforce
  with keepsD [OF assms(2,3)] assms(1) show ?thesis by (cases x) (auto simp: wp_def)
qed

lemma safe_onI:
  fixes m :: "('n, 't, 'i, 'w, 'a) swarm_prog"
  assumes "keeps (swarm_ok P Q) m"
    and "\<And>s w. ready s \<Longrightarrow> swarm_ok P Q (s, w) \<Longrightarrow> wp m (\<lambda>_ (s', w'). ready s') (\<lambda>f _. f \<noteq> Undefined) (s, w)"
  shows "safe_on P Q m"
  unfolding safe_on_def
proof (intro allI impI)
  fix s :: "('n, 't, 'i) swarm" and w
  assume "ready s" "swarm_ok P Q (s, w)"
  from wp_keeps [OF assms(2) [OF this] assms(1) this(2)]
  show "wp m (\<lambda>_ S'. ready (fst S') \<and> swarm_ok P Q S') (\<lambda>f S'. f \<noteq> Undefined \<and> swarm_ok P Q S') (s, w)"
    by (rule wp_mono) auto
qed

lemma readyD:
  "ready s \<Longrightarrow> swarm_wf s" "ready s \<Longrightarrow> has_nodes s"
  "ready s \<Longrightarrow> sw_initial_nodes s \<noteq> [] \<or> (\<exists>e m. sw_nodes s = Some (e # m))"
  by (simp_all add: ready_def has_nodes_def)

lemma ready_new: "nodes \<noteq> [] \<Longrightarrow> ready (new_swarm sid me nodes)"
  by (simp add: ready_def swarm_wf_def has_nodes_def new_swarm_def)

lemma ready_nodes:
  assumes "sw_nodes s = Some m" "m \<noteq> []" "connected m"
  shows "ready s"
  using assms by (auto simp: ready_def has_nodes_def swarm_wf_def neq_Nil_conv)

lemma ready_only_times:
  assumes "connected m" "m \<noteq> []" "only_times m s s'"
  shows "ready s'"
proof -
  obtain m' where m': "sw_nodes s' = Some m'" "um_wf m'" "peers m' = peers m"
    using assms(3) by (auto simp: only_times_def)
  have "m' \<noteq> []"
    using assms(2) arg_cong [OF m'(3), of dom] unfolding dom_peers by (cases m) auto
  with m' show ?thesis by (intro ready_nodes [OF m'(1)] connected_peers [OF assms(1)])
qed

section \<open>Setting up the nodes\<close>

lemma wp_ready_nodes:
  assumes "sound_platform pf" "ready s"
    and "\<And>m s' w'. sw_nodes s' = Some m \<Longrightarrow> m \<noteq> [] \<Longrightarrow> connected m \<Longrightarrow> Q () (s', w')"
    and "\<And>f s' w'. f \<noteq> Undefined \<Longrightarrow> F f (s', w')"
  shows "wp (init_nodes pf) Q F (s, w)"
proof (rule wp_mono [OF wp_init_nodes [OF assms(1) readyD(1) [OF assms(2)]]], goal_cases)
  case (1 u S')
  obtain s' w' where S': "S' = (s', w')" by fastforce
  obtain m where "sw_nodes s' = Some m" "m \<noteq> []" "connected m"
  proof (cases "sw_initial_nodes s = []")
    case True
    then obtain m where "sw_nodes s = Some m" "m \<noteq> []" using readyD(3) [OF assms(2)] by auto
    with 1 S' True that show ?thesis by (auto simp: swarm_wf_def)
  next
    case False
    with 1 S' that show ?thesis by (force simp: swarm_wf_def)
  qed
  then show ?case using assms(3) S' by auto
next
  case (2 f S')
  then show ?case using assms(4) by (cases S') auto
qed

section \<open>Calling the completion handler only where it may be called\<close>

definition only_within ::
  "('i \<Rightarrow> bool) \<Rightarrow> ('w \<Rightarrow> bool) \<Rightarrow> ('i \<Rightarrow> error_code \<Rightarrow> ('n, 't, 'i, 'w, unit) swarm_prog)
     \<Rightarrow> 'i \<Rightarrow> error_code \<Rightarrow> ('n, 't, 'i, 'w, unit) swarm_prog" where
  "only_within P Q run h ec = (\<lambda>(s, w). if P h \<and> Q w then run h ec (s, w) else (Inr (), (s, w)))"

text \<open>What is asked of the completion handlers in \<open>P\<close>.\<close>

definition init_safe ::
  "('i \<Rightarrow> bool) \<Rightarrow> ('w \<Rightarrow> bool) \<Rightarrow> ('i \<Rightarrow> error_code \<Rightarrow> ('n, 't, 'i, 'w, unit) swarm_prog) \<Rightarrow> bool" where
  "init_safe P Q run \<longleftrightarrow> (\<forall>h ec s w. P h \<longrightarrow> Q w \<longrightarrow>
     wp (run h ec) (\<lambda>_ (s', w'). s' = s \<and> Q w') (\<lambda>f (s', w'). f \<noteq> Undefined \<and> s' = s \<and> Q w') (s, w))"

lemma init_safeD:
  "init_safe P Q run \<Longrightarrow> P h \<Longrightarrow> Q w \<Longrightarrow>
     wp (run h ec) (\<lambda>_ (s', w'). s' = s \<and> Q w') (\<lambda>f (s', w'). f \<noteq> Undefined \<and> s' = s \<and> Q w') (s, w)"
  by (simp add: init_safe_def)

lemma init_frame_within:
  assumes "init_safe P Q run" shows "init_frame (only_within P Q run)"
  unfolding init_frame_def
proof (intro allI)
  fix h ec s w
  show "wp (only_within P Q run h ec) (\<lambda>_ (s', w'). s' = s) (\<lambda>f (s', w'). f \<noteq> Undefined \<and> s' = s) (s, w)"
  proof (cases "P h \<and> Q w")
    case True
    have "wp (run h ec) (\<lambda>_ (s', w'). s' = s) (\<lambda>f (s', w'). f \<noteq> Undefined \<and> s' = s) (s, w)"
      by (rule wp_mono [OF init_safeD [OF assms]]) (use True in auto)
    with True show ?thesis by (simp add: wp_def only_within_def)
  next
    case False
    then show ?thesis by (auto simp: wp_def only_within_def)
  qed
qed

lemma init_safe_keeps:
  assumes "init_safe P Q run" "P h" shows "keeps (swarm_ok P Q) (run h ec)"
proof (rule keepsI)
  fix S x S'
  assume S: "swarm_ok P Q S" and run: "run h ec S = (x, S')"
  obtain s w where parts: "S = (s, w)" by fastforce
  with S have "Q w" by (simp add: swarm_ok_def)
  from wpD [OF init_safeD [OF assms this] run [unfolded parts]] S parts show "swarm_ok P Q S'"
    by (cases x) (auto simp: swarm_ok_def)
qed

lemma sbind_agree:
  assumes "keeps I m" "I S" "\<And>a S'. I S' \<Longrightarrow> k a S' = k' a S'"
  shows "sbind m k S = sbind m k' S"
proof -
  obtain x S' where run: "m S = (x, S')" by fastforce
  from keepsD [OF assms(1,2) run] assms(3) run show ?thesis by (simp add: sbind_apply split: sum.split)
qed

lemma andthen_agree: "keeps I m \<Longrightarrow> I S \<Longrightarrow> (\<And>S'. I S' \<Longrightarrow> k S' = k' S') \<Longrightarrow> andthen m k S = andthen m k' S"
  unfolding andthen_def by (rule sbind_agree)

lemma finish_init_within:
  assumes "swarm_ok P Q S" shows "finish_init (only_within P Q run) S = finish_init run S"
proof -
  obtain s w where S: "S = (s, w)" by fastforce
  with assms show ?thesis
    by (cases "sw_init_handler s") (auto simp: finish_init_def swarm_ok_def init_ok_def only_within_def andthen_apply)
qed

lemma finish_then_within:
  "swarm_ok P Q S \<Longrightarrow> andthen (finish_init (only_within P Q run)) k S = andthen (finish_init run) k S"
  by (simp add: andthen_apply finish_init_within)

context kept_platform
begin

lemma status_response_within:
  assumes "swarm_ok P Q S"
  shows "handle_status_response cd js cr pf (only_within P Q run) u env S = handle_status_response cd js cr pf run u env S"
  unfolding handle_status_response_def
proof (rule sbind_agree [where I = "swarm_ok P Q"], goal_cases)
  case (3 now S1)
  show ?case
  proof (rule sbind_agree [where I = "swarm_ok P Q"], goal_cases)
    case (3 i S2)
    then show ?case
      by (auto split: option.split intro!: andthen_agree [where I = "swarm_ok P Q"] kept_apply_status
          simp: finish_then_within)
  qed (use 3 kept_info_at in simp_all)
qed (use assms in \<open>simp_all add: swarm_ok_world kept_platform\<close>)

lemma wp_nodes:
  "sound_platform pf \<Longrightarrow> ready s \<Longrightarrow> wp (init_nodes pf) (\<lambda>_ (s', w'). \<exists>m. sw_nodes s' = Some m \<and> m \<noteq> [] \<and> connected m)
     (\<lambda>f _. f \<noteq> Undefined) (s, w)"
  by (rule wp_ready_nodes) auto

lemma safe_sign:
  assumes sound: "sound_platform pf" and "sound_crypto cr"
  shows "safe_on P Q (sign_and_date_request cd cr pf e policy)"
  by (rule safe_onI [OF kept_sign]) (auto intro: wp_sign [OF assms])

lemma safe_send:
  assumes sound: "sound_platform pf"
  shows "safe_on P Q (send_request cd pf e policy)"
proof (rule safe_onI [OF kept_send])
  fix s :: "('n, 't, 'a) swarm" and w
  assume s: "ready s"
  show "wp (send_request cd pf e policy) (\<lambda>_ (s', w'). ready s') (\<lambda>f _. f \<noteq> Undefined) (s, w)"
    by (rule wp_mono [OF wp_send_request [OF sound readyD(1) [OF s] readyD(3) [OF s]]])
      (auto simp: ready_def has_nodes_def neq_Nil_conv)
qed

lemma safe_register: "safe_on P Q (register_response_handler k h)"
  by (rule safe_onI [OF kept_register])
    (auto simp: register_response_handler_def wp_simps ready_def swarm_wf_def has_nodes_def)

lemma safe_majority:
  assumes sound: "sound_platform pf"
  shows "safe_on P Q (honest_majority_size pf)"
  by (rule safe_onI [OF kept_majority])
    (auto simp: honest_majority_size_def wp_simps intro!: wp_ready_nodes [OF sound] intro: ready_nodes)

text \<open>\<open>initialize\<close>, with a handler that may be called.\<close>

lemma initialize_safe:
  assumes sound: "sound_platform pf" and cr: "sound_crypto cr" and run: "init_safe P Q run" and h: "P h"
  shows "safe_on P Q (Swarm.initialize cd cr pf run h)"
proof (rule safe_onI [OF kept_initialize])
  show "keeps (swarm_ok P Q) (run h Operation_in_progress)" using run h by (rule init_safe_keeps)
  show "P h" by (rule h)
next
  fix s :: "('n, 't, 'a) swarm" and w
  assume s: "ready s" and ok: "swarm_ok P Q (s, w)"
  show "wp (Swarm.initialize cd cr pf run h) (\<lambda>_ (s', w'). ready s') (\<lambda>f _. f \<noteq> Undefined) (s, w)"
    unfolding Swarm.initialize_def wp_andthen
  proof (rule wp_mono [OF wp_keeps [OF wp_nodes [OF sound s] kept_init_nodes ok]], goal_cases)
    case (1 u S')
    then obtain s1 w1 m where S': "S' = (s1, w1)" "sw_nodes s1 = Some m" "m \<noteq> []" "connected m" "Q w1"
      by (auto simp: swarm_ok_def)
    have again: "wp (run h Operation_in_progress) (\<lambda>_ (s', w'). ready s') (\<lambda>f _. f \<noteq> Undefined) (s1, w1)"
      by (rule wp_mono [OF init_safeD [OF run h S'(5)]]) (use S' in \<open>auto intro: ready_nodes\<close>)
    have first: "wp (for_each us (send_status_request cd cr pf)) (\<lambda>_ (s', w'). ready s')
        (\<lambda>f _. f \<noteq> Undefined) (s2, w1)" if "sw_nodes s2 = Some m" for us s2
      by (rule wp_mono [OF wp_send_status_requests [OF sound cr that S'(4)]])
        (auto intro: ready_only_times [OF S'(4,3)])
    show ?case
      using S' again by (auto simp: wp_simps register_response_handler_def intro!: first)
  qed auto
qed

text \<open>A status response may leave the swarm without nodes; everything else is kept.\<close>

lemma wp_status_response:
  assumes sound: "sound_platform pf" and js: "sound_json js" and cr: "sound_crypto cr" and run: "init_safe P Q run"
    and s: "sw_nodes s = Some m" "connected m" "u \<in> dom (map_of m)" and ok: "swarm_ok P Q (s, w)"
  shows "wp (handle_status_response cd js cr pf run u env) (\<lambda>_. swarm_ok P Q)
    (\<lambda>f S'. f \<noteq> Undefined \<and> swarm_ok P Q S') (s, w)"
proof -
  let ?run = "only_within P Q run"
  have "keeps (swarm_ok P Q) (?run h No_error)" if "P h" for h
    using init_safe_keeps [OF run that] by (auto simp: keeps_def only_within_def swarm_ok_def split: prod.splits)
  then have kept: "keeps (swarm_ok P Q) (handle_status_response cd js cr pf ?run u env)"
    by (rule kept_status_response)
  have "wp (handle_status_response cd js cr pf ?run u env) (\<lambda>_. swarm_ok P Q)
    (\<lambda>f S'. f \<noteq> Undefined \<and> swarm_ok P Q S') (s, w)"
    by (rule wp_mono [OF wp_keeps [OF wp_handle_status_response [OF sound js cr init_frame_within [OF run] s] kept ok]]) auto
  then show ?thesis by (simp add: wp_def status_response_within [OF ok])
qed

end

section \<open>Heaps of swarms\<close>

definition all_ready :: "('sw, 'n, 't, 'i) swarm_heap \<Rightarrow> bool" where
  "all_ready H \<longleftrightarrow> (\<forall>sw s. H sw = Some s \<longrightarrow> ready s)"

text \<open>Heaps with the objects \<open>D\<close>: as they are between operations, and as an exception leaves them.\<close>

definition heap_left ::
  "('i \<Rightarrow> bool) \<Rightarrow> ('w \<Rightarrow> bool) \<Rightarrow> 'sw set \<Rightarrow> ('sw, 'n, 't, 'i) swarm_heap \<times> 'w \<Rightarrow> bool" where
  "heap_left P Q D = (\<lambda>(H, w). heap_ok P Q (H, w) \<and> dom H = D)"

definition heap_ready ::
  "('i \<Rightarrow> bool) \<Rightarrow> ('w \<Rightarrow> bool) \<Rightarrow> 'sw set \<Rightarrow> ('sw, 'n, 't, 'i) swarm_heap \<times> 'w \<Rightarrow> bool" where
  "heap_ready P Q D = (\<lambda>(H, w). heap_left P Q D (H, w) \<and> all_ready H)"

text \<open>\<open>W\<close> holds between operations, \<open>V\<close> after an exception.\<close>

definition safe_op :: "('w \<Rightarrow> bool) \<Rightarrow> ('w \<Rightarrow> bool) \<Rightarrow> ('w, 'a) prog \<Rightarrow> bool" where
  "safe_op W V m \<longleftrightarrow> (\<forall>w. W w \<longrightarrow> wp m (\<lambda>_. W) (\<lambda>f w'. f \<noteq> Undefined \<and> V w') w)"

lemma safe_opD: "safe_op W V m \<Longrightarrow> W w \<Longrightarrow> wp m (\<lambda>_. W) (\<lambda>f w'. f \<noteq> Undefined \<and> V w') w"
  by (simp add: safe_op_def)

lemma wp_on_swarm:
  "wp (on_swarm sw m) Q F (H, w) \<longleftrightarrow>
     (case H sw of None \<Rightarrow> F Undefined (H, w)
      | Some s \<Rightarrow> wp m (\<lambda>a S. Q a (H(sw \<mapsto> fst S), snd S)) (\<lambda>f S. F f (H(sw \<mapsto> fst S), snd S)) (s, w))"
  by (auto simp: wp_def on_swarm_def split: option.splits prod.splits sum.splits)

lemma heap_left_swarm:
  assumes "heap_left P Q D (H, w)" "H sw = Some s"
  shows "swarm_ok P Q (s, w)" "swarm_ok P Q S' \<Longrightarrow> heap_left P Q D (H(sw \<mapsto> fst S'), snd S')"
  using assms by (auto simp: heap_left_def heap_ok_def swarm_ok_def)

lemma safe_on_swarm:
  fixes m :: "('n, 't, 'i, 'w, 'a) swarm_prog"
  assumes "safe_on P Q m" "(sw :: 'sw) \<in> D"
  shows "safe_op (heap_ready P Q D) (heap_left P Q D) (on_swarm sw m)"
  unfolding safe_op_def
proof (intro allI impI)
  fix S :: "('sw, 'n, 't, 'i) swarm_heap \<times> 'w"
  assume S: "heap_ready P Q D S"
  obtain H w where parts: "S = (H, w)" by fastforce
  with S have left: "heap_left P Q D (H, w)" and all: "all_ready H" by (simp_all add: heap_ready_def)
  then obtain s where s: "H sw = Some s" "ready s"
    using assms(2) by (auto simp: heap_left_def all_ready_def)
  note swarm = heap_left_swarm [OF left s(1)]
  have "wp m (\<lambda>_ S'. ready (fst S') \<and> swarm_ok P Q S') (\<lambda>f S'. f \<noteq> Undefined \<and> swarm_ok P Q S') (s, w)"
    using assms(1) s(2) swarm(1) by (simp add: safe_on_def)
  then have "wp m (\<lambda>_ S'. heap_ready P Q D (H(sw \<mapsto> fst S'), snd S'))
      (\<lambda>f S'. f \<noteq> Undefined \<and> heap_left P Q D (H(sw \<mapsto> fst S'), snd S')) (s, w)"
    by (rule wp_mono) (use swarm(2) all in \<open>auto simp: heap_ready_def all_ready_def\<close>)
  then show "wp (on_swarm sw m) (\<lambda>_. heap_ready P Q D) (\<lambda>f w'. f \<noteq> Undefined \<and> heap_left P Q D w') S"
    by (simp add: parts wp_on_swarm s)
qed

text \<open>The functions of the interface, for one swarm.\<close>

definition safe_ops :: "('w \<Rightarrow> bool) \<Rightarrow> ('w \<Rightarrow> bool) \<Rightarrow> ('w, 'sw) swarm_ops \<Rightarrow> 'sw \<Rightarrow> bool" where
  "safe_ops W V ops sw \<longleftrightarrow>
     (\<forall>e p. safe_op W V (so_sign_and_date_request ops sw e p) \<and> safe_op W V (so_send_request ops sw e p))
   \<and> (\<forall>k h. safe_op W V (so_register_response_handler ops sw k h))
   \<and> safe_op W V (so_honest_majority_size ops sw)"

lemma wp_on_fst: "wp (on_fst m) Q F (s, t) \<longleftrightarrow> wp m (\<lambda>a s'. Q a (s', t)) (\<lambda>f s'. F f (s', t)) s"
  by (auto simp: wp_def split: prod.splits sum.splits)

lemma safe_op_beside:
  "safe_op W V m \<Longrightarrow> safe_op (\<lambda>(w, x). W w \<and> X x) (\<lambda>(w, x). V w \<and> X x) (on_fst m)"
  unfolding safe_op_def by (auto simp: wp_on_fst intro: wp_mono)

lemma safe_ops_log:
  "safe_ops W V ops sw \<Longrightarrow> safe_ops (\<lambda>(w, x). W w \<and> X x) (\<lambda>(w, x). V w \<and> X x) (log_ops ops) sw"
  by (simp add: safe_ops_def safe_op_beside)

context kept_platform
begin

lemma safe_real_ops:
  assumes "sound_platform pf" "sound_crypto cr" "sw \<in> D"
  shows "safe_ops (heap_ready P Q D) (heap_left P Q D) (real_ops cd cr pf) sw"
  using assms by (simp add: safe_ops_def safe_on_swarm safe_sign safe_send safe_register safe_majority)

end

end
