(* ===== verification/Dispatch_Safety.thy ===== *)
theory Dispatch_Safety
  imports Swarm_Ready
begin

text \<open>
  The dispatcher of \<open>database/db_dispatch.cpp\<close> over swarms that are safe to call: when every
  outstanding request is to a swarm in \<open>D\<close>, has a retry timer (which only requests of policy
  \<open>fastest\<close> lack) and a handler in \<open>good\<close>, its operations have no undefined behaviour of their own
  and leave such a table, also when they throw.
\<close>

section \<open>The table\<close>

definition request_in :: "'sw set \<Rightarrow> ('h \<Rightarrow> bool) \<Rightarrow> ('sw, 'h) msg_info \<Rightarrow> bool" where
  "request_in D good info \<longleftrightarrow> mi_swarm info \<in> D \<and> mi_retry_timer info \<noteq> None \<and> good (mi_handler info)"

definition table_in :: "'sw set \<Rightarrow> ('h \<Rightarrow> bool) \<Rightarrow> ('sw, 'h) db_dispatch \<Rightarrow> bool" where
  "table_in D good d \<longleftrightarrow> (\<forall>k info. find_message d k = Some info \<longrightarrow> request_in D good info)"

lemma table_inD: "table_in D good d \<Longrightarrow> find_message d k = Some info \<Longrightarrow> request_in D good info"
  by (simp add: table_in_def)

lemma request_in_simps [simp]:
  "request_in D good (add_response s r info) = request_in D good info"
  "request_in D good info \<Longrightarrow> request_in D good (info\<lparr>mi_retry_timer := Some t\<rparr>)"
  by (simp_all add: request_in_def)

lemma table_in_simps [simp]:
  "table_in D good new_dispatch" "table_in D good (d\<lparr>next_nonce := n\<rparr>) = table_in D good d"
  "table_in D good d \<Longrightarrow> request_in D good info \<Longrightarrow> table_in D good (set_message k info d)"
  "table_in D good d \<Longrightarrow> table_in D good (erase_message k d)"
  by (auto simp: table_in_def split: if_splits)

lemma table_in_timer:
  assumes "table_in D good d" "find_message d k = Some info"
  shows "mi_retry_timer info \<noteq> None" "table_in D good (set_message k (info\<lparr>mi_retry_timer := Some t\<rparr>) d)"
  using table_inD [OF assms] assms(1) by (simp_all, simp add: request_in_def)

lemma table_in_mono:
  assumes "table_in D good d" "D \<subseteq> D'" "\<And>h. good h \<Longrightarrow> good' h"
  shows "table_in D' good' d"
  using assms by (auto simp: table_in_def request_in_def)

section \<open>Sending\<close>

definition sent_in ::
  "'sw set \<Rightarrow> ('h \<Rightarrow> bool) \<Rightarrow> ('w \<Rightarrow> bool) \<Rightarrow> ('sw, 'h) db_dispatch \<times> 'w \<Rightarrow> bool" where
  "sent_in D good W = (\<lambda>(d, w). table_in D good d \<and> W w)"

lemma sent_in_iff [simp]: "sent_in D good W (d, w) \<longleftrightarrow> table_in D good d \<and> W w"
  by (simp add: sent_in_def)

text \<open>A step on the swarms, in the middle of a program of the dispatcher.\<close>

lemma wp_second: "wp (on_snd m) Q F (d, w) \<longleftrightarrow> wp m (\<lambda>a w'. Q a (d, w')) (\<lambda>f w'. F f (d, w')) w"
  by (auto simp: wp_def split: prod.splits sum.splits)

lemma wp_step:
  assumes "safe_op W V m" "W w"
    and "\<And>a w'. W w' \<Longrightarrow> Q a w'" "\<And>f w'. f \<noteq> Undefined \<Longrightarrow> V w' \<Longrightarrow> F f w'"
  shows "wp m Q F w"
  by (rule wp_mono [OF safe_opD [OF assms(1,2)]]) (auto intro: assms(3,4))

lemma safe_op_register:
  assumes "safe_ops W V ops sw"
  shows "safe_op W V (register_swarm_handler ops sw)"
proof -
  have one: "safe_op W V (so_register_response_handler ops sw k h)" for k h
    using assms by (simp add: safe_ops_def)
  show ?thesis
    unfolding safe_op_def register_swarm_handler_def wp_sbind
    by (intro allI impI) (rule wp_mono [OF safe_opD [OF one]], assumption,
      rule wp_mono [OF safe_opD [OF one]], auto simp: wp_ret)
qed

lemma wp_send_message:
  assumes ops: "safe_ops W V ops sw" and h: "sw \<in> D" "good h" "policy \<noteq> Fastest"
    and d: "table_in D good d" and w: "W w" and V: "\<And>w. W w \<Longrightarrow> V w"
  shows "wp (send_message_to_swarm cd ops t sw u msg policy h) (\<lambda>_. sent_in D good W)
    (\<lambda>f S. f \<noteq> Undefined \<and> sent_in D good V S) (d, w)"
proof -
  have sign: "safe_op W V (so_sign_and_date_request ops sw e p)"
    and send: "safe_op W V (so_send_request ops sw e p)"
    and majority: "safe_op W V (so_honest_majority_size ops sw)" for e p
    using ops by (simp_all add: safe_ops_def)
  note register = safe_op_register [OF ops]
  show ?thesis
    using h d
    by (auto simp: send_message_to_swarm_def setup_request_policy_def setup_client_timeout_def wp_simps wp_second
        request_in_def V intro!: wp_step [OF sign w] wp_step [OF majority] wp_step [OF register] wp_step [OF send])
qed

section \<open>Timers and errors\<close>

lemma wp_request_timeout:
  assumes ops: "\<And>sw. sw \<in> D \<Longrightarrow> safe_ops W V ops sw"
    and d: "table_in D good d" and w: "W w" and V: "\<And>w. W w \<Longrightarrow> V w"
  shows "wp (handle_request_timeout ops ec k) (\<lambda>_. sent_in D good W)
    (\<lambda>f S. f \<noteq> Undefined \<and> sent_in D good V S) (d, w)"
proof (cases "find_message d k")
  case None
  with d w show ?thesis by (simp add: handle_request_timeout_def wp_simps)
next
  case (Some info)
  with d have info: "request_in D good info" "mi_retry_timer info \<noteq> None" "mi_swarm info \<in> D"
    by (auto simp: request_in_def dest: table_inD)
  have send: "safe_op W V (so_send_request ops (mi_swarm info) e p)" for e p
    using ops [OF info(3)] by (simp add: safe_ops_def)
  show ?thesis
    using Some d w info
    by (auto simp: handle_request_timeout_def wp_simps wp_second intro!: wp_step [OF send])
qed

lemma wp_swarm_error:
  assumes "table_in D good d" "W w"
  shows "wp (handle_swarm_error cd env) (\<lambda>_. sent_in D good W)
    (\<lambda>f S. f \<noteq> Undefined \<and> sent_in D good W S) (d, w)"
proof -
  obtain x d' w' where run: "handle_swarm_error cd env (d, w) = (x, (d', w'))" by (metis surj_pair)
  then have "x \<noteq> Inl Undefined \<and> sent_in D good W (d', w')"
    using assms by (cases rule: handle_swarm_error_cases) (auto simp: table_in_timer(2) dest: table_in_timer(1))
  with run show ?thesis by (auto simp: wp_def split: sum.split)
qed

end
