(* ===== verification/Library_Bounds.thy ===== *)
theory Library_Bounds
  imports Dispatch_Safety Factory_Safety Library_Confirms
begin

text \<open>
  What the references in the library point to: the swarms, databases, responses, registry entries
  and counters that exist only become more, so that a reference held by a closure stays valid
  until the closure runs.  \<open>safe cr B m Q\<close> is the judgement the absence of undefined behaviour is
  proved with: from any state with at least the objects \<open>B\<close>, in which all swarms are ready, the
  program has no undefined behaviour, leaves such a state, and returns a value with \<open>Q\<close>; an
  exception leaves the references valid.
\<close>

section \<open>The objects that exist\<close>

record 'sw bounds =
  bo_swarms :: "'sw set"
  bo_dbs :: nat
  bo_responses :: nat
  bo_known :: "swarm_id set"
  bo_counters :: nat

definition within :: "'sw bounds \<Rightarrow> 'sw bounds \<Rightarrow> bool" where
  "within B B' \<longleftrightarrow> bo_swarms B \<subseteq> bo_swarms B' \<and> bo_dbs B \<le> bo_dbs B' \<and> bo_responses B \<le> bo_responses B'
     \<and> bo_known B' = bo_known B \<and> bo_counters B \<le> bo_counters B'"

lemma within_refl [simp]: "within B B"
  by (simp add: within_def)

lemma within_trans: "within B B' \<Longrightarrow> within B' B'' \<Longrightarrow> within B B''"
  by (auto simp: within_def)

lemma within_more [simp]:
  "n \<ge> bo_dbs B \<Longrightarrow> within B (B\<lparr>bo_dbs := n\<rparr>)"
  "n \<ge> bo_responses B \<Longrightarrow> within B (B\<lparr>bo_responses := n\<rparr>)"
  "n \<ge> bo_counters B \<Longrightarrow> within B (B\<lparr>bo_counters := n\<rparr>)"
  "bo_swarms B \<subseteq> D \<Longrightarrow> within B (B\<lparr>bo_swarms := D\<rparr>)"
  by (simp_all add: within_def)

text \<open>The references in closures.\<close>

fun callback_response :: "'r library_callback \<Rightarrow> 'r" where
  "callback_response (Has_db_done r u) = r"
| "callback_response (Create_db_done r u) = r"
| "callback_response (Open_db_done r u) = r"

fun factory_callback_in :: "'sw bounds \<Rightarrow> nat library_callback factory_callback \<Rightarrow> bool" where
  "factory_callback_in B (Library_callback cb) \<longleftrightarrow> callback_response cb < bo_responses B"
| "factory_callback_in B (Create_unless_found u ms e cb) \<longleftrightarrow> callback_response cb < bo_responses B"

fun closure_in :: "'sw bounds \<Rightarrow> ('sw, nat library_callback) factory_closure \<Rightarrow> bool" where
  "closure_in B (Found_in u sid k cb sw) \<longleftrightarrow>
     sid \<in> bo_known B \<and> k < bo_counters B \<and> factory_callback_in B cb \<and> sw \<in> bo_swarms B"
| "closure_in B (Created_in u sid ms e retry cb sw) \<longleftrightarrow>
     sid \<in> bo_known B \<and> unat retry < card (bo_known B) \<and> callback_response cb < bo_responses B \<and> sw \<in> bo_swarms B"

fun handler_in :: "'sw bounds \<Rightarrow> ('sw, nat) library_handler \<Rightarrow> bool" where
  "handler_in B (Uuid_request h) \<longleftrightarrow> closure_in B (uuid_callback h)"
| "handler_in B (Database_request h) \<longleftrightarrow> reply_resp h < bo_responses B"

fun open_in :: "'sw bounds \<Rightarrow> nat open_handler \<Rightarrow> bool" where
  "open_in B (Open_done db client) \<longleftrightarrow> db < bo_dbs B \<and> open_client_response client < bo_responses B"

definition client_in :: "'sw bounds \<Rightarrow> ('sw, nat response_heap) client_store \<Rightarrow> bool" where
  "client_in B = (\<lambda>(dbs, q). length dbs = bo_dbs B \<and> length q = bo_responses B
     \<and> (\<forall>a \<in> set dbs. ad_swarm a \<in> bo_swarms B))"

definition store_in :: "'sw bounds \<Rightarrow> 'w \<times> ('sw, nat response_heap) client_store \<Rightarrow> bool" where
  "store_in B = (\<lambda>(w, st). client_in B st)"

text \<open>The registry of the factory: the known swarms, with nodes, and swarm objects that exist.\<close>

definition registry_in :: "'sw bounds \<Rightarrow> 'sw registry \<Rightarrow> bool" where
  "registry_in B reg \<longleftrightarrow> registry_wf reg \<and> length reg < 2 ^ 64 \<and> dom (map_of reg) = bo_known B
     \<and> (\<forall>sid i sw. map_of reg sid = Some i \<longrightarrow> si_swarm i = Some sw \<longrightarrow> sw \<in> bo_swarms B)"

definition factory_in :: "'sw bounds \<Rightarrow> 'sw swarm_factory \<Rightarrow> bool" where
  "factory_in B f \<longleftrightarrow> (\<exists>reg. fa_swarm_reg f = Some reg \<and> registry_in B reg) \<and> fa_initialized f
     \<and> (\<forall>u sid. map_of (fa_swarm_dbs f) u = Some sid \<longrightarrow> sid \<in> bo_known B)
     \<and> length (fa_counters f) = bo_counters B"

lemma factory_callback_in_mono: "factory_callback_in B cb \<Longrightarrow> within B B' \<Longrightarrow> factory_callback_in B' cb"
  by (cases cb) (auto simp: within_def)

lemma closure_in_mono: "closure_in B c \<Longrightarrow> within B B' \<Longrightarrow> closure_in B' c"
  by (cases c) (auto simp: within_def intro: factory_callback_in_mono [unfolded within_def])

lemma handler_in_mono: "handler_in B h \<Longrightarrow> within B B' \<Longrightarrow> handler_in B' h"
  by (cases h) (auto intro: closure_in_mono simp: within_def)

lemma open_in_mono: "open_in B h \<Longrightarrow> within B B' \<Longrightarrow> open_in B' h"
  by (cases h) (auto simp: within_def)

lemma registry_in_mono: "registry_in B reg \<Longrightarrow> within B B' \<Longrightarrow> registry_in B' reg"
  by (auto simp: registry_in_def within_def)

section \<open>States\<close>

definition state_in ::
  "((nat open_handler \<Rightarrow> bool) \<Rightarrow> ('w \<times> ('sw, nat response_heap) client_store \<Rightarrow> bool) \<Rightarrow> 'sw set
       \<Rightarrow> ('sw, 'n, 't, nat, 'w, nat response_heap) network \<Rightarrow> bool)
     \<Rightarrow> crypto_ops \<Rightarrow> 'sw bounds \<Rightarrow> ('sw, 'n, 't, nat, 'w, nat response_heap) full_state \<Rightarrow> bool" where
  "state_in hp cr B = (\<lambda>(d, (N, (f, g))). table_in (bo_swarms B) (handler_in B) d
     \<and> hp (open_in B) (store_in B) (bo_swarms B) N \<and> factory_in B f
     \<and> lg_crypto g = Some cr \<and> lg_has_factory g)"

text \<open>Exactly the objects \<open>B\<close> exist; with all swarms ready, or as an exception leaves them.\<close>

abbreviation settled ::
  "crypto_ops \<Rightarrow> 'sw bounds \<Rightarrow> ('sw, 'n, 't, nat, 'w, nat response_heap) full_state \<Rightarrow> bool" where
  "settled \<equiv> state_in heap_ready"

abbreviation intact ::
  "crypto_ops \<Rightarrow> 'sw bounds \<Rightarrow> ('sw, 'n, 't, nat, 'w, nat response_heap) full_state \<Rightarrow> bool" where
  "intact \<equiv> state_in heap_left"

lemma heap_ready_left: "heap_ready P Q D N \<Longrightarrow> heap_left P Q D N"
  by (cases N) (simp add: heap_ready_def)

lemma settled_intact: "settled cr B S \<Longrightarrow> intact cr B S"
  by (auto simp: state_in_def heap_ready_left)

lemma settledD:
  assumes "settled cr B (d, ((H, (w, st)), (f, g)))"
  shows "client_in B st" "factory_in B f" "all_ready H" "dom H = bo_swarms B"
    "H sw = Some s \<Longrightarrow> init_ok (open_in B) s"
  using assms by (auto simp: state_in_def heap_ready_def heap_left_def heap_ok_def store_in_def)

text \<open>When objects were made, what is there stays valid.\<close>

lemma settled_grow:
  assumes S: "settled cr B (d, ((H, (w, st)), (f, g)))" and B: "within B B'"
    and "client_in B' st'" "factory_in B' f'" "dom H' = bo_swarms B'" "all_ready H'"
    and "\<And>sw s. H' sw = Some s \<Longrightarrow> init_ok (open_in B') s"
  shows "settled cr B' (d, ((H', (w', st')), (f', g)))"
proof -
  have "table_in (bo_swarms B') (handler_in B') d"
    using S B by (auto simp: state_in_def within_def intro: table_in_mono handler_in_mono [OF _ B])
  with assms show ?thesis by (auto simp: state_in_def heap_ready_def heap_left_def heap_ok_def store_in_def)
qed

lemma settled_init:
  assumes "settled cr B (d, ((H, (w, st)), (f, g)))" "within B B'" "H sw = Some s"
  shows "init_ok (open_in B') s"
  using settledD(5) [OF assms(1,3)] by (rule init_ok_mono) (rule open_in_mono [OF _ assms(2)])

definition safe ::
  "crypto_ops \<Rightarrow> 'sw bounds \<Rightarrow> ('sw, 'n, 't, nat, 'w, nat response_heap, 'a) full_prog
     \<Rightarrow> ('a \<Rightarrow> 'sw bounds \<Rightarrow> bool) \<Rightarrow> bool" where
  "safe cr B m Q \<longleftrightarrow> (\<forall>B0 S. within B B0 \<longrightarrow> settled cr B0 S \<longrightarrow>
     wp m (\<lambda>a S'. \<exists>B1. within B0 B1 \<and> settled cr B1 S' \<and> Q a B1)
       (\<lambda>f S'. f \<noteq> Undefined \<and> (\<exists>B1. within B0 B1 \<and> intact cr B1 S')) S)"

abbreviation safe_unit ::
  "crypto_ops \<Rightarrow> 'sw bounds \<Rightarrow> ('sw, 'n, 't, nat, 'w, nat response_heap, 'a) full_prog \<Rightarrow> bool" where
  "safe_unit cr B m \<equiv> safe cr B m (\<lambda>_ _. True)"

section \<open>Rules\<close>

lemma safeD:
  "safe cr B m Q \<Longrightarrow> within B B0 \<Longrightarrow> settled cr B0 S \<Longrightarrow>
     wp m (\<lambda>a S'. \<exists>B1. within B0 B1 \<and> settled cr B1 S' \<and> Q a B1)
       (\<lambda>f S'. f \<noteq> Undefined \<and> (\<exists>B1. within B0 B1 \<and> intact cr B1 S')) S"
  unfolding safe_def by blast

lemma safe_ret: "(\<And>B'. within B B' \<Longrightarrow> Q a B') \<Longrightarrow> safe cr B (ret a) Q"
  unfolding safe_def wp_ret by (intro allI impI exI conjI) (rule within_refl, assumption, simp)

lemma safe_raise: "f \<noteq> Undefined \<Longrightarrow> safe cr B (raise f) Q"
  unfolding safe_def wp_raise by (intro allI impI exI conjI) (assumption, rule within_refl, erule settled_intact)

lemma safe_bind:
  assumes "safe cr B m Q" and "\<And>a B'. within B B' \<Longrightarrow> Q a B' \<Longrightarrow> safe cr B' (k a) R"
  shows "safe cr B (sbind m k) R"
  unfolding safe_def wp_sbind
proof (intro allI impI)
  fix B0 :: "'a bounds" and S :: "('a, 'b, 'c, nat, 'd, nat response_heap) full_state"
  assume B0: "within B B0" and S: "settled cr B0 S"
  show "wp m (\<lambda>a. wp (k a) (\<lambda>a S'. \<exists>B1. within B0 B1 \<and> settled cr B1 S' \<and> R a B1)
         (\<lambda>f S'. f \<noteq> Undefined \<and> (\<exists>B1. within B0 B1 \<and> intact cr B1 S')))
       (\<lambda>f S'. f \<noteq> Undefined \<and> (\<exists>B1. within B0 B1 \<and> intact cr B1 S')) S"
  proof (rule wp_mono [OF safeD [OF assms(1) B0 S]], goal_cases)
    case (1 a S')
    then obtain B1 where B1: "within B0 B1" "settled cr B1 S'" "Q a B1" by blast
    from assms(2) [OF within_trans [OF B0 B1(1)] B1(3)]
    show ?case by (rule wp_mono [OF safeD [OF _ within_refl B1(2)]]) (blast intro: within_trans [OF B1(1)])+
  qed
qed

lemma safe_andthen: "safe_unit cr B m \<Longrightarrow> (\<And>B'. within B B' \<Longrightarrow> safe cr B' k R) \<Longrightarrow> safe cr B (andthen m k) R"
  unfolding andthen_def by (rule safe_bind)

lemma safe_within: "safe cr B m Q \<Longrightarrow> within B B' \<Longrightarrow> safe cr B' m Q"
  unfolding safe_def by (blast intro: within_trans)

lemma safe_post:
  assumes "safe cr B m Q" and post: "\<And>a B'. within B B' \<Longrightarrow> Q a B' \<Longrightarrow> R a B'"
  shows "safe cr B m R"
  unfolding safe_def
proof (intro allI impI)
  fix B0 :: "'a bounds" and S :: "('a, 'b, 'c, nat, 'd, nat response_heap) full_state"
  assume B0: "within B B0" and S: "settled cr B0 S"
  show "wp m (\<lambda>a S'. \<exists>B1. within B0 B1 \<and> settled cr B1 S' \<and> R a B1)
       (\<lambda>f S'. f \<noteq> Undefined \<and> (\<exists>B1. within B0 B1 \<and> intact cr B1 S')) S"
    by (rule wp_mono [OF safeD [OF assms(1) B0 S]]) (use within_trans [OF B0] post in blast)+
qed

lemma safe_if: "(b \<Longrightarrow> safe cr B m Q) \<Longrightarrow> (\<not> b \<Longrightarrow> safe cr B n Q) \<Longrightarrow> safe cr B (if b then m else n) Q"
  by simp

lemma safe_option:
  "(x = None \<Longrightarrow> safe cr B m Q) \<Longrightarrow> (\<And>a. x = Some a \<Longrightarrow> safe cr B (n a) Q) \<Longrightarrow>
     safe cr B (case x of None \<Rightarrow> m | Some a \<Rightarrow> n a) Q"
  by (cases x) simp_all

lemma safe_for_each:
  "(\<And>x B'. x \<in> set xs \<Longrightarrow> within B B' \<Longrightarrow> safe_unit cr B' (body x)) \<Longrightarrow> safe_unit cr B (for_each xs body)"
proof (induction xs arbitrary: B)
  case (Cons x xs)
  have "safe_unit cr B' (for_each xs body)" if "within B B'" for B'
    by (rule Cons.IH) (auto intro: Cons.prems within_trans [OF that])
  then show ?case using Cons.prems by (auto intro: safe_andthen)
qed (simp add: safe_ret)

lemmas safe_rules = safe_ret safe_if safe_option safe_for_each

text \<open>Looking at the state.\<close>

lemma safe_state:
  assumes "\<And>B0 S. within B B0 \<Longrightarrow> settled cr B0 S \<Longrightarrow> \<exists>n. m S = n S \<and> safe cr B0 n Q"
  shows "safe cr B m Q"
  unfolding safe_def
proof (intro allI impI)
  fix B0 :: "'a bounds" and S :: "('a, 'b, 'c, nat, 'd, nat response_heap) full_state"
  assume B0: "within B B0" and S: "settled cr B0 S"
  then obtain n where n: "m S = n S" "safe cr B0 n Q" using assms by blast
  from safeD [OF n(2) within_refl S] n(1)
  show "wp m (\<lambda>a S'. \<exists>B1. within B0 B1 \<and> settled cr B1 S' \<and> Q a B1)
       (\<lambda>f S'. f \<noteq> Undefined \<and> (\<exists>B1. within B0 B1 \<and> intact cr B1 S')) S"
    by (simp add: wp_def)
qed

lemma safe_look_table:
  assumes "\<And>B' d. within B B' \<Longrightarrow> table_in (bo_swarms B') (handler_in B') d \<Longrightarrow> safe cr B' (k (h d)) Q"
  shows "safe cr B (sbind (on_fst (gets h)) k) Q"
proof (rule safe_state)
  fix B0 :: "'a bounds" and S :: "('a, 'b, 'c, nat, 'd, nat response_heap) full_state"
  assume "within B B0" "settled cr B0 S"
  moreover obtain d X where "S = (d, X)" by (metis surj_pair)
  ultimately show "\<exists>n. sbind (on_fst (gets h)) k S = n S \<and> safe cr B0 n Q"
    by (intro exI [of _ "k (h d)"]) (auto simp: state_in_def intro!: assms)
qed

lemma safe_look_factory:
  assumes "\<And>B' f. within B B' \<Longrightarrow> factory_in B' f \<Longrightarrow> safe cr B' (k (h f)) Q"
  shows "safe cr B (sbind (at_factory (gets h)) k) Q"
proof (rule safe_state)
  fix B0 :: "'a bounds" and S :: "('a, 'b, 'c, nat, 'd, nat response_heap) full_state"
  assume "within B B0" "settled cr B0 S"
  moreover obtain d N f g where "S = (d, (N, (f, g)))" by (metis surj_pair)
  ultimately show "\<exists>n. sbind (at_factory (gets h)) k S = n S \<and> safe cr B0 n Q"
    by (intro exI [of _ "k (h f)"]) (auto simp: state_in_def sbind_apply intro!: assms)
qed

lemma safe_look_globals:
  assumes "\<And>B' g. within B B' \<Longrightarrow> lg_crypto g = Some cr \<Longrightarrow> lg_has_factory g \<Longrightarrow> safe cr B' (k (h g)) Q"
  shows "safe cr B (sbind (at_globals (gets h)) k) Q"
proof (rule safe_state)
  fix B0 :: "'a bounds" and S :: "('a, 'b, 'c, nat, 'd, nat response_heap) full_state"
  assume "within B B0" "settled cr B0 S"
  moreover obtain d N f g where "S = (d, (N, (f, g)))" by (metis surj_pair)
  ultimately show "\<exists>n. sbind (at_globals (gets h)) k S = n S \<and> safe cr B0 n Q"
    by (intro exI [of _ "k (h g)"]) (auto simp: state_in_def sbind_apply intro!: assms)
qed

lemma safe_registry:
  assumes "\<And>B' reg. within B B' \<Longrightarrow> registry_in B' reg \<Longrightarrow> safe cr B' (k reg) Q"
  shows "safe cr B (sbind (at_factory the_registry) k) Q"
proof (rule safe_state)
  fix B0 :: "'a bounds" and S :: "('a, 'b, 'c, nat, 'd, nat response_heap) full_state"
  assume "within B B0" "settled cr B0 S"
  moreover obtain d N f g where S: "S = (d, (N, (f, g)))" by (metis surj_pair)
  ultimately obtain reg where "fa_swarm_reg f = Some reg" "registry_in B0 reg"
    by (auto simp: state_in_def factory_in_def)
  with S \<open>within B B0\<close> show "\<exists>n. sbind (at_factory the_registry) k S = n S \<and> safe cr B0 n Q"
    by (intro exI [of _ "k reg"]) (auto simp: sbind_apply the_registry_def intro!: assms)
qed

text \<open>Steps on the parts of the state.\<close>

lemma safe_table:
  assumes "\<And>B' d. within B B' \<Longrightarrow> table_in (bo_swarms B') (handler_in B') d \<Longrightarrow>
    table_in (bo_swarms B') (handler_in B') (F d)"
  shows "safe_unit cr B (on_fst (modify F))"
  using assms unfolding safe_def by (auto simp: wp_def state_in_def split: prod.splits intro!: within_refl)

lemma safe_factory:
  assumes "\<And>B' f. within B B' \<Longrightarrow> factory_in B' f \<Longrightarrow> factory_in B' (F f)"
  shows "safe_unit cr B (at_factory (modify F))"
  using assms unfolding safe_def by (auto simp: wp_def state_in_def split: prod.splits intro!: within_refl)

text \<open>Programs of the dispatcher over the swarms.\<close>

lemma safe_dispatch:
  assumes "\<And>B' d N x. within B B' \<Longrightarrow> table_in (bo_swarms B') (handler_in B') d \<Longrightarrow>
    heap_ready (open_in B') (store_in B') (bo_swarms B') N \<Longrightarrow>
    wp m (\<lambda>_. sent_in (bo_swarms B') (handler_in B') (\<lambda>(N, y). heap_ready (open_in B') (store_in B') (bo_swarms B') N \<and> y = x))
      (\<lambda>f S. f \<noteq> Undefined
         \<and> sent_in (bo_swarms B') (handler_in B') (\<lambda>(N, y). heap_left (open_in B') (store_in B') (bo_swarms B') N \<and> y = x) S)
      (d, (N, x))"
  shows "safe_unit cr B m"
  unfolding safe_def
proof (intro allI impI)
  fix B0 :: "'a bounds" and S :: "('a, 'b, 'c, nat, 'd, nat response_heap) full_state"
  assume B0: "within B B0" and S: "settled cr B0 S"
  obtain d N x where parts: "S = (d, (N, x))" by (metis surj_pair)
  with S have table: "table_in (bo_swarms B0) (handler_in B0) d"
    and heap: "heap_ready (open_in B0) (store_in B0) (bo_swarms B0) N"
    by (auto simp: state_in_def split: prod.splits)
  show "wp m (\<lambda>a S'. \<exists>B1. within B0 B1 \<and> settled cr B1 S' \<and> True)
       (\<lambda>f S'. f \<noteq> Undefined \<and> (\<exists>B1. within B0 B1 \<and> intact cr B1 S')) S"
    unfolding parts
    by (rule wp_mono [OF assms [OF B0 table heap]], use S parts in \<open>auto simp: state_in_def intro!: exI [of _ B0]\<close>)
qed

lemma safe_world:
  assumes "\<And>B'. within B B' \<Longrightarrow> safe_op (heap_ready (open_in B') (store_in B') (bo_swarms B'))
    (heap_left (open_in B') (store_in B') (bo_swarms B')) m"
  shows "safe_unit cr B (at_world m)"
  by (rule safe_dispatch) (auto simp: at_world_def wp_second wp_on_fst intro: wp_mono [OF safe_opD [OF assms]])

end
