(* ===== verification/Library_Safety.thy ===== *)
theory Library_Safety
  imports Library_Bounds
begin

text \<open>
  No undefined behaviour in the library as a whole: the callbacks, the closures of the factory, the
  factory itself and every event are \<open>safe\<close> in the sense of \<open>Library_Bounds\<close>.
\<close>

section \<open>Responses\<close>

definition steady :: "nat \<Rightarrow> ('db response_heap, 'a) prog \<Rightarrow> bool" where
  "steady r m \<longleftrightarrow> (\<forall>n > r. safe_op (\<lambda>q. length q = n) (\<lambda>q. length q = n) m)"

lemma steady_on_response:
  assumes "behaved m"
  shows "steady r (on_response r m)"
  unfolding steady_def safe_op_def
proof (intro allI impI)
  fix n :: nat and q :: "'a udp_response list"
  assume "r < n" "length q = n"
  moreover obtain x obj where run: "m (q ! r) = (x, obj)" by fastforce
  moreover have "x \<noteq> Inl Undefined" using assms run unfolding behaved_def by (metis fst_conv)
  ultimately show "wp (on_response r m) (\<lambda>_ q. length q = n) (\<lambda>f q. f \<noteq> Undefined \<and> length q = n) q"
    by (auto simp: wp_def on_response_def split: sum.split)
qed

lemma safe_op_andthen: "safe_op W W m \<Longrightarrow> safe_op W W k \<Longrightarrow> safe_op W W (andthen m k)"
  unfolding safe_op_def wp_andthen by (blast intro: wp_mono)

lemma steady_andthen: "steady r m \<Longrightarrow> steady r k \<Longrightarrow> steady r (andthen m k)"
  by (simp add: steady_def safe_op_andthen)

lemma behaved_if: "behaved m \<Longrightarrow> behaved n \<Longrightarrow> behaved (if b then m else n)"
  by simp

lemma behaved_response: "behaved (set_result t)" "behaved (set_error e)" "behaved (set_db db)"
  unfolding response_defs andthen_def by (intro behaved_intros behaved_sbind behaved_if; simp)+

lemma steady_udp:
  "steady r (mr_set_result udp_ops r t)" "steady r (mr_set_error udp_ops r e)" "steady r (mr_set_db udp_ops r db)"
  by (simp_all add: udp_ops_def steady_on_response behaved_response)

lemma steady_ends:
  "steady r (complete udp_ops r t e)" "steady r (mr_set_ready udp_ops r)"
  by (simp_all add: complete_def mr_set_ready_def steady_andthen steady_udp)

lemma steady_open_client:
  assumes "real_env le styled message"
  shows "steady (open_client_response client) (run_open_client (le_api le) client db ec)"
proof -
  obtain sys where "le_api le = udp_api styled message sys" using real_envD(4) [OF assms] by blast
  then show ?thesis by (simp add: run_open_client_def Let_def steady_ends steady_andthen steady_udp)
qed

lemma steady_reply:
  assumes "real_env le styled message"
  shows "steady (reply_resp h) (run_reply (le_api le) h r ec)"
proof -
  obtain sys where "le_api le = udp_api styled message sys" using real_envD(4) [OF assms] by blast
  then show ?thesis
    by (cases "reply_outcome (ra_styled (le_api le)) (ra_message (le_api le)) (reply_kind h) (dr_reply r) ec")
      (simp add: run_reply_eq steady_ends)
qed

text \<open>Programs over the objects of the client.\<close>

lemma safe_at_store:
  assumes "safe_op (client_in B) (client_in B) m"
  shows "safe_op (heap_ready P (store_in B) D) (heap_left P (store_in B) D) (at_store m)"
  using safe_opD [OF assms]
  by (auto simp: safe_op_def at_store_def heap_ready_def heap_left_def heap_ok_def store_in_def wp_second elim!: wp_mono)

lemma safe_responses:
  assumes "steady r m" "r < bo_responses B"
  shows "safe_unit cr B (at_responses m)"
  unfolding at_responses_def
proof (rule safe_world, rule safe_at_store)
  fix B' assume "within B B'"
  then have "safe_op (\<lambda>q. length q = bo_responses B') (\<lambda>q. length q = bo_responses B') m"
    using assms by (auto simp: steady_def within_def)
  from safe_opD [OF this]
  show "safe_op (client_in B') (client_in B') (on_snd m)"
    by (auto simp: safe_op_def client_in_def wp_second elim!: wp_mono)
qed

section \<open>Opening a database\<close>

lemma init_safe_opened:
  fixes le :: "('sw, 'n, 't, nat, 'w, nat response_heap) full_env"
  assumes "real_env le styled message"
  shows "init_safe (open_in B) (store_in B) (run_opened le)"
  unfolding init_safe_def
proof (intro allI impI)
  fix h ec and s :: "('n, 't, nat open_handler) swarm" and w :: "'w \<times> ('sw, nat response_heap) client_store"
  assume h: "open_in B h" and w: "store_in B w"
  obtain db client where hd: "h = Open_done db client" by (cases h)
  obtain v dbs q where ws: "w = (v, (dbs, q))" by (metis surj_pair)
  have client: "safe_op (\<lambda>q. length q = bo_responses B) (\<lambda>q. length q = bo_responses B)
      (run_open_client (le_api le) client db ec)"
    using steady_open_client [OF assms] h by (simp add: hd steady_def)
  show "wp (run_opened le h ec) (\<lambda>_ (s', w'). s' = s \<and> store_in B w')
     (\<lambda>f (s', w'). f \<noteq> Undefined \<and> s' = s \<and> store_in B w') (s, w)"
    using h w
    by (auto simp: hd ws run_opened_def wp_second wp_simps wp_on_fst set_init_state_def store_in_def client_in_def
        intro!: wp_mono [OF safe_opD [OF client]] dest!: set_update_subset_insert [THEN subsetD])
qed

text \<open>What the environment is taken to be, with the key that the library was initialized with.\<close>

definition sound_env ::
  "('sw, 'n, 't, nat, 'w, nat response_heap) full_env \<Rightarrow> (json \<Rightarrow> string) \<Rightarrow> (error_code \<Rightarrow> string)
     \<Rightarrow> crypto_ops \<Rightarrow> bool" where
  "sound_env le styled message cr \<longleftrightarrow> real_env le styled message \<and> sound_platform (le_platform le)
     \<and> sound_json (le_json le) \<and> sound_crypto cr \<and> (\<forall>sw. behaved (le_lock le sw))"

lemma sound_envD:
  assumes "sound_env le styled message cr"
  shows "real_env le styled message" "sound_platform (le_platform le)" "sound_json (le_json le)" "sound_crypto cr"
    "behaved (le_lock le sw)"
  using assms by (simp_all add: sound_env_def)

lemma behaved_on_fst: "behaved m \<Longrightarrow> behaved (on_fst m)"
  by (auto simp: behaved_def split: prod.split) (metis fst_conv)

lemma sound_beside: "sound_platform pf \<Longrightarrow> sound_platform (beside pf)"
  by (simp add: sound_platform_def beside_def behaved_on_fst)

interpretation beside_client: kept_platform "beside pf" "store_in B" for pf B
  by unfold_locales
    (auto simp: keeps_def beside_def store_in_def on_fst_def split: prod.splits)

lemma safe_databases:
  assumes "\<And>B'. within B B' \<Longrightarrow> safe_op (client_in B') (client_in B') m"
  shows "safe_unit cr B (at_world (at_store m))"
  by (intro safe_world safe_at_store assms)

lemma at_world_sbind:
  "at_world (sbind m k) = sbind (at_world m) (\<lambda>a. at_world (k a))"
  "at_world (andthen u n) = andthen (at_world u) (at_world n)"
  "at_world (if b then p else p') = (if b then at_world p else at_world p')"
  "at_world (ret a) = ret a"
  by (auto simp: fun_eq_iff at_world_def sbind_apply andthen_apply split: prod.splits sum.splits)

lemma safe_the_database:
  assumes "db < bo_dbs B" and "\<And>B' a. within B B' \<Longrightarrow> ad_swarm a \<in> bo_swarms B' \<Longrightarrow> safe cr B' (k a) Q"
  shows "safe cr B (sbind (at_world (at_store (on_fst (the_database db)))) k) Q"
proof (rule safe_state)
  fix B0 :: "'a bounds" and S :: "('a, 'b, 'c, nat, 'd, nat response_heap) full_state"
  assume B0: "within B B0" and S: "settled cr B0 S"
  obtain d H w dbs q f g where parts: "S = (d, ((H, (w, (dbs, q))), (f, g)))" by (metis surj_pair)
  have "client_in B0 (dbs, q)"
    using S by (simp add: parts state_in_def heap_ready_def heap_left_def heap_ok_def store_in_def)
  then have "db < length dbs" "ad_swarm (dbs ! db) \<in> bo_swarms B0"
    using assms(1) B0 by (auto simp: client_in_def within_def)
  then show "\<exists>n. sbind (at_world (at_store (on_fst (the_database db)))) k S = n S \<and> safe cr B0 n Q"
    using B0 by (intro exI [of _ "k (dbs ! db)"]) (auto simp: parts sbind_apply the_database_def intro!: assms(2))
qed

lemma safe_op_init_state: "safe_op (client_in B) (client_in B) (on_fst (set_init_state db st))"
proof -
  have "client_in B (dbs[db := (dbs ! db)\<lparr>ad_state := st\<rparr>], q)" if "client_in B (dbs, q)" for dbs q
  proof (cases "db < length dbs")
    case True
    with that show ?thesis by (auto simp: client_in_def dest!: set_update_subset_insert [THEN subsetD])
  qed (use that in \<open>simp add: list_update_beyond\<close>)
  then show ?thesis by (auto simp: safe_op_def wp_on_fst set_init_state_def wp_modify)
qed

lemma safe_database_open:
  assumes env: "sound_env le styled message cr" and db: "db < bo_dbs B" "open_client_response client < bo_responses B"
  shows "safe_unit cr B (at_world (database_open le cr db client))"
  unfolding database_open_def at_world_sbind run_opened_def [symmetric, abs_def]
proof (intro safe_the_database db safe_if safe_ret safe_andthen safe_databases safe_world TrueI)
  fix B1 a B2 B3
  assume B: "within B B1" "ad_swarm a \<in> bo_swarms B1" "within B1 B2" "within B2 B3"
  then have "within B B3" by (blast intro: within_trans)
  with db have "open_in B3 (Open_done db client)" by (auto simp: within_def)
  then have "safe_on (open_in B3) (store_in B3) (Swarm.initialize (le_codec le) cr (beside (le_platform le)) (run_opened le) (Open_done db client))"
    by (intro beside_client.initialize_safe sound_beside init_safe_opened [OF sound_envD(1) [OF env]] sound_envD [OF env])
  moreover have "ad_swarm a \<in> bo_swarms B3" using B by (auto simp: within_def)
  ultimately show "safe_op (heap_ready (open_in B3) (store_in B3) (bo_swarms B3)) (heap_left (open_in B3) (store_in B3) (bo_swarms B3))
      (on_swarm (ad_swarm a) (Swarm.initialize (le_codec le) cr (beside (le_platform le)) (run_opened le) (Open_done db client)))"
    by (rule safe_on_swarm)
next
  show "safe_op (client_in B1) (client_in B1) (on_fst (set_init_state db Initializing))" for B1
    by (rule safe_op_init_state)
qed

lemma safe_make_database:
  assumes "sw \<in> bo_swarms B"
  shows "safe cr B (at_world (at_store (on_fst (make_database sw u)))) (\<lambda>db B'. db < bo_dbs B')"
  unfolding safe_def
proof (intro allI impI)
  fix B0 :: "'a bounds" and S :: "('a, 'b, 'c, nat, 'd, nat response_heap) full_state"
  assume B0: "within B B0" and S: "settled cr B0 S"
  obtain d H w dbs q f g where parts: "S = (d, ((H, (w, (dbs, q))), (f, g)))" by (metis surj_pair)
  let ?B = "B0\<lparr>bo_dbs := Suc (bo_dbs B0)\<rparr>" and ?dbs = "dbs @ [new_async_database sw u]"
  have B: "within B0 ?B" by simp
  have client: "client_in B0 (dbs, q)" using S unfolding parts by (rule settledD)
  then have "length dbs = bo_dbs B0" "client_in ?B (?dbs, q)"
    using assms B0 by (auto simp: client_in_def within_def new_async_database_def)
  moreover from this have "settled cr ?B (d, ((H, (w, (?dbs, q))), (f, g)))"
    using S unfolding parts by (intro settled_grow [OF _ B]) (auto simp: factory_in_def registry_in_def dest: settledD intro: settled_init [OF _ B])
  ultimately show "wp (at_world (at_store (on_fst (make_database sw u))))
      (\<lambda>db S'. \<exists>B1. within B0 B1 \<and> settled cr B1 S' \<and> db < bo_dbs B1)
      (\<lambda>f S'. f \<noteq> Undefined \<and> (\<exists>B1. within B0 B1 \<and> intact cr B1 S')) S"
    using B by (auto simp: parts wp_def make_database_def intro!: exI [of _ ?B])
qed

lemma safe_made_database:
  assumes env: "sound_env le styled message cr" and "sw \<in> bo_swarms B" "open_client_response client < bo_responses B"
  shows "safe_unit cr B (at_world (sbind (at_store (on_fst (make_database sw u))) (\<lambda>db. database_open le cr db client)))"
  unfolding at_world_sbind
  by (rule safe_bind [OF safe_make_database [OF assms(2)]], rule safe_database_open [OF env])
    (use assms(3) in \<open>auto simp: within_def\<close>)

section \<open>The factory\<close>

lemma safe_library_callback:
  assumes env: "sound_env le styled message cr" and cb: "callback_response cb < bo_responses B"
    and sw: "\<And>s. sw = Some s \<Longrightarrow> s \<in> bo_swarms B"
  shows "safe_unit cr B (run_library_callback le cr cb err sw)"
proof -
  obtain sys where api: "le_api le = udp_api styled message sys"
    using real_envD(4) [OF sound_envD(1) [OF env]] by blast
  show ?thesis
    using cb sw
    by (cases cb; cases sw)
      (auto simp: api reply_with_complete open_client_response_def
        intro!: safe_responses steady_ends safe_made_database [OF env])
qed

lemma safe_make_swarm:
  assumes "nodes \<noteq> []"
  shows "safe cr B (at_world (make_swarm le sid me nodes)) (\<lambda>sw B'. sw \<in> bo_swarms B')"
  unfolding safe_def
proof (intro allI impI)
  fix B0 :: "'a bounds" and S :: "('a, 'b, 'c, nat, 'd, nat response_heap) full_state"
  assume B0: "within B B0" and S: "settled cr B0 S"
  obtain d H w st f g where parts: "S = (d, ((H, (w, st)), (f, g)))" by (metis surj_pair)
  let ?sw = "le_fresh le H" and ?new = "new_swarm sid me nodes"
  let ?B = "B0\<lparr>bo_swarms := insert ?sw (bo_swarms B0)\<rparr>" and ?H = "H(?sw \<mapsto> ?new)"
  have B: "within B0 ?B" by (simp add: within_def subset_insertI)
  note old = settledD [OF S [unfolded parts]]
  have "settled cr ?B (d, ((?H, (w, st)), (f, g)))"
  proof (rule settled_grow [OF S [unfolded parts] B])
    show "client_in ?B st" "factory_in ?B f" "dom ?H = bo_swarms ?B"
      using old by (auto simp: client_in_def factory_in_def registry_in_def)
    show "all_ready ?H" using old(3) ready_new [OF assms] by (auto simp: all_ready_def)
    show "init_ok (open_in ?B) s" if "?H sw = Some s" for sw s
      using that settled_init [OF S [unfolded parts] B] by (auto simp: init_ok_def new_swarm_def split: if_splits)
  qed
  with B show "wp (at_world (make_swarm le sid me nodes))
      (\<lambda>sw S'. \<exists>B1. within B0 B1 \<and> settled cr B1 S' \<and> sw \<in> bo_swarms B1)
      (\<lambda>f S'. f \<noteq> Undefined \<and> (\<exists>B1. within B0 B1 \<and> intact cr B1 S')) S"
    by (auto simp: parts wp_def make_swarm_def intro!: exI [of _ ?B])
qed

lemma safe_lock:
  assumes "sound_env le styled message cr"
  shows "safe_unit cr B (at_world (le_lock le sw))"
proof (rule safe_world)
  fix B'
  have "wp (le_lock le sw) (\<lambda>_ N'. N' = N) (\<lambda>f N'. f \<noteq> Undefined \<and> N' = N) N" for N
  proof -
    have "fst (le_lock le sw N) \<noteq> Inl Undefined" using sound_envD(5) [OF assms] unfolding behaved_def by blast
    then show ?thesis
      using real_envD(3) [OF sound_envD(1) [OF assms], of sw N]
      by (cases "le_lock le sw N") (auto simp: wp_def split: sum.split)
  qed
  then show "safe_op (heap_ready (open_in B') (store_in B') (bo_swarms B'))
      (heap_left (open_in B') (store_in B') (bo_swarms B')) (le_lock le sw)"
    unfolding safe_op_def by (blast intro: wp_mono heap_ready_left)
qed

lemma library_fe_sel [simp]:
  "fe_codec (library_fe le cr t) = le_codec le"
  "fe_swarms (library_fe le cr t) = real_ops (le_codec le) cr (beside (le_platform le))"
  "fe_timeout (library_fe le cr t) = t" "fe_lock (library_fe le cr t) = le_lock le"
  "fe_make_swarm (library_fe le cr t) = make_swarm le" "fe_closure (library_fe le cr t) = le_closure le"
  "fe_callback (library_fe le cr t) = run_library_callback le cr"
  by (simp_all add: library_fe_def)

lemma safe_make_and_register:
  assumes "registry_in B reg" "sid \<in> bo_known B"
  shows "safe cr B (make_and_register (library_fe le cr t) sid reg) (\<lambda>sw B'. sw \<in> bo_swarms B')"
proof -
  obtain i where i: "map_of reg sid = Some i" "si_nodes i \<noteq> []"
  proof -
    have "sid \<in> dom (map_of reg)" using assms by (simp add: registry_in_def)
    then obtain j where j: "map_of reg sid = Some j" by (rule domD [THEN exE])
    with assms(1) have "si_nodes j \<noteq> []" by (auto simp: registry_in_def registry_wf_def)
    with j that show thesis by blast
  qed
  have "registry_in B2 (om_put sid (i\<lparr>si_swarm := Some sw\<rparr>) reg)" if "within B B2" "sw \<in> bo_swarms B2" for B2 sw
  proof -
    have "length (om_put sid (i\<lparr>si_swarm := Some sw\<rparr>) reg) = length reg"
      using assms by (intro length_om_put_known) (auto simp: registry_in_def registry_wf_def)
    with registry_in_mono [OF assms(1) that(1)] assms that i show ?thesis
      by (auto simp: registry_in_def registry_wf_def om_wf_put within_def split: if_splits)
  qed
  then have set: "factory_in B2 (f\<lparr>fa_swarm_reg := Some (om_put sid (i\<lparr>si_swarm := Some sw\<rparr>) reg)\<rparr>)"
    if "within B B2" "sw \<in> bo_swarms B2" "factory_in B2 f" for B2 sw f
    using that by (auto simp: factory_in_def)
  have step: "safe cr B2 (andthen (at_factory (modify (\<lambda>f. f\<lparr>fa_swarm_reg := Some (om_put sid (i\<lparr>si_swarm := Some sw\<rparr>) reg)\<rparr>)))
      (ret sw)) (\<lambda>sw B'. sw \<in> bo_swarms B')" if "within B B2" "sw \<in> bo_swarms B2" for B2 sw
    by (intro safe_andthen safe_factory safe_ret set) (use that in \<open>auto simp: within_def\<close>)
  have make: "safe cr B2 (at_world (make_swarm le sid me (reg_get_nodes sid reg))) (\<lambda>sw B'. sw \<in> bo_swarms B')" for B2 me
    using i by (intro safe_make_swarm) (simp add: reg_get_nodes_def)
  have "reg_get_nodes sid reg \<noteq> []" "reg_set_swarm sid sw reg = Inr (om_put sid (i\<lparr>si_swarm := Some sw\<rparr>) reg)" for sw
    using i by (simp_all add: reg_get_nodes_def reg_set_swarm_def)
  then show ?thesis
    unfolding make_and_register_def library_fe_sel
    by (auto intro!: safe_look_factory safe_bind [OF make] intro: step within_trans)
qed

lemma safe_get_or_create:
  assumes env: "sound_env le styled message cr" and sid: "sid \<in> bo_known B"
  shows "safe cr B (get_or_create_swarm (library_fe le cr t) sid) (\<lambda>sw B'. sw \<in> bo_swarms B')"
  unfolding get_or_create_swarm_def
proof (rule safe_registry)
  fix B1 reg
  assume B1: "within B B1" and reg: "registry_in B1 reg"
  have make: "safe cr B2 (make_and_register (library_fe le cr t) sid reg) (\<lambda>sw B'. sw \<in> bo_swarms B')"
    if "within B1 B2" for B2
    using registry_in_mono [OF reg that] sid B1 that by (intro safe_make_and_register) (auto simp: within_def)
  have "sw \<in> bo_swarms B1" if "reg_get_swarm sid reg = Some sw" for sw
    using reg that by (auto simp: registry_in_def reg_get_swarm_def split: option.splits)
  then show "safe cr B1 (case reg_get_swarm sid reg of
         None \<Rightarrow> make_and_register (library_fe le cr t) sid reg
       | Some sw \<Rightarrow> sbind (at_world (fe_lock (library_fe le cr t) sw)) (\<lambda>alive.
           if alive then ret sw else make_and_register (library_fe le cr t) sid reg)) (\<lambda>sw B'. sw \<in> bo_swarms B')"
    by (intro safe_option make within_refl safe_bind [OF safe_lock [OF env, folded library_fe_sel(4) [of le cr t]]] safe_if safe_ret)
      (auto simp: within_def)
qed

text \<open>The requests of the factory.\<close>

lemma safe_uuid_requests:
  fixes le :: "('sw, 'n, 't, nat, 'w, nat response_heap) full_env"
  assumes env: "sound_env le styled message cr" and sw: "sw \<in> bo_swarms B"
  shows "closure_in B (Found_in u sid k cb sw) \<Longrightarrow> safe_unit cr B
      (has_uuid (le_codec le) (log_ops (real_ops (le_codec le) cr (beside (le_platform le)))) t (le_closure le)
         sw u (Found_in u sid k cb sw))"
    and "closure_in B (Created_in u sid ms e i lc sw) \<Longrightarrow> safe_unit cr B
      (create_uuid (le_codec le) (log_ops (real_ops (le_codec le) cr (beside (le_platform le)))) t (le_closure le)
         sw u ms e (Created_in u sid ms e i lc sw))"
proof -
  let ?ops = "log_ops (real_ops (le_codec le) cr (beside (le_platform le)))"
  have ops: "safe_ops (\<lambda>(N, y). heap_ready (open_in B') (store_in B') (bo_swarms B') N \<and> y = x)
      (\<lambda>(N, y). heap_left (open_in B') (store_in B') (bo_swarms B') N \<and> y = x) ?ops sw"
    if "within B B'" for B' x
    by (intro safe_ops_log beside_client.safe_real_ops sound_beside sound_envD [OF env])
      (use sw that in \<open>auto simp: within_def\<close>)
  have request: "safe_unit cr B (andthen (on_snd (register_swarm_handler ?ops sw))
      (send_message_to_swarm (le_codec le) ?ops t sw u msg Normal h))" if "handler_in B h" for msg h
  proof (rule safe_dispatch)
    fix B' d x and N :: "('sw, 'n, 't, nat, 'w, nat response_heap) network"
    assume B': "within B B'" and d: "table_in (bo_swarms B') (handler_in B') d"
      and N: "heap_ready (open_in B') (store_in B') (bo_swarms B') N"
    let ?W = "\<lambda>(N, y). heap_ready (open_in B') (store_in B') (bo_swarms B') N \<and> y = x"
      and ?V = "\<lambda>(N, y). heap_left (open_in B') (store_in B') (bo_swarms B') N \<and> y = x"
    have sw': "sw \<in> bo_swarms B'" using sw B' by (auto simp: within_def)
    have left: "?W w \<Longrightarrow> ?V w" for w by (auto simp: heap_ready_left)
    note send = wp_send_message [OF ops [OF B'] sw' handler_in_mono [OF that B'] _ d _ left]
    show "wp (andthen (on_snd (register_swarm_handler ?ops sw)) (send_message_to_swarm (le_codec le) ?ops t sw u msg Normal h))
        (\<lambda>_. sent_in (bo_swarms B') (handler_in B') ?W) (\<lambda>f S. f \<noteq> Undefined \<and> sent_in (bo_swarms B') (handler_in B') ?V S)
        (d, (N, x))"
      unfolding wp_andthen wp_second
      by (rule wp_step [OF safe_op_register [OF ops [OF B']]]) (use N d send in \<open>auto\<close>)
  qed
  have handler: "le_closure le = Uuid_request" by (rule real_envD(2) [OF sound_envD(1) [OF env]])
  show "closure_in B (Found_in u sid k cb sw) \<Longrightarrow> safe_unit cr B
      (has_uuid (le_codec le) ?ops t (le_closure le) sw u (Found_in u sid k cb sw))"
    unfolding has_uuid_def handler by (rule request) simp
  show "closure_in B (Created_in u sid ms e i lc sw) \<Longrightarrow> safe_unit cr B
      (create_uuid (le_codec le) ?ops t (le_closure le) sw u ms e (Created_in u sid ms e i lc sw))"
    unfolding create_uuid_def handler by (rule request) simp
qed

lemma safe_do_create_db:
  assumes env: "sound_env le styled message cr" and i: "unat i < card (bo_known B)"
    and cb: "callback_response cb < bo_responses B"
  shows "safe_unit cr B (do_create_db (library_fe le cr t) u ms e i cb)"
proof -
  let ?create = "\<lambda>sid. sbind (get_or_create_swarm (library_fe le cr t) sid) (\<lambda>sw.
       create_uuid (le_codec le) (log_ops (real_ops (le_codec le) cr (beside (le_platform le)))) t (le_closure le) sw u
         ms e (Created_in u sid ms e i cb sw))"
  have create: "safe_unit cr B1 (?create sid)" if "within B B1" "sid \<in> bo_known B" for B1 sid
    by (rule safe_bind [OF safe_get_or_create [OF env] safe_uuid_requests(2) [OF env]])
      (use that i cb in \<open>auto simp: within_def\<close>)
  have pick: "i < length reg" "fst (reg ! i) \<in> bo_known B"
    if "registry_in B1 reg" "within B B1" "i < card (bo_known B)" for i B1 and reg :: "'a registry"
  proof -
    have "length reg = card (bo_known B)"
      using that om.size_eq_card [of reg] by (simp add: registry_in_def registry_wf_def within_def)
    with that(3) show "i < length reg" by simp
    with that(1,2) show "fst (reg ! i) \<in> bo_known B"
      by (force simp: registry_in_def within_def dom_map_of_conv_image_fst)
  qed
  have select: "at_factory (select_swarm_for_size i) = sbind (at_factory the_registry) (\<lambda>reg.
      if unat i < length reg then ret (fst (reg ! unat i)) else raise Assert_fails)"
    by (auto simp: fun_eq_iff at_factory_def select_swarm_for_size_def sbind_apply reg_get_swarms_def
        split: prod.splits sum.splits)
  show ?thesis
    unfolding do_create_db_def library_fe_sel select sbind_assoc
    by (rule safe_registry)
      (use pick [OF _ _ i] create cb in \<open>auto intro!: safe_library_callback [OF env] simp: within_def\<close>)
qed

lemma safe_run_callback:
  assumes env: "sound_env le styled message cr" and known: "bo_known B \<noteq> {}" and cb: "factory_callback_in B cb"
    and sw: "\<And>s. sw = Some s \<Longrightarrow> s \<in> bo_swarms B"
  shows "safe_unit cr B (run_callback (library_fe le cr t) cb err sw)"
proof (cases cb)
  case (Library_callback c)
  with cb show ?thesis by (simp add: safe_library_callback [OF env] sw)
next
  case (Create_unless_found u ms e c)
  with cb have c: "callback_response c < bo_responses B" by simp
  have create: "safe_unit cr B1 (do_create_db (library_fe le cr t) u ms e (first_retry (of_nat (length reg))) c)"
    if "within B B1" "registry_in B1 reg" for B1 and reg :: "'a registry"
  proof (rule safe_do_create_db [OF env])
    have "length reg = card (bo_known B1)" "length reg < 2 ^ 64" "0 < length reg"
      using that known om.size_eq_card [of reg] by (auto simp: registry_in_def registry_wf_def within_def)
    then show "unat (first_retry (of_nat (length reg))) < card (bo_known B1)" using unat_first_retry [of "length reg"] by simp
    show "callback_response c < bo_responses B1" using c that(1) by (simp add: within_def)
  qed
  show ?thesis
    unfolding Create_unless_found run_callback.simps library_fe_sel
    by (intro safe_if safe_library_callback [OF env c] safe_registry)
      (auto simp: reg_get_swarms_def intro: create)
qed

lemma safe_ask_swarm:
  assumes env: "sound_env le styled message cr" and sid: "sid \<in> bo_known B" "k < bo_counters B" "factory_callback_in B cb"
  shows "safe_unit cr B (ask_swarm (library_fe le cr t) u k cb sid)"
  unfolding ask_swarm_def library_fe_sel
  by (rule safe_bind [OF safe_get_or_create [OF env sid(1)] safe_uuid_requests(1) [OF env]])
    (use sid in \<open>auto simp: within_def intro: factory_callback_in_mono [unfolded within_def]\<close>)

text \<open>A new counter, for the number of swarms that are asked.\<close>

lemma safe_new_counter:
  "safe cr B (at_factory (modify (\<lambda>f. f\<lparr>fa_counters := fa_counters f @ [n]\<rparr>))) (\<lambda>_ B'. bo_counters B < bo_counters B')"
  unfolding safe_def
proof (intro allI impI)
  fix B0 :: "'a bounds" and S :: "('a, 'b, 'c, nat, 'd, nat response_heap) full_state"
  assume B0: "within B B0" and S: "settled cr B0 S"
  obtain d H w st f g where parts: "S = (d, ((H, (w, st)), (f, g)))" by (metis surj_pair)
  let ?B = "B0\<lparr>bo_counters := Suc (bo_counters B0)\<rparr>" and ?f = "f\<lparr>fa_counters := fa_counters f @ [n]\<rparr>"
  have B: "within B0 ?B" by simp
  note old = settledD [OF S [unfolded parts]]
  have "settled cr ?B (d, ((H, (w, st)), (?f, g)))"
    by (rule settled_grow [OF S [unfolded parts] B])
      (use old in \<open>auto simp: client_in_def factory_in_def registry_in_def
        intro: settled_init [OF S [unfolded parts] B]\<close>)
  with B B0 show "wp (at_factory (modify (\<lambda>f. f\<lparr>fa_counters := fa_counters f @ [n]\<rparr>)))
      (\<lambda>a S'. \<exists>B1. within B0 B1 \<and> settled cr B1 S' \<and> bo_counters B < bo_counters B1)
      (\<lambda>f S'. f \<noteq> Undefined \<and> (\<exists>B1. within B0 B1 \<and> intact cr B1 S')) S"
    by (auto simp: parts wp_def within_def intro!: exI [of _ ?B])
qed

lemma safe_has_db:
  assumes env: "sound_env le styled message cr" and cb: "factory_callback_in B cb"
  shows "safe_unit cr B (factory_has_db (library_fe le cr t) u cb)"
  unfolding factory_has_db_def
proof (rule safe_look_factory)
  fix B1 and f :: "'a swarm_factory"
  assume B1: "within B B1" and f: "factory_in B1 f"
  have found: "safe_unit cr B1 (sbind (get_or_create_swarm (library_fe le cr t) sid)
      (\<lambda>sw. run_callback (library_fe le cr t) cb Success (Some sw)))" if "map_of (fa_swarm_dbs f) u = Some sid" for sid
  proof -
    have sid: "sid \<in> bo_known B1" using f that by (auto simp: factory_in_def)
    show ?thesis
      by (rule safe_bind [OF safe_get_or_create [OF env sid] safe_run_callback [OF env]])
        (use sid factory_callback_in_mono [OF cb B1] in \<open>auto simp: within_def intro: factory_callback_in_mono [unfolded within_def]\<close>)
  qed
  have ask: "safe_unit cr B3 (for_each (reg_get_swarms reg) (ask_swarm (library_fe le cr t) u (length (fa_counters f)) cb))"
    if "within B1 B2" "registry_in B2 reg" "within B2 B3" "bo_counters B2 < bo_counters B3" for B2 B3 reg
  proof (rule safe_for_each, rule safe_ask_swarm [OF env])
    fix sid B4 assume sid: "sid \<in> set (reg_get_swarms reg)" and B4: "within B3 B4"
    from sid show "sid \<in> bo_known B4"
      using that B4 by (auto simp: registry_in_def within_def reg_get_swarms_def dom_map_of_conv_image_fst)
    show "length (fa_counters f) < bo_counters B4" using f that B4 by (auto simp: factory_in_def within_def)
    have "within B B4" using B1 that(1,3) B4 by (blast intro: within_trans)
    with cb show "factory_callback_in B4 cb" by (rule factory_callback_in_mono)
  qed
  show "safe_unit cr B1 (if \<not> fa_initialized (id f) then raise Assert_fails
     else case map_of (fa_swarm_dbs (id f)) u of
       Some sid \<Rightarrow> sbind (get_or_create_swarm (library_fe le cr t) sid) (\<lambda>sw. run_callback (library_fe le cr t) cb Success (Some sw))
     | None \<Rightarrow>
         sbind (at_factory the_registry) (\<lambda>reg.
         andthen (at_factory (modify (\<lambda>f. f\<lparr>fa_counters :=
             fa_counters f @ [of_nat (length (reg_get_swarms reg))]\<rparr>)))
         (for_each (reg_get_swarms reg) (ask_swarm (library_fe le cr t) u (length (fa_counters (id f))) cb))))"
    unfolding id_apply andthen_def
    by (intro safe_if safe_raise safe_option found safe_registry safe_bind [OF safe_new_counter] ask) simp_all
qed

lemma safe_count_down:
  assumes "k < bo_counters B"
  shows "safe_unit cr B (at_factory (count_down k))"
  unfolding safe_def
proof (intro allI impI)
  fix B0 :: "'a bounds" and S :: "('a, 'b, 'c, nat, 'd, nat response_heap) full_state"
  assume B0: "within B B0" and S: "settled cr B0 S"
  obtain d N f g where parts: "S = (d, (N, (f, g)))" by (metis surj_pair)
  have "k < length (fa_counters f)" using S B0 assms by (auto simp: parts state_in_def factory_in_def within_def)
  with S show "wp (at_factory (count_down k)) (\<lambda>_ S'. \<exists>B1. within B0 B1 \<and> settled cr B1 S' \<and> True)
      (\<lambda>f S'. f \<noteq> Undefined \<and> (\<exists>B1. within B0 B1 \<and> intact cr B1 S')) S"
    by (auto simp: parts wp_def count_down_def Let_def state_in_def factory_in_def intro!: exI [of _ B0])
qed

lemma safe_remember: "sid \<in> bo_known B \<Longrightarrow> safe_unit cr B (at_factory (modify (remember_db u sid)))"
  by (rule safe_factory) (auto simp: factory_in_def remember_db_def within_def)

lemma safe_factory_reply:
  assumes env: "sound_env le styled message cr" and c: "closure_in B c"
  shows "safe_unit cr B (factory_reply (library_fe le cr t) c err)"
proof (cases c)
  case (Found_in u sid k cb sw)
  have later: "safe_unit cr B1 (run_callback (library_fe le cr t) cb err' sw')"
    if "within B B1" "sw' = None \<or> sw' = Some sw" for B1 err' sw'
    by (rule safe_run_callback [OF env])
      (use that c Found_in in \<open>auto simp: within_def intro: factory_callback_in_mono [unfolded within_def]\<close>)
  have remember: "safe_unit cr B1 (at_factory (modify (remember_db u sid)))" if "within B B1" for B1
    by (rule safe_remember) (use that c Found_in in \<open>auto simp: within_def\<close>)
  show ?thesis
    unfolding Found_in factory_reply.simps
    by (rule safe_bind [OF safe_count_down])
      (use c Found_in in \<open>auto intro!: safe_andthen safe_ret intro: later remember within_trans\<close>)
next
  case (Created_in u sid ms e i cb sw)
  have later: "safe_unit cr B1 (run_library_callback le cr cb err' sw')"
    if "within B B1" "sw' = None \<or> sw' = Some sw" for B1 err' sw'
    by (rule safe_library_callback [OF env]) (use that c Created_in in \<open>auto simp: within_def\<close>)
  have again: "safe_unit cr B (do_create_db (library_fe le cr t) u ms e (i - 1) cb)" if "0 < i"
    by (rule safe_do_create_db [OF env]) (use that c Created_in in \<open>auto simp: unat_minus_one word_gt_0\<close>)
  show ?thesis
    unfolding Created_in factory_reply.simps library_fe_sel
    by (intro safe_if safe_andthen safe_remember later again) (use c Created_in in auto)
qed

section \<open>Handlers of the dispatcher\<close>

lemma safe_with_factory:
  assumes "\<And>B' t. within B B' \<Longrightarrow> safe cr B' (body (library_fe le cr t)) Q"
  shows "safe cr B (with_factory le body) Q"
  unfolding with_factory_def by (rule safe_look_globals) (simp add: assms)

lemma safe_library_handler:
  assumes env: "sound_env le styled message cr" and h: "handler_in B h"
  shows "safe_unit cr B (run_library_handler le h r ec)"
proof (cases h)
  case (Uuid_request uh)
  with h show ?thesis
    by (auto simp: run_uuid_handler_def intro!: safe_with_factory safe_factory_reply [OF env] intro: closure_in_mono)
next
  case (Database_request rh)
  with h show ?thesis by (auto intro!: safe_responses steady_reply [OF sound_envD(1) [OF env]])
qed

lemma safe_swarm_response:
  assumes env: "sound_env le styled message cr"
  shows "safe_unit cr B (handle_swarm_response (le_codec le) (run_library_handler le) m)"
proof (cases "par_response (le_codec le) (get_database_response (env_payload m))")
  case None
  then show ?thesis by (simp add: handle_swarm_response_def safe_ret)
next
  case (Some r)
  have collect: "safe_unit cr B1 (collect (le_codec le) (run_library_handler le) k (env_sender m) r info)"
    if info: "request_in (bo_swarms B1) (handler_in B1) info" for B1 k info
  proof -
    let ?info = "add_response (env_sender m) r info"
    have handler: "safe_unit cr B2 (run_library_handler le (mi_handler info) r No_error)" if "within B1 B2" for B2
      using info that by (intro safe_library_handler [OF env]) (auto simp: request_in_def intro: handler_in_mono)
    have here: "request_in (bo_swarms B2) (handler_in B2) ?info" if "within B1 B2" for B2
      using info that by (auto simp: request_in_def within_def intro: handler_in_mono [unfolded within_def])
    have store: "safe_unit cr B1 (on_fst (modify (set_message k ?info)))"
      by (rule safe_table) (blast intro: table_in_simps(3) here)
    have erase: "safe_unit cr B2 (on_fst (modify (erase_message k)))" for B2
      by (rule safe_table) simp
    show ?thesis
    proof (cases "qualify_response (le_codec le) ?info (env_sender m)")
      case (Inl f)
      have "f \<noteq> Undefined" using Inl by (auto simp: qualify_response_def Let_def split: if_splits)
      with Inl show ?thesis unfolding collect_def by (intro safe_andthen store) (simp add: safe_raise)
    next
      case (Inr b)
      then show ?thesis unfolding collect_def
        by (intro safe_andthen store) (auto intro!: safe_andthen handler erase safe_ret)
    qed
  qed
  show ?thesis
    unfolding handle_swarm_response_def Some option.case Let_def add_response_simps
    by (intro safe_look_table safe_option safe_if safe_ret TrueI)
      (auto dest: table_inD intro!: collect [unfolded collect_def])
qed

end
