(* ===== verification/Library_Defined.thy ===== *)
theory Library_Defined
  imports Library_Safety
begin

text \<open>
  Every event of the library, from a state in which all swarms are ready, has no undefined behaviour
  and leaves all references valid; so do sessions.
\<close>

section \<open>Events that catch their exceptions\<close>

text \<open>As \<open>safe\<close>, but nothing is said of the swarms afterwards: an exception may have been caught.\<close>

definition harmless ::
  "crypto_ops \<Rightarrow> 'sw bounds \<Rightarrow> ('sw, 'n, 't, nat, 'w, nat response_heap, 'a) full_prog
     \<Rightarrow> ('sw, 'n, 't, nat, 'w, nat response_heap) full_state \<Rightarrow> bool" where
  "harmless cr B m S \<longleftrightarrow> wp m (\<lambda>_ S'. \<exists>B1. within B B1 \<and> intact cr B1 S')
     (\<lambda>f S'. f \<noteq> Undefined \<and> (\<exists>B1. within B B1 \<and> intact cr B1 S')) S"

lemma safe_harmless:
  assumes "safe cr B m Q" "settled cr B S" shows "harmless cr B m S"
  unfolding harmless_def
  by (rule wp_mono [OF safeD [OF assms(1) within_refl assms(2)]]) (blast intro: settled_intact)+

lemma harmless_catch:
  assumes "safe cr B m Q" "settled cr B S" shows "harmless cr B (catch_all m (ret a)) S"
  unfolding harmless_def wp_catch_all wp_ret
  by (rule wp_mono [OF safeD [OF assms(1) within_refl assms(2)]])
    (auto intro: settled_intact split: cxx_fault.split)

lemma harmless_ret: "harmless cr B m S \<Longrightarrow> harmless cr B (sbind m (\<lambda>_. ret a)) S"
  unfolding harmless_def wp_sbind by (rule wp_mono) (auto simp: wp_ret)

lemma harmless_crypto:
  assumes "settled cr B S" "harmless cr B (body cr) S"
  shows "harmless cr B (with_crypto body) S"
proof -
  obtain d N f g where S: "S = (d, (N, (f, g)))" by (metis surj_pair)
  with assms(1) have "lg_crypto g = Some cr" by (simp add: state_in_def)
  with assms(2) show ?thesis by (simp add: harmless_def wp_def with_crypto_def S sbind_apply)
qed

section \<open>Calls of the client\<close>

lemma safe_make_response:
  "safe cr B (at_responses (make_response sys)) (\<lambda>r B'. r < bo_responses B')"
  unfolding safe_def
proof (intro allI impI)
  fix B0 :: "'a bounds" and S :: "('a, 'b, 'c, nat, 'd, nat response_heap) full_state"
  assume B0: "within B B0" and S: "settled cr B0 S"
  obtain d H w dbs q f g where parts: "S = (d, ((H, (w, (dbs, q))), (f, g)))" by (metis surj_pair)
  let ?B = "B0\<lparr>bo_responses := Suc (bo_responses B0)\<rparr>"
  have B: "within B0 ?B" by simp
  note old = settledD [OF S [unfolded parts]]
  have grown: "settled cr ?B (d, ((H, (w, (dbs, q @ [obj]))), (f, g)))" for obj
    by (rule settled_grow [OF S [unfolded parts] B])
      (use old in \<open>auto simp: client_in_def factory_in_def registry_in_def
        intro: settled_init [OF S [unfolded parts] B]\<close>)
  have "length q = bo_responses B0" using old(1) by (simp add: client_in_def)
  obtain sock bound port where sys: "sys = (sock, bound, port)" by (metis surj_pair)
  show "wp (at_responses (make_response sys)) (\<lambda>r S'. \<exists>B1. within B0 B1 \<and> settled cr B1 S' \<and> r < bo_responses B1)
      (\<lambda>f S'. f \<noteq> Undefined \<and> (\<exists>B1. within B0 B1 \<and> intact cr B1 S')) S"
  proof (cases "new_udp_response sock bound port :: nat udp_response cxx")
    case (Inl e)
    then have "e \<noteq> Undefined" by (auto simp: new_udp_response_def split: if_splits option.splits)
    with Inl S parts show ?thesis
      by (auto simp: sys wp_def make_response_def intro!: exI [of _ B0] settled_intact)
  next
    case (Inr obj)
    with grown B parts \<open>length q = bo_responses B0\<close> show ?thesis
      by (auto simp: sys wp_def make_response_def intro!: exI [of _ ?B])
  qed
qed

lemma harmless_library_response:
  assumes env: "sound_env le styled message cr" and S: "settled cr B S"
    and body: "\<And>r t B'. within B B' \<Longrightarrow> r < bo_responses B' \<Longrightarrow> safe_unit cr B' (body r (library_fe le cr t))"
  shows "harmless cr B (library_response le body) S"
proof -
  obtain sys where api: "le_api le = udp_api styled message sys"
    using real_envD(4) [OF sound_envD(1) [OF env]] by blast
  show ?thesis
    unfolding library_response_def api udp_api_sel
    by (rule harmless_catch [OF safe_look_globals S], intro safe_if safe_ret TrueI
        safe_bind [OF safe_make_response] safe_andthen safe_with_factory body)
      (auto simp: within_def)
qed

text \<open>A call of a database: the swarms and responses, beside which the databases stay as they are.\<close>

definition client_kept ::
  "'sw bounds \<Rightarrow> ('sw, ('sw, nat) library_handler) db_dispatch
     \<times> ((('sw, 'n, 't, nat open_handler) swarm_heap \<times> 'w) \<times> nat response_heap) \<Rightarrow> bool" where
  "client_kept B = sent_in (bo_swarms B) (handler_in B)
     (\<lambda>(Hw, q). heap_left (open_in B) (\<lambda>_. True) (bo_swarms B) Hw \<and> length q = bo_responses B)"

lemma wp_send_with:
  fixes le :: "('sw, 'n, 't, nat, 'w, nat response_heap) full_env"
  assumes env: "sound_env le styled message cr" and a: "ad_swarm a \<in> bo_swarms B" and "policy \<noteq> Fastest"
    and r: "r < bo_responses B" and d: "table_in (bo_swarms B) (handler_in B) d"
    and Hw: "heap_ready (open_in B) (\<lambda>_. True) (bo_swarms B) (H, w)" "length q = bo_responses B"
  shows "wp (send_with (db_env le cr t) a req policy (Reply r kind)) (\<lambda>_. client_kept B)
    (\<lambda>f S. f \<noteq> Undefined \<and> client_kept B S) (d, ((H, w), q))"
proof -
  let ?X = "\<lambda>q :: nat response_heap. length q = bo_responses B"
  have ops: "safe_ops (\<lambda>(Hw, q). heap_ready (open_in B) (\<lambda>_. True) (bo_swarms B) Hw \<and> ?X q)
      (\<lambda>(Hw, q). heap_left (open_in B) (\<lambda>_. True) (bo_swarms B) Hw \<and> ?X q)
      (log_ops (real_ops (le_codec le) cr (le_platform le))) (ad_swarm a)"
    by (intro safe_ops_log alone.safe_real_ops sound_envD [OF env] a)
  have "handler_in B (Database_request (Reply r kind))" using r by simp
  note send = wp_send_message [OF ops a this assms(3) d]
  have "wp (send_message_to_swarm (le_codec le) (log_ops (real_ops (le_codec le) cr (le_platform le))) t (ad_swarm a)
        (ad_uuid a) (database_msg_of req) policy (Database_request (Reply r kind)))
      (\<lambda>_. sent_in (bo_swarms B) (handler_in B) (\<lambda>(Hw, q). heap_ready (open_in B) (\<lambda>_. True) (bo_swarms B) Hw \<and> ?X q))
      (\<lambda>f S. f \<noteq> Undefined \<and> client_kept B S) (d, ((H, w), q))"
    unfolding client_kept_def by (rule send) (use Hw in \<open>auto simp: heap_ready_left\<close>)
  then show ?thesis
    unfolding send_with_def db_env_def database_env.simps
    by (rule wp_mono) (auto simp: client_kept_def heap_ready_left sent_in_def)
qed

lemma wp_start_call:
  fixes le :: "('sw, 'n, 't, nat, 'w, nat response_heap) full_env"
  assumes env: "sound_env le styled message cr" and a: "ad_swarm a \<in> bo_swarms B" and c: "call_policy c \<noteq> Fastest"
    and d: "table_in (bo_swarms B) (handler_in B) d"
    and Hw: "heap_ready (open_in B) (\<lambda>_. True) (bo_swarms B) (H, w)" "length q = bo_responses B"
  shows "wp (start_call (db_env le cr t) a c) (\<lambda>_ S. \<exists>n \<ge> bo_responses B. client_kept (B\<lparr>bo_responses := n\<rparr>) S)
    (\<lambda>f S. f \<noteq> Undefined \<and> (\<exists>n \<ge> bo_responses B. client_kept (B\<lparr>bo_responses := n\<rparr>) S)) (d, ((H, w), q))"
proof -
  obtain sock bound port where api: "le_api le = udp_api styled message (sock, bound, port)"
    using real_envD(4) [OF sound_envD(1) [OF env]] by (metis surj_pair)
  have same: "client_kept (B\<lparr>bo_responses := bo_responses B\<rparr>) (d, ((H, w), q))"
    using d Hw by (simp add: client_kept_def heap_ready_left)
  show ?thesis
  proof (cases "new_udp_response sock bound port :: nat udp_response cxx")
    case (Inl e)
    then obtain m where "e = Throws m" by (auto simp: new_udp_response_def split: if_splits option.splits)
    with Inl have "start_call (db_env le cr t) a c (d, ((H, w), q)) = (Inr None, (d, ((H, w), q)))"
      by (simp add: start_call_eq with_response_def catch_all_def sbind_apply db_env_def api make_response_def)
    with same show ?thesis by (auto simp: wp_def)
  next
    case (Inr obj)
    let ?B = "B\<lparr>bo_responses := Suc (bo_responses B)\<rparr>"
    have B: "within B ?B" by simp
    have send: "wp (send_with (db_env le cr t) a req (call_policy c) (Reply (length q) kind)) (\<lambda>_. client_kept ?B)
        (\<lambda>f S. f \<noteq> Undefined \<and> client_kept ?B S) (d, ((H, w), q @ [obj]))" for req kind
    proof (rule wp_send_with [OF env _ c])
      show "table_in (bo_swarms ?B) (handler_in ?B) d" using d by (rule table_in_mono) (auto intro: handler_in_mono [OF _ B])
      show "heap_ready (open_in ?B) (\<lambda>_. True) (bo_swarms ?B) (H, w)"
        using Hw(1) by (auto simp: heap_ready_def heap_left_def heap_ok_def intro: init_ok_mono open_in_mono [OF _ B])
    qed (use a Hw in simp_all)
    have here: "\<exists>n \<ge> bo_responses B. client_kept (B\<lparr>bo_responses := n\<rparr>) S" if "client_kept ?B S" for S
      using that by (intro exI [of _ "Suc (bo_responses B)"]) simp
    have make: "wp (ra_make (de_api (db_env le cr t))) Q F q \<longleftrightarrow> Q (length q) (q @ [obj])" for Q F
      using Inr by (simp add: wp_def db_env_def api make_response_def)
    show ?thesis
      unfolding start_call_eq with_response_def wp_catch_all wp_sbind wp_second wp_andthen wp_ret make
      by (rule wp_mono [OF send]) (auto simp: here split: cxx_fault.split)
  qed
qed

lemma harmless_call:
  fixes le :: "('sw, 'n, 't, nat, 'w, nat response_heap) full_env"
  assumes env: "sound_env le styled message cr" and S: "settled cr B (d, ((H, (w, (dbs, q))), (f, g)))"
    and db: "db < length dbs" and c: "call_policy c \<noteq> Fastest"
  shows "harmless cr B (run_event le (Api_call db c)) (d, ((H, (w, (dbs, q))), (f, g)))"
proof -
  let ?S = "(d, ((H, (w, (dbs, q))), (f, g)))" and ?t = "lg_api_timeout g"
  have client: "client_in B (dbs, q)" using settledD(1) [OF S] .
  then have a: "ad_swarm (dbs ! db) \<in> bo_swarms B" and q: "length q = bo_responses B"
    using db by (auto simp: client_in_def)
  have kept: "\<exists>B1. within B B1 \<and> intact cr B1 (d', ((H', (w', (dbs, q'))), (f, g)))"
    if left: "client_kept (B\<lparr>bo_responses := n\<rparr>) (d', ((H', w'), q'))" and n: "bo_responses B \<le> n" for n d' H' w' q'
  proof (intro exI conjI)
    show "within B (B\<lparr>bo_responses := n\<rparr>)" using n by simp
    have "factory_in (B\<lparr>bo_responses := n\<rparr>) f" "client_in (B\<lparr>bo_responses := n\<rparr>) (dbs, q')"
      using settledD(2) [OF S] client left
      by (simp_all add: factory_in_def registry_in_def client_in_def client_kept_def)
    then show "intact cr (B\<lparr>bo_responses := n\<rparr>) (d', ((H', (w', (dbs, q'))), (f, g)))"
      using left S by (auto simp: client_kept_def state_in_def heap_left_def heap_ok_def store_in_def)
  qed
  have call: "wp (start_call (db_env le cr ?t) (dbs ! db) c)
      (\<lambda>_ T. \<exists>n \<ge> bo_responses B. client_kept (B\<lparr>bo_responses := n\<rparr>) T)
      (\<lambda>f T. f \<noteq> Undefined \<and> (\<exists>n \<ge> bo_responses B. client_kept (B\<lparr>bo_responses := n\<rparr>) T)) (d, ((H, w), q))"
    by (rule wp_start_call [OF env a c _ _ q])
      (use S in \<open>auto simp: state_in_def heap_ready_def heap_left_def heap_ok_def\<close>)
  obtain x d' H' w' q' where run: "start_call (db_env le cr ?t) (dbs ! db) c (d, ((H, w), q)) = (x, (d', ((H', w'), q')))"
    by (metis surj_pair)
  have "harmless cr B (at_client (start_call (db_env le cr ?t) (dbs ! db) c)) ?S"
    using wpD [OF call run] kept run by (cases x) (auto simp: harmless_def wp_def at_client_def)
  then have "harmless cr B (sbind (at_client (start_call (db_env le cr ?t) (dbs ! db) c)) (\<lambda>_. ret ())) ?S"
    by (rule harmless_ret)
  then have "harmless cr B (sbind (at_globals (gets lg_api_timeout)) (\<lambda>t.
       sbind (at_world (at_store (on_fst (the_database db)))) (\<lambda>adb.
       sbind (at_client (start_call (db_env le cr t) adb c)) (\<lambda>_. ret ())))) ?S"
    using db by (simp add: harmless_def wp_def sbind_apply the_database_def)
  then show ?thesis unfolding run_event.simps by (rule harmless_crypto [OF S])
qed

section \<open>Messages and timers of a swarm\<close>

lemma wp_world_swarm:
  "wp (at_world (on_swarm sw m)) Q F (d, ((H, W), x)) \<longleftrightarrow>
     (case H sw of None \<Rightarrow> F Undefined (d, ((H, W), x))
      | Some s \<Rightarrow> wp m (\<lambda>a T. Q a (d, ((H(sw \<mapsto> fst T), snd T), x)))
          (\<lambda>f T. F f (d, ((H(sw \<mapsto> fst T), snd T), x))) (s, W))"
  by (simp add: at_world_def wp_second wp_on_fst wp_on_swarm)

lemma settled_swarm:
  assumes "settled cr B (d, ((H, W), (f, g)))" "H sw = Some s"
  shows "swarm_ok (open_in B) (store_in B) (s, W)" "ready s"
    and "swarm_ok (open_in B) (store_in B) T \<Longrightarrow> intact cr B (d, ((H(sw \<mapsto> fst T), snd T), (f, g)))"
    and "swarm_ok (open_in B) (store_in B) T \<Longrightarrow> ready (fst T) \<Longrightarrow> settled cr B (d, ((H(sw \<mapsto> fst T), snd T), (f, g)))"
  using assms
  by (auto simp: state_in_def heap_ready_def heap_left_def heap_ok_def swarm_ok_def all_ready_def)

text \<open>One operation of a swarm.\<close>

lemma harmless_swarm:
  assumes S: "settled cr B (d, ((H, W), (f, g)))" "H sw = Some s"
    and kept: "keeps (swarm_ok (open_in B) (store_in B)) m" and m: "wp m (\<lambda>_ _. True) (\<lambda>f _. f \<noteq> Undefined) (s, W)"
  shows "harmless cr B (at_world (on_swarm sw m)) (d, ((H, W), (f, g)))"
  unfolding harmless_def wp_world_swarm S(2) option.case
  by (rule wp_mono [OF wp_keeps [OF m kept settled_swarm(1) [OF S]]])
    (use settled_swarm(3) [OF S] in \<open>auto intro!: exI [of _ B]\<close>)

text \<open>The handler of a message that a swarm hands on.\<close>

lemma harmless_relay:
  fixes le :: "('sw, 'n, 't, nat, 'w, nat response_heap) full_env"
  assumes env: "sound_env le styled message cr" and S: "settled cr B (d, ((H, W), (f, g)))"
    and s: "H sw = Some s" "sw_nodes s = Some m" "relay \<in> dom (map_of m)"
  shows "harmless cr B (library_relay le cr sw h relay msg) (d, ((H, W), (f, g)))"
proof (cases h)
  case On_status_response
  have "connected m" using settled_swarm(2) [OF S s(1)] s(2) by (auto simp: ready_def swarm_wf_def)
  from beside_client.wp_status_response [OF sound_beside [OF sound_envD(2) [OF env]] sound_envD(3) [OF env]
      sound_envD(4) [OF env] init_safe_opened [OF sound_envD(1) [OF env]] s(2) this s(3) settled_swarm(1) [OF S s(1)]]
  have "wp (handle_status_response (le_codec le) (le_json le) cr (beside (le_platform le)) (run_opened le) relay msg)
      (\<lambda>_. swarm_ok (open_in B) (store_in B)) (\<lambda>f T. f \<noteq> Undefined \<and> swarm_ok (open_in B) (store_in B) T) (s, W)"
    by blast
  then show ?thesis
    unfolding harmless_def library_relay_def On_status_response response_handler.case wp_world_swarm s(1) option.case
    by (rule wp_mono) (use settled_swarm(3) [OF S s(1)] in \<open>auto intro!: exI [of _ B]\<close>)
next
  case On_database_response
  then show ?thesis by (simp add: library_relay_def safe_harmless [OF safe_swarm_response [OF env] S])
next
  case On_swarm_error
  have "safe_unit cr B (handle_swarm_error (le_codec le) msg :: ('sw, 'n, 't, nat, 'w, nat response_heap, bool) full_prog)"
  proof (rule safe_dispatch)
    fix B' :: "'sw bounds" and d x and N :: "('sw, 'n, 't, nat, 'w, nat response_heap) network"
    let ?W = "\<lambda>(N, y). heap_ready (open_in B') (store_in B') (bo_swarms B') N \<and> y = x"
      and ?V = "\<lambda>(N, y). heap_left (open_in B') (store_in B') (bo_swarms B') N \<and> y = x"
    assume "table_in (bo_swarms B') (handler_in B') d" "heap_ready (open_in B') (store_in B') (bo_swarms B') N"
    then have "wp (handle_swarm_error (le_codec le) msg) (\<lambda>_. sent_in (bo_swarms B') (handler_in B') ?W)
        (\<lambda>f S. f \<noteq> Undefined \<and> sent_in (bo_swarms B') (handler_in B') ?W S) (d, (N, x))"
      by (intro wp_swarm_error) simp_all
    then show "wp (handle_swarm_error (le_codec le) msg) (\<lambda>_. sent_in (bo_swarms B') (handler_in B') ?W)
        (\<lambda>f S. f \<noteq> Undefined \<and> sent_in (bo_swarms B') (handler_in B') ?V S) (d, (N, x))"
      by (rule wp_mono) (auto simp: heap_ready_left sent_in_def)
  qed
  then show ?thesis by (simp add: library_relay_def On_swarm_error safe_harmless [OF _ S])
qed

lemma ready_times:
  assumes "ready s" "sw_nodes s = Some m" "only_times m s s'"
  shows "ready s'"
proof (cases "m = []")
  case True
  have "swarm_wf s'" using assms by (intro only_times_wf [of m s s']) (auto simp: ready_def swarm_wf_def)
  moreover have "sw_initial_nodes s' \<noteq> []"
    using assms True by (auto simp: ready_def has_nodes_def only_times_frame(1))
  ultimately show ?thesis by (simp add: ready_def has_nodes_def)
next
  case False
  with assms show ?thesis by (intro ready_only_times [of m s s']) (auto simp: ready_def swarm_wf_def)
qed

lemma harmless_message:
  fixes le :: "('sw, 'n, 't, nat, 'w, nat response_heap) full_env"
  assumes env: "sound_env le styled message cr" and S: "settled cr B (d, ((H, W), (f, g)))"
    and s: "H sw = Some s" "sw_nodes s = Some m"
  shows "harmless cr B (run_event le (Node_message sw relay data)) (d, ((H, W), (f, g)))"
proof -
  let ?screen = "screen_node_message (le_codec le) cr (beside (le_platform le)) relay data"
  note swarm = settled_swarm [OF S s(1)]
  have "connected m" using swarm(2) s(2) by (auto simp: ready_def swarm_wf_def)
  note screen = wp_keeps [OF wp_screen [OF sound_beside [OF sound_envD(2) [OF env]] sound_envD(4) [OF env] s(2) this]
      beside_client.kept_screen swarm(1)]
  have "harmless cr B (sbind (at_world (on_swarm sw ?screen)) (\<lambda>r. case r of
      Inl b \<Rightarrow> ret b | Inr (h, msg) \<Rightarrow> library_relay le cr sw h relay msg)) (d, ((H, W), (f, g)))"
    unfolding harmless_def wp_sbind wp_world_swarm s(1) option.case
  proof (rule wp_mono [OF screen], goal_cases)
    case (1 r T)
    then have T: "only_times m s (fst T)" "swarm_ok (open_in B) (store_in B) T" by auto
    have settled: "settled cr B (d, ((H(sw \<mapsto> fst T), snd T), (f, g)))"
      using swarm(4) [OF T(2)] ready_times [OF swarm(2) s(2) T(1)] by simp
    obtain m' where m': "sw_nodes (fst T) = Some m'" "dom (map_of m') = dom (map_of m)"
      using T(1) by (auto simp: only_times_def simp flip: dom_peers)
    show ?case
    proof (cases r)
      case (Inl b)
      with settled show ?thesis by (auto simp: wp_ret intro!: exI [of _ B] settled_intact)
    next
      case (Inr hm)
      obtain h msg where hm: "hm = (h, msg)" by fastforce
      with 1 Inr s(2) m'(2) have "relay \<in> dom (map_of m')" by (auto simp: screened_def)
      from harmless_relay [OF env settled _ m'(1) this, of sw h msg] Inr hm show ?thesis by (simp add: harmless_def)
    qed
  next
    case (2 f T)
    with swarm(3) show ?case by (auto intro!: exI [of _ B])
  qed
  then show ?thesis
    unfolding run_event.simps by (intro harmless_crypto [OF S] harmless_ret) (simp add: handle_node_message_def)
qed

section \<open>Events\<close>

text \<open>
  When an event can happen: a call of a database is one that exists, and not a quick read (a request
  of that policy has no retry timer, and an error answer to it cancels a null pointer); messages and
  the ends of timers and sends come from a swarm that was set up, and the failure of a status request
  finds the node map that it refers to (a later one would use a dangling reference, as
  \<open>Swarm_Faults\<close> shows).
\<close>

fun event_fits ::
  "'sw library_event \<Rightarrow> ('sw, 'n, 't, 'r, 'w, 'm) full_state \<Rightarrow> bool" where
  "event_fits (Api_call db c) (d, ((H, (w, (dbs, q))), x)) \<longleftrightarrow> db < length dbs \<and> call_policy c \<noteq> Fastest"
| "event_fits (Node_message sw relay data) (d, ((H, W), x)) \<longleftrightarrow>
     (\<exists>s. H sw = Some s \<and> event_allowed s (Ev_message relay data))"
| "event_fits (Message_sent sw callback ec) (d, ((H, W), x)) \<longleftrightarrow>
     (\<exists>s. H sw = Some s \<and> event_allowed s (Ev_send_result callback ec))"
| "event_fits (Status_timer sw u ec) (d, ((H, W), x)) \<longleftrightarrow>
     (\<exists>s. H sw = Some s \<and> event_allowed s (Ev_status_timer u ec))"
| "event_fits e S \<longleftrightarrow> True"

text \<open>The timers of the dispatcher.\<close>

lemma safe_retry:
  fixes le :: "('sw, 'n, 't, nat, 'w, nat response_heap) full_env" and B :: "'sw bounds"
  assumes env: "sound_env le styled message cr"
  shows "safe_unit cr B (handle_request_timeout (log_ops (real_ops (le_codec le) cr (beside (le_platform le)))) ec k)"
proof (rule safe_dispatch)
  fix B' :: "'sw bounds" and d and x :: "'sw swarm_factory \<times> library_globals" and N :: "('sw, 'n, 't, nat, 'w, nat response_heap) network"
  let ?W = "\<lambda>(N, y). heap_ready (open_in B') (store_in B') (bo_swarms B') N \<and> y = x"
    and ?V = "\<lambda>(N, y). heap_left (open_in B') (store_in B') (bo_swarms B') N \<and> y = x"
    and ?ops = "log_ops (real_ops (le_codec le) cr (beside (le_platform le)))"
  assume d: "table_in (bo_swarms B') (handler_in B') d" and N: "heap_ready (open_in B') (store_in B') (bo_swarms B') N"
  have ops: "safe_ops ?W ?V ?ops sw" if "sw \<in> bo_swarms B'" for sw
    by (intro safe_ops_log beside_client.safe_real_ops sound_beside sound_envD [OF env] that)
  show "wp (handle_request_timeout ?ops ec k) (\<lambda>_. sent_in (bo_swarms B') (handler_in B') ?W)
      (\<lambda>f S. f \<noteq> Undefined \<and> sent_in (bo_swarms B') (handler_in B') ?V S) (d, (N, x))"
    by (rule wp_request_timeout [OF ops d]) (use N in \<open>auto simp: heap_ready_left\<close>)
qed

lemma safe_client_timeout:
  assumes env: "sound_env le styled message cr"
  shows "safe_unit cr B (handle_client_timeout (run_library_handler le) ec k)"
  unfolding handle_client_timeout_def
  by (intro safe_if safe_ret safe_look_table safe_option safe_andthen safe_library_handler [OF env] safe_table TrueI)
    (auto simp: request_in_def dest: table_inD)

lemma harmless_event:
  fixes le :: "('sw, 'n, 't, nat, 'w, nat response_heap) full_env"
  assumes env: "sound_env le styled message cr" and S: "settled cr B S" and e: "event_fits e S"
  shows "harmless cr B (run_event le e) S"
proof -
  obtain d H w dbs q f g where parts: "S = (d, ((H, (w, (dbs, q))), (f, g)))" by (metis surj_pair)
  note S' = S [unfolded parts]
  show ?thesis
  proof (cases e)
    case (Api_has_db u)
    show ?thesis
      unfolding Api_has_db run_event.simps async_has_db_def
      by (intro harmless_ret harmless_library_response [OF env S] safe_has_db [OF env]) simp
  next
    case (Api_open_db u)
    show ?thesis
      unfolding Api_open_db run_event.simps async_open_db_def
      by (intro harmless_ret harmless_library_response [OF env S] safe_has_db [OF env]) simp
  next
    case (Api_create_db u ms ev)
    show ?thesis
      unfolding Api_create_db run_event.simps async_create_db_def factory_create_db_def
      by (intro harmless_ret harmless_library_response [OF env S] safe_look_factory safe_if safe_raise safe_has_db [OF env])
        (auto simp: within_def)
  next
    case (Api_call db c)
    with e show ?thesis by (simp add: parts harmless_call [OF env S'] del: run_event.simps)
  next
    case (Api_set_timeout seconds)
    with S' show ?thesis
      by (auto simp: parts harmless_def wp_def set_timeout_def state_in_def heap_ready_left intro!: exI [of _ B])
  next
    case (Node_message sw relay data)
    with e obtain s m where "H sw = Some s" "sw_nodes s = Some m" by (auto simp: parts)
    with Node_message show ?thesis by (simp add: parts harmless_message [OF env S'] del: run_event.simps)
  next
    case (Message_sent sw callback ec)
    with e obtain s where s: "H sw = Some s" "event_allowed s (Ev_send_result callback ec)" by (auto simp: parts)
    have "wp (handle_send_result (beside (le_platform le)) callback ec) (\<lambda>_ _. True) (\<lambda>f _. f \<noteq> Undefined) (s, (w, (dbs, q)))"
      by (rule wp_mono [OF safe_send_result [OF sound_beside [OF sound_envD(2) [OF env]]
            readyD(1) [OF settled_swarm(2) [OF S' s(1)]] s(2)]]) auto
    then show ?thesis
      unfolding Message_sent run_event.simps parts by (intro harmless_swarm [OF S' s(1)] beside_client.kept_send_result)
  next
    case (Status_timer sw u ec)
    with e obtain s m where s: "H sw = Some s" "sw_nodes s = Some m" by (auto simp: parts)
    have "wp (handle_status_timer (le_codec le) cr (beside (le_platform le)) u ec) (\<lambda>_ _. True) (\<lambda>f _. f \<noteq> Undefined)
        (s, (w, (dbs, q)))"
      by (rule wp_mono [OF safe_status_timer [OF sound_beside [OF sound_envD(2) [OF env]] sound_envD(4) [OF env]
            readyD(1) [OF settled_swarm(2) [OF S' s(1)]] s(2)]]) auto
    then show ?thesis
      unfolding Status_timer run_event.simps parts
      by (intro harmless_crypto [OF S'] harmless_swarm [OF S' s(1)] beside_client.kept_status_timer)
  next
    case (Retry_expired ec nonce)
    show ?thesis
      unfolding Retry_expired run_event.simps by (intro harmless_crypto [OF S] safe_harmless [OF safe_retry [OF env] S])
  next
    case (Client_expired ec nonce)
    show ?thesis
      unfolding Client_expired run_event.simps by (rule safe_harmless [OF safe_client_timeout [OF env] S])
  qed
qed

section \<open>Sessions\<close>

definition swarms_ready :: "('sw, 'n, 't, 'r, 'w, 'm) full_state \<Rightarrow> bool" where
  "swarms_ready S \<longleftrightarrow> all_ready (fst (fst (snd S)))"

text \<open>Sessions of events that fit, at each of which all swarms were ready.\<close>

inductive ready_session ::
  "('sw, 'n, 't, nat, 'w, nat response_heap) full_env \<Rightarrow> 'sw library_event list
     \<Rightarrow> ('sw, 'n, 't, nat, 'w, nat response_heap) full_state
     \<Rightarrow> ('sw, 'n, 't, nat, 'w, nat response_heap) full_state \<Rightarrow> bool"
  for le :: "('sw, 'n, 't, nat, 'w, nat response_heap) full_env" where
  Ready_start: "ready_session le [] S S"
| Ready_step: "ready_session le es S S1 \<Longrightarrow> swarms_ready S1 \<Longrightarrow> event_fits e S1 \<Longrightarrow>
     library_step le e S1 = (x, S2) \<Longrightarrow> ready_session le (es @ [e]) S S2"

text \<open>The state after the initialization, with the objects of the client yet to be made.\<close>

definition started_library ::
  "crypto_ops \<Rightarrow> ('sw, 'n, 't, nat, 'w, nat response_heap) full_state \<Rightarrow> bool" where
  "started_library cr S \<longleftrightarrow> (\<exists>w f g reg. S = (new_dispatch, (((\<lambda>_. None), (w, ([], []))), (f, g)))
     \<and> fa_swarm_reg f = Some reg \<and> registry_wf reg \<and> length reg < 2 ^ 64 \<and> (\<forall>i \<in> ran (map_of reg). si_swarm i = None)
     \<and> fa_initialized f \<and> fa_swarm_dbs f = [] \<and> fa_counters f = [] \<and> lg_crypto g = Some cr \<and> lg_has_factory g)"

lemma started_intact:
  assumes "started_library cr S"
  shows "\<exists>B. intact cr B S"
proof -
  obtain w f g reg where S: "S = (new_dispatch, (((\<lambda>_. None), (w, ([], []))), (f, g)))"
    and f: "fa_swarm_reg f = Some reg" "registry_wf reg" "length reg < 2 ^ 64" "\<forall>i \<in> ran (map_of reg). si_swarm i = None"
      "fa_initialized f" "fa_swarm_dbs f = []" "fa_counters f = []" and g: "lg_crypto g = Some cr" "lg_has_factory g"
    using assms unfolding started_library_def by blast
  let ?B = "\<lparr>bo_swarms = {}, bo_dbs = 0, bo_responses = 0, bo_known = dom (map_of reg), bo_counters = 0\<rparr>"
  have "registry_in ?B reg" using f by (force simp: registry_in_def ran_def)
  with S f g have "intact cr ?B S"
    by (simp add: state_in_def heap_left_def heap_ok_def store_in_def client_in_def factory_in_def)
  then show ?thesis by blast
qed

lemma intact_settled: "intact cr B S \<Longrightarrow> swarms_ready S \<Longrightarrow> settled cr B S"
  by (cases S) (auto simp: state_in_def heap_ready_def swarms_ready_def)

lemma session_intact:
  assumes "ready_session le es S S'" "sound_env le styled message cr" "\<exists>B. intact cr B S"
  shows "\<exists>B. intact cr B S'"
  using assms
proof (induction rule: ready_session.induct)
  case (Ready_step es S S1 e x S2)
  then obtain B where "settled cr B S1" using intact_settled by blast
  from harmless_event [OF Ready_step.prems(1) this Ready_step.hyps(3)]
  have event: "wp (run_event le e) (\<lambda>_ S'. \<exists>B. intact cr B S') (\<lambda>f S'. f \<noteq> Undefined \<and> (\<exists>B. intact cr B S')) S1"
    unfolding harmless_def by (rule wp_mono) blast+
  obtain y S3 where run: "run_event le e S1 = (y, S3)" by (metis surj_pair)
  with Ready_step.hyps(4) have "S2 = S3"
    by (auto simp: library_step_def catch_all_def split: sum.splits cxx_fault.splits if_splits)
  with wpD [OF event run] show ?case by (cases y) auto
qed

text \<open>A successful initialization for a local swarm starts the library.\<close>

lemma initialize_local_started:
  assumes "initialize_local le pub priv endpoint nid sid (d, (((\<lambda>_. None), (w, ([], []))), (f, g))) = (Inr True, S)"
    and "\<not> lg_initialized g" "lg_io_thread g \<noteq> Io_running"
  shows "started_library (new_crypto (le_ossl le) priv) S"
proof (cases "\<exists>h p. endpoint_of (le_port le) endpoint h p")
  case True
  then obtain h p where "endpoint_of (le_port le) endpoint h p" by blast
  note parse = parse_endpoint_accepts [OF this]
  from assms show ?thesis
    by (auto simp: initialize_local_def catch_all_def andthen_apply sbind_apply common_init_run parse
        initialize_nodes_def started_library_def new_factory_def registry_wf_def ran_def om_wf_def reg_add_node_def
        empty_swarm_info_def om_emplace_def)
next
  case False
  note parse = parse_endpoint_rejects [OF False]
  from assms show ?thesis
    by (auto simp: initialize_local_def catch_all_def andthen_apply sbind_apply common_init_run parse stop_io_def)
qed

text \<open>
  So does one from the contract, when it lists fewer than \<open>2 ^ 64\<close> swarms: whatever the contract
  answers, the loops of \<open>update_swarm_registry\<close> only make entries without a swarm object.
\<close>

definition unopened :: "'sw registry \<Rightarrow> bool" where
  "unopened reg \<longleftrightarrow> registry_wf reg \<and> (\<forall>i \<in> ran (map_of reg). si_swarm i = None)"

lemma unopened_add: "unopened reg \<Longrightarrow> unopened (reg_add_node sid nid ep reg)"
  by (auto simp: unopened_def registry_wf_add)
    (auto simp: reg_add_node_def Let_def empty_swarm_info_def ran_def split: option.splits if_splits)

lemma wp_any: "(\<And>a s. Q a s) \<Longrightarrow> wp m Q (\<lambda>_ _. True) s"
  by (auto simp: wp_def split: prod.split sum.split)

lemma wp_contract:
  assumes "\<And>a w'. Q a (d, ((H, (w', X)), y))"
  shows "wp (at_world (on_snd (on_fst m))) Q (\<lambda>_ _. True) (d, ((H, (w, X)), y))"
  unfolding at_world_def wp_second wp_on_fst by (rule wp_any) (rule assms)

lemma library_fe_contract:
  "fe_swarm_ids (library_fe le cr t) addr url = on_snd (on_fst (get_swarm_ids (le_esr le) addr url))"
  "fe_peer_ids (library_fe le cr t) sid addr url = on_snd (on_fst (get_peer_ids (le_esr le) sid addr url))"
  "fe_peer_info (library_fe le cr t) sid n addr url = on_snd (on_fst (get_peer_info (le_esr le) sid n addr url))"
  by (simp_all add: library_fe_def)

lemma wp_add_peers:
  assumes "fa_swarm_reg f = Some []" "unopened reg"
  shows "wp (add_peers (library_fe le cr t) addr url sid ns reg)
    (\<lambda>reg' S. unopened reg' \<and> (\<exists>w'. S = (d, ((H, (w', X)), (f, g))))) (\<lambda>_ _. True) (d, ((H, (w, X)), (f, g)))"
  using assms(2)
proof (induction ns arbitrary: reg w)
  case (Cons n ns)
  show ?case
    unfolding add_peers.simps wp_sbind library_fe_contract
  proof (rule wp_contract, goal_cases)
    case (1 ep w')
    from Cons.IH [OF unopened_add [OF Cons.prems], of sid n ep w'] assms(1) show ?case
      by (simp add: wp_def at_factory_def the_registry_def reg_get_swarm_def sbind_apply)
  qed
qed (simp add: wp_ret)

lemma wp_add_swarms:
  assumes "fa_swarm_reg f = Some []" "unopened reg"
  shows "wp (add_swarms (library_fe le cr t) addr url sids reg)
    (\<lambda>reg' S. unopened reg' \<and> (\<exists>w'. S = (d, ((H, (w', X)), (f, g))))) (\<lambda>_ _. True) (d, ((H, (w, X)), (f, g)))"
  using assms(2)
proof (induction sids arbitrary: reg w)
  case (Cons sid sids)
  have "wp (sbind (add_peers (library_fe le cr t) addr url sid ns reg) (add_swarms (library_fe le cr t) addr url sids))
      (\<lambda>reg' S. unopened reg' \<and> (\<exists>w'. S = (d, ((H, (w', X)), (f, g))))) (\<lambda>_ _. True) (d, ((H, (w', X)), (f, g)))" for ns w'
    unfolding wp_sbind by (rule wp_mono [OF wp_add_peers [OF assms(1) Cons.prems]]) (elim conjE exE, simp_all add: Cons.IH)
  then show ?case unfolding add_swarms.simps wp_sbind [of "at_world _"] library_fe_contract by (intro wp_contract)
qed (simp add: wp_ret)

lemma initialize_contract_started:
  assumes "initialize_contract le pub priv addr url (d, (((\<lambda>_. None), (w, ([], []))), (f, g))) = (Inr True, S)"
    and "\<not> lg_initialized g" "lg_io_thread g \<noteq> Io_running"
    and "\<And>reg. fa_swarm_reg (fst (snd (snd S))) = Some reg \<Longrightarrow> length reg < 2 ^ 64"
  shows "started_library (new_crypto (le_ossl le) priv) S"
proof -
  let ?cr = "new_crypto (le_ossl le) priv"
  let ?g = "g\<lparr>lg_log := add_sink (lg_log g), lg_io_thread := Io_running, lg_crypto := Some ?cr,
      lg_has_factory := True, lg_error_val := 0, lg_error_str := []\<rparr>"
  let ?fe = "library_fe le ?cr (lg_api_timeout g)"
  let ?f = "(new_factory pub)\<lparr>fa_esr_address := addr, fa_esr_url := url, fa_swarm_reg := Some []\<rparr>"
  let ?I = "\<lambda>S. \<exists>w reg f. S = (new_dispatch, (((\<lambda>_. None), (w, ([], []))), (f, ?g)))
    \<and> fa_swarm_reg f = Some reg \<and> unopened reg \<and> fa_swarm_dbs f = [] \<and> fa_counters f = []"
  have nil: "unopened []" by (simp add: unopened_def)
  have update: "wp (update_swarm_registry ?fe) (\<lambda>_. ?I) (\<lambda>_ _. True) (new_dispatch, (((\<lambda>_. None), (w, ([], []))), (?f, ?g)))"
  proof (cases "addr \<noteq> [] \<and> url \<noteq> []")
    case True
    have "wp (sbind (add_swarms ?fe addr url ids []) (\<lambda>sw_reg. at_factory (modify (\<lambda>f. f\<lparr>fa_swarm_reg := Some sw_reg\<rparr>))))
        (\<lambda>_. ?I) (\<lambda>_ _. True) (new_dispatch, (((\<lambda>_. None), (w', ([], []))), (?f, ?g)))" for ids w'
      unfolding wp_sbind at_factory_def wp_second
      by (rule wp_mono [OF wp_add_swarms]) (auto simp: wp_simps wp_on_fst wp_second nil new_factory_def)
    then show ?thesis
      unfolding update_swarm_registry_def library_fe_contract
      by (simp add: at_factory_def wp_sbind wp_second wp_on_fst wp_gets True, intro wp_contract) (simp add: wp_sbind)
  next
    case False
    with nil show ?thesis
      by (auto simp: update_swarm_registry_def at_factory_def wp_simps wp_second wp_on_fst new_factory_def)
  qed
  obtain x S1 where run: "update_swarm_registry ?fe (new_dispatch, (((\<lambda>_. None), (w, ([], []))), (?f, ?g))) = (x, S1)"
    by (metis surj_pair)
  show ?thesis
  proof (cases x)
    case (Inl e)
    with assms(1-3) run show ?thesis
      by (auto simp: initialize_contract_def catch_all_def andthen_apply sbind_apply common_init_run with_factory_def
          initialize_esr_def at_factory_def split: cxx_fault.splits)
  next
    case (Inr u)
    with wpD [OF update run] obtain w1 reg f1 where S1: "S1 = (new_dispatch, (((\<lambda>_. None), (w1, ([], []))), (f1, ?g)))"
      "fa_swarm_reg f1 = Some reg" "unopened reg" "fa_swarm_dbs f1 = []" "fa_counters f1 = []" by auto
    with assms run Inr show ?thesis
      by (auto simp: initialize_contract_def catch_all_def andthen_apply sbind_apply common_init_run with_factory_def
          initialize_esr_def at_factory_def started_library_def unopened_def)
  qed
qed

text \<open>
  C5. The library as a whole has no undefined behaviour as long as its swarms are ready: in every
  session after the initialization, of events that fit and find all swarms with their nodes in
  place, no event uses a null pointer, an invalid iterator or a reference to a swarm, database,
  response, counter or registry that does not exist: every reference that a closure captured is still
  valid when the closure runs, however calls, messages, timers, errors and exceptions interleave.
  Both initializations give such a start (\<open>initialize_local_started\<close>, \<open>initialize_contract_started\<close>).
\<close>

theorem library_sessions_have_no_undefined_behaviour:
  assumes "sound_env le styled message cr" "started_library cr S"
    and "ready_session le es S S1" "swarms_ready S1" "event_fits e S1"
  shows "fst (run_event le e S1) \<noteq> Inl Undefined \<and> fst (library_step le e S1) \<noteq> Inl Undefined"
proof -
  obtain B where "settled cr B S1"
    using session_intact [OF assms(3,1) started_intact [OF assms(2)]] intact_settled assms(4) by blast
  from harmless_event [OF assms(1) this assms(5)]
  have event: "wp (run_event le e) (\<lambda>_ _. True) (\<lambda>f _. f \<noteq> Undefined) S1"
    unfolding harmless_def by (rule wp_mono) blast+
  obtain y S3 where run: "run_event le e S1 = (y, S3)" by (metis surj_pair)
  with wpD [OF event run] show ?thesis
    by (cases y) (auto simp: library_step_def catch_all_def split: cxx_fault.split)
qed

text \<open>In the sample session, the confirmation arrives after the request went out.\<close>

lemma confirm_library_sound: "sound_env confirm_library confirm_text (\<lambda>ec. ''message'') null_crypto"
  using confirm_library_real sound_sample sound_null_crypto
  by (simp add: sound_env_def confirm_library_def behaved_def)

lemma confirm_start_started: "started_library null_crypto confirm_start"
  by (auto simp: started_library_def confirm_start_def confirm_factory_def confirm_globals_def new_factory_def
      registry_wf_def ran_def om_wf_def)

lemma confirm_middle_ready: "swarms_ready confirm_middle"
  by (auto simp: swarms_ready_def all_ready_def confirm_middle_def confirm_swarm_def new_swarm_def ready_def
      swarm_wf_def has_nodes_def connected_def um_wf_def empty_info_def)

lemma library_sessions_have_no_undefined_behaviour_witness:
  "ready_session confirm_library [Api_has_db ''u''] confirm_start confirm_middle
    \<and> fst (library_step confirm_library (Node_message 7 ''a'' ''d'') confirm_middle) \<noteq> Inl Undefined"
proof -
  have "swarms_ready confirm_start" by (simp add: swarms_ready_def all_ready_def confirm_start_def)
  moreover have "event_fits (Api_has_db ''u'') confirm_start" by simp
  ultimately have session: "ready_session confirm_library [Api_has_db ''u''] confirm_start confirm_middle"
    using Ready_step [OF Ready_start _ _ confirm_step1] by simp
  have fits: "event_fits (Node_message 7 ''a'' ''d'') confirm_middle"
    by (simp add: confirm_middle_def confirm_swarm_def)
  from library_sessions_have_no_undefined_behaviour [OF confirm_library_sound confirm_start_started session
      confirm_middle_ready fits] session
  show ?thesis by simp
qed

end
