(* ===== verification/Cli.thy ===== *)
theory Cli
  imports Client_Library Database_Calls
begin

text \<open>
  \<open>bzapi-cli/main.cpp\<close>: the command line client.  It uses the library through the functions of
  \<open>include/bzapi.hpp\<close> and \<open>include/database.hpp\<close>, the record \<open>bzapi\<close>; a call that does not
  return is the value \<open>None\<close>, and then nothing that follows happens.

  The parser of \<open>boost::program_options\<close>, the file system and jsoncpp are parameters; the lines
  that are written are recorded, without the durations that \<open>--timing\<close> prints.
\<close>

section \<open>Names\<close>

definition SUCCESS :: nat where "SUCCESS = 0"
definition ERROR_IN_COMMAND_LINE :: nat where "ERROR_IN_COMMAND_LINE = 1"
definition ERROR_UNHANDLED_EXCEPTION :: nat where "ERROR_UNHANDLED_EXCEPTION = 2"

definition CREATE_DB_MAX_SIZE :: string where "CREATE_DB_MAX_SIZE = ''create_db_max_size''"
definition CREATE_DB_RANDOM_EVICT :: string where "CREATE_DB_RANDOM_EVICT = ''create_db_random_evict''"
definition ADD_WRITER_PUBLIC_KEY :: string where "ADD_WRITER_PUBLIC_KEY = ''add_writer_public_key''"
definition REMOVE_WRITER_PUBLIC_KEY :: string where "REMOVE_WRITER_PUBLIC_KEY = ''remove_writer_public_key''"
definition CREATE_KEY :: string where "CREATE_KEY = ''create_key''"
definition CREATE_VALUE :: string where "CREATE_VALUE = ''create_value''"
definition CREATE_EXPIRE :: string where "CREATE_EXPIRE = ''create_expire''"
definition READ_KEY :: string where "READ_KEY = ''read_key''"
definition QREAD_KEY :: string where "QREAD_KEY = ''qread_key''"
definition UPDATE_KEY :: string where "UPDATE_KEY = ''update_key''"
definition UPDATE_VALUE :: string where "UPDATE_VALUE = ''update_value''"
definition DELETE_KEY :: string where "DELETE_KEY = ''delete_key''"
definition TTL_KEY :: string where "TTL_KEY = ''ttl_key''"
definition PERSIST_KEY :: string where "PERSIST_KEY = ''persist_key''"
definition EXPIRE_KEY :: string where "EXPIRE_KEY = ''expire_key''"
definition EXPIRE_TTL :: string where "EXPIRE_TTL = ''expire_ttl''"
definition HAS_KEY :: string where "HAS_KEY = ''has_key''"
definition HELP :: string where "HELP = ''help''"
definition VERBOSE :: string where "VERBOSE = ''verbose''"
definition COMMAND :: string where "COMMAND = ''command''"
definition TIMING :: string where "TIMING = ''timing''"
definition UUID :: string where "UUID = ''uuid''"
definition CONFIG :: string where "CONFIG = ''config''"

lemmas option_names = CREATE_DB_MAX_SIZE_def CREATE_DB_RANDOM_EVICT_def ADD_WRITER_PUBLIC_KEY_def
  REMOVE_WRITER_PUBLIC_KEY_def CREATE_KEY_def CREATE_VALUE_def CREATE_EXPIRE_def READ_KEY_def QREAD_KEY_def
  UPDATE_KEY_def UPDATE_VALUE_def DELETE_KEY_def TTL_KEY_def PERSIST_KEY_def EXPIRE_KEY_def EXPIRE_TTL_def
  HAS_KEY_def HELP_def VERBOSE_def COMMAND_def TIMING_def UUID_def CONFIG_def

text \<open>The commands, and the keys of the configuration.\<close>

definition STATUS_CMD :: string where "STATUS_CMD = ''status''"
definition CREATE_DB_CMD :: string where "CREATE_DB_CMD = ''create_db''"
definition HAS_DB_CMD :: string where "HAS_DB_CMD = ''has_db''"
definition WRITERS_CMD :: string where "WRITERS_CMD = ''writers''"
definition ADD_WRITER_CMD :: string where "ADD_WRITER_CMD = ''add_writer''"
definition REMOVE_WRITER_CMD :: string where "REMOVE_WRITER_CMD = ''remove_writer''"
definition CREATE_CMD :: string where "CREATE_CMD = ''create''"
definition READ_CMD :: string where "READ_CMD = ''read''"
definition QREAD_CMD :: string where "QREAD_CMD = ''qread''"
definition UPDATE_CMD :: string where "UPDATE_CMD = ''update''"
definition DELETE_CMD :: string where "DELETE_CMD = ''delete''"
definition HAS_CMD :: string where "HAS_CMD = ''has''"
definition TTL_CMD :: string where "TTL_CMD = ''ttl''"
definition PERSIST_CMD :: string where "PERSIST_CMD = ''persist''"
definition EXPIRE_CMD :: string where "EXPIRE_CMD = ''expire''"
definition KEYS_CMD :: string where "KEYS_CMD = ''keys''"
definition SIZE_CMD :: string where "SIZE_CMD = ''size''"

definition BZAPI_CMDS :: string where
  "BZAPI_CMDS =
     STATUS_CMD @ '' | '' @ CREATE_DB_CMD @ '' | '' @ HAS_DB_CMD @ '' | '' @
     WRITERS_CMD @ '' | '' @ ADD_WRITER_CMD @ '' | '' @ REMOVE_WRITER_CMD @ '' | '' @
     CREATE_CMD @ '' | '' @ READ_CMD @ '' | '' @ QREAD_CMD @ '' | '' @ UPDATE_CMD @ '' | '' @
     DELETE_CMD @ '' | '' @ HAS_CMD @ '' | '' @ TTL_CMD @ '' | '' @ PERSIST_CMD @ '' | '' @
     EXPIRE_CMD @ '' | '' @ KEYS_CMD @ '' | '' @ SIZE_CMD"

definition PUBLIC_KEY :: string where "PUBLIC_KEY = ''public_key''"
definition PRIVATE_KEY :: string where "PRIVATE_KEY = ''private_key''"
definition ESR_ADDRESS :: string where "ESR_ADDRESS = ''esr_address''"
definition ETHEREUM_URL :: string where "ETHEREUM_URL = ''ethereum_url''"
definition TIMEOUT :: string where "TIMEOUT = ''timeout''"

lemmas command_names = STATUS_CMD_def CREATE_DB_CMD_def HAS_DB_CMD_def WRITERS_CMD_def ADD_WRITER_CMD_def
  REMOVE_WRITER_CMD_def CREATE_CMD_def READ_CMD_def QREAD_CMD_def UPDATE_CMD_def DELETE_CMD_def
  HAS_CMD_def TTL_CMD_def PERSIST_CMD_def EXPIRE_CMD_def KEYS_CMD_def SIZE_CMD_def

lemmas config_keys = PUBLIC_KEY_def PRIVATE_KEY_def ESR_ADDRESS_def ETHEREUM_URL_def TIMEOUT_def

section \<open>Options\<close>

datatype option_value = Given | Text_value string | Number_value u64 | Bool_value bool

datatype option_kind = Flag | Text_option | Number_option | Bool_option

record cli_option =
  co_name :: string
  co_short :: "char option"
  co_kind :: option_kind
  co_default :: "option_value option"
  co_help :: string

text \<open>The options in their groups, as the help shows them.\<close>

definition cli_options :: "(string \<times> cli_option list) list" where
  "cli_options =
    [(''bzapi options'', [
        \<lparr>co_name = HELP, co_short = Some CHR ''h'', co_kind = Flag, co_default = None, co_help = ''display this help message''\<rparr>,
        \<lparr>co_name = VERBOSE, co_short = Some CHR ''v'', co_kind = Flag, co_default = None, co_help = ''verbose logging''\<rparr>,
        \<lparr>co_name = CONFIG, co_short = Some CHR ''c'', co_kind = Text_option, co_default = Some (Text_value ''bzapi-cli.json''), co_help = ''configuration file''\<rparr>,
        \<lparr>co_name = COMMAND, co_short = None, co_kind = Text_option, co_default = None, co_help = BZAPI_CMDS\<rparr>,
        \<lparr>co_name = TIMING, co_short = Some CHR ''t'', co_kind = Flag, co_default = None, co_help = ''display operation times''\<rparr>,
        \<lparr>co_name = UUID, co_short = Some CHR ''u'', co_kind = Text_option, co_default = None, co_help = ''database uuid''\<rparr>]),
     (STATUS_CMD @ '' (Swarm status)'', []),
     (CREATE_DB_CMD @ '' (Create database)'', [
        \<lparr>co_name = CREATE_DB_MAX_SIZE, co_short = None, co_kind = Number_option, co_default = Some (Number_value 0), co_help = ''database max size''\<rparr>,
        \<lparr>co_name = CREATE_DB_RANDOM_EVICT, co_short = None, co_kind = Bool_option, co_default = Some (Bool_value False), co_help = ''database policy''\<rparr>]),
     (HAS_DB_CMD @ '' (Has database)'', []),
     (WRITERS_CMD @ '' (Database writers)'', []),
     (ADD_WRITER_CMD @ '' (Add database writer)'', [
        \<lparr>co_name = ADD_WRITER_PUBLIC_KEY, co_short = None, co_kind = Text_option, co_default = None, co_help = ''writer'' @ [CHR 0x27] @ ''s public key''\<rparr>]),
     (REMOVE_WRITER_CMD @ '' (Remove database writer)'', [
        \<lparr>co_name = REMOVE_WRITER_PUBLIC_KEY, co_short = None, co_kind = Text_option, co_default = None, co_help = ''writer'' @ [CHR 0x27] @ ''s public key''\<rparr>]),
     (CREATE_CMD @ '' (Create k/v)'', [
        \<lparr>co_name = CREATE_KEY, co_short = None, co_kind = Text_option, co_default = None, co_help = ''create to key''\<rparr>,
        \<lparr>co_name = CREATE_VALUE, co_short = None, co_kind = Text_option, co_default = None, co_help = ''created key value''\<rparr>,
        \<lparr>co_name = CREATE_EXPIRE, co_short = None, co_kind = Number_option, co_default = Some (Number_value 0), co_help = ''key'' @ [CHR 0x27] @ ''s expiration in seconds''\<rparr>]),
     (READ_CMD @ '' (Read k/v)'', [
        \<lparr>co_name = READ_KEY, co_short = None, co_kind = Text_option, co_default = None, co_help = ''key to read''\<rparr>]),
     (QREAD_CMD @ '' (Quick read k/v)'', [
        \<lparr>co_name = QREAD_KEY, co_short = None, co_kind = Text_option, co_default = None, co_help = ''key to quick read''\<rparr>]),
     (UPDATE_CMD @ '' (Update k/v)'', [
        \<lparr>co_name = UPDATE_KEY, co_short = None, co_kind = Text_option, co_default = None, co_help = ''key to update''\<rparr>,
        \<lparr>co_name = UPDATE_VALUE, co_short = None, co_kind = Text_option, co_default = None, co_help = ''key'' @ [CHR 0x27] @ ''s new value''\<rparr>]),
     (DELETE_CMD @ '' (Delete k/v)'', [
        \<lparr>co_name = DELETE_KEY, co_short = None, co_kind = Text_option, co_default = None, co_help = ''key to delete''\<rparr>]),
     (HAS_CMD @ '' (Determine whether a key exists within a database by uuid)'', [
        \<lparr>co_name = HAS_KEY, co_short = None, co_kind = Text_option, co_default = None, co_help = ''key to check''\<rparr>]),
     (TTL_CMD @ '' (Get ttl for a key within a db by uuid)'', [
        \<lparr>co_name = TTL_KEY, co_short = None, co_kind = Text_option, co_default = None, co_help = ''ttl for a key''\<rparr>]),
     (PERSIST_CMD @ '' (Remove expiration for a key within a database by uuid)'', [
        \<lparr>co_name = PERSIST_KEY, co_short = None, co_kind = Text_option, co_default = None, co_help = ''remove ttl for a key''\<rparr>]),
     (EXPIRE_CMD @ '' (Set expire for a key within a database by uuid)'', [
        \<lparr>co_name = EXPIRE_KEY, co_short = None, co_kind = Text_option, co_default = None, co_help = ''key to add a ttl''\<rparr>,
        \<lparr>co_name = EXPIRE_TTL, co_short = None, co_kind = Number_option, co_default = None, co_help = ''set ttl for a key in seconds''\<rparr>]),
     (SIZE_CMD @ '' (Determine the size of the database by uuid)'', [])]"

type_synonym variables_map = "string \<rightharpoonup> option_value"

definition given :: "variables_map \<Rightarrow> string \<Rightarrow> bool" where
  "given vm opt \<longleftrightarrow> vm opt \<noteq> None"

text \<open>\<open>vm[opt].as<T>()\<close>, which throws when there is no value of that type.\<close>

definition as_text :: "variables_map \<Rightarrow> string \<Rightarrow> string cxx" where
  "as_text vm opt = (case vm opt of Some (Text_value t) \<Rightarrow> Inr t | _ \<Rightarrow> Inl (Throws ''boost::bad_any_cast''))"

definition as_number :: "variables_map \<Rightarrow> string \<Rightarrow> u64 cxx" where
  "as_number vm opt = (case vm opt of Some (Number_value n) \<Rightarrow> Inr n | _ \<Rightarrow> Inl (Throws ''boost::bad_any_cast''))"

definition as_bool :: "variables_map \<Rightarrow> string \<Rightarrow> bool cxx" where
  "as_bool vm opt = (case vm opt of Some (Bool_value b) \<Rightarrow> Inr b | _ \<Rightarrow> Inl (Throws ''boost::bad_any_cast''))"

section \<open>What the program uses\<close>

datatype cli_line = Out string | Err string | Timed string | Usage

record ('s, 'db) bzapi =
  ba_initialize :: "string \<Rightarrow> string \<Rightarrow> string \<Rightarrow> string \<Rightarrow> ('s, bool) prog"
  ba_set_timeout :: "u64 \<Rightarrow> ('s, unit) prog"
  ba_set_logger :: "nat option \<Rightarrow> ('s, unit) prog"
  ba_terminate :: "('s, unit) prog"
  ba_has_db :: "uuid \<Rightarrow> ('s, bool option) prog"
  ba_create_db :: "uuid \<Rightarrow> u64 \<Rightarrow> bool \<Rightarrow> ('s, 'db option option) prog"
  ba_open_db :: "uuid \<Rightarrow> ('s, 'db option option) prog"
  ba_error_str :: "('s, string) prog"
  ba_call :: "'db \<Rightarrow> db_call \<Rightarrow> ('s, string option) prog"
  ba_swarm_status :: "'db \<Rightarrow> ('s, string option) prog"

record cli_env =
  ce_parse :: "(string \<times> cli_option list) list \<Rightarrow> string list \<Rightarrow> variables_map cxx"
  ce_read_file :: "string \<Rightarrow> string option"
  ce_json :: "string \<Rightarrow> json option"
  ce_is_member :: "json \<Rightarrow> string \<Rightarrow> bool cxx"
  ce_member :: "json \<Rightarrow> string \<Rightarrow> json cxx"
  ce_string :: "json \<Rightarrow> string cxx"
  ce_uint64 :: "json \<Rightarrow> u64 cxx"

type_synonym ('s, 'a) cli_prog = "('s \<times> cli_line list, 'a) prog"

definition emit :: "cli_line \<Rightarrow> ('s, unit) cli_prog" where
  "emit l = on_snd (modify (\<lambda>ls. ls @ [l]))"

text \<open>
  The object \<open>logger\<close>, as the logger of the library and as the output of the commands; its mutex
  only keeps the lines of the two threads apart.  \<open>CLI_LOGGER\<close> is its address.
\<close>

definition CLI_LOGGER :: nat where "CLI_LOGGER = 0"

definition setw :: "nat \<Rightarrow> string \<Rightarrow> string" where
  "setw n t = replicate (n - length t) (CHR '' '') @ t"

definition my_logger_log :: "string \<Rightarrow> string \<Rightarrow> (cli_line list, unit) prog" where
  "my_logger_log severity message = modify (\<lambda>ls. ls @ [Out (setw 6 severity @ '': '' @ message)])"

definition my_logger_print :: "string \<Rightarrow> ('s, unit) cli_prog" where
  "my_logger_print message = emit (Out message)"

text \<open>Where the records of the library go in this process.\<close>

definition cli_log_env ::
  "(nat list \<Rightarrow> (nat \<Rightarrow> (cli_line list, unit) log_prog) \<Rightarrow> severity \<Rightarrow> string \<Rightarrow> (cli_line list, unit) log_prog)
     \<Rightarrow> cli_line list log_env" where
  "cli_log_env core = \<lparr>ve_log = (\<lambda>_. my_logger_log), ve_print = (\<lambda>t. modify (\<lambda>ls. ls @ [Out t])), ve_core = core\<rparr>"

text \<open>Going on with the result of a call that may not return.\<close>

definition awaiting :: "('s, 'a option) prog \<Rightarrow> ('a \<Rightarrow> ('s, 'b option) prog) \<Rightarrow> ('s, 'b option) prog" where
  "awaiting m k = sbind m (\<lambda>r. case r of None \<Rightarrow> ret None | Some a \<Rightarrow> k a)"

text \<open>\<open>do_timing\<close>: the destructor of the timer writes its line when the scope is left.\<close>

definition timed :: "variables_map \<Rightarrow> string \<Rightarrow> ('s, 'a option) cli_prog \<Rightarrow> ('s, 'a option) cli_prog" where
  "timed vm op_name m =
     (if given vm TIMING
      then (\<lambda>s. case m s of
          (Inr (Some a), s') \<Rightarrow> andthen (emit (Timed op_name)) (ret (Some a)) s'
        | (Inl (Throws e), s') \<Rightarrow> andthen (emit (Timed op_name)) (raise (Throws e)) s'
        | r \<Rightarrow> r)
      else m)"

section \<open>Configuration\<close>

definition load_config :: "cli_env \<Rightarrow> string \<Rightarrow> ('s, json option) cli_prog" where
  "load_config ce filename =
     (case ce_read_file ce filename of
        None \<Rightarrow> andthen (emit (Err (''Failed to read config file:  '' @ filename))) (ret None)
      | Some t \<Rightarrow> (case ce_json ce t of
            None \<Rightarrow> andthen (emit (Err ''Failed to parse config!'')) (ret None)
          | Some config \<Rightarrow> ret (Some config)))"

definition config_text :: "cli_env \<Rightarrow> json \<Rightarrow> string \<Rightarrow> ('s, string) cli_prog" where
  "config_text ce config key = lift_cxx (cbind (ce_member ce config key) (ce_string ce))"

definition print_error :: "('s, 'db) bzapi \<Rightarrow> string \<Rightarrow> ('s, unit) cli_prog" where
  "print_error ba prefix = sbind (on_fst (ba_error_str ba)) (\<lambda>t. emit (Err (prefix @ t)))"

definition initialize_bzapi ::
  "('s, 'db) bzapi \<Rightarrow> cli_env \<Rightarrow> variables_map \<Rightarrow> json \<Rightarrow> ('s, bool option) cli_prog" where
  "initialize_bzapi ba ce vm config =
     sbind (lift_cxx (ce_is_member ce config TIMEOUT)) (\<lambda>has_timeout.
     andthen (if has_timeout
              then sbind (lift_cxx (cbind (ce_member ce config TIMEOUT) (ce_uint64 ce))) (\<lambda>t.
                on_fst (ba_set_timeout ba t))
              else ret ())
     (timed vm ''initialize''
       (sbind (config_text ce config PUBLIC_KEY) (\<lambda>public_key.
        sbind (config_text ce config PRIVATE_KEY) (\<lambda>private_key.
        sbind (config_text ce config ESR_ADDRESS) (\<lambda>esr_address.
        sbind (config_text ce config ETHEREUM_URL) (\<lambda>ethereum_url.
        sbind (on_fst (ba_initialize ba public_key private_key esr_address ethereum_url)) (\<lambda>ok.
          if ok then ret (Some True)
          else andthen (print_error ba ''initialize failed: '') (ret (Some False))))))))))"

section \<open>Commands\<close>

definition cli_open_db ::
  "('s, 'db) bzapi \<Rightarrow> cli_env \<Rightarrow> variables_map \<Rightarrow> json \<Rightarrow> ('s, 'db option option) cli_prog" where
  "cli_open_db ba ce vm config =
     awaiting (initialize_bzapi ba ce vm config) (\<lambda>ok.
       if ok
       then timed vm ''open_db''
         (sbind (lift_cxx (as_text vm UUID)) (\<lambda>u.
          awaiting (on_fst (ba_open_db ba u)) (\<lambda>db.
            if db = None then andthen (print_error ba []) (ret (Some None)) else ret (Some db))))
       else ret (Some None))"

text \<open>Open the database, call, write the result: the body that most handlers share.\<close>

definition log_result ::
  "('s, 'db) bzapi \<Rightarrow> cli_env \<Rightarrow> variables_map \<Rightarrow> json \<Rightarrow> string
     \<Rightarrow> ('db \<Rightarrow> ('s, string option) cli_prog) \<Rightarrow> ('s, bool option) cli_prog" where
  "log_result ba ce vm config op_name call =
     awaiting (cli_open_db ba ce vm config) (\<lambda>opened. case opened of
         None \<Rightarrow> ret (Some False)
       | Some db \<Rightarrow> timed vm op_name
           (awaiting (call db) (\<lambda>t. andthen (my_logger_print t) (ret (Some True)))))"

definition log_call ::
  "('s, 'db) bzapi \<Rightarrow> cli_env \<Rightarrow> variables_map \<Rightarrow> json \<Rightarrow> string \<Rightarrow> db_call cxx \<Rightarrow> ('s, bool option) cli_prog" where
  "log_call ba ce vm config op_name c =
     log_result ba ce vm config op_name (\<lambda>db. sbind (lift_cxx c) (\<lambda>c. on_fst (ba_call ba db c)))"

type_synonym ('s, 'db) cli_handler =
  "('s, 'db) bzapi \<Rightarrow> cli_env \<Rightarrow> variables_map \<Rightarrow> json \<Rightarrow> ('s, bool option) cli_prog"

definition handle_status :: "('s, 'db) cli_handler" where
  "handle_status ba ce vm config = log_result ba ce vm config ''status'' (\<lambda>db. on_fst (ba_swarm_status ba db))"

definition handle_create_db :: "('s, 'db) cli_handler" where
  "handle_create_db ba ce vm config =
     awaiting (awaiting (initialize_bzapi ba ce vm config) (\<lambda>ok.
       if ok
       then timed vm ''create_db''
         (sbind (lift_cxx (as_text vm UUID)) (\<lambda>u.
          sbind (lift_cxx (as_number vm CREATE_DB_MAX_SIZE)) (\<lambda>max_size.
          sbind (lift_cxx (as_bool vm CREATE_DB_RANDOM_EVICT)) (\<lambda>random_evict.
          awaiting (on_fst (ba_create_db ba u max_size random_evict)) (\<lambda>db.
            if db \<noteq> None
            then andthen (my_logger_print (''Database: '' @ u @ '' created'')) (ret (Some True))
            else andthen (my_logger_print (''Database: '' @ u @ '' creation failed'')) (ret (Some False)))))))
       else ret (Some False)))
     (\<lambda>done. if done then ret (Some True) else andthen (print_error ba []) (ret (Some False)))"

definition handle_has_db :: "('s, 'db) cli_handler" where
  "handle_has_db ba ce vm config =
     awaiting (awaiting (initialize_bzapi ba ce vm config) (\<lambda>ok.
       if ok
       then timed vm ''has_db''
         (sbind (lift_cxx (as_text vm UUID)) (\<lambda>u.
          awaiting (on_fst (ba_has_db ba u)) (\<lambda>has.
            if has
            then andthen (my_logger_print (''Database: '' @ u @ '' exists'')) (ret (Some True))
            else andthen (my_logger_print (''Database: '' @ u @ '' does not exist'')) (ret (Some False)))))
       else ret (Some False)))
     (\<lambda>found. if found then ret (Some True) else andthen (print_error ba []) (ret (Some False)))"

definition handle_writer :: "('s, 'db) cli_handler" where
  "handle_writer ba ce vm config = log_call ba ce vm config ''writers'' (Inr Call_writers)"

definition refuse :: "string \<Rightarrow> ('s, bool option) cli_prog" where
  "refuse t = andthen (emit (Err t)) (ret (Some False))"

definition handle_add_writer :: "('s, 'db) cli_handler" where
  "handle_add_writer ba ce vm config =
     (if given vm ADD_WRITER_PUBLIC_KEY
      then log_call ba ce vm config ''add_writer'' (cbind (as_text vm ADD_WRITER_PUBLIC_KEY) (\<lambda>w. Inr (Call_add_writer w)))
      else refuse (ADD_WRITER_PUBLIC_KEY @ '' not specified''))"

definition handle_remove_writer :: "('s, 'db) cli_handler" where
  "handle_remove_writer ba ce vm config =
     (if given vm REMOVE_WRITER_PUBLIC_KEY
      then log_call ba ce vm config ''remove_writer''
        (cbind (as_text vm REMOVE_WRITER_PUBLIC_KEY) (\<lambda>w. Inr (Call_remove_writer w)))
      else refuse (REMOVE_WRITER_PUBLIC_KEY @ '' not specified''))"

definition handle_create :: "('s, 'db) cli_handler" where
  "handle_create ba ce vm config =
     (if given vm CREATE_KEY \<and> given vm CREATE_VALUE
      then log_call ba ce vm config ''create''
        (cbind (as_text vm CREATE_KEY) (\<lambda>k. cbind (as_text vm CREATE_VALUE) (\<lambda>v.
         cbind (as_number vm CREATE_EXPIRE) (\<lambda>n. Inr (Call_create k v n)))))
      else refuse (CREATE_KEY @ '' & '' @ CREATE_VALUE @ '' must be specified''))"

definition handle_read :: "('s, 'db) cli_handler" where
  "handle_read ba ce vm config =
     (if given vm READ_KEY
      then log_call ba ce vm config ''read'' (cbind (as_text vm READ_KEY) (\<lambda>k. Inr (Call_read k)))
      else refuse (READ_KEY @ '' must be specified''))"

definition handle_qread :: "('s, 'db) cli_handler" where
  "handle_qread ba ce vm config =
     (if given vm QREAD_KEY
      then log_call ba ce vm config ''qread'' (cbind (as_text vm QREAD_KEY) (\<lambda>k. Inr (Call_quick_read k)))
      else refuse (QREAD_KEY @ '' must be specified''))"

definition handle_update :: "('s, 'db) cli_handler" where
  "handle_update ba ce vm config =
     (if given vm UPDATE_KEY \<and> given vm UPDATE_VALUE
      then log_call ba ce vm config ''update''
        (cbind (as_text vm UPDATE_KEY) (\<lambda>k. cbind (as_text vm UPDATE_VALUE) (\<lambda>v. Inr (Call_update k v))))
      else refuse (UPDATE_KEY @ '' & '' @ UPDATE_VALUE @ '' must be specified''))"

definition handle_delete :: "('s, 'db) cli_handler" where
  "handle_delete ba ce vm config =
     (if given vm DELETE_KEY
      then log_call ba ce vm config ''delete'' (cbind (as_text vm DELETE_KEY) (\<lambda>k. Inr (Call_remove k)))
      else refuse (DELETE_KEY @ '' must be specified''))"

definition handle_has :: "('s, 'db) cli_handler" where
  "handle_has ba ce vm config =
     (if given vm HAS_KEY
      then log_call ba ce vm config ''has'' (cbind (as_text vm HAS_KEY) (\<lambda>k. Inr (Call_has k)))
      else refuse (HAS_KEY @ '' must be specified''))"

definition handle_ttl :: "('s, 'db) cli_handler" where
  "handle_ttl ba ce vm config =
     (if given vm TTL_KEY
      then log_call ba ce vm config ''ttl'' (cbind (as_text vm TTL_KEY) (\<lambda>k. Inr (Call_ttl k)))
      else refuse (TTL_KEY @ '' must be specified''))"

definition handle_persist :: "('s, 'db) cli_handler" where
  "handle_persist ba ce vm config =
     (if given vm PERSIST_KEY
      then log_call ba ce vm config ''persist'' (cbind (as_text vm PERSIST_KEY) (\<lambda>k. Inr (Call_persist k)))
      else refuse (PERSIST_KEY @ '' must be specified''))"

definition handle_expire :: "('s, 'db) cli_handler" where
  "handle_expire ba ce vm config =
     (if given vm EXPIRE_KEY \<and> given vm EXPIRE_TTL
      then log_call ba ce vm config ''expire''
        (cbind (as_text vm EXPIRE_KEY) (\<lambda>k. cbind (as_number vm EXPIRE_TTL) (\<lambda>n. Inr (Call_expire k n))))
      else refuse (EXPIRE_KEY @ '' & '' @ EXPIRE_TTL @ '' must be specified''))"

definition handle_keys :: "('s, 'db) cli_handler" where
  "handle_keys ba ce vm config = log_call ba ce vm config ''keys'' (Inr Call_keys)"

definition handle_size :: "('s, 'db) cli_handler" where
  "handle_size ba ce vm config = log_call ba ce vm config ''size'' (Inr Call_size)"

definition bzapi_cmd_handlers :: "(string \<times> ('s, 'db) cli_handler) list" where
  "bzapi_cmd_handlers =
     [(STATUS_CMD, handle_status), (CREATE_DB_CMD, handle_create_db),
     (HAS_DB_CMD, handle_has_db), (WRITERS_CMD, handle_writer),
     (ADD_WRITER_CMD, handle_add_writer), (REMOVE_WRITER_CMD, handle_remove_writer),
     (CREATE_CMD, handle_create), (READ_CMD, handle_read), (QREAD_CMD, handle_qread),
     (UPDATE_CMD, handle_update), (DELETE_CMD, handle_delete), (HAS_CMD, handle_has),
     (TTL_CMD, handle_ttl), (PERSIST_CMD, handle_persist), (EXPIRE_CMD, handle_expire),
     (KEYS_CMD, handle_keys), (SIZE_CMD, handle_size)]"

definition install_logger :: "('s, 'db) bzapi \<Rightarrow> variables_map \<Rightarrow> ('s, unit) cli_prog" where
  "install_logger ba vm = (if given vm VERBOSE then on_fst (ba_set_logger ba (Some CLI_LOGGER)) else ret ())"

definition run_command :: "('s, 'db) cli_handler" where
  "run_command ba ce vm config =
     sbind (lift_cxx (as_text vm COMMAND)) (\<lambda>command.
       case map_of bzapi_cmd_handlers command of
         Some handler \<Rightarrow> handler ba ce vm config
       | None \<Rightarrow> refuse (''Unknown command: '' @ command))"

definition process_program_options :: "('s, 'db) cli_handler" where
  "process_program_options ba ce vm config = andthen (install_logger ba vm) (run_command ba ce vm config)"

section \<open>\<open>main\<close>\<close>

text \<open>The \<open>try\<close> block of \<open>main\<close>: a code that is returned at once, or going on behind it.\<close>

definition main_body ::
  "('s, 'db) bzapi \<Rightarrow> cli_env \<Rightarrow> string list \<Rightarrow> ('s, nat option option) cli_prog" where
  "main_body ba ce argv =
     sbind (lift_cxx (ce_parse ce cli_options argv)) (\<lambda>vm.
     if given vm HELP \<or> length argv = 1 then andthen (emit Usage) (ret (Some (Some SUCCESS)))
     else sbind (lift_cxx (as_text vm CONFIG)) (\<lambda>filename.
       sbind (load_config ce filename) (\<lambda>loaded. case loaded of
         None \<Rightarrow> ret (Some (Some ERROR_IN_COMMAND_LINE))
       | Some config \<Rightarrow>
           if \<not> given vm UUID
           then andthen (emit (Err ''Error: uuid not specified'')) (andthen (emit Usage)
             (ret (Some (Some ERROR_IN_COMMAND_LINE))))
           else if \<not> given vm COMMAND
           then andthen (emit (Err ''Error: command not specified'')) (andthen (emit Usage)
             (ret (Some (Some ERROR_IN_COMMAND_LINE))))
           else awaiting (process_program_options ba ce vm config) (\<lambda>ok.
             if ok then andthen (on_fst (ba_terminate ba)) (ret (Some (Some SUCCESS)))
             else ret (Some None)))))"

text \<open>The exceptions of the model are those derived from \<open>std::exception\<close>, which the handler catches.\<close>

definition cli_main ::
  "('s, 'db) bzapi \<Rightarrow> cli_env \<Rightarrow> string list \<Rightarrow> ('s, nat option) cli_prog" where
  "cli_main ba ce argv = (\<lambda>s. case main_body ba ce argv s of
       (Inl (Throws e), s') \<Rightarrow>
         andthen (emit (Err (''Unhandled Exception: '' @ e @ '', application will now exit''))) (andthen (emit Usage)
           (andthen (on_fst (ba_terminate ba)) (ret (Some ERROR_UNHANDLED_EXCEPTION)))) s'
     | (Inl f, s') \<Rightarrow> (Inl f, s')
     | (Inr None, s') \<Rightarrow> (Inr None, s')
     | (Inr (Some (Some code)), s') \<Rightarrow> (Inr (Some code), s')
     | (Inr (Some None), s') \<Rightarrow>
         andthen (on_fst (ba_terminate ba)) (ret (Some ERROR_IN_COMMAND_LINE)) s')"

end
