(* ===== verification/Public_Api.thy ===== *)
theory Public_Api
  imports Library_Behaviour Database_Calls
begin

text \<open>
  The public interface: the functions of \<open>include/bzapi.hpp\<close>, what each of them can end with, and the
  methods of \<open>include/database.hpp\<close> with the form of their answers that its comments promise.
\<close>

section \<open>Databases of the library\<close>

text \<open>
  A method of \<open>database\<close>, on the database with that number in the library: a null \<open>database\<close> is
  dereferenced, and so is a null response.
\<close>

definition library_call ::
  "('sw, 'n, 't, 'r, 'w, 'm, 'h) library_env \<Rightarrow> ('r reply_handler \<Rightarrow> 'h)
     \<Rightarrow> ('r \<Rightarrow> ('sw, 'n, 't, 'r, 'w, 'm, 'h, unit) library_prog) \<Rightarrow> nat option \<Rightarrow> db_call
     \<Rightarrow> ('sw, 'n, 't, 'r, 'w, 'm, 'h, string option) library_prog" where
  "library_call le reply wait db c =
     (case db of None \<Rightarrow> raise Undefined
      | Some i \<Rightarrow> sbind (at_globals (gets id)) (\<lambda>g. case lg_crypto g of None \<Rightarrow> raise Undefined
          | Some cr \<Rightarrow> sbind (at_world (at_store (on_fst (the_database i)))) (\<lambda>adb.
              sbind (at_client (start_call \<lparr>de_codec = le_codec le, de_swarms = real_ops (le_codec le) cr (le_platform le),
                de_api = le_api le, de_timeout = lg_api_timeout g, de_closure = reply\<rparr> adb c)) (\<lambda>r.
              case r of None \<Rightarrow> raise Undefined
              | Some resp \<Rightarrow> andthen (wait resp) (at_responses (le_get_result le resp))))))"

text \<open>\<open>swarm_status\<close> asks the swarm of the database itself.\<close>

definition library_swarm_status ::
  "('sw, 'n, 't, 'r, 'w, 'm, 'h) library_env \<Rightarrow> nat option
     \<Rightarrow> ('sw, 'n, 't, 'r, 'w, 'm, 'h, string option) library_prog" where
  "library_swarm_status le db = (case db of None \<Rightarrow> raise Undefined
     | Some i \<Rightarrow> sbind (at_world (at_store (on_fst (the_database i)))) (\<lambda>adb.
         at_world (on_swarm (ad_swarm adb) (sbind (get_status (le_json le) (beside (le_platform le)))
           (\<lambda>t. ret (Some t))))))"

section \<open>The functions of the library\<close>

datatype api_call =
    Initialize string string string string
  | Initialize_local string string string node_id swarm_id
  | Set_timeout u64
  | Terminate
  | Has_db uuid
  | Create_db uuid u64 bool
  | Open_db uuid
  | Async_has_db uuid
  | Async_create_db uuid u64 bool
  | Async_open_db uuid
  | Get_error
  | Get_error_str

text \<open>What they return; a \<open>None\<close> in it is the null pointer.\<close>

datatype 'r api_answer =
    Nothing
  | A_bool bool
  | A_database "nat option option"
  | A_response "'r option"
  | A_int int
  | A_text string

text \<open>\<open>None\<close> is a call that does not return: the response it waits for never becomes ready.\<close>

fun run_api ::
  "('sw, 'n, 't, 'r, 'w, 'm, 'h) library_env \<Rightarrow> ('r \<Rightarrow> ('sw, 'n, 't, 'r, 'w, 'm, 'h, unit) library_prog)
     \<Rightarrow> api_call \<Rightarrow> ('sw, 'n, 't, 'r, 'w, 'm, 'h, 'r api_answer option) library_prog" where
  "run_api le wait (Initialize pub priv esr_address url) =
     sbind (initialize_contract le pub priv esr_address url) (\<lambda>b. ret (Some (A_bool b)))"
| "run_api le wait (Initialize_local pub priv endpoint node sid) =
     sbind (initialize_local le pub priv endpoint node sid) (\<lambda>b. ret (Some (A_bool b)))"
| "run_api le wait (Set_timeout seconds) = sbind (at_globals (set_timeout seconds)) (\<lambda>_. ret (Some Nothing))"
| "run_api le wait Terminate = sbind terminate (\<lambda>_. ret (Some Nothing))"
| "run_api le wait (Has_db u) = sbind (has_db le wait u) (\<lambda>b. ret (map_option A_bool b))"
| "run_api le wait (Create_db u max_size random_evict) =
     sbind (create_db le wait u max_size random_evict) (\<lambda>db. ret (map_option A_database db))"
| "run_api le wait (Open_db u) = sbind (open_db le wait u) (\<lambda>db. ret (map_option A_database db))"
| "run_api le wait (Async_has_db u) = sbind (async_has_db le u) (\<lambda>r. ret (Some (A_response r)))"
| "run_api le wait (Async_create_db u max_size random_evict) =
     sbind (async_create_db le u max_size random_evict) (\<lambda>r. ret (Some (A_response r)))"
| "run_api le wait (Async_open_db u) = sbind (async_open_db le u) (\<lambda>r. ret (Some (A_response r)))"
| "run_api le wait Get_error = sbind (at_globals library_error) (\<lambda>e. ret (Some (A_int e)))"
| "run_api le wait Get_error_str = sbind (at_globals library_error_str) (\<lambda>t. ret (Some (A_text t)))"

section \<open>Exceptions stay inside\<close>

definition exception_free :: "('s, 'a) prog \<Rightarrow> bool" where
  "exception_free m \<longleftrightarrow> (\<forall>s e s'. m s \<noteq> (Inl (Throws e), s'))"

lemma exception_free_basic:
  "exception_free (ret a)" "exception_free (gets g)" "exception_free (modify h)"
  by (simp_all add: exception_free_def)

lemma exception_free_sbind:
  "exception_free m \<Longrightarrow> (\<And>a. exception_free (k a)) \<Longrightarrow> exception_free (sbind m k)"
  unfolding exception_free_def by (auto simp: sbind_apply split: prod.splits sum.splits)

lemma exception_free_if:
  "exception_free m \<Longrightarrow> exception_free k \<Longrightarrow> exception_free (if b then m else k)"
  by simp

lemma exception_free_globals: "exception_free m \<Longrightarrow> exception_free (at_globals m)"
  by (auto simp: exception_free_def at_globals_def on_snd_def split: prod.splits)

lemma exception_free_catch: "exception_free h \<Longrightarrow> exception_free (catch_all m h)"
  by (auto simp: exception_free_def catch_all_def split: prod.splits sum.splits cxx_fault.splits)

lemmas exception_free_intros = exception_free_basic exception_free_sbind exception_free_if exception_free_globals
  exception_free_catch

lemma initialize_local_throws_nothing:
  "initialize_local le pub priv endpoint node sid (d, (n, (f, g))) \<noteq> (Inl (Throws e), S')"
proof (cases "\<not> lg_initialized g \<and> lg_io_thread g \<noteq> Io_running")
  case True
  then have runs: "\<not> lg_initialized g" "lg_io_thread g \<noteq> Io_running" by simp_all
  note init = common_init_run [OF runs(2), of le pub priv d n f]
  show ?thesis
  proof (cases "\<exists>host port. endpoint_of (le_port le) endpoint host port")
    case True
    then obtain host port where "endpoint_of (le_port le) endpoint host port" by blast
    from parse_endpoint_accepts [OF this] runs(1) init show ?thesis
      by (auto simp: initialize_local_def catch_all_def andthen_apply sbind_apply initialize_nodes_def stop_io_def
          split: sum.splits cxx_fault.splits)
  next
    case False
    from parse_endpoint_rejects [OF False] runs(1) init show ?thesis
      by (auto simp: initialize_local_def catch_all_def andthen_apply sbind_apply stop_io_def
          split: sum.splits cxx_fault.splits)
  qed
qed (auto simp: initialize_local_def catch_all_def sbind_apply andthen_apply common_init_aborts)

lemma exception_free_initialize_local: "exception_free (initialize_local le pub priv endpoint node sid)"
  unfolding exception_free_def using initialize_local_throws_nothing by (metis prod.collapse)

lemma exception_free_response: "exception_free (library_response le body)"
  unfolding library_response_def by (intro exception_free_intros)

lemma exception_free_sync: "exception_free (sync_call le wait start finish failed)"
  unfolding sync_call_def by (intro exception_free_intros)

text \<open>
  C31. No function of \<open>include/bzapi.hpp\<close> lets an exception out, from any state and whatever the
  network, the JSON library, OpenSSL and the contract do; it returns, does not return, or ends
  the process.
\<close>

theorem api_lets_no_exception_out: "fst (run_api le wait c S) \<noteq> Inl (Throws e)"
proof -
  have "exception_free (run_api le wait c)"
    unfolding initialize_contract_def terminate_def
    by (cases c; simp only: run_api.simps async_has_db_def async_create_db_def async_open_db_def has_db_def create_db_def
        open_db_def initialize_contract_def terminate_def set_timeout_def library_error_def library_error_str_def)
      (intro exception_free_intros exception_free_initialize_local exception_free_response exception_free_sync)+
  then show ?thesis by (metis exception_free_def prod.collapse)
qed

section \<open>The documented form of answers\<close>

text \<open>
  The comments of \<open>include/database.hpp\<close>: the answer of every method is a JSON structure with a member
  \<open>error\<close>, or with the members listed there.
\<close>

definition text_member :: "json \<Rightarrow> string \<Rightarrow> bool" where
  "text_member j k \<longleftrightarrow> (\<exists>t. jfield k j = Some (JString t))"

definition number_member :: "json \<Rightarrow> string \<Rightarrow> bool" where
  "number_member j k \<longleftrightarrow> (\<exists>n. jfield k j = Some (JUInt n))"

definition texts_member :: "json \<Rightarrow> string \<Rightarrow> bool" where
  "texts_member j k \<longleftrightarrow> (\<exists>ts. jfield k j = Some (JArray (map JString ts)))"

fun documented_members :: "db_call \<Rightarrow> json \<Rightarrow> bool" where
  "documented_members (Call_read key) j \<longleftrightarrow>
     jfield ''result'' j = Some (JInt 1) \<and> text_member j ''key'' \<and> text_member j ''value''"
| "documented_members (Call_quick_read key) j \<longleftrightarrow>
     jfield ''result'' j = Some (JInt 1) \<and> text_member j ''key'' \<and> text_member j ''value''"
| "documented_members (Call_has key) j \<longleftrightarrow> jfield ''result'' j \<in> {Some (JInt 1), Some (JInt 0)}"
| "documented_members Call_keys j \<longleftrightarrow> texts_member j ''keys''"
| "documented_members Call_size j \<longleftrightarrow> jfield ''result'' j = Some (JInt 1) \<and> number_member j ''bytes''
     \<and> number_member j ''keys'' \<and> number_member j ''remaining_bytes'' \<and> number_member j ''max_size''"
| "documented_members (Call_ttl key) j \<longleftrightarrow>
     jfield ''result'' j = Some (JInt 1) \<and> text_member j ''key'' \<and> number_member j ''ttl''"
| "documented_members Call_writers j \<longleftrightarrow> texts_member j ''writers''"
| "documented_members c j \<longleftrightarrow> jfield ''result'' j = Some (JInt 1)"

definition documented_answer :: "db_call \<Rightarrow> json \<Rightarrow> bool" where
  "documented_answer c j \<longleftrightarrow> text_member j ''error'' \<or> documented_members c j"

text \<open>The JSON value whose text is the outcome of an answer.\<close>

definition outcome_json :: "(error_code \<Rightarrow> string) \<Rightarrow> reply_kind \<Rightarrow> db_reply \<Rightarrow> error_code \<Rightarrow> json" where
  "outcome_json message k r ec =
     (if is_err ec then error_json (message ec)
      else case reply_error k r of Some m \<Rightarrow> error_json m | None \<Rightarrow> value_json k r)"

lemma outcome_text: "fst (reply_outcome styled message k r ec) = styled (outcome_json message k r ec)"
  by (simp add: reply_outcome_def outcome_json_def split: option.split)

lemma documented_error: "documented_answer c (error_json m)"
  by (simp add: documented_answer_def text_member_def error_json_def)

lemma texts_json:
  "(\<exists>ts. fold jappend (map JString ss) JNull = JArray (map JString ts)) \<longleftrightarrow> ss \<noteq> []"
  by (auto simp: fold_jappend_JNull)

definition departs :: "db_call \<Rightarrow> db_reply \<Rightarrow> bool" where
  "departs c r \<longleftrightarrow> (\<exists>key. c = Call_has key) \<or> (c = Call_keys \<and> get_keys r = [])
     \<or> (c = Call_writers \<and> snd (get_writers r) = [])"

lemma value_without_error: "jfield ''error'' (value_json (call_kind c) r) = None"
  by (cases c; simp add: ok_json_def read_json_def quick_read_json_def has_json_def keys_json_def size_json_def ttl_json_def
      writers_json_def split: prod.split)

lemma documented_value: "documented_answer c (value_json (call_kind c) r) \<longleftrightarrow> \<not> departs c r"
  by (cases c; simp add: documented_answer_def departs_def text_member_def number_member_def texts_member_def texts_json
      ok_json_def read_json_def quick_read_json_def has_json_def keys_json_def size_json_def ttl_json_def writers_json_def
      split: prod.split)

text \<open>
  C17. The text that the closure of an operation puts into its response is that of a JSON value of the
  documented form, but for three kinds of answers without an error: every answer of \<open>has\<close>, whose
  \<open>result\<close> is a Boolean instead of 0 or 1, and the empty lists of \<open>keys\<close> and \<open>writers\<close>, which are null
  instead of arrays.  An error code, and an error in an answer (to anything but a quick read, which has
  an error member of its own), becomes the member \<open>error\<close> and an error value; everything else has the
  error value 0.
\<close>

theorem answers_have_documented_form:
  assumes "pending q resp"
  shows "\<exists>q' j e. run_reply (udp_api styled message sys) (Reply resp (call_kind c)) r ec q = (Inr (), q')
    \<and> outcome q' resp = Some (styled j, e)
    \<and> (is_err ec \<longrightarrow> jfield ''error'' j = Some (JString (message ec)) \<and> e = 2)
    \<and> (\<not> is_err ec \<and> call_kind c \<noteq> Quick_read_reply \<and> has_error (dr_reply r) \<longrightarrow>
         jfield ''error'' j = Some (JString (get_error_message (dr_reply r))) \<and> e = 3)
    \<and> (e = 0 \<longrightarrow> (documented_members c j \<longleftrightarrow> \<not> departs c (dr_reply r)))
    \<and> (e \<noteq> 0 \<longrightarrow> text_member j ''error'' \<and> (is_err ec \<or> reply_error (call_kind c) (dr_reply r) \<noteq> None))"
proof -
  let ?k = "call_kind c" and ?r = "dr_reply r"
  let ?j = "outcome_json message ?k ?r ec" and ?e = "snd (reply_outcome styled message ?k ?r ec)"
  obtain q' where q': "complete udp_ops resp (styled ?j) ?e q = (Inr (), q')" "outcome q' resp = Some (styled ?j, ?e)"
    using udp.complete_run [OF assms, of "styled ?j" ?e] by auto
  have run: "run_reply (udp_api styled message sys) (Reply resp ?k) r ec q = (Inr (), q')"
    using q'(1) by (simp add: run_reply_eq case_prod_beta outcome_text)
  have error: "jfield ''error'' (error_json m) = Some (JString m)" for m by (simp add: error_json_def)
  consider (code) "is_err ec" "?j = error_json (message ec)" "?e = 2"
    | (answer) m where "\<not> is_err ec" "reply_error ?k ?r = Some m" "?j = error_json m" "?e = 3"
    | (fine) "\<not> is_err ec" "reply_error ?k ?r = None" "?j = value_json ?k ?r" "?e = 0"
  proof (cases "is_err ec")
    case True
    then show thesis by (intro code) (simp_all add: reply_outcome_def outcome_json_def)
  next
    case False
    then show thesis
      by (cases "reply_error ?k ?r") (simp_all add: fine answer reply_outcome_def outcome_json_def)
  qed
  then have "(is_err ec \<longrightarrow> jfield ''error'' ?j = Some (JString (message ec)) \<and> ?e = 2)
    \<and> (\<not> is_err ec \<and> ?k \<noteq> Quick_read_reply \<and> has_error ?r \<longrightarrow>
         jfield ''error'' ?j = Some (JString (get_error_message ?r)) \<and> ?e = 3)
    \<and> (?e = 0 \<longrightarrow> (documented_members c ?j \<longleftrightarrow> \<not> departs c ?r))
    \<and> (?e \<noteq> 0 \<longrightarrow> text_member ?j ''error'' \<and> (is_err ec \<or> reply_error ?k ?r \<noteq> None))"
  proof cases
    case code
    then show ?thesis by (simp add: error text_member_def)
  next
    case answer
    moreover have "?k \<noteq> Quick_read_reply \<Longrightarrow> has_error ?r \<Longrightarrow> m = get_error_message ?r"
      using answer(2) by (simp add: reply_error_def)
    ultimately show ?thesis by (simp add: error text_member_def)
  next
    case fine
    have "\<not> text_member (value_json ?k ?r) ''error''" using value_without_error [of c ?r] by (simp add: text_member_def)
    then have "documented_members c (value_json ?k ?r) \<longleftrightarrow> \<not> departs c ?r"
      using documented_value [of c ?r] by (simp add: documented_answer_def)
    moreover have "\<not> (?k \<noteq> Quick_read_reply \<and> has_error ?r)" using fine(2) by (auto simp: reply_error_def)
    ultimately show ?thesis using fine by simp
  qed
  with run q'(2) show ?thesis by blast
qed

text \<open>An answer of \<open>has\<close>, with its Boolean, and an error answer to the same call.\<close>

lemma answers_have_documented_form_witness:
  "\<exists>q' j e. run_reply (udp_api (\<lambda>_. ''json'') (\<lambda>_. []) (3, 0, Some 4000)) (Reply 0 (call_kind (Call_has ''k'')))
      \<lparr>dr_header = empty_header, dr_reply = Rsp_error ''no''\<rparr> No_error sample_responses = (Inr (), q')
    \<and> outcome q' 0 = Some (''json'', e) \<and> jfield ''error'' j = Some (JString ''no'') \<and> e = 3"
  using answers_have_documented_form [OF sample_responses_pending, of "\<lambda>_. ''json''" "\<lambda>_. []" "(3, 0, Some 4000)"
      "Call_has ''k''" "\<lparr>dr_header = empty_header, dr_reply = Rsp_error ''no''\<rparr>" No_error]
  by fastforce

end
