(* ===== verification/Cli_Behaviour.thy ===== *)
theory Cli_Behaviour
  imports Cli Public_Api
begin

text \<open>
  The command line client: which request a command makes and what it returns to the shell, and the
  client over the real library when its initialization fails.
\<close>

section \<open>Commands\<close>

text \<open>The commands on a database: the options they need, and their call.\<close>

definition command_specs :: "(string \<times> string list \<times> (variables_map \<Rightarrow> db_call cxx)) list" where
  "command_specs =
    [(''writers'', [], \<lambda>vm. Inr Call_writers), (''keys'', [], \<lambda>vm. Inr Call_keys), (''size'', [], \<lambda>vm. Inr Call_size),
     (''add_writer'', [ADD_WRITER_PUBLIC_KEY], \<lambda>vm. cbind (as_text vm ADD_WRITER_PUBLIC_KEY) (\<lambda>w. Inr (Call_add_writer w))),
     (''remove_writer'', [REMOVE_WRITER_PUBLIC_KEY],
        \<lambda>vm. cbind (as_text vm REMOVE_WRITER_PUBLIC_KEY) (\<lambda>w. Inr (Call_remove_writer w))),
     (''create'', [CREATE_KEY, CREATE_VALUE], \<lambda>vm. cbind (as_text vm CREATE_KEY) (\<lambda>k.
        cbind (as_text vm CREATE_VALUE) (\<lambda>v. cbind (as_number vm CREATE_EXPIRE) (\<lambda>n. Inr (Call_create k v n))))),
     (''read'', [READ_KEY], \<lambda>vm. cbind (as_text vm READ_KEY) (\<lambda>k. Inr (Call_read k))),
     (''qread'', [QREAD_KEY], \<lambda>vm. cbind (as_text vm QREAD_KEY) (\<lambda>k. Inr (Call_quick_read k))),
     (''update'', [UPDATE_KEY, UPDATE_VALUE], \<lambda>vm. cbind (as_text vm UPDATE_KEY) (\<lambda>k.
        cbind (as_text vm UPDATE_VALUE) (\<lambda>v. Inr (Call_update k v)))),
     (''delete'', [DELETE_KEY], \<lambda>vm. cbind (as_text vm DELETE_KEY) (\<lambda>k. Inr (Call_remove k))),
     (''has'', [HAS_KEY], \<lambda>vm. cbind (as_text vm HAS_KEY) (\<lambda>k. Inr (Call_has k))),
     (''ttl'', [TTL_KEY], \<lambda>vm. cbind (as_text vm TTL_KEY) (\<lambda>k. Inr (Call_ttl k))),
     (''persist'', [PERSIST_KEY], \<lambda>vm. cbind (as_text vm PERSIST_KEY) (\<lambda>k. Inr (Call_persist k))),
     (''expire'', [EXPIRE_KEY, EXPIRE_TTL], \<lambda>vm. cbind (as_text vm EXPIRE_KEY) (\<lambda>k.
        cbind (as_number vm EXPIRE_TTL) (\<lambda>n. Inr (Call_expire k n))))]"

lemmas handler_defs = handle_writer_def handle_keys_def handle_size_def handle_add_writer_def
  handle_remove_writer_def handle_create_def handle_read_def handle_qread_def handle_update_def
  handle_delete_def handle_has_def handle_ttl_def handle_persist_def handle_expire_def

lemma as_textI: "vm opt = Some (Text_value t) \<Longrightarrow> as_text vm opt = Inr t"
  by (simp add: as_text_def)

lemma handler_table [simp]:
  "map_of bzapi_cmd_handlers ''status'' = Some handle_status"
  "map_of bzapi_cmd_handlers ''create_db'' = Some handle_create_db"
  "map_of bzapi_cmd_handlers ''has_db'' = Some handle_has_db"
  "map_of bzapi_cmd_handlers ''writers'' = Some handle_writer"
  "map_of bzapi_cmd_handlers ''add_writer'' = Some handle_add_writer"
  "map_of bzapi_cmd_handlers ''remove_writer'' = Some handle_remove_writer"
  "map_of bzapi_cmd_handlers ''create'' = Some handle_create"
  "map_of bzapi_cmd_handlers ''read'' = Some handle_read"
  "map_of bzapi_cmd_handlers ''qread'' = Some handle_qread"
  "map_of bzapi_cmd_handlers ''update'' = Some handle_update"
  "map_of bzapi_cmd_handlers ''delete'' = Some handle_delete"
  "map_of bzapi_cmd_handlers ''has'' = Some handle_has"
  "map_of bzapi_cmd_handlers ''ttl'' = Some handle_ttl"
  "map_of bzapi_cmd_handlers ''persist'' = Some handle_persist"
  "map_of bzapi_cmd_handlers ''expire'' = Some handle_expire"
  "map_of bzapi_cmd_handlers ''keys'' = Some handle_keys"
  "map_of bzapi_cmd_handlers ''size'' = Some handle_size"
  by (simp_all add: bzapi_cmd_handlers_def command_names)

lemma command_runs_call:
  assumes "(command, required, call) \<in> set command_specs" "vm COMMAND = Some (Text_value command)"
    and "\<forall>opt \<in> set required. given vm opt"
  shows "run_command ba ce vm config = log_call ba ce vm config command (call vm)"
proof -
  have cmd: "run_command ba ce vm config = (case map_of bzapi_cmd_handlers command of
       Some handler \<Rightarrow> handler ba ce vm config | None \<Rightarrow> refuse (''Unknown command: '' @ command))"
    by (simp add: run_command_def as_textI [where vm = vm and opt = COMMAND, OF assms(2)] split: option.split)
  show ?thesis
    using assms(1) unfolding cmd command_specs_def list.set
    by (elim insertE emptyE; use assms(3) in \<open>simp add: handler_defs\<close>)
qed

lemma command_needs_options:
  assumes "(command, required, call) \<in> set command_specs" "vm COMMAND = Some (Text_value command)"
    and "opt \<in> set required" "\<not> given vm opt"
  shows "\<exists>t. run_command ba ce vm config = refuse t"
proof -
  have cmd: "run_command ba ce vm config = (case map_of bzapi_cmd_handlers command of
       Some handler \<Rightarrow> handler ba ce vm config | None \<Rightarrow> refuse (''Unknown command: '' @ command))"
    by (simp add: run_command_def as_textI [where vm = vm and opt = COMMAND, OF assms(2)] split: option.split)
  show ?thesis
    using assms(1) unfolding cmd command_specs_def list.set
    by (elim insertE emptyE; use assms(3,4) in \<open>force simp: handler_defs\<close>)
qed

text \<open>What \<open>main\<close> has at hand once the options and the configuration are read.\<close>

definition main_ready :: "cli_env \<Rightarrow> string list \<Rightarrow> variables_map \<Rightarrow> json \<Rightarrow> bool" where
  "main_ready ce argv vm config \<longleftrightarrow>
     ce_parse ce cli_options argv = Inr vm \<and> \<not> given vm HELP \<and> length argv \<noteq> 1 \<and> given vm UUID
     \<and> (\<exists>filename t. vm CONFIG = Some (Text_value filename) \<and> ce_read_file ce filename = Some t
          \<and> ce_json ce t = Some config)"

lemma main_body_ready:
  assumes "main_ready ce argv vm config" "given vm COMMAND"
  shows "main_body ba ce argv = awaiting (andthen (install_logger ba vm) (run_command ba ce vm config)) (\<lambda>ok.
     if ok then andthen (on_fst (ba_terminate ba)) (ret (Some (Some SUCCESS))) else ret (Some None))"
  using assms by (auto simp: main_ready_def main_body_def load_config_def process_program_options_def as_textI)

lemma log_call_run:
  assumes "cli_open_db ba ce vm config (s, ls) = (Inr (Some (Some db)), (s1, ls1))" "c = Inr call"
    and "ba_call ba db call s1 = (Inr (Some t), s2)"
  shows "log_call ba ce vm config op_name c (s, ls) =
    (Inr (Some True), (s2, ls1 @ [Out t] @ (if given vm TIMING then [Timed op_name] else [])))"
  using assms by (simp add: log_call_def log_result_def awaiting_def sbind_apply andthen_apply timed_def emit_def my_logger_print_def)

text \<open>
  C33. A command on a database with its options given makes the one request of its name with the values
  of its options, prints the answer and returns 0 to the shell, whatever the answer says: a failed
  operation is told apart only by the printed text.
\<close>

theorem command_prints_answer:
  assumes "main_ready ce argv vm config" "vm COMMAND = Some (Text_value command)"
    and "(command, required, call) \<in> set command_specs" "\<forall>opt \<in> set required. given vm opt" "call vm = Inr c"
    and "install_logger ba vm (s, ls) = (Inr (), (s0, ls))"
    and "cli_open_db ba ce vm config (s0, ls) = (Inr (Some (Some db)), (s1, ls1))"
    and "ba_call ba db c s1 = (Inr (Some t), s2)" "ba_terminate ba s2 = (Inr (), s3)"
  shows "cli_main ba ce argv (s, ls) =
    (Inr (Some SUCCESS), (s3, ls1 @ [Out t] @ (if given vm TIMING then [Timed command] else [])))"
proof -
  have "given vm COMMAND" using assms(2) by (simp add: given_def)
  note body = main_body_ready [OF assms(1) this, of ba]
  note run = command_runs_call [OF assms(3,2,4), of ba ce config]
  note call = log_call_run [OF assms(7,5,8), of command]
  show ?thesis
    using assms(6,9) by (simp add: cli_main_def body run awaiting_def sbind_apply andthen_apply call)
qed

text \<open>With \<open>--verbose\<close> every record of the library is printed once per sink.\<close>

lemma verbose_prints_records:
  assumes "feeds_sinks (cli_log_env core)" "lo_logger l = Some CLI_LOGGER" "lo_sinks l \<noteq> []"
  shows "push_record (cli_log_env core) sev msg (l, ls) =
    (Inr (), (l, ls @ replicate (length (lo_sinks l)) (Out (setw 6 (severity_text sev) @ '': '' @ msg))))"
proof -
  have calls: "calls_of (cli_log_env core) CLI_LOGGER sev msg n ls =
    (Inr (), ls @ replicate n (Out (setw 6 (severity_text sev) @ '': '' @ msg)))" for n ls
    by (induction n arbitrary: ls) (simp_all add: calls_of_def cli_log_env_def my_logger_log_def)
  have "\<exists>w'. ve_log (cli_log_env core) CLI_LOGGER (severity_text sev) msg w = (Inr (), w')" for w
    by (simp add: cli_log_env_def my_logger_log_def)
  from push_record_calls [OF assms this] show ?thesis by (simp add: calls)
qed

section \<open>When the library does not initialize\<close>

text \<open>Every handler of a known command initializes the library first.\<close>

lemma initialize_bzapi_fails:
  assumes "initialize_bzapi ba ce vm config (s, ls) = (Inr (Some False), (s1, ls1))"
  shows "cli_open_db ba ce vm config (s, ls) = (Inr (Some None), (s1, ls1))"
    and "log_result ba ce vm config op_name call (s, ls) = (Inr (Some False), (s1, ls1))"
    and "ba_error_str ba s1 = (Inr t, s1) \<Longrightarrow> handle_create_db ba ce vm config (s, ls) = (Inr (Some False), (s1, ls1 @ [Err t]))"
    and "ba_error_str ba s1 = (Inr t, s1) \<Longrightarrow> handle_has_db ba ce vm config (s, ls) = (Inr (Some False), (s1, ls1 @ [Err t]))"
  using assms by (simp_all add: cli_open_db_def log_result_def handle_create_db_def handle_has_db_def awaiting_def
      sbind_apply andthen_apply print_error_def emit_def)

lemma command_fails:
  assumes "initialize_bzapi ba ce vm config (s, ls) = (Inr (Some False), (s1, ls1))" "ba_error_str ba s1 = (Inr t, s1)"
    and "vm COMMAND = Some (Text_value command)"
    and "command \<in> {''status'', ''create_db'', ''has_db''}
      \<or> (\<exists>required call. (command, required, call) \<in> set command_specs \<and> (\<forall>opt \<in> set required. given vm opt))"
  shows "\<exists>ls2. run_command ba ce vm config (s, ls) = (Inr (Some False), (s1, ls2))"
proof -
  note fails = initialize_bzapi_fails [OF assms(1)]
  from assms(4) show ?thesis
  proof
    assume "command \<in> {''status'', ''create_db'', ''has_db''}"
    then show ?thesis
      using assms(3) fails assms(2)
      by (auto simp: run_command_def as_textI [where opt = COMMAND] handle_status_def)
  next
    assume "\<exists>required call. (command, required, call) \<in> set command_specs \<and> (\<forall>opt \<in> set required. given vm opt)"
    then obtain required call where "(command, required, call) \<in> set command_specs"
      "\<forall>opt \<in> set required. given vm opt" by blast
    from command_runs_call [OF this(1) assms(3) this(2), of ba ce config]
    show ?thesis using fails(2) by (simp add: log_call_def)
  qed
qed

text \<open>
  What the client relies on in the library: asking for the error text changes nothing, and
  terminating a library that is not initialized (\<open>up\<close>) does nothing.
\<close>

locale bzapi_contract =
  fixes ba :: "('s, 'db) bzapi" and up :: "'s \<Rightarrow> bool"
  assumes error_str_law: "\<exists>t. ba_error_str ba s = (Inr t, s)"
    and terminate_law: "\<not> up s \<Longrightarrow> ba_terminate ba s = (Inr (), s)"
begin

lemma failed_run:
  assumes "main_ready ce argv vm config" "vm COMMAND = Some (Text_value command)"
    and "command \<in> {''status'', ''create_db'', ''has_db''}
      \<or> (\<exists>required call. (command, required, call) \<in> set command_specs \<and> (\<forall>opt \<in> set required. given vm opt))"
    and "install_logger ba vm (s, ls) = (Inr (), (s0, ls))"
    and "initialize_bzapi ba ce vm config (s0, ls) = (Inr (Some False), (s1, ls1))" "\<not> up s1"
  shows "\<exists>ls2. cli_main ba ce argv (s, ls) = (Inr (Some ERROR_IN_COMMAND_LINE), (s1, ls2))"
proof -
  obtain t where "ba_error_str ba s1 = (Inr t, s1)" using error_str_law by blast
  from command_fails [OF assms(5) this assms(2,3)] obtain ls2 where
    "run_command ba ce vm config (s0, ls) = (Inr (Some False), (s1, ls2))" by blast
  moreover have "given vm COMMAND" using assms(2) by (simp add: given_def)
  ultimately have "cli_main ba ce argv (s, ls) = (Inr (Some ERROR_IN_COMMAND_LINE), (s1, ls2))"
    using terminate_law [OF assms(6)] assms(4)
    by (simp add: cli_main_def main_body_ready [OF assms(1)] awaiting_def sbind_apply andthen_apply)
  then show ?thesis ..
qed

end

section \<open>Over the real library\<close>

definition library_bzapi ::
  "('sw, 'n, 't, 'r, 'w, 'm, 'h) library_env \<Rightarrow> ('r reply_handler \<Rightarrow> 'h)
     \<Rightarrow> ('r \<Rightarrow> ('sw, 'n, 't, 'r, 'w, 'm, 'h, unit) library_prog)
     \<Rightarrow> (('sw, 'h) db_dispatch \<times> (('sw, 'n, 't, 'r, 'w, 'm) network \<times> ('sw swarm_factory \<times> library_globals)),
         nat option) bzapi" where
  "library_bzapi le reply wait = \<lparr>ba_initialize = initialize_contract le,
     ba_set_timeout = (\<lambda>t. at_globals (set_timeout t)),
     ba_set_logger = (\<lambda>l. at_globals (on_log (set_logger l))), ba_terminate = terminate,
     ba_has_db = has_db le wait, ba_create_db = create_db le wait, ba_open_db = open_db le wait,
     ba_error_str = at_globals library_error_str, ba_call = library_call le reply wait,
     ba_swarm_status = library_swarm_status le\<rparr>"

text \<open>
  The end of the process: the static objects are destroyed, among them the io thread; the destructor
  of a joinable thread calls \<open>std::terminate\<close>.
\<close>

definition process_end :: "library_globals \<Rightarrow> nat \<Rightarrow> nat cxx" where
  "process_end g code = (if lg_io_thread g = Io_running then Inl Assert_fails else Inr code)"

lemma timed_result:
  assumes "timed vm op_name m s = (Inr (Some a), (s', ls'))"
  obtains ls1 where "m s = (Inr (Some a), (s', ls1))"
  using assms that by (auto simp: timed_def emit_def andthen_apply split: if_splits prod.splits sum.splits
      option.splits cxx_fault.splits)

lemma library_bzapi_sel [simp]:
  "ba_initialize (library_bzapi le reply wait) = initialize_contract le"
  "ba_set_timeout (library_bzapi le reply wait) t = at_globals (set_timeout t)"
  "ba_terminate (library_bzapi le reply wait) = terminate"
  "ba_set_logger (library_bzapi le reply wait) l = at_globals (on_log (set_logger l))"
  "ba_error_str (library_bzapi le reply wait) = at_globals library_error_str"
  by (simp_all add: library_bzapi_def)

definition library_up ::
  "('sw, 'h) db_dispatch \<times> (('sw, 'n, 't, 'r, 'w, 'm) network \<times> ('sw swarm_factory \<times> library_globals)) \<Rightarrow> bool" where
  "library_up s = lg_initialized (snd (snd (snd s)))"

interpretation client: bzapi_contract "library_bzapi le reply wait" library_up for le reply wait
proof
  fix s :: "('a, 'g) db_dispatch \<times> (('a, 'b, 'c, 'd, 'e, 'f) network \<times> ('a swarm_factory \<times> library_globals))"
  obtain d n f g where s: "s = (d, (n, (f, g)))" by (metis prod.collapse)
  show "\<exists>t. ba_error_str (library_bzapi le reply wait) s = (Inr t, s)"
    by (simp add: s library_error_str_def)
  show "ba_terminate (library_bzapi le reply wait) s = (Inr (), s)" if "\<not> library_up s"
    using that by (simp add: s library_up_def terminate_def catch_all_def sbind_apply)
qed

lemma failed_initialize_bzapi:
  assumes "initialize_bzapi (library_bzapi le reply wait) ce vm config ((d, (n, (f, g))), ls) = (Inr (Some False), (S1, ls1))"
    and "\<not> lg_initialized g"
  obtains d' n' f' g' where "S1 = (d', (n', (f', g')))" "\<not> lg_initialized g'" "lg_io_thread g' = Io_running"
proof -
  let ?ba = "library_bzapi le reply wait"
  let ?init = "sbind (config_text ce config PUBLIC_KEY) (\<lambda>public_key.
        sbind (config_text ce config PRIVATE_KEY) (\<lambda>private_key.
        sbind (config_text ce config ESR_ADDRESS) (\<lambda>esr_address.
        sbind (config_text ce config ETHEREUM_URL) (\<lambda>ethereum_url.
        sbind (on_fst (ba_initialize ?ba public_key private_key esr_address ethereum_url)) (\<lambda>ok.
          if ok then ret (Some True)
          else andthen (print_error ?ba ''initialize failed: '') (ret (Some False)))))))"
  obtain g0 where g0: "timed vm ''initialize'' ?init ((d, (n, (f, g0))), ls) = (Inr (Some False), (S1, ls1))"
    "\<not> lg_initialized g0"
    using assms by (auto simp: initialize_bzapi_def sbind_apply andthen_apply set_timeout_def
        split: sum.splits if_splits)
  obtain ls2 where "?init ((d, (n, (f, g0))), ls) = (Inr (Some False), (S1, ls2))"
    using g0(1) by (rule timed_result)
  then obtain a b c e where "initialize_contract le a b c e (d, (n, (f, g0))) = (Inr False, S1)"
    by (auto simp: config_text_def sbind_apply andthen_apply print_error_def emit_def library_error_str_def
        split: sum.splits if_splits prod.splits)
  moreover obtain d' n' f' g' where S1: "S1 = (d', (n', (f', g')))" by (metis prod.collapse)
  ultimately show thesis using that [OF S1] failed_contract_state [OF g0(2)] by blast
qed

text \<open>
  C39. The client cannot report that the library did not initialize: when the initialization returns
  false, \<open>main\<close> comes to its return of 1, but the library still holds its running io thread, which
  \<open>terminate\<close> does not join because the library is not initialized; the process aborts instead of
  exiting.
\<close>

theorem failed_initialization_aborts_client:
  assumes "main_ready ce argv vm config" "vm COMMAND = Some (Text_value command)"
    and "command \<in> {''status'', ''create_db'', ''has_db''}
      \<or> (\<exists>required call. (command, required, call) \<in> set command_specs \<and> (\<forall>opt \<in> set required. given vm opt))"
    and "install_logger (library_bzapi le reply wait) vm (S, ls) = (Inr (), ((d, (n, (f, g))), ls))"
    and "initialize_bzapi (library_bzapi le reply wait) ce vm config ((d, (n, (f, g))), ls) = (Inr (Some False), (S1, ls1))"
    and "\<not> lg_initialized g"
  shows "\<exists>d' n' f' g' ls'. cli_main (library_bzapi le reply wait) ce argv (S, ls) =
      (Inr (Some ERROR_IN_COMMAND_LINE), ((d', (n', (f', g'))), ls'))
    \<and> process_end g' ERROR_IN_COMMAND_LINE = Inl Assert_fails"
proof -
  obtain d' n' f' g' where S1: "S1 = (d', (n', (f', g')))" "\<not> lg_initialized g'" "lg_io_thread g' = Io_running"
    using failed_initialize_bzapi [OF assms(5,6)] .
  then have "\<not> library_up S1" by (simp add: library_up_def)
  from client.failed_run [OF assms(1-5) this] S1(1) obtain ls2 where
    "cli_main (library_bzapi le reply wait) ce argv (S, ls) =
      (Inr (Some ERROR_IN_COMMAND_LINE), ((d', (n', (f', g'))), ls2))" by blast
  moreover have "process_end g' ERROR_IN_COMMAND_LINE = Inl Assert_fails" using S1(3) by (simp add: process_end_def)
  ultimately show ?thesis by blast
qed

section \<open>Sample runs\<close>

text \<open>A command line that is parsed to the given options, and a configuration of empty texts.\<close>

definition sample_cli :: "variables_map \<Rightarrow> cli_env" where
  "sample_cli vm = \<lparr>ce_parse = (\<lambda>opts argv. Inr vm), ce_read_file = (\<lambda>f. Some ''{}''), ce_json = (\<lambda>t. Some (JObject [])),
     ce_is_member = (\<lambda>j k. Inr False), ce_member = value_member, ce_string = value_string, ce_uint64 = (\<lambda>j. Inr 0)\<rparr>"

definition sample_vm :: variables_map where
  "sample_vm = [CONFIG \<mapsto> Text_value ''c'', UUID \<mapsto> Text_value ''u'', COMMAND \<mapsto> Text_value ''read'',
     READ_KEY \<mapsto> Text_value ''k'', VERBOSE \<mapsto> Given]"

lemma sample_vm_values [simp]:
  "sample_vm CONFIG = Some (Text_value ''c'')" "sample_vm UUID = Some (Text_value ''u'')"
  "sample_vm COMMAND = Some (Text_value ''read'')" "sample_vm READ_KEY = Some (Text_value ''k'')"
  "sample_vm HELP = None" "sample_vm TIMING = None" "sample_vm VERBOSE = Some Given"
  by (simp_all add: sample_vm_def option_names)

lemma sample_main_ready: "main_ready (sample_cli sample_vm) [''bzapi'', ''read''] sample_vm (JObject [])"
  by (simp add: main_ready_def sample_cli_def given_def)

lemma sample_command: "(''read'', [READ_KEY], \<lambda>vm. cbind (as_text vm READ_KEY) (\<lambda>k. Inr (Call_read k))) \<in> set command_specs"
  by (simp add: command_specs_def)

text \<open>A library in which everything succeeds and every call answers with an error text.\<close>

definition answering :: "(unit, unit) bzapi" where
  "answering = \<lparr>ba_initialize = (\<lambda>a b c e. ret True), ba_set_timeout = (\<lambda>t. ret ()), ba_set_logger = (\<lambda>l. ret ()),
     ba_terminate = ret (),
     ba_has_db = (\<lambda>u. ret (Some True)), ba_create_db = (\<lambda>u m e. ret (Some (Some ()))),
     ba_open_db = (\<lambda>u. ret (Some (Some ()))), ba_error_str = ret [], ba_call = (\<lambda>db c. ret (Some ''error'')),
     ba_swarm_status = (\<lambda>db. ret (Some []))\<rparr>"

lemma command_prints_answer_witness:
  "cli_main answering (sample_cli sample_vm) [''bzapi'', ''read''] ((), []) = (Inr (Some 0), ((), [Out ''error'']))"
proof -
  have "cli_open_db answering (sample_cli sample_vm) sample_vm (JObject []) ((), []) = (Inr (Some (Some ())), ((), []))"
    by (simp add: cli_open_db_def initialize_bzapi_def awaiting_def answering_def sample_cli_def timed_def given_def
        config_text_def sbind_apply andthen_apply as_textI)
  moreover have "install_logger answering sample_vm ((), []) = (Inr (), ((), []))"
    by (simp add: install_logger_def answering_def)
  ultimately show ?thesis
    using command_prints_answer [OF sample_main_ready _ sample_command, of "Call_read ''k''" answering "()" "[]" "()" "()"
        "()" "[]" "''error''" "()" "()"]
    by (simp add: given_def as_textI answering_def SUCCESS_def)
qed

definition sample_reply :: "nat reply_handler \<Rightarrow> (nat, nat library_callback) factory_closure uuid_handler" where
  "sample_reply h = Has_uuid_reply [] (Created_in [] [] 0 False 0 (Has_db_done 0 []) 0)"

text \<open>
  A configuration of which every text is ``x'': the key cannot be read, which the library does not notice,
  and the request to the contract fails.
\<close>

definition esr_cli :: "variables_map \<Rightarrow> cli_env" where
  "esr_cli vm = (sample_cli vm)\<lparr>ce_string := (\<lambda>j. Inr ''x'')\<rparr>"

lemma esr_main_ready: "main_ready (esr_cli sample_vm) [''bzapi'', ''read''] sample_vm (JObject [])"
  by (simp add: main_ready_def esr_cli_def sample_cli_def given_def)

lemma contract_unreachable:
  assumes "\<not> lg_initialized g" "lg_io_thread g \<noteq> Io_running"
  shows "\<exists>S1. initialize_contract sample_library ''x'' ''x'' ''x'' ''x''
    (new_dispatch, (sample_network, (new_factory [], g))) = (Inr False, S1)"
  using assms
  by (simp add: initialize_contract_def sbind_apply andthen_apply catch_all_def common_init_run [OF assms(2)]
      with_factory_def initialize_esr_def update_swarm_registry_def library_fe_def get_swarm_ids_def esr_call_def
      sample_network_def new_factory_def, simp add: sample_library_def)

lemma failed_initialization_aborts_client_witness:
  "\<exists>d' n' f' g' ls'. cli_main (library_bzapi sample_library sample_reply (\<lambda>r. ret ())) (esr_cli sample_vm)
        [''bzapi'', ''read''] ((new_dispatch, (sample_network, (new_factory [], initial_globals))), []) =
      (Inr (Some ERROR_IN_COMMAND_LINE), ((d', (n', (f', g'))), ls'))
    \<and> process_end g' ERROR_IN_COMMAND_LINE = Inl Assert_fails"
proof -
  let ?g = "initial_globals\<lparr>lg_log := no_logging\<lparr>lo_logger := Some CLI_LOGGER\<rparr>\<rparr>"
  have g: "\<not> lg_initialized ?g" "lg_io_thread ?g \<noteq> Io_running"
    by (simp_all add: initial_globals_def)
  have "install_logger (library_bzapi sample_library sample_reply (\<lambda>r. ret ())) sample_vm
      ((new_dispatch, (sample_network, (new_factory [], initial_globals))), []) =
      (Inr (), ((new_dispatch, (sample_network, (new_factory [], ?g))), []))"
    by (simp add: install_logger_def given_def on_log_def set_logger_def initial_globals_def)
  note installed = this
  have "\<exists>S1 ls1. initialize_bzapi (library_bzapi sample_library sample_reply (\<lambda>r. ret ())) (esr_cli sample_vm)
      sample_vm (JObject []) ((new_dispatch, (sample_network, (new_factory [], ?g))), []) =
      (Inr (Some False), (S1, ls1))"
  proof -
    obtain S1 where S1: "initialize_contract sample_library ''x'' ''x'' ''x'' ''x''
        (new_dispatch, (sample_network, (new_factory [], ?g))) = (Inr False, S1)"
      using contract_unreachable [OF g] by blast
    obtain d' n' f' g' where "S1 = (d', (n', (f', g')))" by (metis prod.collapse)
    moreover obtain H w dbs q where "n' = (H, (w, (dbs, q)))" by (metis prod.collapse)
    ultimately show ?thesis using S1 g
      by (simp add: initialize_bzapi_def esr_cli_def sample_cli_def timed_def given_def config_text_def sbind_apply
          andthen_apply print_error_def library_error_str_def emit_def)
  qed
  then obtain S1 ls1 where run: "initialize_bzapi (library_bzapi sample_library sample_reply (\<lambda>r. ret ())) (esr_cli sample_vm)
      sample_vm (JObject []) ((new_dispatch, (sample_network, (new_factory [], ?g))), []) =
      (Inr (Some False), (S1, ls1))" by blast
  have "\<forall>opt \<in> set [READ_KEY]. given sample_vm opt" by (simp add: given_def)
  with sample_command have "''read'' \<in> {''status'', ''create_db'', ''has_db''}
      \<or> (\<exists>required call. (''read'', required, call) \<in> set command_specs \<and> (\<forall>opt \<in> set required. given sample_vm opt))"
    by blast
  from failed_initialization_aborts_client [OF esr_main_ready _ this installed run g(1)] show ?thesis by simp
qed

end
