(* ===== verification/Spec2Isabelle.thy ===== *)
theory Spec2Isabelle
  imports Crypto Swarm_Ops Swarm_Faults Dispatch_Faults Node_Faults Node_Streams Http_Req Esr_Abi Create_Attempts Library_Faults Library_Defined Cli_Behaviour
begin

text \<open>
  A model of the Bluzelle C++ client library (namespace \<open>bzapi\<close>), from the connection to a node up
  to the command line client, with the theorems that make it correct.

  \<^bold>\<open>The program.\<close>  A client asks swarms of nodes to store and read key/value data; nodes may lie, so an
  answer counts only when enough of them agree.  A call of \<open>database\<close> waits for the response object
  that the same call of \<open>async_database\<close> returns; that call sends a request through the dispatcher
  (\<open>db_dispatch\<close>), which numbers it, has the swarm sign and send it to one node, collects the answers of
  the nodes, repeats the request as a broadcast when they do not come, and calls the handler of the
  request once, with an accepted answer or a timeout.  A \<open>swarm\<close> chooses the node, signs, screens
  what comes back, and learns its nodes by the status protocol; a \<open>node\<close> keeps one websocket connection
  and its queue of messages.  The \<open>swarm_factory\<close> knows the swarms, from the contract on a block chain
  or from one given endpoint, looks in all of them for a database and creates databases.
  \<open>library.cpp\<close> holds the global objects and the public functions; \<open>bzapi-cli\<close> is a client of it.

  \<^bold>\<open>How C++ is written.\<close>  \<open>Prelude\<close>: strings are lists of characters, integers are words of their
  width, a \<open>std::map\<close> is an association list in key order, an \<open>unordered_map\<close> one without duplicate keys.
  A call ends with a value or a \<open>cxx_fault\<close>: an exception, a failed assertion (or another abort), or
  undefined behaviour - a null or dangling pointer, a reference that is not there.  \<open>Effects\<close>: a
  function with effects is a \<open>prog\<close>, which returns its end together with the state reached, because
  an exception undoes nothing; \<open>keeps\<close> (invariants) and \<open>wp\<close> (weakest preconditions) with their
  rule collections take programs apart.  Objects of one class that others point to live in heaps
  (swarms, responses, databases); lambdas that are stored are values of a datatype with the data they
  capture, run by a function of their own.

  \<^bold>\<open>Theories and sources.\<close>

  \<^item> \<open>Messages\<close>: \<open>proto/*.proto\<close>, the enumerations of \<open>include/bluzelle.hpp\<close>, JSON values.  The
    serialization of protobuf is the parameter \<open>codec\<close>, jsoncpp the parameter \<open>jsoncpp\<close>.
  \<^item> \<open>Crypto\<close>: \<open>crypto/crypto.cpp\<close>.  The locale \<open>envelope_signer\<close> is what the swarm relies on: signing
    touches the signature only.  Serialization for signing is unambiguous, a signed message verifies,
    and a verified one was signed by its sender.  The constructor ignores a key that cannot be read, so
    requests then go out unsigned (\<open>bad_key_signs_nothing\<close> of \<open>Library_Behaviour\<close>).
  \<^item> \<open>Swarm_Base\<close>: the interface \<open>swarm/swarm_base.hpp\<close>, as a record of functions and the locales
    \<open>swarm_contract\<close> and \<open>quorum_contract\<close>.
  \<^item> \<open>Db_Dispatch\<close>: \<open>database/db_dispatch.cpp\<close>, and the acceptance of an answer against its
    specification (enough different senders with an equal answer).  \<open>Dispatch_Runs\<close>: runs of the
    dispatcher over any sequence of sends, answers, errors and timer events; at most one call of each
    handler, the quorum behind each accepted answer (one answer for a quick read), and completion, all
    for handlers that return and swarms whose nodes stay the same.  \<open>Dispatch_Faults\<close>: a handler that
    throws is called again.
  \<^item> \<open>Swarm\<close>: \<open>swarm/swarm.cpp\<close>.  \<open>Swarm_Invariant\<close>, \<open>Swarm_Safety\<close>: its invariant, absence of undefined
    behaviour, the effect of a status response, the screening of messages, the size of the quorum.
    \<open>Swarm_Faults\<close>: what an unsigned status response, an exception and a late send failure do.
    \<open>Samples\<close>: concrete instances of the parameters.  \<open>Swarm_Ops\<close>: swarms in a heap interpret the
    contracts of \<open>Swarm_Base\<close>; the properties of the dispatcher are stated there over real swarms.
    \<open>Swarm_Keeps\<close> (locale \<open>kept_platform\<close>): what every operation of a swarm keeps of its completion handler
    and of the world beside it; \<open>Swarm_Ready\<close>: swarms with their nodes in place stay so.
  \<^item> \<open>Node\<close>: \<open>node/node.cpp\<close> as a machine over the completions of its outstanding operations.
    \<open>Node_Faults\<close>: an exception in the message handler ends the reading from a node.
    \<open>Web_Streams\<close>: the sockets, timers and streams of \<open>include/boost_asio_beast.hpp\<close>, plain and over TLS.
    \<open>Node_Streams\<close>: the node carried out on them (\<open>wire_step\<close>) is simulated by the machine of \<open>Node\<close>,
    step by step and with what each operation carries, and what a failed TLS handshake does.
  \<^item> \<open>Logging\<close>: \<open>library/log.cpp\<close>: sinks, the logger of the client, and the way of a record to it.
  \<^item> \<open>Response\<close>: \<open>library/udp_response.hpp\<close>, the interleaving of the io thread and the client as the
    relation \<open>session_step\<close>, and the locale \<open>response_contract\<close> with its interpretation.
  \<^item> \<open>Handler_Effects\<close>: a run of the dispatcher whose handlers act on a world of their own simulates the
    run that records their calls (locale \<open>handler_effects\<close>).
  \<^item> \<open>Async_Database\<close>, \<open>Client_Calls\<close>, \<open>Database_Calls\<close>: \<open>database/async_database_impl.cpp\<close> and
    \<open>database/database_impl.cpp\<close>: every operation, the closure that completes its response, and the
    refinement: the outcome of every response is the specified outcome (\<open>reply_outcome\<close>) of the answer
    the dispatcher accepted for it.
  \<^item> \<open>Swarm_Factory\<close>, \<open>Factory_Safety\<close>, \<open>Factory_Answers\<close>: \<open>swarm/swarm_factory.cpp\<close>, its invariant, and what
    its callers are told.  \<open>Create_Attempts\<close>: how many requests the creation of a database makes, by a budget
    for every closure that is outstanding at the dispatcher.
  \<^item> \<open>Hex_Text\<close>, \<open>Esr_Peer_Info\<close>, \<open>Esr_Roundtrip\<close>: \<open>utils/esr_peer_info.cpp\<close>: the requests to the
    contract are ABI encodings, the readers invert the encodings of its answers.  \<open>Esr_Abi\<close>: the declarations
    of the contract's functions in that file, and the requests as calls of them.  \<open>Http_Req\<close>:
    \<open>utils/http_req.cpp\<close>, the address as the match of its regular expression, the request, and the order
    of the operations on the network.
  \<^item> \<open>Client_Library\<close>, \<open>Library_Behaviour\<close>: \<open>library/library.cpp\<close> and \<open>async_database_impl::open\<close>, over the
    factory, real swarms, the contract client and UDP responses.  \<open>Public_Api\<close>: the functions of
    \<open>include/bzapi.hpp\<close>, which let no exception out, and the answers that \<open>include/database.hpp\<close> documents.
  \<^item> \<open>Library_Runs\<close>, \<open>Library_Evidence\<close>, \<open>Library_Confirms\<close>: all of this as one machine, whose events are
    the calls of the client, the messages of the nodes and the ends of sends and timers.  Its invariant
    follows what a response says back through callbacks, closures, dispatcher and screening: a database
    that is confirmed was confirmed by a quorum in verified messages, and every outstanding request
    has the handler, closures and callbacks that are for it.  \<open>Library_Faults\<close>: a swarm that stays silent
    after another one has confirmed a database makes the io thread end the process.
  \<^item> \<open>Dispatch_Safety\<close>, \<open>Library_Bounds\<close>, \<open>Library_Safety\<close>, \<open>Library_Defined\<close>: the same machine has no
    undefined behaviour.  Swarms, databases, responses, registry entries and counters only become more
    (\<open>bounds\<close>), the judgement \<open>safe\<close> follows the references through every closure, also past
    exceptions, and \<open>ready_session\<close> are the sessions in which all swarms have their nodes in place.
  \<^item> \<open>Cli\<close>, \<open>Cli_Behaviour\<close>: \<open>bzapi-cli/main.cpp\<close>; what it relies on in the library is the locale
    \<open>bzapi_contract\<close>, interpreted on \<open>Client_Library\<close>.

  \<^bold>\<open>Parameters.\<close>  Code that is not part of the repository is an argument: protobuf, jsoncpp, OpenSSL,
  Boost.Asio and Beast (sockets, timers, the order in which completions arrive), \<open>lexical_cast\<close>,
  \<open>boost::program_options\<close>, the network under the HTTP request, the clocks and random numbers, the file system.  Where a
  property needs something of them it is a hypothesis of that property (a round trip of the codec,
  unforgeable signatures, calls that throw at most), and its witness instantiates them.

  \<^bold>\<open>Bounds.\<close>  No definition uses fuel: loops are structural or have a measure.  Counts that the code
  keeps in 64 bits are assumed to fit where a property depends on it: fewer than \<open>2 ^ 64 - 1\<close> requests
  of one dispatcher, fewer than \<open>2 ^ 64\<close> swarms, texts below the lengths that 32-bit casts keep.

  \<^bold>\<open>Not modelled.\<close>  The single \<open>LOG\<close> statements inside the other components (where a record goes is
  \<open>Logging\<close>); tests and mocks; the message types of the nodes among themselves (\<open>audit.proto\<close>,
  \<open>pbft.proto\<close>); build files.  Threads other than the io thread and one client, and data races within
  one atomic action, are outside the model; so is the moment at which the last reference to an object
  goes away (whether a weak pointer locks is a parameter).
\<close>

end
